(* ===== verification/OTA_Prelude.thy ===== *)
theory OTA_Prelude
  imports Main "HOL-Library.Word" "HOL-Library.Multiset"
begin

text \<open>
  Shared vocabulary of the development.

  Machine integers of the C sources are natural numbers (or integers, for the signed types)
  with the wrap-around of the type written out: \<open>u8\<close>, \<open>u16\<close>, \<open>u32\<close> and \<open>u64\<close> reduce a
  value modulo the width, \<open>u32_add\<close>, \<open>u32_sub\<close> and \<open>u32_mul\<close> are the unsigned operations of the
  target (a 32-bit pi32v2 core, \<open>int\<close>, \<open>long\<close> and pointers of four bytes), \<open>s16\<close> and \<open>s32\<close> are the
  conversions to the signed types.  The collections \<open>u_defs\<close> (unfolding the wrap-around) and
  \<open>bounds\<close> (facts about the range of a value) feed the component proofs.

  The remaining lemmas are facts on sorted lists of memory blocks, positional numerals and list
  updates that more than one component uses.
\<close>

named_theorems u_defs "unfolding rules of the fixed-width operations"
named_theorems bounds "ranges of fixed-width results"

type_synonym byte = nat      \<comment> \<open>an \<open>u8\<close>, below 256\<close>
type_synonym addr = nat      \<comment> \<open>a 32-bit pointer\<close>

section \<open>Fixed-width operations\<close>

definition u8 :: "nat \<Rightarrow> nat" where [u_defs]: "u8 x = x mod 256"
definition u16 :: "nat \<Rightarrow> nat" where [u_defs]: "u16 x = x mod 65536"
definition u32 :: "nat \<Rightarrow> nat" where [u_defs]: "u32 x = x mod 4294967296"
definition u64 :: "nat \<Rightarrow> nat" where [u_defs]: "u64 x = x mod 18446744073709551616"

definition u32_add :: "nat \<Rightarrow> nat \<Rightarrow> nat" where [u_defs]: "u32_add a b = u32 (a + b)"
definition u32_mul :: "nat \<Rightarrow> nat \<Rightarrow> nat" where [u_defs]: "u32_mul a b = u32 (a * b)"
definition u32_sub :: "nat \<Rightarrow> nat \<Rightarrow> nat" where
  [u_defs]: "u32_sub a b = u32 (a + 4294967296 - u32 b)"
definition u64_mul :: "nat \<Rightarrow> nat \<Rightarrow> nat" where [u_defs]: "u64_mul a b = u64 (a * b)"
definition u64_sub :: "nat \<Rightarrow> nat \<Rightarrow> nat" where
  [u_defs]: "u64_sub a b = u64 (a + 18446744073709551616 - u64 b)"

text \<open>Two's complement conversions to \<open>short\<close>, \<open>int\<close> and \<open>long long\<close>.\<close>

definition s16 :: "int \<Rightarrow> int" where [u_defs]: "s16 x = (x + 32768) mod 65536 - 32768"
definition s32 :: "int \<Rightarrow> int" where
  [u_defs]: "s32 x = (x + 2147483648) mod 4294967296 - 2147483648"
definition s64 :: "int \<Rightarrow> int" where
  [u_defs]: "s64 x = (x + 9223372036854775808) mod 18446744073709551616 - 9223372036854775808"

lemma u8_less [bounds, simp]: "u8 x < 256" by (simp add: u8_def)
lemma u16_less [bounds, simp]: "u16 x < 65536" by (simp add: u16_def)
lemma u32_less [bounds, simp]: "u32 x < 4294967296" by (simp add: u32_def)
lemma u64_less [bounds, simp]: "u64 x < 18446744073709551616" by (simp add: u64_def)

lemma u8_id [simp]: "x < 256 \<Longrightarrow> u8 x = x" by (simp add: u8_def)
lemma u16_id [simp]: "x < 65536 \<Longrightarrow> u16 x = x" by (simp add: u16_def)
lemma u32_id [simp]: "x < 4294967296 \<Longrightarrow> u32 x = x" by (simp add: u32_def)
lemma u64_id [simp]: "x < 18446744073709551616 \<Longrightarrow> u64 x = x" by (simp add: u64_def)

lemma u32_add_id [simp]: "a + b < 4294967296 \<Longrightarrow> u32_add a b = a + b"
  by (simp add: u32_add_def)

lemma u32_mul_id [simp]: "a * b < 4294967296 \<Longrightarrow> u32_mul a b = a * b"
  by (simp add: u32_mul_def)

lemma u32_sub_id [simp]: "b \<le> a \<Longrightarrow> a < 4294967296 \<Longrightarrow> u32_sub a b = a - b"
proof -
  assume b: "b \<le> a" and a: "a < 4294967296"
  then have e: "a + 4294967296 - b = (a - b) + 4294967296" by arith
  from a b have "u32 b = b" by simp
  then have "u32_sub a b = ((a - b) + 4294967296) mod 4294967296"
    by (simp only: u32_sub_def u32_def e)
  also have "\<dots> = a - b" using a by simp
  finally show ?thesis .
qed

lemma u32_add_less [bounds, simp]: "u32_add a b < 4294967296" by (simp add: u32_add_def)
lemma u32_sub_less [bounds, simp]: "u32_sub a b < 4294967296" by (simp add: u32_sub_def)
lemma u32_mul_less [bounds, simp]: "u32_mul a b < 4294967296" by (simp add: u32_mul_def)

lemma s16_id [simp]: "-32768 \<le> x \<Longrightarrow> x < 32768 \<Longrightarrow> s16 x = x" by (simp add: s16_def)
lemma s32_id [simp]: "-2147483648 \<le> x \<Longrightarrow> x < 2147483648 \<Longrightarrow> s32 x = x"
  by (simp add: s32_def)
lemma s16_bounds [bounds]: "-32768 \<le> s16 x" "s16 x < 32768" by (simp_all add: s16_def)
lemma s32_bounds [bounds]: "-2147483648 \<le> s32 x" "s32 x < 2147483648"
  by (simp_all add: s32_def)

section \<open>Rounding up to a multiple of four\<close>

text \<open>The sources round a length with \<open>if (len & 3) len += 4 - (len & 3)\<close>.\<close>

definition align4 :: "nat \<Rightarrow> nat" where
  "align4 len = (if len mod 4 \<noteq> 0 then u32_add len (4 - len mod 4) else len)"

lemma align4_mod [simp]: "align4 n mod 4 = 0"
proof (cases "n mod 4 = 0")
  case False
  then have "(n + (4 - n mod 4)) mod 4 = 0" by presburger
  moreover have "(4::nat) dvd 4294967296" by simp
  ultimately have "((n + (4 - n mod 4)) mod 4294967296) mod 4 = 0"
    by (simp only: mod_mod_cancel)
  with False show ?thesis by (simp add: align4_def u32_add_def u32_def)
qed (simp add: align4_def)

lemma align4_ge: "n + 3 < 4294967296 \<Longrightarrow> n \<le> align4 n"
  by (auto simp: align4_def)

lemma align4_le: "n + 3 < 4294967296 \<Longrightarrow> align4 n \<le> n + 3"
proof (cases "n mod 4 = 0")
  case False
  assume n: "n + 3 < 4294967296"
  from False have "1 \<le> n mod 4" by arith
  then have "4 - n mod 4 \<le> 3" by arith
  with n False show ?thesis by (simp add: align4_def)
qed (simp add: align4_def)

lemma align4_fix: "n mod 4 = 0 \<Longrightarrow> align4 n = n"
  by (simp add: align4_def)

section \<open>Memory blocks\<close>

text \<open>A block is an address and a length; two blocks are apart when their byte ranges are.\<close>

type_synonym block = "addr \<times> nat"

definition apart :: "block \<Rightarrow> block \<Rightarrow> bool" where
  "apart b c \<longleftrightarrow> fst b + snd b \<le> fst c \<or> fst c + snd c \<le> fst b"

lemma apart_sym: "apart b c = apart c b"
  by (auto simp: apart_def)

lemma apart_sub:
  "apart (a, l) c \<Longrightarrow> a \<le> a' \<Longrightarrow> a' + l' \<le> a + l \<Longrightarrow> apart (a', l') c"
  by (auto simp: apart_def)

text \<open>
  Two order relations on neighbouring blocks: \<open>before\<close> allows them to touch, \<open>gap\<close> does not.
  Lists of blocks are ordered with \<^const>\<open>sorted_wrt\<close>.
\<close>

definition before :: "block \<Rightarrow> block \<Rightarrow> bool" where
  "before b c \<longleftrightarrow> fst b + snd b \<le> fst c"

definition gap :: "block \<Rightarrow> block \<Rightarrow> bool" where
  "gap b c \<longleftrightarrow> fst b + snd b < fst c"

lemma gap_before: "gap b c \<Longrightarrow> before b c"
  by (simp add: gap_def before_def)

lemma before_apart: "before b c \<Longrightarrow> apart b c"
  by (simp add: before_def apart_def)

lemma sorted_gap_before: "sorted_wrt gap bs \<Longrightarrow> sorted_wrt before bs"
  by (rule sorted_wrt_mono_rel [of _ gap]) (auto intro: gap_before)

lemma sorted_before_apart:
  "sorted_wrt before bs \<Longrightarrow> b \<in> set bs \<Longrightarrow> c \<in> set bs \<Longrightarrow> b \<noteq> c \<Longrightarrow> apart b c"
  by (induction bs) (auto simp: before_def apart_def)

text \<open>The bytes held by a list of blocks.\<close>

definition total :: "block list \<Rightarrow> nat" where
  "total bs = sum_list (map snd bs)"

lemma total_simps [simp]:
  "total [] = 0" "total (b # bs) = snd b + total bs" "total (xs @ ys) = total xs + total ys"
  by (simp_all add: total_def)

section \<open>Positional numerals, least significant digit first\<close>

fun numval :: "nat \<Rightarrow> nat list \<Rightarrow> nat" where
  "numval b [] = 0"
| "numval b (d # ds) = d + b * numval b ds"

fun digits_lsb :: "nat \<Rightarrow> nat \<Rightarrow> nat list" where
  "digits_lsb b n = (if n = 0 \<or> b < 2 then [] else n mod b # digits_lsb b (n div b))"

declare digits_lsb.simps [simp del]

lemma digits_lsb_0 [simp]: "digits_lsb b 0 = []"
  by (subst digits_lsb.simps) simp

lemma digits_lsb_step: "0 < n \<Longrightarrow> 2 \<le> b \<Longrightarrow> digits_lsb b n = n mod b # digits_lsb b (n div b)"
  by (subst digits_lsb.simps) simp

lemma numval_digits_lsb: "2 \<le> b \<Longrightarrow> numval b (digits_lsb b n) = n"
proof (induction b n rule: digits_lsb.induct)
  case (1 b n)
  then show ?case by (cases "n = 0") (auto simp: digits_lsb_step)
qed

lemma digits_lsb_range: "d \<in> set (digits_lsb b n) \<Longrightarrow> d < b"
proof (induction b n rule: digits_lsb.induct)
  case (1 b n)
  then show ?case by (subst (asm) (2) digits_lsb.simps) (auto split: if_splits)
qed

lemma digits_lsb_length: "2 \<le> b \<Longrightarrow> n < b ^ k \<Longrightarrow> length (digits_lsb b n) \<le> k"
proof (induction k arbitrary: n)
  case (Suc k)
  then have "n div b < b ^ k" by (simp add: less_mult_imp_div_less mult.commute)
  with Suc show ?case by (cases "n = 0") (auto simp: digits_lsb_step)
qed simp

lemma numval_append: "numval b (xs @ ys) = numval b xs + b ^ length xs * numval b ys"
  by (induction xs) (auto simp: algebra_simps)

section \<open>List updates\<close>

lemma take_list_update_ge: "n \<le> i \<Longrightarrow> take n (xs[i := x]) = take n xs"
  by (induction xs arbitrary: n i) (auto simp: take_Cons' split: nat.splits)

lemma take_Suc_update: "n < length xs \<Longrightarrow> take (Suc n) (xs[n := x]) = take n xs @ [x]"
  by (simp add: take_Suc_conv_app_nth)

end
