(* ===== verification/ByteMem.thy ===== *)
theory ByteMem
  imports OTA_Prelude
begin

text \<open>
  Byte memory: a total function from addresses (or offsets into a buffer) to bytes, \<open>memcpy\<close> of a
  list of bytes into it and inside it, little-endian fields of two and four bytes, and the search
  for a string.  The update modules keep their packet buffers in it.
\<close>

type_synonym memory = "nat \<Rightarrow> byte"

section \<open>Copying\<close>

definition mcpy_in :: "memory \<Rightarrow> addr \<Rightarrow> byte list \<Rightarrow> memory" where
  "mcpy_in m d bs = (\<lambda>a. if d \<le> a \<and> a < d + length bs then bs ! (a - d) else m a)"

definition mcpy :: "memory \<Rightarrow> addr \<Rightarrow> addr \<Rightarrow> nat \<Rightarrow> memory" where
  "mcpy m d src n = (\<lambda>a. if d \<le> a \<and> a < d + n then m (src + (a - d)) else m a)"

definition bytes :: "memory \<Rightarrow> nat \<Rightarrow> nat \<Rightarrow> byte list" where
  "bytes m a n = map m [a ..< a + n]"

lemma mcpy_in_twice:
  "length bs = length cs \<Longrightarrow> mcpy_in (mcpy_in m a cs) a bs = mcpy_in m a bs"
  by (rule ext) (simp add: mcpy_in_def)

lemma mcpy_in_over_mcpy:
  "n \<le> length bs \<Longrightarrow> mcpy_in (mcpy m a b n) a bs = mcpy_in m a bs"
  by (rule ext) (simp add: mcpy_in_def mcpy_def)

lemma mcpy_in_out: "a < d \<or> d + length bs \<le> a \<Longrightarrow> mcpy_in m d bs a = m a"
  by (auto simp: mcpy_in_def)

lemma mcpy_in_at: "i < length bs \<Longrightarrow> mcpy_in m d bs (d + i) = bs ! i"
  by (simp add: mcpy_in_def)

lemma mcpy_in_append: "mcpy_in (mcpy_in m d xs) (d + length xs) ys = mcpy_in m d (xs @ ys)"
  by (rule ext) (auto simp: mcpy_in_def nth_append)

lemma mcpy_in_Nil [simp]: "mcpy_in m d [] = m"
  by (rule ext) (simp add: mcpy_in_def)

lemma bytes_length [simp]: "length (bytes m a n) = n"
  by (simp add: bytes_def)

lemma bytes_nth [simp]: "i < n \<Longrightarrow> bytes m a n ! i = m (a + i)"
  by (simp add: bytes_def)

lemma bytes_mcpy_in: "bytes (mcpy_in m d bs) d (length bs) = bs"
  by (rule nth_equalityI) (simp_all add: mcpy_in_at)

section \<open>Little-endian fields\<close>

definition get16 :: "memory \<Rightarrow> nat \<Rightarrow> nat" where
  "get16 m a = m a + 256 * m (a + 1)"

definition get32 :: "memory \<Rightarrow> nat \<Rightarrow> nat" where
  "get32 m a = m a + 256 * m (a + 1) + 65536 * m (a + 2) + 16777216 * m (a + 3)"

definition le16 :: "nat \<Rightarrow> byte list" where
  "le16 v = [v mod 256, v div 256 mod 256]"

definition le32 :: "nat \<Rightarrow> byte list" where
  "le32 v = [v mod 256, v div 256 mod 256, v div 65536 mod 256, v div 16777216 mod 256]"

definition put32 :: "memory \<Rightarrow> nat \<Rightarrow> nat \<Rightarrow> memory" where
  "put32 m a v = mcpy_in m a (le32 v)"

lemma le32_length [simp]: "length (le32 v) = 4" "length (le16 v) = 2"
  by (simp_all add: le32_def le16_def)

lemma split32:
  "v < 4294967296 \<Longrightarrow>
    v mod 256 + 256 * (v div 256 mod 256) + 65536 * (v div 65536 mod 256) +
      16777216 * (v div 16777216 mod 256) = (v::nat)"
proof -
  assume v: "v < 4294967296"
  have 1: "v = v mod 256 + 256 * (v div 256)" by simp
  have 2: "v div 256 = v div 256 mod 256 + 256 * (v div 65536)"
    using div_mult2_eq [of v 256 256] by simp
  have 3: "v div 65536 = v div 65536 mod 256 + 256 * (v div 16777216)"
    using div_mult2_eq [of v 65536 256] by simp
  have 4: "v div 16777216 mod 256 = v div 16777216" using v by (simp add: div_less_iff_less_mult)
  show ?thesis using 1 2 3 unfolding 4 by linarith
qed

lemma get32_put32 [simp]: "v < 4294967296 \<Longrightarrow> get32 (put32 m a v) a = v"
  using split32 [of v] by (simp add: get32_def put32_def mcpy_in_def le32_def)

lemma get32_put32_other: "b + 4 \<le> a \<or> a + 4 \<le> b \<Longrightarrow> get32 (put32 m a v) b = get32 m b"
  by (auto simp: get32_def put32_def mcpy_in_def)

lemma put32_other: "b < a \<or> a + 4 \<le> b \<Longrightarrow> put32 m a v b = m b"
  by (auto simp: put32_def mcpy_in_def)

lemma get32_cong: "(\<And>i. i < 4 \<Longrightarrow> m (a + i) = m' (a + i)) \<Longrightarrow> get32 m a = get32 m' a"
proof -
  assume h: "\<And>i. i < 4 \<Longrightarrow> m (a + i) = m' (a + i)"
  show ?thesis using h [of 0] h [of 1] h [of 2] h [of 3] by (simp add: get32_def)
qed

lemma get32_list:
  "get32 (mcpy_in m a (le32 v @ xs)) a = get32 (put32 m a v) a"
  by (rule get32_cong) (simp add: put32_def mcpy_in_def nth_append)

lemma get32_less: "(\<And>i. i < 4 \<Longrightarrow> m (a + i) < 256) \<Longrightarrow> get32 m a < 4294967296"
proof -
  assume h: "\<And>i. i < 4 \<Longrightarrow> m (a + i) < 256"
  show ?thesis using h [of 0] h [of 1] h [of 2] h [of 3] by (simp add: get32_def)
qed

section \<open>Strings in memory\<close>

text \<open>The bytes before the terminator, looked for in at most \<open>n\<close> bytes.\<close>

fun cstring :: "memory \<Rightarrow> nat \<Rightarrow> nat \<Rightarrow> byte list" where
  "cstring m a n = (if n = 0 then [] else if m a = 0 then [] else m a # cstring m (a + 1) (n - 1))"

declare cstring.simps [simp del]

text \<open>\<open>strstr\<close>: the tail of the text at the first occurrence.\<close>

fun strstr :: "byte list \<Rightarrow> byte list \<Rightarrow> byte list option" where
  "strstr s pat = (if take (length pat) s = pat then Some s
     else case s of [] \<Rightarrow> None | _ # s' \<Rightarrow> strstr s' pat)"

declare strstr.simps [simp del]

lemma cstring_text:
  "0 \<notin> set t \<Longrightarrow> length t < n \<Longrightarrow> (\<And>i. i < length t \<Longrightarrow> m (a + i) = t ! i) \<Longrightarrow> m (a + length t) = 0 \<Longrightarrow>
    cstring m a n = t"
proof (induction t arbitrary: a n)
  case Nil
  then show ?case by (subst cstring.simps) simp
next
  case (Cons c t)
  have "m (a + 1 + i) = t ! i" if "i < length t" for i
    using Cons.prems(3) [of "Suc i"] that by simp
  then have "cstring m (a + 1) (n - 1) = t" using Cons.prems by (intro Cons.IH) auto
  moreover have "m a = c" using Cons.prems(3) [of 0] by simp
  ultimately show ?case using Cons.prems by (subst cstring.simps) auto
qed

lemma strstr_here: "take (length pat) s = pat \<Longrightarrow> strstr s pat = Some s"
  by (subst strstr.simps) simp

lemma strstr_skip:
  "take (length pat) (c # s) \<noteq> pat \<Longrightarrow> strstr (c # s) pat = strstr s pat"
  by (subst strstr.simps) simp

end
