(* ===== verification/UpdateMain.thy ===== *)
theory UpdateMain
  imports ByteMem "HOL-Library.Monad_Syntax"
begin

text \<open>
  The update state machine of the USB-HID and Bluetooth builds (\<open>common/update_main.c\<close>): the upgrade
  file stays on the peer, the loader asks for blocks of it and busy-waits for the answer.

  \<open>upd\<close> holds the file's static variables (\<open>ble_control_info\<close>, \<open>update_pre_read\<close>, the status
  variables), the two 2 ms counters of the timer interrupt, the byte memory that the packet handler
  copies into and the list of what was handed to the transport.  What interrupts and callbacks do
  while the code polls is the event list of the waiting loop \<open>ble_updata_handler\<close>: a timer tick, a
  data packet (\<open>dev_read_update_block_handle\<close>), a status request, a reboot query, a change of the
  connection.  A wait with no event left is \<^const>\<open>None\<close>.  Events are applied between two
  iterations of the loop that waits.

  The record \<open>build\<close> has the compile-time switch \<open>UPDATE_PRE_READ_EN\<close> (0 in the USB-HID build, 1
  otherwise), the address of the static buffer and the operation table of the transport; the record
  \<open>lib\<close> has the routines of the prebuilt update library, which are not in the repository.
  \<open>ONE_TIME_RECEIVE_ALL_DATA\<close> and \<open>ALL_FLASH_INCLUDE_UBOOT_UPDATE_EN\<close> are 1, as configured.
\<close>

unbundle bit_operations_syntax

section \<open>Constants\<close>

abbreviation (input) UPDATA_STOP :: nat where "UPDATA_STOP \<equiv> 0"
abbreviation (input) UPDATA_OPEN :: nat where "UPDATA_OPEN \<equiv> 1"
abbreviation (input) UPDATA_SEEK :: nat where "UPDATA_SEEK \<equiv> 2"
abbreviation (input) UPDATA_READ :: nat where "UPDATA_READ \<equiv> 3"
abbreviation (input) UPDATA_READ_OFFSIZE :: nat where "UPDATA_READ_OFFSIZE \<equiv> 4"
abbreviation (input) UPDATA_STOP_KEYERR :: nat where "UPDATA_STOP_KEYERR \<equiv> 5"
abbreviation (input) UPDATA_ACCEPT_OK :: nat where "UPDATA_ACCEPT_OK \<equiv> 6"
abbreviation (input) UPDATA_WAIT_REBOOT :: nat where "UPDATA_WAIT_REBOOT \<equiv> 7"

definition LMP_STA_UPDATA_ACTIVE_SCUSS :: "32 word" where "LMP_STA_UPDATA_ACTIVE_SCUSS = 0x2000"
definition LMP_STA_UPDATA_ACCEPT :: "32 word" where "LMP_STA_UPDATA_ACCEPT = 0x4000"

datatype updata_status = UPDATA_STA_DEV_SLEEP | UPDATA_STA_DEV_DISCONNECTION
  | UPDATA_STA_DISCONNECTION_COMPLETED | UPDATA_STA_DEV_CONNECTION | UPDATA_STA_READY_UPDATE
  | UPDATA_STA_BFU_UPDATE_LOOP | UPDATA_STA_WAIT_FOR_REBOOT

datatype updata_led_status = UPDATA_STA_LED_CLOSE | UPDATA_STA_LED_OPEN | UPDATA_STA_LED_SIGN
  | UPDATA_STA_LED_FILCKER

abbreviation (input) PRE_READ_FLAG_DISABLE :: nat where "PRE_READ_FLAG_DISABLE \<equiv> 0"
abbreviation (input) PRE_READ_FLAG_TOGGLE_TO_DIS :: nat where "PRE_READ_FLAG_TOGGLE_TO_DIS \<equiv> 1"
abbreviation (input) PRE_READ_FLAG_TOGGLE_TO_EN :: nat where "PRE_READ_FLAG_TOGGLE_TO_EN \<equiv> 2"
abbreviation (input) PRE_READ_FLAG_ENABLE :: nat where "PRE_READ_FLAG_ENABLE \<equiv> 3"

abbreviation (input) ONCE_UPDATE_READ_LEN :: nat where "ONCE_UPDATE_READ_LEN \<equiv> 512"
abbreviation (input) CONTINUE_READ_TIMES :: nat where "CONTINUE_READ_TIMES \<equiv> 5"
abbreviation (input) FLASH_WRITE_ONCE_LEN :: nat where "FLASH_WRITE_ONCE_LEN \<equiv> 512"
abbreviation (input) UPDATE_CMD_WAIT_TIMEOUT :: nat where "UPDATE_CMD_WAIT_TIMEOUT \<equiv> 2000"

abbreviation (input) DEV_UPDATA_SUCC :: nat where "DEV_UPDATA_SUCC \<equiv> 1"
abbreviation (input) DEV_UPDATA_FAIL :: nat where "DEV_UPDATA_FAIL \<equiv> 2"
abbreviation (input) DEV_UPDATA_KEY_ERR :: nat where "DEV_UPDATA_KEY_ERR \<equiv> 5"

abbreviation (input) UPDATE_ERR_NONE :: nat where "UPDATE_ERR_NONE \<equiv> 0"
abbreviation (input) UPDATE_ERR_KEY_ERR :: nat where "UPDATE_ERR_KEY_ERR \<equiv> 12"
abbreviation (input) UPDATE_ERR_UBOOT_NOT_MATCH :: nat where "UPDATE_ERR_UBOOT_NOT_MATCH \<equiv> 13"
abbreviation (input) UPDATE_ERR_PRODUCT_ID_NOT_MATCH :: nat where "UPDATE_ERR_PRODUCT_ID_NOT_MATCH \<equiv> 25"
abbreviation (input) UPDATE_ERR_CONN_ERR :: nat where "UPDATE_ERR_CONN_ERR \<equiv> 27"
abbreviation (input) UPDATE_PART_ALL_FLASH :: nat where "UPDATE_PART_ALL_FLASH \<equiv> 4294967295"

abbreviation (input) DEVICE_UPDATE_STA_MAX_ERR :: nat where "DEVICE_UPDATE_STA_MAX_ERR \<equiv> 6"
abbreviation (input) REBOOT_STA_READY :: nat where "REBOOT_STA_READY \<equiv> 0"
abbreviation (input) REBOOT_STA_NOT_ALLOW :: nat where "REBOOT_STA_NOT_ALLOW \<equiv> 1"

section \<open>State\<close>

record pre_read_ctl =
  pre_read_cnt :: nat
  pre_read_flag :: nat
  buf_busy_flag :: "8 word"
  curr_file_offset :: nat
  last_addr :: nat
  buf0 :: addr
  buf0_addr :: nat
  buf1 :: addr
  buf1_addr :: nat

text \<open>What the transport is handed, in order.\<close>

datatype action =
    Data_send nat nat nat nat         \<comment> \<open>command, seek type, offset, length\<close>
  | Notify_size nat
  | Flash_write "nat list" nat nat     \<comment> \<open>the packet, the flash address, the byte count\<close>
  | Status_response nat
  | Dev_disconnect

record upd =
  ble_update_state :: "32 word"
  btupdata_sw :: nat
  date_len :: nat
  need_rx_len :: nat
  flash_write_addr :: nat
  once_write_len :: nat
  once_rx_len :: nat
  read_buf :: addr
  wait_timeout_instant :: nat
  updata_write_flash_flag :: nat
  u_ble_status :: updata_status
  u_led_status :: updata_led_status
  jl_device_update_status :: nat
  reboot_status :: nat
  ble_file_offset :: nat
  g_bfu_burn_start_addr :: nat
  pre_read :: pre_read_ctl
  bt_time_timeout :: nat
  tmr_2ms_cnt :: nat
  mem :: "addr \<Rightarrow> byte"
  sent :: "action list"

text \<open>The operation table of the transport; an absent entry is a null pointer.\<close>

record op_table =
  data_send :: bool
  notify_update_content_size :: "(nat \<Rightarrow> nat) option"
  get_number_of_pkt_sending :: "(upd \<Rightarrow> nat) option"
  task_run :: "(upd \<Rightarrow> upd) option"
  dev_disconnect :: bool

record build =
  UPDATE_PRE_READ_EN :: bool
  update_temp_buf :: addr
  p_update_op :: "op_table option"

section \<open>Acceptance\<close>

definition accept :: "upd \<Rightarrow> upd" where
  "accept s = s\<lparr>btupdata_sw := UPDATA_ACCEPT_OK,
     ble_update_state := ble_update_state s OR LMP_STA_UPDATA_ACCEPT\<rparr>"

definition accepted :: "upd \<Rightarrow> bool" where
  "accepted s \<longleftrightarrow> ble_update_state s AND LMP_STA_UPDATA_ACCEPT \<noteq> 0 \<and>
     btupdata_sw s = UPDATA_ACCEPT_OK"

section \<open>Callbacks\<close>

text \<open>\<open>ONE_TIME_RECEIVE_ALL_DATA\<close>: both branches of the length test copy.\<close>

definition one_time_copy :: "upd \<Rightarrow> byte list \<Rightarrow> upd" where
  "one_time_copy s bs =
    (let s = (if read_buf s \<noteq> 0
              then if once_write_len s \<ge> once_rx_len s + length bs
                then s\<lparr>mem := mcpy_in (mem s) (read_buf s + once_rx_len s) bs\<rparr>
                else s\<lparr>mem := mcpy_in (mem s) (read_buf s + once_rx_len s) bs\<rparr>
              else s)
     in s\<lparr>once_rx_len := u16 (once_rx_len s + length bs)\<rparr>)"

definition one_time_flash :: "upd \<Rightarrow> byte list \<Rightarrow> upd" where
  "one_time_flash s bs =
    (if updata_write_flash_flag s \<noteq> 0 \<and> need_rx_len s = date_len s
     then let
         s = s\<lparr>sent := sent s @ [Flash_write bs (flash_write_addr s) FLASH_WRITE_ONCE_LEN]\<rparr>;
         s = s\<lparr>flash_write_addr := u32_add (flash_write_addr s) FLASH_WRITE_ONCE_LEN\<rparr>;
         s = s\<lparr>once_rx_len := u16 (once_rx_len s + 65536 - once_write_len s)\<rparr>
       in if once_rx_len s \<noteq> 0
          then s\<lparr>mem := mcpy (mem s) (read_buf s) (read_buf s + once_write_len s) (once_rx_len s)\<rparr>
          else s
     else s)"

definition pre_read_store :: "upd \<Rightarrow> byte list \<Rightarrow> upd" where
  "pre_read_store s bs =
    (let p = pre_read s; cur = curr_file_offset p;
         (m, p) =
           (if buf_busy_flag p AND 1 = 0
            then (mcpy_in (mem s) (buf0 p) (take (date_len s) bs),
                  p\<lparr>buf_busy_flag := buf_busy_flag p OR 1, buf0_addr := cur\<rparr>)
            else if buf_busy_flag p AND 2 = 0
            then (mcpy_in (mem s) (buf1 p) (take (date_len s) bs),
                  p\<lparr>buf_busy_flag := buf_busy_flag p OR 2, buf1_addr := cur\<rparr>)
            else (mem s, p))
     in s\<lparr>mem := m, pre_read := p\<lparr>curr_file_offset := u32_sub cur ONCE_UPDATE_READ_LEN\<rparr>\<rparr>)"

definition dev_read_update_block_handle :: "build \<Rightarrow> upd \<Rightarrow> byte list \<Rightarrow> upd" where
  "dev_read_update_block_handle B s bs =
    (if btupdata_sw s = UPDATA_READ
     then if need_rx_len s \<noteq> length bs then s
       else let s = one_time_copy s bs;
                s = s\<lparr>date_len := length bs\<rparr>;
                s = one_time_flash s bs
         in if need_rx_len s = date_len s
            then if UPDATE_PRE_READ_EN B \<and> pre_read_flag (pre_read s) > PRE_READ_FLAG_DISABLE
              then pre_read_store s bs
              else accept (s\<lparr>mem := mcpy_in (mem s) (read_buf s) (take (date_len s) bs)\<rparr>)
            else s
     else s)"

text \<open>The peer asks for the result of the update; the answer is \<open>jl_device_update_status\<close>.\<close>

definition dev_update_status_req_handle :: "upd \<Rightarrow> upd \<times> nat" where
  "dev_update_status_req_handle s =
    (let s = (if btupdata_sw s = UPDATA_STOP then accept s
              else if btupdata_sw s = UPDATA_STOP_KEYERR then accept s else s)
     in (s, jl_device_update_status s))"

definition jl_update_get_reboot_sta :: "upd \<Rightarrow> upd \<times> nat" where
  "jl_update_get_reboot_sta s =
    (let s = (if btupdata_sw s = UPDATA_WAIT_REBOOT then accept s else s)
     in (s, reboot_status s))"

datatype conn_state = DEV_CONN_STATE_DISCONNECTED | DEV_CONN_STATE_CONNECTED
  | DEV_CONN_STATE_READY_UPDATE | DEV_CONN_STATE_START_UPDATE

fun dev_conn_state_change_handle :: "upd \<Rightarrow> conn_state \<Rightarrow> upd" where
  "dev_conn_state_change_handle s DEV_CONN_STATE_READY_UPDATE =
     s\<lparr>u_ble_status := UPDATA_STA_READY_UPDATE\<rparr>"
| "dev_conn_state_change_handle s DEV_CONN_STATE_DISCONNECTED =
     s\<lparr>u_ble_status := UPDATA_STA_DISCONNECTION_COMPLETED, u_led_status := UPDATA_STA_LED_FILCKER\<rparr>"
| "dev_conn_state_change_handle s DEV_CONN_STATE_CONNECTED =
     s\<lparr>u_ble_status := UPDATA_STA_DEV_CONNECTION\<rparr>"
| "dev_conn_state_change_handle s DEV_CONN_STATE_START_UPDATE =
     s\<lparr>u_ble_status := UPDATA_STA_BFU_UPDATE_LOOP\<rparr>"

datatype ev = Tick | Packet "byte list" | Status_request | Reboot_query | Conn conn_state

fun event :: "build \<Rightarrow> ev \<Rightarrow> upd \<Rightarrow> upd" where
  "event B Tick s = s\<lparr>bt_time_timeout := u32_add (bt_time_timeout s) 1,
                      tmr_2ms_cnt := u32_add (tmr_2ms_cnt s) 1\<rparr>"
| "event B (Packet bs) s = dev_read_update_block_handle B s bs"
| "event B Status_request s = fst (dev_update_status_req_handle s)"
| "event B Reboot_query s = fst (jl_update_get_reboot_sta s)"
| "event B (Conn c) s = dev_conn_state_change_handle s c"

section \<open>Waiting\<close>

definition update_pre_read_ctl_init :: "build \<Rightarrow> upd \<Rightarrow> upd" where
  "update_pre_read_ctl_init B s = s\<lparr>pre_read := (pre_read s)\<lparr>
     pre_read_cnt := 0, pre_read_flag := PRE_READ_FLAG_DISABLE, last_addr := 0, buf_busy_flag := 0,
     buf0 := update_temp_buf B, buf1 := update_temp_buf B + ONCE_UPDATE_READ_LEN\<rparr>\<rparr>"

text \<open>A null result is 0; the length parameter is a \<open>u16\<close>.\<close>

definition get_update_pre_read_buf :: "upd \<Rightarrow> nat \<Rightarrow> addr \<Rightarrow> nat \<Rightarrow> upd \<times> addr" where
  "get_update_pre_read_buf s a buf len =
    (let p = pre_read s in
     if buf_busy_flag p \<noteq> 0
     then if buf0_addr p = a \<and> buf_busy_flag p AND 1 \<noteq> 0
       then (s\<lparr>mem := mcpy (mem s) buf (buf0 p) (u16 len),
               pre_read := p\<lparr>buf_busy_flag := buf_busy_flag p AND NOT 1\<rparr>\<rparr>, buf0 p)
       else if buf1_addr p = a \<and> buf_busy_flag p AND 2 \<noteq> 0
       then (s\<lparr>mem := mcpy (mem s) buf (buf1 p) (u16 len),
               pre_read := p\<lparr>buf_busy_flag := buf_busy_flag p AND NOT 2\<rparr>\<rparr>, buf1 p)
       else (s, 0)
     else (s, 0))"

definition poll_reply :: "upd \<Rightarrow> upd \<times> nat option" where
  "poll_reply s = (if accepted s then (s, Some 1) else (s, None))"

definition poll_read :: "build \<Rightarrow> nat \<Rightarrow> nat \<Rightarrow> upd \<Rightarrow> upd \<times> nat option" where
  "poll_read B rec len s =
    (let (s, p) = (if UPDATE_PRE_READ_EN B then get_update_pre_read_buf s rec (read_buf s) len
                   else (s, 0))
     in if p \<noteq> 0 then (s, Some len)
        else if accepted s then (s\<lparr>read_buf := 0\<rparr>, Some (date_len s))
        else (s, None))"

definition poll_switch :: "build \<Rightarrow> nat \<Rightarrow> nat \<Rightarrow> nat \<Rightarrow> upd \<Rightarrow> upd \<times> nat option" where
  "poll_switch B cmd rec len s =
    (if cmd = UPDATA_WAIT_REBOOT
     then if tmr_2ms_cnt s \<ge> wait_timeout_instant s then (s, Some 1) else poll_reply s
     else if cmd \<in> {UPDATA_OPEN, UPDATA_SEEK, UPDATA_STOP, UPDATA_STOP_KEYERR} then poll_reply s
     else if cmd = UPDATA_READ then poll_read B rec len s
     else (s, None))"

text \<open>One iteration of the busy loop: \<^const>\<open>Some\<close> is its return value.\<close>

definition poll :: "build \<Rightarrow> nat \<Rightarrow> nat \<Rightarrow> nat \<Rightarrow> upd \<Rightarrow> upd \<times> nat option" where
  "poll B cmd rec len s =
    (if bt_time_timeout s > UPDATE_CMD_WAIT_TIMEOUT then (s, Some 0)
     else case poll_switch B cmd rec len s of
       (s, Some r) \<Rightarrow> (s, Some r)
     | (s, None) \<Rightarrow>
         if u_ble_status s = UPDATA_STA_DISCONNECTION_COMPLETED then (s, Some 0)
         else if u_ble_status s = UPDATA_STA_READY_UPDATE then (s, Some 0)
         else (s, None))"

type_synonym world = "upd \<times> ev list"

fun wait_loop :: "build \<Rightarrow> nat \<Rightarrow> nat \<Rightarrow> nat \<Rightarrow> upd \<Rightarrow> ev list \<Rightarrow> (nat \<times> world) option" where
  "wait_loop B cmd rec len s es =
    (case poll B cmd rec len s of
       (s, Some r) \<Rightarrow> Some (r, s, es)
     | (s, None) \<Rightarrow> (case es of [] \<Rightarrow> None | e # es' \<Rightarrow> wait_loop B cmd rec len (event B e s) es'))"

declare wait_loop.simps [simp del]

definition ble_updata_handler :: "build \<Rightarrow> nat \<Rightarrow> nat \<Rightarrow> nat \<Rightarrow> world \<Rightarrow> (nat \<times> world) option" where
  "ble_updata_handler B cmd rec len w =
    (case w of (s, es) \<Rightarrow> wait_loop B cmd rec len (s\<lparr>bt_time_timeout := 0\<rparr>) es)"

section \<open>Requests\<close>

definition ble_updata_control :: "build \<Rightarrow> nat \<Rightarrow> nat \<Rightarrow> nat \<Rightarrow> nat \<Rightarrow> upd \<Rightarrow> upd" where
  "ble_updata_control B cmd len ty off s =
    (case p_update_op B of
       Some ops \<Rightarrow> if data_send ops then s\<lparr>sent := sent s @ [Data_send cmd ty off (u16 len)]\<rparr> else s
     | None \<Rightarrow> s)"

definition ble_notify_update_content_size :: "build \<Rightarrow> nat \<Rightarrow> upd \<Rightarrow> upd \<times> nat" where
  "ble_notify_update_content_size B n s =
    (case p_update_op B of
       Some ops \<Rightarrow> (case notify_update_content_size ops of
           Some f \<Rightarrow> (s\<lparr>sent := sent s @ [Notify_size n]\<rparr>, f n)
         | None \<Rightarrow> (s, 0))
     | None \<Rightarrow> (s, 0))"

definition ble_updata_bfu_open :: "build \<Rightarrow> upd \<Rightarrow> upd" where
  "ble_updata_bfu_open B s =
    (let s = s\<lparr>ble_file_offset := 0\<rparr>
     in if UPDATE_PRE_READ_EN B then update_pre_read_ctl_init B s else s)"

definition ble_updata_rsp_complete :: "build \<Rightarrow> upd \<Rightarrow> upd" where
  "ble_updata_rsp_complete B s =
    (if u_ble_status s \<noteq> UPDATA_STA_BFU_UPDATE_LOOP then s
     else ble_updata_control B UPDATA_STOP 0 0 0
       (s\<lparr>btupdata_sw := UPDATA_STOP,
          ble_update_state := ble_update_state s AND NOT LMP_STA_UPDATA_ACCEPT,
          date_len := 0, need_rx_len := 0\<rparr>))"

definition ble_updata_stop :: "build \<Rightarrow> nat \<Rightarrow> world \<Rightarrow> (nat \<times> world) option" where
  "ble_updata_stop B err w =
    (if u_ble_status (fst w) \<noteq> UPDATA_STA_BFU_UPDATE_LOOP then Some (0, w)
     else if err < DEVICE_UPDATE_STA_MAX_ERR
     then do { (st, s, es) \<leftarrow> ble_updata_handler B UPDATA_STOP 0 0 w;
               Some (u16 st, s\<lparr>sent := sent s @ [Status_response err]\<rparr>, es) }
     else Some (0, w))"

definition get_update_pre_read_flag :: "pre_read_ctl \<Rightarrow> nat \<Rightarrow> nat \<Rightarrow> pre_read_ctl" where
  "get_update_pre_read_flag p a len =
    (let p = (if a = u32_sub (last_addr p) ONCE_UPDATE_READ_LEN \<and> len = ONCE_UPDATE_READ_LEN
              then if pre_read_flag p = PRE_READ_FLAG_DISABLE
                then let p = p\<lparr>pre_read_cnt := u8 (pre_read_cnt p + 1)\<rparr>
                  in if pre_read_cnt p \<ge> CONTINUE_READ_TIMES
                     then p\<lparr>pre_read_flag := PRE_READ_FLAG_TOGGLE_TO_EN\<rparr> else p
                else if pre_read_flag p = PRE_READ_FLAG_TOGGLE_TO_EN
                then p\<lparr>pre_read_flag := PRE_READ_FLAG_ENABLE\<rparr>
                else p
              else let p = (if pre_read_flag p = PRE_READ_FLAG_ENABLE
                            then p\<lparr>pre_read_flag := PRE_READ_FLAG_TOGGLE_TO_DIS\<rparr>
                            else if pre_read_flag p = PRE_READ_FLAG_TOGGLE_TO_DIS
                              \<or> pre_read_flag p = PRE_READ_FLAG_TOGGLE_TO_EN
                            then p\<lparr>pre_read_flag := PRE_READ_FLAG_DISABLE\<rparr> else p)
                in p\<lparr>pre_read_cnt := 0\<rparr>)
     in p\<lparr>last_addr := a\<rparr>)"

text \<open>The state in which a request for \<open>btr\<close> bytes into \<open>buf\<close> is answered.\<close>

definition arm_read :: "upd \<Rightarrow> addr \<Rightarrow> nat \<Rightarrow> upd" where
  "arm_read s buf btr = s\<lparr>read_buf := buf, btupdata_sw := UPDATA_READ,
     ble_update_state := ble_update_state s AND NOT LMP_STA_UPDATA_ACCEPT,
     date_len := 0, need_rx_len := btr\<rparr>"

text \<open>The end of a prefetch run: the answer that is still under way is awaited first.\<close>

definition drain_pre_read :: "build \<Rightarrow> nat \<Rightarrow> nat \<Rightarrow> nat \<Rightarrow> world \<Rightarrow> world option" where
  "drain_pre_read B flag prev btr w =
    (if flag = PRE_READ_FLAG_TOGGLE_TO_DIS
     then do { (_, s, es) \<leftarrow> ble_updata_handler B UPDATA_READ (u32_sub prev ONCE_UPDATE_READ_LEN) btr w;
               Some (s\<lparr>pre_read := (pre_read s)\<lparr>pre_read_flag := PRE_READ_FLAG_DISABLE\<rparr>\<rparr>, es) }
     else Some w)"

definition read_request :: "build \<Rightarrow> nat \<Rightarrow> addr \<Rightarrow> nat \<Rightarrow> nat \<Rightarrow> nat \<Rightarrow> upd \<Rightarrow> upd" where
  "read_request B flag buf btr ty off s =
    (if UPDATE_PRE_READ_EN B
     then let fo = (if flag = PRE_READ_FLAG_ENABLE then u32_sub off ONCE_UPDATE_READ_LEN else off);
              s = ble_updata_control B UPDATA_READ_OFFSIZE btr ty fo (arm_read s buf btr)
       in if flag = PRE_READ_FLAG_TOGGLE_TO_EN
          then ble_updata_control B UPDATA_READ_OFFSIZE btr ty (u32_sub off ONCE_UPDATE_READ_LEN)
            (s\<lparr>pre_read := (pre_read s)\<lparr>curr_file_offset := off\<rparr>\<rparr>)
          else s
     else ble_updata_control B UPDATA_READ_OFFSIZE btr ty off (arm_read s buf btr))"

definition read_setup :: "upd \<Rightarrow> nat \<Rightarrow> upd" where
  "read_setup s off = s\<lparr>flash_write_addr := u32_sub off (g_bfu_burn_start_addr s),
     once_write_len := FLASH_WRITE_ONCE_LEN, once_rx_len := 0\<rparr>"

definition ble_updata_read :: "build \<Rightarrow> addr \<Rightarrow> nat \<Rightarrow> nat \<Rightarrow> nat \<Rightarrow> world \<Rightarrow> (nat \<times> world) option" where
  "ble_updata_read B buf btr ty off w =
    (if u_ble_status (fst w) \<noteq> UPDATA_STA_BFU_UPDATE_LOOP then Some (0, w)
     else let s = read_setup (fst w) off;
              prev = last_addr (pre_read s);
              s = (if UPDATE_PRE_READ_EN B
                   then s\<lparr>pre_read := get_update_pre_read_flag (pre_read s) off (u16 btr)\<rparr> else s);
              flag = pre_read_flag (pre_read s)
       in do {
         (s, es) \<leftarrow> (if UPDATE_PRE_READ_EN B then drain_pre_read B flag prev btr (s, snd w)
                     else Some (s, snd w));
         ble_updata_handler B UPDATA_READ off btr (read_request B flag buf btr ty off s, es) })"

definition ble_read_bt_updata :: "build \<Rightarrow> addr \<Rightarrow> nat \<Rightarrow> nat \<Rightarrow> nat \<Rightarrow> world \<Rightarrow> (nat \<times> world) option" where
  "ble_read_bt_updata B buf btr ty off w =
    ble_updata_read B buf btr ty off ((fst w)\<lparr>updata_write_flash_flag := 1\<rparr>, snd w)"

definition ble_only_read_bt_updata ::
  "build \<Rightarrow> addr \<Rightarrow> nat \<Rightarrow> nat \<Rightarrow> nat \<Rightarrow> world \<Rightarrow> (nat \<times> world) option" where
  "ble_only_read_bt_updata B buf btr ty off w =
    ble_updata_read B buf btr ty off ((fst w)\<lparr>updata_write_flash_flag := 0\<rparr>, snd w)"

definition ble_gatt_f_seek :: "upd \<Rightarrow> nat \<Rightarrow> nat \<Rightarrow> upd" where
  "ble_gatt_f_seek s ty off =
    (if ty = 1 then s\<lparr>ble_file_offset := off\<rparr>
     else if ty = 2 then s\<lparr>ble_file_offset := u32_add (ble_file_offset s) off\<rparr> else s)"

definition ble_gatt_f_read :: "build \<Rightarrow> addr \<Rightarrow> nat \<Rightarrow> world \<Rightarrow> (nat \<times> world) option" where
  "ble_gatt_f_read B buf len w =
    do { (n, w) \<leftarrow> ble_updata_read B buf (u16 len) 0 (ble_file_offset (fst w)) w; Some (u16 n, w) }"

section \<open>The update\<close>

text \<open>
  The status reported to the peer: 0 success, 1 verification failed, 2 failed, 3 key error, 4 file
  error, 5 wrong type.  The case labels are the numbers of the library's error enumeration.
\<close>

definition result_code :: "nat \<Rightarrow> nat" where
  "result_code err =
    (if err = UPDATE_ERR_NONE then 0
     else if err = UPDATE_ERR_KEY_ERR then 3
     else if err \<in> {1, 4, 10, 15} then 4
     else if err = 19 then 4
     else if err \<in> {2, 3, 9, 18, 11} then 4
     else if err \<in> {5, 6, 7, 14} then 4
     else if err = 8 then 1
     else if err \<in> {20, 39} then 4
     else if err = UPDATE_ERR_UBOOT_NOT_MATCH then 5
     else if err = UPDATE_ERR_PRODUCT_ID_NOT_MATCH then 4
     else 2)"

definition update_result_handle :: "build \<Rightarrow> nat \<Rightarrow> world \<Rightarrow> world option" where
  "update_result_handle B err w = do { (_, w) \<leftarrow> ble_updata_stop B (result_code err) w; Some w }"

text \<open>The prebuilt library; its routines may read through the functions above, so they act on the
  whole world.\<close>

record lib =
  ufw_head_check :: "world \<Rightarrow> (nat \<times> nat \<times> world) option"          \<comment> \<open>result, part flag\<close>
  flash_bin_head_check :: "world \<Rightarrow> (nat \<times> world) option"
  flash_parts_update_check :: "nat \<Rightarrow> world \<Rightarrow> (nat \<times> world) option"
  update_type_check :: "world \<Rightarrow> (nat \<times> nat \<times> world) option"        \<comment> \<open>result, update length\<close>
  check_flash_is_ze :: "world \<Rightarrow> bool"
  flash_update_process :: "world \<Rightarrow> (nat \<times> world) option"
  flash_all_data_verify :: "world \<Rightarrow> (nat \<times> world) option"
  flash_update_reserve_area :: "world \<Rightarrow> (nat \<times> world) option"
  clr_update_loader_record :: "world \<Rightarrow> world"
  updata_status_to_user :: "nat \<Rightarrow> nat \<Rightarrow> world \<Rightarrow> world"

text \<open>The library calls of one update with their results, in order.\<close>

datatype call = Ufw_head | Bin_head | Parts nat | Type_check | Notify nat | Update_process
  | Verify | Clear_record | Reserve_area | To_user nat

type_synonym trace = "(call \<times> nat) list"

definition commit_update :: "lib \<Rightarrow> world \<Rightarrow> trace \<Rightarrow> (nat \<times> world \<times> trace) option" where
  "commit_update L w t =
    do { let w = clr_update_loader_record L w;
         (r, w) \<leftarrow> flash_update_reserve_area L w;
         Some (u8 r, w, t @ [(Clear_record, 0), (Reserve_area, u8 r)]) }"

definition verify_update :: "lib \<Rightarrow> nat \<Rightarrow> world \<Rightarrow> trace \<Rightarrow> (nat \<times> world \<times> trace) option" where
  "verify_update L all_flash w t =
    (if all_flash \<noteq> 0
     then do { (r, w) \<leftarrow> flash_all_data_verify L w;
               if u8 r = UPDATE_ERR_NONE then commit_update L w (t @ [(Verify, u8 r)])
               else Some (u8 r, w, t @ [(Verify, u8 r)]) }
     else do { (r, w) \<leftarrow> flash_all_data_verify L w;
               if u8 r = UPDATE_ERR_NONE then commit_update L w (t @ [(Verify, u8 r)])
               else Some (u8 r, w, t @ [(Verify, u8 r)]) })"

definition all_flash_update_flag :: "lib \<Rightarrow> world \<Rightarrow> nat \<Rightarrow> nat" where
  "all_flash_update_flag L w update_len =
    (let f = (if update_len \<noteq> 0 then 1 else 0) in if check_flash_is_ze L w then 1 else f)"

definition write_update :: "build \<Rightarrow> lib \<Rightarrow> world \<Rightarrow> trace \<Rightarrow> (nat \<times> world \<times> trace) option" where
  "write_update B L w t =
    do { (r, n, w) \<leftarrow> update_type_check L w;
         let t = t @ [(Type_check, u8 r)];
         if u8 r \<noteq> UPDATE_ERR_NONE \<and> u8 r \<noteq> UPDATE_ERR_UBOOT_NOT_MATCH then Some (u8 r, w, t)
         else do {
           let all_flash = all_flash_update_flag L w n;
           let (s, q) = ble_notify_update_content_size B n (fst w);
           let w = (s, snd w);
           let t = t @ [(Notify n, q)];
           if q \<noteq> 0 then Some (UPDATE_ERR_CONN_ERR, w, t)
           else do {
             (r, w) \<leftarrow> flash_update_process L w;
             let t = t @ [(Update_process, u8 r)];
             if u8 r = UPDATE_ERR_NONE then verify_update L all_flash w t
             else Some (u8 r, w, t) } } }"

definition update_stages :: "build \<Rightarrow> lib \<Rightarrow> world \<Rightarrow> (nat \<times> world \<times> trace) option" where
  "update_stages B L w =
    do { (r, flag, w) \<leftarrow> ufw_head_check L w;
         let t = [(Ufw_head, u8 r)];
         if u8 r \<noteq> UPDATE_ERR_NONE then Some (u8 r, w, t)
         else if flag = UPDATE_PART_ALL_FLASH
         then do { (r, w) \<leftarrow> flash_bin_head_check L w;
                   let t = t @ [(Bin_head, u8 r)];
                   if u8 r \<noteq> UPDATE_ERR_NONE then Some (u8 r, w, t) else write_update B L w t }
         else do { (r, w) \<leftarrow> flash_parts_update_check L flag w;
                   Some (u8 r, w, t @ [(Parts flag, u8 r)]) } }"

definition ble_updata_loop :: "build \<Rightarrow> lib \<Rightarrow> world \<Rightarrow> (nat \<times> world \<times> trace) option" where
  "ble_updata_loop B L w =
    do { let s = ble_updata_bfu_open B (fst w);
         let s = s\<lparr>ble_update_state := ble_update_state s OR LMP_STA_UPDATA_ACTIVE_SCUSS\<rparr>;
         (res, w, t) \<leftarrow> update_stages B L (s, snd w);
         let (ret, w, t) =
           (if res = UPDATE_ERR_NONE then (DEV_UPDATA_SUCC, w, t)
            else if res = UPDATE_ERR_KEY_ERR \<or> res = UPDATE_ERR_UBOOT_NOT_MATCH
              \<or> res = UPDATE_ERR_PRODUCT_ID_NOT_MATCH
            then (DEV_UPDATA_KEY_ERR, clr_update_loader_record L w, t @ [(Clear_record, 0)])
            else (DEV_UPDATA_FAIL, w, t));
         let w = updata_status_to_user L 1 res w;
         let w = (ble_updata_rsp_complete B (fst w), snd w);
         w \<leftarrow> update_result_handle B (u8 res) w;
         Some (ret, w, t @ [(To_user res, 0)]) }"

definition jl_update_set_reboot_status :: "nat \<Rightarrow> upd \<Rightarrow> upd" where
  "jl_update_set_reboot_status st s = s\<lparr>reboot_status := st\<rparr>"

definition ble_update_wait_reboot_cmd :: "build \<Rightarrow> world \<Rightarrow> world option" where
  "ble_update_wait_reboot_cmd B w =
    do { let s = (fst w)\<lparr>btupdata_sw := UPDATA_WAIT_REBOOT,
           ble_update_state := ble_update_state (fst w) AND NOT LMP_STA_UPDATA_ACCEPT,
           wait_timeout_instant := u32_add (tmr_2ms_cnt (fst w)) 1000\<rparr>;
         (_, w) \<leftarrow> ble_updata_handler B UPDATA_WAIT_REBOOT 0 0 (s, snd w);
         Some w }"

fun wait_sent :: "build \<Rightarrow> op_table \<Rightarrow> (upd \<Rightarrow> nat) \<Rightarrow> upd \<Rightarrow> ev list \<Rightarrow> world option" where
  "wait_sent B ops f s es =
    (if f s = 0 then Some (s, es)
     else let s = (case task_run ops of Some run \<Rightarrow> run s | None \<Rightarrow> s)
       in case es of [] \<Rightarrow> None | e # es' \<Rightarrow> wait_sent B ops f (event B e s) es')"

declare wait_sent.simps [simp del]

text \<open>Without an operation table, and without a disconnect entry, the code does not go on
  (a null dereference, a failed assertion): \<^const>\<open>None\<close>.\<close>

definition ble_update_wait_disconnect :: "build \<Rightarrow> world \<Rightarrow> world option" where
  "ble_update_wait_disconnect B w =
    (case p_update_op B of None \<Rightarrow> None
     | Some ops \<Rightarrow> do {
         (s, es) \<leftarrow> (case get_number_of_pkt_sending ops of
             Some f \<Rightarrow> wait_sent B ops f (fst w) (snd w) | None \<Rightarrow> Some w);
         if dev_disconnect ops then Some (s\<lparr>sent := sent s @ [Dev_disconnect]\<rparr>, es) else None })"

definition ble_updata_process :: "build \<Rightarrow> lib \<Rightarrow> world \<Rightarrow> (nat \<times> world) option" where
  "ble_updata_process B L w =
    (if u_ble_status (fst w) = UPDATA_STA_BFU_UPDATE_LOOP
     then do {
       let s = jl_update_set_reboot_status REBOOT_STA_NOT_ALLOW
                 ((fst w)\<lparr>u_led_status := UPDATA_STA_LED_SIGN\<rparr>);
       (result, w, _) \<leftarrow> ble_updata_loop B L (s, snd w);
       let s = (if result = DEV_UPDATA_SUCC then jl_update_set_reboot_status REBOOT_STA_READY (fst w)
                else (fst w)\<lparr>u_led_status := UPDATA_STA_LED_FILCKER,
                             u_ble_status := UPDATA_STA_DEV_SLEEP\<rparr>);
       let w = (s, snd w);
       if u_ble_status s = UPDATA_STA_BFU_UPDATE_LOOP \<or>
          u_ble_status s = UPDATA_STA_DISCONNECTION_COMPLETED
       then do {
         w \<leftarrow> (if result = DEV_UPDATA_SUCC
               then ble_update_wait_reboot_cmd B (s\<lparr>u_ble_status := UPDATA_STA_WAIT_FOR_REBOOT\<rparr>, snd w)
               else Some w);
         w \<leftarrow> ble_update_wait_disconnect B w;
         let s = (fst w)\<lparr>u_ble_status := UPDATA_STA_DISCONNECTION_COMPLETED\<rparr>;
         if result = DEV_UPDATA_KEY_ERR \<or> result = DEV_UPDATA_SUCC then Some (result, s, snd w)
         else Some (0, s\<lparr>u_led_status := UPDATA_STA_LED_FILCKER\<rparr>, snd w) }
       else Some (0, w) }
     else Some (0, w))"

text \<open>The main loop: between two calls an event may come in; it never ends without one.\<close>

partial_function (option) run_loop :: "build \<Rightarrow> lib \<Rightarrow> world \<Rightarrow> (nat \<times> world) option" where
  "run_loop B L w =
    do { (res, s, es) \<leftarrow> ble_updata_process B L w;
         if res \<noteq> 0 then Some (res, s, es)
         else case es of [] \<Rightarrow> None | e # es' \<Rightarrow> run_loop B L (event B e s, es') }"

definition ble_updata_run :: "build \<Rightarrow> lib \<Rightarrow> world \<Rightarrow> (nat \<times> world) option" where
  "ble_updata_run B L w = (if p_update_op B = None then None else run_loop B L w)"

end
