(* ===== verification/UpdateMain_Spec.thy ===== *)
theory UpdateMain_Spec
  imports UpdateMain
begin

text \<open>
  What the update state machine keeps: every wait ends within two thousand and one ticks; a block
  read returns the packet of the requested length, byte for byte and nothing else; the loader
  record is cleared and the reserved area written only after the flash was verified; the main
  loop ends with success only.
\<close>

section \<open>Frame facts\<close>

lemma accept_simps [simp]:
  "mem (accept s) = mem s" "sent (accept s) = sent s" "date_len (accept s) = date_len s"
  "read_buf (accept s) = read_buf s" "bt_time_timeout (accept s) = bt_time_timeout s"
  "tmr_2ms_cnt (accept s) = tmr_2ms_cnt s" "u_ble_status (accept s) = u_ble_status s"
  "pre_read (accept s) = pre_read s" "need_rx_len (accept s) = need_rx_len s"
  "btupdata_sw (accept s) = UPDATA_ACCEPT_OK" "once_rx_len (accept s) = once_rx_len s"
  "updata_write_flash_flag (accept s) = updata_write_flash_flag s"
  by (simp_all add: accept_def)

lemma or_and_absorb: "(x OR m) AND m = (m :: 'a::len word)"
  by (rule bit_word_eqI) (auto simp: bit_simps)

lemma and_not_and: "(x AND NOT m) AND m = (0 :: 'a::len word)"
  by (rule bit_word_eqI) (auto simp: bit_simps)

lemma accepted_accept [simp]: "accepted (accept s)"
  by (simp add: accepted_def accept_def or_and_absorb LMP_STA_UPDATA_ACCEPT_def)

lemma one_time_copy_frame [simp]:
  "bt_time_timeout (one_time_copy s bs) = bt_time_timeout s"
  "tmr_2ms_cnt (one_time_copy s bs) = tmr_2ms_cnt s"
  "u_ble_status (one_time_copy s bs) = u_ble_status s"
  "pre_read (one_time_copy s bs) = pre_read s"
  "need_rx_len (one_time_copy s bs) = need_rx_len s"
  "btupdata_sw (one_time_copy s bs) = btupdata_sw s"
  "read_buf (one_time_copy s bs) = read_buf s"
  "sent (one_time_copy s bs) = sent s"
  "ble_update_state (one_time_copy s bs) = ble_update_state s"
  by (simp_all add: one_time_copy_def Let_def)

lemma one_time_flash_frame [simp]:
  "bt_time_timeout (one_time_flash s bs) = bt_time_timeout s"
  "tmr_2ms_cnt (one_time_flash s bs) = tmr_2ms_cnt s"
  "u_ble_status (one_time_flash s bs) = u_ble_status s"
  "pre_read (one_time_flash s bs) = pre_read s"
  "need_rx_len (one_time_flash s bs) = need_rx_len s"
  "date_len (one_time_flash s bs) = date_len s"
  "btupdata_sw (one_time_flash s bs) = btupdata_sw s"
  "read_buf (one_time_flash s bs) = read_buf s"
  "ble_update_state (one_time_flash s bs) = ble_update_state s"
  by (simp_all add: one_time_flash_def Let_def)

lemma pre_read_store_frame [simp]:
  "bt_time_timeout (pre_read_store s bs) = bt_time_timeout s"
  "tmr_2ms_cnt (pre_read_store s bs) = tmr_2ms_cnt s"
  "u_ble_status (pre_read_store s bs) = u_ble_status s"
  "read_buf (pre_read_store s bs) = read_buf s"
  "btupdata_sw (pre_read_store s bs) = btupdata_sw s"
  "ble_update_state (pre_read_store s bs) = ble_update_state s"
  by (simp_all add: pre_read_store_def Let_def split: prod.splits)

lemma packet_clock [simp]:
  "bt_time_timeout (dev_read_update_block_handle B s bs) = bt_time_timeout s"
  "tmr_2ms_cnt (dev_read_update_block_handle B s bs) = tmr_2ms_cnt s"
  "u_ble_status (dev_read_update_block_handle B s bs) = u_ble_status s"
  by (simp_all add: dev_read_update_block_handle_def Let_def)

lemma event_clock:
  "e \<noteq> Tick \<Longrightarrow> bt_time_timeout (event B e s) = bt_time_timeout s"
  by (cases e; simp add: dev_update_status_req_handle_def jl_update_get_reboot_sta_def Let_def)
    (rename_tac c, case_tac c, simp_all)

lemma prebuf_frame [simp]:
  "bt_time_timeout (fst (get_update_pre_read_buf s a b n)) = bt_time_timeout s"
  "u_ble_status (fst (get_update_pre_read_buf s a b n)) = u_ble_status s"
  by (simp_all add: get_update_pre_read_buf_def Let_def)

lemma poll_clock [simp]:
  "bt_time_timeout (fst (poll B cmd rec n s)) = bt_time_timeout s"
proof -
  have r: "bt_time_timeout (fst (poll_read B rec n s)) = bt_time_timeout s"
    using prebuf_frame(1) [of s rec "read_buf s" n]
    by (cases "get_update_pre_read_buf s rec (read_buf s) n") (simp add: poll_read_def)
  then have "bt_time_timeout (fst (poll_switch B cmd rec n s)) = bt_time_timeout s"
    by (simp add: poll_switch_def poll_reply_def)
  then show ?thesis by (auto simp: poll_def split: prod.splits option.splits)
qed

section \<open>Every wait ends\<close>

definition ticks :: "ev list \<Rightarrow> nat" where "ticks es = length (filter (\<lambda>e. e = Tick) es)"

lemma ticks_simps [simp]:
  "ticks [] = 0" "ticks (e # es) = (if e = Tick then 1 else 0) + ticks es"
  "ticks (es @ fs) = ticks es + ticks fs"
  by (simp_all add: ticks_def)

lemma wait_loop_deadline:
  assumes "bt_time_timeout s \<le> 2001" "2000 < bt_time_timeout s + ticks es"
  shows "\<exists>r s' used rest. wait_loop B cmd rec n s es = Some (r, s', rest) \<and> es = used @ rest \<and>
    bt_time_timeout s + ticks used \<le> 2001"
  using assms
proof (induction es arbitrary: s)
  case Nil
  then have "poll B cmd rec n s = (s, Some 0)" by (simp add: poll_def)
  with Nil show ?case by (subst wait_loop.simps) simp
next
  case (Cons e es)
  obtain s1 o1 where p: "poll B cmd rec n s = (s1, o1)" by fastforce
  have c: "bt_time_timeout s1 = bt_time_timeout s" using poll_clock [of B cmd rec n s] by (simp add: p)
  show ?case
  proof (cases o1)
    case (Some r)
    with p Cons.prems show ?thesis
      by (subst wait_loop.simps) (intro exI [of _ r] exI [of _ s1] exI [of _ "[]"] exI [of _ "e # es"], simp)
  next
    case None
    with p have le: "bt_time_timeout s \<le> 2000" by (auto simp: poll_def split: if_splits)
    have t: "bt_time_timeout (event B e s1) = bt_time_timeout s + (if e = Tick then 1 else 0)"
      using event_clock [of e B s1] c le by (cases "e = Tick") simp_all
    from le Cons.prems t Cons.IH [of "event B e s1"] obtain r s' used rest where
      "wait_loop B cmd rec n (event B e s1) es = Some (r, s', rest)" "es = used @ rest"
      "bt_time_timeout (event B e s1) + ticks used \<le> 2001" by (auto split: if_splits)
    with p None t show ?thesis
      by (subst wait_loop.simps)
        (intro exI [of _ r] exI [of _ s'] exI [of _ "e # used"] exI [of _ rest], simp)
  qed
qed

lemma handler_returns:
  assumes "2000 < ticks es"
  shows "\<exists>r s' used rest. ble_updata_handler B cmd rec n (s, es) = Some (r, s', rest) \<and>
    es = used @ rest \<and> ticks used \<le> 2001"
  using wait_loop_deadline [of "s\<lparr>bt_time_timeout := 0\<rparr>" es B cmd rec n] assms
  by (simp add: ble_updata_handler_def)

text \<open>Every wait for the peer ends: whatever packets, requests and connection changes come in, and
  whatever the loader waits for, the handler returns by the 2001st tick of the 2 ms timer (about
  four seconds), and it uses no event beyond it.\<close>

lemma handler_deadline:
  assumes "2000 < ticks es"
  shows "\<exists>r s' used rest. ble_updata_handler B cmd rec n (s, es) = Some (r, s', rest) \<and>
    es = used @ rest \<and> ticks used \<le> 2001"
  using assms by (rule handler_returns)

section \<open>A read delivers the packet it asked for\<close>

text \<open>What may come in before the answer: ticks, packets of another length, requests, connection
  events that do not end the wait.\<close>

fun idle :: "nat \<Rightarrow> ev \<Rightarrow> bool" where
  "idle n Tick = True"
| "idle n (Packet bs) = (length bs \<noteq> n)"
| "idle n Status_request = True"
| "idle n Reboot_query = True"
| "idle n (Conn c) = (c = DEV_CONN_STATE_CONNECTED \<or> c = DEV_CONN_STATE_START_UPDATE)"

definition armed :: "nat \<Rightarrow> upd \<Rightarrow> bool" where
  "armed n s \<longleftrightarrow> btupdata_sw s = UPDATA_READ \<and> need_rx_len s = n \<and> \<not> accepted s \<and>
    u_ble_status s \<noteq> UPDATA_STA_DISCONNECTION_COMPLETED \<and> u_ble_status s \<noteq> UPDATA_STA_READY_UPDATE"

text \<open>Idle events touch the clock and the connection status only.\<close>

lemma idle_event:
  assumes "armed n s" "idle n e" "bt_time_timeout s \<le> 2000"
  obtains t u where "event B e s = s\<lparr>bt_time_timeout := bt_time_timeout s + (if e = Tick then 1 else 0),
      tmr_2ms_cnt := t, u_ble_status := u\<rparr>"
    and "u \<noteq> UPDATA_STA_DISCONNECTION_COMPLETED" "u \<noteq> UPDATA_STA_READY_UPDATE"
    and "e \<noteq> Conn DEV_CONN_STATE_CONNECTED \<longrightarrow> u_ble_status s = UPDATA_STA_BFU_UPDATE_LOOP \<longrightarrow>
      u = UPDATA_STA_BFU_UPDATE_LOOP"
proof (cases e)
  case Tick
  with assms show ?thesis
    by (intro that [where t = "u32_add (tmr_2ms_cnt s) 1" and u = "u_ble_status s"]) (auto simp: armed_def)
next
  case (Packet bs)
  with assms show ?thesis
    by (intro that [where t = "tmr_2ms_cnt s" and u = "u_ble_status s"])
      (auto simp: armed_def dev_read_update_block_handle_def)
next
  case Status_request
  with assms show ?thesis
    by (intro that [where t = "tmr_2ms_cnt s" and u = "u_ble_status s"])
      (auto simp: armed_def dev_update_status_req_handle_def)
next
  case Reboot_query
  with assms show ?thesis
    by (intro that [where t = "tmr_2ms_cnt s" and u = "u_ble_status s"])
      (auto simp: armed_def jl_update_get_reboot_sta_def)
next
  case (Conn c)
  with assms show ?thesis
    by (intro that [where t = "tmr_2ms_cnt s" and u = "u_ble_status (event B e s)"]) (auto simp: armed_def)
qed

text \<open>Nothing has been read ahead that the wait would be answered with.\<close>

definition quiet :: "build \<Rightarrow> upd \<Rightarrow> bool" where
  "quiet B s \<longleftrightarrow> (UPDATE_PRE_READ_EN B \<longrightarrow> buf_busy_flag (pre_read s) = 0)"

lemma quiet_poll_read:
  "quiet B s \<Longrightarrow> poll_read B rec n s = (if accepted s then (s\<lparr>read_buf := 0\<rparr>, Some (date_len s)) else (s, None))"
  by (simp add: poll_read_def quiet_def get_update_pre_read_buf_def)

lemma wait_read_step:
  assumes "quiet B s" "armed n s" "bt_time_timeout s \<le> 2000"
  shows "wait_loop B UPDATA_READ rec n s (e # es) = wait_loop B UPDATA_READ rec n (event B e s) es"
  using assms by (subst wait_loop.simps) (simp add: poll_def poll_switch_def quiet_poll_read armed_def)

lemma wait_read_idle:
  assumes "quiet B s" "armed n s" "\<forall>e \<in> set noise. idle n e"
    "bt_time_timeout s + ticks noise \<le> 2000"
  shows "\<exists>c t u. wait_loop B UPDATA_READ rec n s (noise @ es) =
      wait_loop B UPDATA_READ rec n (s\<lparr>bt_time_timeout := c, tmr_2ms_cnt := t, u_ble_status := u\<rparr>) es \<and>
    c \<le> 2000 \<and> armed n (s\<lparr>bt_time_timeout := c, tmr_2ms_cnt := t, u_ble_status := u\<rparr>) \<and>
    (Conn DEV_CONN_STATE_CONNECTED \<notin> set noise \<and> u_ble_status s = UPDATA_STA_BFU_UPDATE_LOOP \<longrightarrow>
      u = UPDATA_STA_BFU_UPDATE_LOOP)"
  using assms
proof (induction noise arbitrary: s)
  case Nil
  then show ?case
    by (intro exI [of _ "bt_time_timeout s"] exI [of _ "tmr_2ms_cnt s"] exI [of _ "u_ble_status s"]) simp
next
  case (Cons e noise)
  then have le: "bt_time_timeout s \<le> 2000" and e: "idle n e" by auto
  obtain t u where ev: "event B e s = s\<lparr>bt_time_timeout := bt_time_timeout s + (if e = Tick then 1 else 0),
      tmr_2ms_cnt := t, u_ble_status := u\<rparr>"
    and u: "u \<noteq> UPDATA_STA_DISCONNECTION_COMPLETED" "u \<noteq> UPDATA_STA_READY_UPDATE"
    and lp: "e \<noteq> Conn DEV_CONN_STATE_CONNECTED \<longrightarrow> u_ble_status s = UPDATA_STA_BFU_UPDATE_LOOP \<longrightarrow>
      u = UPDATA_STA_BFU_UPDATE_LOOP"
    using idle_event [OF Cons.prems(2) e le] by metis
  have a: "armed n (event B e s)" using Cons.prems(2) u by (simp add: ev armed_def accepted_def)
  have q: "quiet B (event B e s)" using Cons.prems(1) by (simp add: quiet_def ev)
  have b: "bt_time_timeout (event B e s) + ticks noise \<le> 2000" using Cons.prems(4) by (simp add: ev)
  obtain c' t' u' where
    "wait_loop B UPDATA_READ rec n (event B e s) (noise @ es) = wait_loop B UPDATA_READ rec n
       ((event B e s)\<lparr>bt_time_timeout := c', tmr_2ms_cnt := t', u_ble_status := u'\<rparr>) es"
    "c' \<le> 2000" "armed n ((event B e s)\<lparr>bt_time_timeout := c', tmr_2ms_cnt := t', u_ble_status := u'\<rparr>)"
    "Conn DEV_CONN_STATE_CONNECTED \<notin> set noise \<and> u_ble_status (event B e s) = UPDATA_STA_BFU_UPDATE_LOOP \<longrightarrow>
      u' = UPDATA_STA_BFU_UPDATE_LOOP"
    using Cons.IH [OF q a _ b] Cons.prems(3) by auto
  then show ?case
    using wait_read_step [OF Cons.prems(1,2) le] lp
    by (intro exI [of _ c'] exI [of _ t'] exI [of _ u']) (auto simp: ev)
qed

text \<open>The answer: the data is in place, the pointer is dropped, the flash write is handed out.\<close>

lemma packet_answer:
  assumes "\<not> (UPDATE_PRE_READ_EN B \<and> 0 < pre_read_flag (pre_read s))" "armed n s" "length bs = n" "n < 65536" "once_rx_len s = 0"
    "once_write_len s = 512"
  shows "(updata_write_flash_flag s \<noteq> 0 \<longrightarrow> 512 \<le> n) \<Longrightarrow> mem (dev_read_update_block_handle B s bs) = mcpy_in (mem s) (read_buf s) bs"
    and "accepted (dev_read_update_block_handle B s bs)"
    and "date_len (dev_read_update_block_handle B s bs) = n"
    and "sent (dev_read_update_block_handle B s bs) = sent s @
      (if updata_write_flash_flag s \<noteq> 0 then [Flash_write bs (flash_write_addr s) 512] else [])"
    and "u_ble_status (dev_read_update_block_handle B s bs) = u_ble_status s"
    and "updata_write_flash_flag (dev_read_update_block_handle B s bs) = updata_write_flash_flag s"
    and "pre_read (dev_read_update_block_handle B s bs) = pre_read s"
    and "i < n \<Longrightarrow> mem (dev_read_update_block_handle B s bs) (read_buf s + i) = bs ! i"
proof -
  let ?c = "one_time_copy s bs\<lparr>date_len := length bs\<rparr>" let ?f = "one_time_flash ?c bs"
  have sw: "btupdata_sw s = UPDATA_READ" "need_rx_len s = length bs" using assms by (auto simp: armed_def)
  have h: "dev_read_update_block_handle B s bs =
      accept (?f\<lparr>mem := mcpy_in (mem ?f) (read_buf s) (take (date_len ?f) bs)\<rparr>)"
    using sw assms(1) by (auto simp: dev_read_update_block_handle_def Let_def)
  have c: "mem ?c = (if read_buf s \<noteq> 0 then mcpy_in (mem s) (read_buf s) bs else mem s)"
    "once_rx_len ?c = n" "once_write_len ?c = 512"
    "updata_write_flash_flag ?c = updata_write_flash_flag s" "flash_write_addr ?c = flash_write_addr s"
    using assms by (simp_all add: one_time_copy_def Let_def)
  have u: "u16 (n + 65536 - 512) = n - 512" if "512 \<le> n"
  proof -
    have "n + 65536 - 512 = (n - 512) + 65536" using that by arith
    moreover have "n - 512 < 65536" using assms(4) by arith
    ultimately show ?thesis by (simp only: u16_def mod_add_self2 mod_less)
  qed
  have f: "mcpy_in (mem ?f) (read_buf s) bs = mcpy_in (mem ?c) (read_buf s) bs" if "updata_write_flash_flag s \<noteq> 0 \<longrightarrow> 512 \<le> n"
    using that assms u c by (simp add: one_time_flash_def Let_def sw mcpy_in_over_mcpy)
  show "mem (dev_read_update_block_handle B s bs) = mcpy_in (mem s) (read_buf s) bs"
    if "updata_write_flash_flag s \<noteq> 0 \<longrightarrow> 512 \<le> n"
    using f [OF that] by (simp add: h c mcpy_in_twice)
  show "mem (dev_read_update_block_handle B s bs) (read_buf s + i) = bs ! i" if "i < n"
    using that assms(3) by (simp add: h mcpy_in_at one_time_copy_def one_time_flash_def Let_def)
  show "accepted (dev_read_update_block_handle B s bs)" by (simp add: h)
  show "date_len (dev_read_update_block_handle B s bs) = n" using assms by (simp add: h)
  show "sent (dev_read_update_block_handle B s bs) = sent s @
      (if updata_write_flash_flag s \<noteq> 0 then [Flash_write bs (flash_write_addr s) 512] else [])"
    using c sw by (simp add: h one_time_flash_def Let_def)
  show "u_ble_status (dev_read_update_block_handle B s bs) = u_ble_status s"
    "updata_write_flash_flag (dev_read_update_block_handle B s bs) = updata_write_flash_flag s"
    "pre_read (dev_read_update_block_handle B s bs) = pre_read s"
    by (simp_all add: h one_time_flash_def one_time_copy_def Let_def)
qed

lemma not_accepted_arm: "\<not> accepted (arm_read s buf n)"
  by (simp add: accepted_def arm_read_def)

text \<open>The read-ahead control after the decision at the start of a read.\<close>

definition next_ctl :: "build \<Rightarrow> upd \<Rightarrow> nat \<Rightarrow> nat \<Rightarrow> pre_read_ctl" where
  "next_ctl B s off n =
     (if UPDATE_PRE_READ_EN B then get_update_pre_read_flag (pre_read s) off (u16 n) else pre_read s)"

lemma get_flag_simps:
  "last_addr (get_update_pre_read_flag p a n) = a" "buf0 (get_update_pre_read_flag p a n) = buf0 p"
  "buf_busy_flag (get_update_pre_read_flag p a n) = buf_busy_flag p"
  "curr_file_offset (get_update_pre_read_flag p a n) = curr_file_offset p"
  by (simp_all add: get_update_pre_read_flag_def Let_def)

text \<open>The request: what the call hands out before it begins to wait.\<close>

definition asked :: "build \<Rightarrow> addr \<Rightarrow> nat \<Rightarrow> nat \<Rightarrow> nat \<Rightarrow> upd \<Rightarrow> upd" where
  "asked B buf n ty off s =
     read_request B (pre_read_flag (next_ctl B s off n)) buf n ty off ((read_setup s off)\<lparr>pre_read := next_ctl B s off n\<rparr>)"

lemma read_asks:
  assumes "quiet B s \<and> (UPDATE_PRE_READ_EN B \<longrightarrow> pre_read_flag (next_ctl B s off n) = 0)"
    and "u_ble_status s = UPDATA_STA_BFU_UPDATE_LOOP"
  shows "ble_updata_read B buf n ty off (s, es) =
    wait_loop B UPDATA_READ off n ((asked B buf n ty off s)\<lparr>bt_time_timeout := 0\<rparr>) es"
  using assms by (cases "UPDATE_PRE_READ_EN B")
    (simp_all add: ble_updata_read_def ble_updata_handler_def asked_def read_request_def Let_def drain_pre_read_def next_ctl_def read_setup_def)

lemma asked_simps:
  assumes "quiet B s \<and> (UPDATE_PRE_READ_EN B \<longrightarrow> pre_read_flag (next_ctl B s off n) = 0)"
    and "p_update_op B = Some ops" "data_send ops" "u_ble_status s = UPDATA_STA_BFU_UPDATE_LOOP"
    and a_def: "a = (asked B buf n ty off s)\<lparr>bt_time_timeout := 0\<rparr>"
  shows "armed n a" "mem a = mem s" "read_buf a = buf" "once_rx_len a = 0" "once_write_len a = 512"
    "n < 65536 \<Longrightarrow> sent a = sent s @ [Data_send UPDATA_READ_OFFSIZE ty off n]" "bt_time_timeout a = 0"
    "updata_write_flash_flag a = updata_write_flash_flag s"
    "flash_write_addr a = u32_sub off (g_bfu_burn_start_addr s)"
    "u_ble_status a = UPDATA_STA_BFU_UPDATE_LOOP" "pre_read a = next_ctl B s off n" "quiet B a"
  using assms(1-4) not_accepted_arm [of "(read_setup s off)\<lparr>pre_read := next_ctl B s off n\<rparr>" buf n]
  by (auto simp: a_def asked_def read_request_def ble_updata_control_def read_setup_def arm_read_def armed_def accepted_def Let_def quiet_def next_ctl_def get_flag_simps)

lemma read_returns_packet:
  assumes "quiet B s \<and> (UPDATE_PRE_READ_EN B \<longrightarrow> pre_read_flag (next_ctl B s off n) = 0)" "p_update_op B = Some ops" "data_send ops"
    and "u_ble_status s = UPDATA_STA_BFU_UPDATE_LOOP"
    and "length bs = n" "n < 65536"
    and "\<forall>e \<in> set noise. idle n e" "ticks noise \<le> 2000"
  shows "\<exists>s'. ble_updata_read B buf n ty off (s, noise @ Packet bs # es) = Some (n, s', es) \<and>
    ((updata_write_flash_flag s \<noteq> 0 \<longrightarrow> 512 \<le> n) \<longrightarrow> mem s' = mcpy_in (mem s) buf bs) \<and>
    (\<forall>i < n. mem s' (buf + i) = bs ! i) \<and> read_buf s' = 0 \<and>
    sent s' = sent s @ Data_send UPDATA_READ_OFFSIZE ty off n #
      (if updata_write_flash_flag s \<noteq> 0
       then [Flash_write bs (u32_sub off (g_bfu_burn_start_addr s)) 512] else []) \<and>
    updata_write_flash_flag s' = updata_write_flash_flag s \<and> pre_read s' = next_ctl B s off n \<and>
    (Conn DEV_CONN_STATE_CONNECTED \<notin> set noise \<longrightarrow> u_ble_status s' = UPDATA_STA_BFU_UPDATE_LOOP)"
proof -
  define a where "a = (asked B buf n ty off s)\<lparr>bt_time_timeout := 0\<rparr>"
  note call = read_asks [OF assms(1,4), of buf ty, folded a_def]
  note a = asked_simps [OF assms(1-4) a_def]
  note qa = a(12)
  obtain c t u where w: "wait_loop B UPDATA_READ off n a (noise @ Packet bs # es) =
      wait_loop B UPDATA_READ off n (a\<lparr>bt_time_timeout := c, tmr_2ms_cnt := t, u_ble_status := u\<rparr>)
        (Packet bs # es)" "c \<le> 2000"
      "armed n (a\<lparr>bt_time_timeout := c, tmr_2ms_cnt := t, u_ble_status := u\<rparr>)"
      "Conn DEV_CONN_STATE_CONNECTED \<notin> set noise \<longrightarrow> u = UPDATA_STA_BFU_UPDATE_LOOP"
    using wait_read_idle [OF qa a(1) assms(7), of off "Packet bs # es"] assms(8) a(7,10) by auto
  define q where "q = a\<lparr>bt_time_timeout := c, tmr_2ms_cnt := t, u_ble_status := u\<rparr>"
  have pq: "once_rx_len q = 0" "once_write_len q = 512"
    "mem q = mem s" "read_buf q = buf" "sent q = sent a" "armed n q"
    "updata_write_flash_flag q = updata_write_flash_flag s"
    "flash_write_addr q = u32_sub off (g_bfu_burn_start_addr s)" "bt_time_timeout q = c"
    "pre_read q = next_ctl B s off n" "quiet B q"
    using qa a w(3) by (simp_all add: q_def quiet_def)
  have np: "\<not> (UPDATE_PRE_READ_EN B \<and> 0 < pre_read_flag (pre_read q))" using assms(1) pq(10) by auto
  note ans = packet_answer [OF np pq(6) assms(5,6) pq(1,2)]
  define p where "p = dev_read_update_block_handle B q bs"
  have qp: "quiet B p" using pq(11) ans(7) by (simp add: quiet_def p_def)
  have "wait_loop B UPDATA_READ off n q (Packet bs # es) = wait_loop B UPDATA_READ off n p es"
    using wait_read_step [OF pq(11,6)] w(2) pq(9) by (simp add: p_def)
  also have "\<dots> = Some (n, p\<lparr>read_buf := 0\<rparr>, es)"
    using w(2) pq(9) ans(2,3) qp
    by (subst wait_loop.simps) (simp add: poll_def poll_switch_def quiet_poll_read p_def)
  finally have run: "wait_loop B UPDATA_READ off n q (Packet bs # es) = Some (n, p\<lparr>read_buf := 0\<rparr>, es)" .
  have "ble_updata_read B buf n ty off (s, noise @ Packet bs # es) = Some (n, p\<lparr>read_buf := 0\<rparr>, es)"
    using call w(1) run by (simp only: q_def)
  moreover have "mem p = mcpy_in (mem s) buf bs" if "updata_write_flash_flag s \<noteq> 0 \<longrightarrow> 512 \<le> n"
    using that ans(1) pq(3,4,7) by (simp add: p_def)
  moreover have "\<forall>i < n. mem p (buf + i) = bs ! i" using ans(8) pq(4) by (simp add: p_def)
  moreover have "sent p = sent s @ Data_send UPDATA_READ_OFFSIZE ty off n #
      (if updata_write_flash_flag s \<noteq> 0
       then [Flash_write bs (u32_sub off (g_bfu_burn_start_addr s)) 512] else [])"
    using ans(4) pq(5,7,8) a(6) [OF assms(6)] by (simp add: p_def)
  moreover have "updata_write_flash_flag p = updata_write_flash_flag s" using ans(6) pq(7) by (simp add: p_def)
  moreover have "pre_read p = next_ctl B s off n" using ans(7) pq(10) by (simp add: p_def)
  moreover have "Conn DEV_CONN_STATE_CONNECTED \<notin> set noise \<longrightarrow> u_ble_status p = UPDATA_STA_BFU_UPDATE_LOOP"
    using ans(5) w(4) by (simp add: p_def) (simp add: q_def)
  ultimately show ?thesis by (intro exI [of _ "p\<lparr>read_buf := 0\<rparr>"]) simp
qed

text \<open>Without an answer the wait ends with 0 and nothing is written.\<close>

definition waiting :: "nat \<Rightarrow> upd \<Rightarrow> bool" where
  "waiting n s \<longleftrightarrow> btupdata_sw s = UPDATA_READ \<and> need_rx_len s = n \<and> \<not> accepted s"

lemma waiting_event:
  assumes "waiting n s" "\<forall>bs. e = Packet bs \<longrightarrow> length bs \<noteq> n"
  shows "waiting n (event B e s) \<and> mem (event B e s) = mem s \<and> pre_read (event B e s) = pre_read s"
proof (cases e)
  case (Conn c)
  with assms show ?thesis by (cases c) (simp_all add: waiting_def accepted_def)
qed (use assms in \<open>auto simp: waiting_def accepted_def dev_read_update_block_handle_def dev_update_status_req_handle_def
    jl_update_get_reboot_sta_def\<close>)

lemma wait_unanswered:
  assumes "wait_loop B UPDATA_READ rec n s es = Some (r, s', rest)" "waiting n s" "quiet B s"
    and "\<forall>bs. Packet bs \<in> set es \<longrightarrow> length bs \<noteq> n"
  shows "r = 0 \<and> mem s' = mem s"
  using assms
proof (induction es arbitrary: s)
  case Nil
  then show ?case
    by (subst (asm) wait_loop.simps)
      (auto simp: poll_def poll_switch_def quiet_poll_read waiting_def split: if_splits)
next
  case (Cons e es)
  have e: "\<forall>bs. e = Packet bs \<longrightarrow> length bs \<noteq> n" using Cons.prems(4) by auto
  note w = waiting_event [OF Cons.prems(2) e, of B]
  show ?case
  proof (cases "poll B UPDATA_READ rec n s = (s, None)")
    case True
    with Cons.prems(1) have "wait_loop B UPDATA_READ rec n (event B e s) es = Some (r, s', rest)"
      by (subst (asm) wait_loop.simps) simp
    from Cons.IH [OF this] w Cons.prems(3,4) show ?thesis by (simp add: quiet_def)
  next
    case False
    with Cons.prems(2,3) have "poll B UPDATA_READ rec n s = (s, Some 0)"
      by (auto simp: poll_def poll_switch_def quiet_poll_read waiting_def split: if_splits)
    with Cons.prems(1) show ?thesis by (subst (asm) wait_loop.simps) simp
  qed
qed

lemma read_unanswered:
  assumes d: "quiet B s \<and> (UPDATE_PRE_READ_EN B \<longrightarrow> pre_read_flag (next_ctl B s off n) = 0)" "p_update_op B = Some ops" "data_send ops"
    and st: "u_ble_status s = UPDATA_STA_BFU_UPDATE_LOOP"
    and n: "\<forall>bs. Packet bs \<in> set es \<longrightarrow> length bs \<noteq> n" "2000 < ticks es"
  shows "\<exists>s' used rest. ble_updata_read B buf n ty off (s, es) = Some (0, s', rest) \<and> mem s' = mem s \<and>
    es = used @ rest \<and> ticks used \<le> 2001"
proof -
  define a where "a = (asked B buf n ty off s)\<lparr>bt_time_timeout := 0\<rparr>"
  note call = read_asks [OF d(1) st, of buf ty, folded a_def]
  note a = asked_simps [OF d st a_def]
  obtain r s' used rest where w: "wait_loop B UPDATA_READ off n a es = Some (r, s', rest)" "es = used @ rest" "ticks used \<le> 2001"
    using wait_loop_deadline [of a es B UPDATA_READ off n] n(2) a(7) by auto
  note a(12)
  moreover have "waiting n a" using a(1) by (simp add: waiting_def armed_def)
  ultimately have "r = 0 \<and> mem s' = mem a" using wait_unanswered [OF w(1)] n(1) by blast
  with call [of es] w a(2) show ?thesis by (metis (no_types))
qed

text \<open>C13: A block read that is not served ahead - every read of the build without read-ahead, and with read-ahead one
  for which the control decides against it while its buffers are empty - sends one request and takes the first
  packet of the requested length for its answer.  If that comes within the two thousand ticks of the time limit, and
  the peer neither disconnects nor goes back to ready before, the read returns the length with the packet's bytes at
  the caller's buffer; the pointer is dropped and, for a read that is meant for the flash, the packet is handed out
  for writing at the offset from the start of the image.  No other byte changes, except by a read for the flash of
  less than 512 bytes.  If no such packet comes, whatever else does, the read returns 0 by the 2001st tick and has
  written nothing.\<close>

theorem read_delivers:
  assumes "quiet B s \<and> (UPDATE_PRE_READ_EN B \<longrightarrow> pre_read_flag (next_ctl B s off n) = 0)"
    and "p_update_op B = Some ops" "data_send ops" "u_ble_status s = UPDATA_STA_BFU_UPDATE_LOOP" "n < 65536"
  shows "(\<forall>bs noise es. length bs = n \<and> (\<forall>e \<in> set noise. idle n e) \<and> ticks noise \<le> 2000 \<longrightarrow>
      (\<exists>s'. ble_updata_read B buf n ty off (s, noise @ Packet bs # es) = Some (n, s', es) \<and>
        (\<forall>i < n. mem s' (buf + i) = bs ! i) \<and>
        ((updata_write_flash_flag s \<noteq> 0 \<longrightarrow> 512 \<le> n) \<longrightarrow> mem s' = mcpy_in (mem s) buf bs) \<and> read_buf s' = 0 \<and>
        sent s' = sent s @ Data_send UPDATA_READ_OFFSIZE ty off n #
          (if updata_write_flash_flag s \<noteq> 0
           then [Flash_write bs (u32_sub off (g_bfu_burn_start_addr s)) 512] else []))) \<and>
    (\<forall>es. (\<forall>bs. Packet bs \<in> set es \<longrightarrow> length bs \<noteq> n) \<and> 2000 < ticks es \<longrightarrow>
      (\<exists>s' used rest. ble_updata_read B buf n ty off (s, es) = Some (0, s', rest) \<and> mem s' = mem s \<and>
        es = used @ rest \<and> ticks used \<le> 2001))"
proof (intro conjI allI impI; elim conjE)
  fix bs :: "byte list" and noise es :: "ev list" assume "length bs = n" "\<forall>e \<in> set noise. idle n e" "ticks noise \<le> 2000"
  with read_returns_packet [OF assms(1-4) _ assms(5), of bs noise buf ty es]
  show "\<exists>s'. ble_updata_read B buf n ty off (s, noise @ Packet bs # es) = Some (n, s', es) \<and>
      (\<forall>i < n. mem s' (buf + i) = bs ! i) \<and>
      ((updata_write_flash_flag s \<noteq> 0 \<longrightarrow> 512 \<le> n) \<longrightarrow> mem s' = mcpy_in (mem s) buf bs) \<and> read_buf s' = 0 \<and>
      sent s' = sent s @ Data_send UPDATA_READ_OFFSIZE ty off n #
        (if updata_write_flash_flag s \<noteq> 0
         then [Flash_write bs (u32_sub off (g_bfu_burn_start_addr s)) 512] else [])" by blast
qed (rule read_unanswered [OF assms(1-4)])

section \<open>Where a packet is written\<close>

text \<open>The two read-ahead buffers stay in place, and while read-ahead is on, only 512 bytes are asked for.\<close>

definition temp_ok :: "build \<Rightarrow> upd \<Rightarrow> bool" where
  "temp_ok B s \<longleftrightarrow> UPDATE_PRE_READ_EN B \<and> buf0 (pre_read s) = update_temp_buf B \<and> buf1 (pre_read s) = update_temp_buf B + 512 \<and>
    pre_read_flag (pre_read s) \<le> 3 \<and>
    (btupdata_sw s = UPDATA_READ \<and> 0 < pre_read_flag (pre_read s) \<longrightarrow> u16 (need_rx_len s) = 512)"

lemma temp_ok_cong:
  "temp_ok B s \<Longrightarrow> buf0 (pre_read t) = buf0 (pre_read s) \<Longrightarrow> buf1 (pre_read t) = buf1 (pre_read s) \<Longrightarrow>
    pre_read_flag (pre_read t) = pre_read_flag (pre_read s) \<Longrightarrow> need_rx_len t = need_rx_len s \<Longrightarrow>
    btupdata_sw t \<in> {btupdata_sw s, UPDATA_ACCEPT_OK} \<Longrightarrow> temp_ok B t"
  by (auto simp: temp_ok_def)

lemma pre_read_store_pre [simp]:
  "buf0 (pre_read (pre_read_store s bs)) = buf0 (pre_read s)"
  "buf1 (pre_read (pre_read_store s bs)) = buf1 (pre_read s)"
  "pre_read_flag (pre_read (pre_read_store s bs)) = pre_read_flag (pre_read s)"
  "need_rx_len (pre_read_store s bs) = need_rx_len s"
  by (simp_all add: pre_read_store_def Let_def split: prod.splits if_splits)

lemma temp_ok_event: "temp_ok B s \<Longrightarrow> temp_ok B (event B e s)"
proof (cases e)
  case (Packet bs)
  assume "temp_ok B s"
  then show ?thesis unfolding Packet
    by (rule temp_ok_cong) (simp_all add: dev_read_update_block_handle_def Let_def)
next
  case (Conn c)
  assume "temp_ok B s"
  then show ?thesis unfolding Conn by (cases c; simp add: temp_ok_def)
qed (erule temp_ok_cong;
     simp add: dev_update_status_req_handle_def jl_update_get_reboot_sta_def Let_def)+

lemma temp_ok_prebuf: "temp_ok B s \<Longrightarrow> temp_ok B (fst (get_update_pre_read_buf s a b n))"
  by (erule temp_ok_cong) (simp_all add: get_update_pre_read_buf_def Let_def)

lemma temp_ok_poll: "temp_ok B s \<Longrightarrow> temp_ok B (fst (poll B cmd rec n s))"
proof -
  assume a: "temp_ok B s"
  have "temp_ok B (fst (poll_read B rec n s))"
    using temp_ok_prebuf [OF a, of rec "read_buf s" n] a
    by (cases "get_update_pre_read_buf s rec (read_buf s) n")
      (auto simp: poll_read_def temp_ok_def)
  then have "temp_ok B (fst (poll_switch B cmd rec n s))"
    using a by (simp add: poll_switch_def poll_reply_def)
  with a show ?thesis by (auto simp: poll_def split: prod.splits option.splits)
qed

lemma temp_ok_wait:
  "temp_ok B s \<Longrightarrow> wait_loop B cmd rec n s es = Some (r, s', rest) \<Longrightarrow> temp_ok B s'"
proof (induction es arbitrary: s)
  case Nil
  then show ?case using temp_ok_poll [of B s cmd rec n]
    by (subst (asm) wait_loop.simps) (auto split: prod.splits option.splits)
next
  case (Cons e es)
  obtain s1 o1 where p: "poll B cmd rec n s = (s1, o1)" by fastforce
  have ok: "temp_ok B s1" using temp_ok_poll [OF Cons.prems(1), of cmd rec n] by (simp add: p)
  show ?case
  proof (cases o1)
    case None
    with p Cons.prems(2) have "wait_loop B cmd rec n (event B e s1) es = Some (r, s', rest)"
      by (subst (asm) wait_loop.simps) simp
    with Cons.IH temp_ok_event [OF ok] show ?thesis by blast
  next
    case (Some q)
    with p Cons.prems(2) ok show ?thesis by (subst (asm) wait_loop.simps) simp
  qed
qed

lemma temp_ok_handler:
  "temp_ok B s \<Longrightarrow> ble_updata_handler B cmd rec n (s, es) = Some (r, s', rest) \<Longrightarrow> temp_ok B s'"
  unfolding ble_updata_handler_def by (simp, erule temp_ok_wait [rotated]) (erule temp_ok_cong; simp)

lemma control_frame [simp]:
  "pre_read (ble_updata_control B c n ty off s) = pre_read s"
  "need_rx_len (ble_updata_control B c n ty off s) = need_rx_len s"
  "btupdata_sw (ble_updata_control B c n ty off s) = btupdata_sw s"
  "mem (ble_updata_control B c n ty off s) = mem s"
  "u_ble_status (ble_updata_control B c n ty off s) = u_ble_status s"
  by (simp_all add: ble_updata_control_def split: option.splits)

text \<open>The flag computed for a request is on only for a request of 512 bytes, or when a run ends.\<close>

lemma flag_on:
  "pre_read_flag p \<le> 3 \<Longrightarrow> 0 < pre_read_flag (get_update_pre_read_flag p a n) \<Longrightarrow>
    n = 512 \<or> pre_read_flag (get_update_pre_read_flag p a n) = 1"
  by (auto simp: get_update_pre_read_flag_def Let_def split: if_splits)

lemma flag_on_stays:
  "pre_read_flag (get_update_pre_read_flag p a n) = 1 \<Longrightarrow> 0 < pre_read_flag p"
  by (auto simp: get_update_pre_read_flag_def Let_def split: if_splits)

lemma flag_frame [simp]:
  "buf0 (get_update_pre_read_flag p a n) = buf0 p" "buf1 (get_update_pre_read_flag p a n) = buf1 p"
  "buf_busy_flag (get_update_pre_read_flag p a n) = buf_busy_flag p"
  by (simp_all add: get_update_pre_read_flag_def Let_def)

lemma flag_range:
  "pre_read_flag p \<le> 3 \<Longrightarrow> pre_read_flag (get_update_pre_read_flag p a n) \<le> 3"
  by (auto simp: get_update_pre_read_flag_def Let_def)

text \<open>The state in which a request is sent is good when the flag agrees with the length.\<close>

lemma temp_ok_request:
  assumes "UPDATE_PRE_READ_EN B" "buf0 (pre_read s) = update_temp_buf B" "buf1 (pre_read s) = update_temp_buf B + 512"
    "pre_read_flag (pre_read s) \<le> 3" "0 < pre_read_flag (pre_read s) \<longrightarrow> u16 n = 512"
  shows "temp_ok B (read_request B flag buf n ty off s)"
  using assms by (simp add: temp_ok_def read_request_def arm_read_def Let_def)

lemma temp_ok_read:
  assumes ok: "temp_ok B s" and r: "ble_updata_read B buf n ty off (s, es) = Some (r, s', rest)"
  shows "temp_ok B s'"
proof (cases "u_ble_status s = UPDATA_STA_BFU_UPDATE_LOOP")
  case False
  with ok r show ?thesis by (simp add: ble_updata_read_def)
next
  case loop: True
  have en: "UPDATE_PRE_READ_EN B" using ok by (simp add: temp_ok_def)
  let ?p = "get_update_pre_read_flag (pre_read s) off (u16 n)"
  let ?s = "read_setup s off\<lparr>pre_read := ?p\<rparr>"
  have le: "pre_read_flag (pre_read s) \<le> 3" using ok by (simp add: temp_ok_def)
  have bufs: "buf0 ?p = update_temp_buf B" "buf1 ?p = update_temp_buf B + 512"
    using ok by (simp_all add: temp_ok_def)
  have pr: "pre_read (read_setup s off) = pre_read s" by (simp add: read_setup_def)
  obtain s1 es1 where d: "drain_pre_read B (pre_read_flag ?p) (last_addr (pre_read s)) n (?s, es)
      = Some (s1, es1)"
    and h: "ble_updata_handler B UPDATA_READ off n
      (read_request B (pre_read_flag ?p) buf n ty off s1, es1) = Some (r, s', rest)"
    using r loop en by (auto simp: ble_updata_read_def Let_def pr split: bind_splits)
  have "temp_ok B (read_request B (pre_read_flag ?p) buf n ty off s1)"
  proof (cases "pre_read_flag ?p = 1")
    case False
    with d have "s1 = ?s" by (simp add: drain_pre_read_def)
    with en bufs flag_range [OF le] flag_on [OF le] False show ?thesis
      by (intro temp_ok_request) auto
  next
    case one: True
    have "temp_ok B ?s"
      using ok bufs flag_on_stays [OF one] one by (simp add: temp_ok_def read_setup_def)
    moreover obtain q s2 where
      "ble_updata_handler B UPDATA_READ (u32_sub (last_addr (pre_read s)) 512) n (?s, es) = Some (q, s2, es1)"
      "s1 = s2\<lparr>pre_read := (pre_read s2)\<lparr>pre_read_flag := 0\<rparr>\<rparr>"
      using d one by (auto simp: drain_pre_read_def split: bind_splits)
    ultimately have "temp_ok B s2" by (meson temp_ok_handler)
    with \<open>s1 = _\<close> show ?thesis by (intro temp_ok_request) (auto simp: temp_ok_def)
  qed
  with h show ?thesis by (meson temp_ok_handler)
qed

text \<open>The states of an update session: it is opened, and then callbacks, reads, seeks and the closing
  requests follow in any order.\<close>

inductive session :: "build \<Rightarrow> upd \<Rightarrow> bool" for B where
  opened: "UPDATE_PRE_READ_EN B \<Longrightarrow> session B (ble_updata_bfu_open B s)"
| called: "session B s \<Longrightarrow> session B (event B e s)"
| read: "session B s \<Longrightarrow> ble_updata_read B buf n ty off (s, es) = Some (r, s', es') \<Longrightarrow> session B s'"
| for_flash: "session B s \<Longrightarrow> session B (s\<lparr>updata_write_flash_flag := f\<rparr>)"
| sought: "session B s \<Longrightarrow> session B (ble_gatt_f_seek s ty off)"
| completed: "session B s \<Longrightarrow> session B (ble_updata_rsp_complete B s)"
| stopped: "session B s \<Longrightarrow> ble_updata_stop B err (s, es) = Some (r, s', es') \<Longrightarrow> session B s'"

lemma session_temp_ok: "session B s \<Longrightarrow> temp_ok B s"
proof (induction rule: session.induct)
  case (opened s)
  then show ?case by (simp add: ble_updata_bfu_open_def update_pre_read_ctl_init_def temp_ok_def)
next
  case (stopped s err es r s' es')
  then show ?case
    by (auto simp: ble_updata_stop_def temp_ok_def split: if_splits bind_splits
        dest!: temp_ok_handler [rotated, unfolded temp_ok_def])
qed (simp_all add: temp_ok_event temp_ok_read, simp_all add: temp_ok_def ble_gatt_f_seek_def
      ble_updata_rsp_complete_def)

text \<open>What is moved down in front of a caller's buffer when a packet was handed to the flash: what has come in, less
  what was written.  The difference has sixteen bits and wraps when less has come in than is written.\<close>

definition moved :: "upd \<Rightarrow> nat \<Rightarrow> nat" where
  "moved s n = (if updata_write_flash_flag s \<noteq> 0 then u16 (u16 (once_rx_len s + n) + 65536 - once_write_len s) else 0)"

lemma moved_le:
  "moved s n \<le> once_rx_len s + n \<or> updata_write_flash_flag s \<noteq> 0 \<and> u16 (once_rx_len s + n) < once_write_len s"
proof (cases "u16 (once_rx_len s + n) < once_write_len s")
  case False
  let ?k = "u16 (once_rx_len s + n)"
  have "?k + 65536 - once_write_len s = (?k - once_write_len s) + 65536" using False by arith
  hence "u16 (?k + 65536 - once_write_len s) = u16 (?k - once_write_len s)" by (simp only: u16_def mod_add_self2)
  also have "\<dots> \<le> once_rx_len s + n" unfolding u16_def by (meson diff_le_self mod_less_eq_dividend order_trans)
  finally show ?thesis by (simp add: moved_def)
qed (simp add: moved_def)

lemma packet_mem:
  assumes "temp_ok B s" "length bs < 65536"
    and "x < read_buf s \<or> read_buf s + max (once_rx_len s + length bs) (moved s (length bs)) \<le> x"
    and "x < update_temp_buf B \<or> update_temp_buf B + 1024 \<le> x"
  shows "mem (dev_read_update_block_handle B s bs) x = mem s x"
proof (cases "btupdata_sw s = UPDATA_READ \<and> need_rx_len s = length bs")
  case True
  let ?c = "one_time_copy s bs\<lparr>date_len := length bs\<rparr>" let ?f = "one_time_flash ?c bs"
  have c: "mem ?c x = mem s x" using assms(3)
    by (auto simp: one_time_copy_def Let_def mcpy_in_def)
  have k: "once_rx_len ?c = u16 (once_rx_len s + length bs)" "once_write_len ?c = once_write_len s"
    "updata_write_flash_flag ?c = updata_write_flash_flag s" "read_buf ?c = read_buf s"
    by (simp_all add: one_time_copy_def Let_def)
  have f: "mem ?f x = mem ?c x"
    using assms(3) True k by (auto simp: one_time_flash_def moved_def Let_def mcpy_def)
  have fs: "pre_read ?f = pre_read s" "date_len ?f = length bs" "need_rx_len ?f = need_rx_len s" "read_buf ?f = read_buf s"
    by (simp_all add: one_time_flash_def one_time_copy_def Let_def)
  show ?thesis
  proof (cases "UPDATE_PRE_READ_EN B \<and> pre_read_flag (pre_read s) > 0")
    case False
    have "mcpy_in (mem ?f) (read_buf s) bs x = mem ?f x"
      using assms(3) by (intro mcpy_in_out) arith
    with c f fs True False show ?thesis by (auto simp: dev_read_update_block_handle_def Let_def)
  next
    case on: True
    have n: "length bs = 512" using True on assms(1,2) by (simp add: temp_ok_def)
    have b: "buf0 (pre_read s) = update_temp_buf B" "buf1 (pre_read s) = update_temp_buf B + 512"
      using assms(1) by (auto simp: temp_ok_def)
    have "mem (pre_read_store ?f bs) x = mem ?f x"
      using assms(4) n by (auto simp: pre_read_store_def Let_def fs b mcpy_in_def)
    with c f fs True on show ?thesis by (simp add: dev_read_update_block_handle_def Let_def)
  qed
qed (auto simp: dev_read_update_block_handle_def)

text \<open>C14: Where a data packet goes, in every state an update session with read-ahead can reach.  A packet that is not
  expected changes nothing.  An expected one is written into the two read-ahead buffers, which never overflow, and
  behind the caller's read pointer: as far as the bytes received for this request go, and, in a read for the flash,
  as far as what is moved down after the write.  That is less, unless fewer bytes have come in than are written:
  then the sixteen-bit difference wraps, and only then the packet handler writes farther than it has received.\<close>

theorem packet_confined:
  assumes "session B s" "length bs < 65536"
  shows "(btupdata_sw s \<noteq> UPDATA_READ \<or> need_rx_len s \<noteq> length bs \<longrightarrow> event B (Packet bs) s = s) \<and>
    (\<forall>x. (x < read_buf s \<or> read_buf s + max (once_rx_len s + length bs) (moved s (length bs)) \<le> x) \<and>
      (x < update_temp_buf B \<or> update_temp_buf B + 1024 \<le> x) \<longrightarrow> mem (event B (Packet bs) s) x = mem s x) \<and>
    (moved s (length bs) \<le> once_rx_len s + length bs \<or>
      updata_write_flash_flag s \<noteq> 0 \<and> u16 (once_rx_len s + length bs) < once_write_len s)"
  using packet_mem [OF session_temp_ok [OF assms(1)] assms(2)] moved_le [of s "length bs"]
  by (auto simp: dev_read_update_block_handle_def)

text \<open>Two defects of read-ahead.  A prefetched packet that comes in after the answer is copied behind
  the end of the caller's buffer, because \<open>ONE_TIME_RECEIVE_ALL_DATA\<close> copies it whether or not it
  fits; and a prefetch that is still under way when a request for another block follows is taken for
  the answer to that request.\<close>

lemma prefetch_overflows:
  assumes "temp_ok B s" "UPDATE_PRE_READ_EN B" "btupdata_sw s = UPDATA_READ" "need_rx_len s = 512"
    "pre_read_flag (pre_read s) = 3" "updata_write_flash_flag s = 0"
    "read_buf s \<noteq> 0" "once_rx_len s = 512" "once_write_len s = 512" "length bs = 512" "i < 512"
    "read_buf s + 1024 \<le> update_temp_buf B"
  shows "mem (dev_read_update_block_handle B s bs) (read_buf s + 512 + i) = bs ! i"
proof -
  let ?c = "one_time_copy s bs\<lparr>date_len := length bs\<rparr>"
  have f: "one_time_flash ?c bs = ?c"
    using assms by (simp add: one_time_flash_def one_time_copy_def Let_def)
  have b: "buf0 (pre_read s) = update_temp_buf B" "buf1 (pre_read s) = update_temp_buf B + 512"
    using assms(1) by (auto simp: temp_ok_def)
  have c: "mem ?c (read_buf s + 512 + i) = bs ! i"
    using assms by (simp add: one_time_copy_def Let_def mcpy_in_def)
  have "mem (pre_read_store ?c bs) (read_buf s + 512 + i) = mem ?c (read_buf s + 512 + i)"
    using assms by (auto simp: pre_read_store_def Let_def b mcpy_in_def)
  with c f assms show ?thesis by (simp add: dev_read_update_block_handle_def Let_def)
qed

lemma no_prebuf: "buf_busy_flag (pre_read s) = 0 \<Longrightarrow> get_update_pre_read_buf s a b n = (s, 0)"
  by (simp add: get_update_pre_read_buf_def Let_def)

lemma flag_leaves_enable:
  "pre_read_flag p = 2 \<Longrightarrow> a \<noteq> u32_sub (last_addr p) 512 \<Longrightarrow>
    pre_read_flag (get_update_pre_read_flag p a n) = 0"
  by (simp add: get_update_pre_read_flag_def)

lemma stale_prefetch_accepted:
  assumes "UPDATE_PRE_READ_EN B" "p_update_op B = Some ops" "data_send ops"
    and "u_ble_status s = UPDATA_STA_BFU_UPDATE_LOOP" "updata_write_flash_flag s = 0"
    and "pre_read_flag (pre_read s) = 2" "buf_busy_flag (pre_read s) = 0"
    and "off \<noteq> u32_sub (last_addr (pre_read s)) 512" "length prefetched = 512"
  shows "\<exists>s'. ble_updata_read B buf 512 ty off (s, [Packet prefetched, Packet wanted]) =
      Some (512, s', [Packet wanted]) \<and> mem s' = mcpy_in (mem s) buf prefetched"
proof -
  let ?q = "get_update_pre_read_flag (pre_read s) off 512"
  have fl: "pre_read_flag ?q = 0" using flag_leaves_enable [OF assms(6,8)] .
  define a where "a = (ble_updata_control B UPDATA_READ_OFFSIZE 512 ty off
    (arm_read (read_setup s off\<lparr>pre_read := ?q\<rparr>) buf 512))\<lparr>bt_time_timeout := 0\<rparr>"
  have call: "ble_updata_read B buf 512 ty off (s, es) = wait_loop B UPDATA_READ off 512 a es" for es
    using assms(1-4) fl
    by (simp add: ble_updata_read_def read_request_def ble_updata_handler_def drain_pre_read_def
        read_setup_def a_def)
  have a: "pre_read a = ?q" "btupdata_sw a = 3" "need_rx_len a = 512" "\<not> accepted a" "mem a = mem s"
    "read_buf a = buf" "once_rx_len a = 0" "updata_write_flash_flag a = 0" "bt_time_timeout a = 0"
    "u_ble_status a = UPDATA_STA_BFU_UPDATE_LOOP"
    using assms(2-5) by (simp_all add: a_def ble_updata_control_def read_setup_def arm_read_def accepted_def)
  have busy: "buf_busy_flag (pre_read a) = 0" using assms(7) a(1) by simp
  define c where "c = one_time_copy a prefetched\<lparr>date_len := 512\<rparr>"
  have c: "mcpy_in (mem c) buf prefetched = mcpy_in (mem s) buf prefetched" "one_time_flash c prefetched = c"
    "need_rx_len c = 512" "date_len c = 512" "read_buf c = buf" "pre_read c = ?q"
    "bt_time_timeout c = 0"
    using a by (simp_all add: c_def one_time_copy_def one_time_flash_def Let_def mcpy_in_twice)
  define e where "e = accept (c\<lparr>mem := mcpy_in (mem c) buf prefetched\<rparr>)"
  have "event B (Packet prefetched) a = e"
    using a c fl assms(9) by (simp add: dev_read_update_block_handle_def e_def Let_def c_def [symmetric])
  then have "wait_loop B UPDATA_READ off 512 a [Packet prefetched, Packet wanted] =
      wait_loop B UPDATA_READ off 512 e [Packet wanted]"
    using a by (subst wait_loop.simps)
      (simp add: poll_def poll_switch_def poll_read_def no_prebuf [OF busy] assms(1))
  also have "\<dots> = Some (512, e\<lparr>read_buf := 0\<rparr>, [Packet wanted])"
    using c assms(7) by (subst wait_loop.simps)
      (simp add: poll_def poll_switch_def poll_read_def e_def no_prebuf)
  finally show ?thesis using call c(1) by (simp add: e_def)
qed

section \<open>The update as a state machine\<close>

text \<open>The abstract protocol of one update: its phases, and the library calls (with their results) that
  lead from one to the next.  \<open>Finished res\<close> ends it with a result of the library.\<close>

datatype phase = Start | Headed | Whole | Typed | Announced | Written | Verified | Cleared
  | Finished nat

inductive stage :: "phase \<Rightarrow> call \<times> nat \<Rightarrow> phase \<Rightarrow> bool" where
  "r \<noteq> 0 \<Longrightarrow> stage Start (Ufw_head, r) (Finished r)"
| "stage Start (Ufw_head, 0) Headed"
| "f \<noteq> UPDATE_PART_ALL_FLASH \<Longrightarrow> stage Headed (Parts f, r) (Finished r)"
| "r \<noteq> 0 \<Longrightarrow> stage Headed (Bin_head, r) (Finished r)"
| "stage Headed (Bin_head, 0) Whole"
| "r \<noteq> 0 \<Longrightarrow> r \<noteq> UPDATE_ERR_UBOOT_NOT_MATCH \<Longrightarrow> stage Whole (Type_check, r) (Finished r)"
| "r = 0 \<or> r = UPDATE_ERR_UBOOT_NOT_MATCH \<Longrightarrow> stage Whole (Type_check, r) Typed"
| "r \<noteq> 0 \<Longrightarrow> stage Typed (Notify n, r) (Finished UPDATE_ERR_CONN_ERR)"
| "stage Typed (Notify n, 0) Announced"
| "r \<noteq> 0 \<Longrightarrow> stage Announced (Update_process, r) (Finished r)"
| "stage Announced (Update_process, 0) Written"
| "r \<noteq> 0 \<Longrightarrow> stage Written (Verify, r) (Finished r)"
| "stage Written (Verify, 0) Verified"
| "stage Verified (Clear_record, 0) Cleared"
| "stage Cleared (Reserve_area, r) (Finished r)"

inductive path :: "trace \<Rightarrow> phase \<Rightarrow> bool" where
  path_start: "path [] Start"
| path_step: "path t p \<Longrightarrow> stage p c q \<Longrightarrow> path (t @ [c]) q"

inductive_simps stage_simps [simp]:
  "stage Start c q" "stage Headed c q" "stage Whole c q" "stage Typed c q" "stage Announced c q"
  "stage Written c q" "stage Verified c q" "stage Cleared c q" "stage (Finished r) c q"

lemma path_commit:
  "path t Verified \<Longrightarrow> commit_update L w t = Some (res, w', t') \<Longrightarrow> path t' (Finished res)"
  using path_step [OF path_step, of t Verified "(Clear_record, 0)" Cleared "(Reserve_area, res)" "Finished res"]
  by (auto simp: commit_update_def split: bind_splits)

lemma path_verify:
  assumes "path t Written" "verify_update L f w t = Some (res, w', t')"
  shows "path t' (Finished res)"
proof -
  obtain r w1 where v: "flash_all_data_verify L w = Some (r, w1)"
    using assms(2) by (auto simp: verify_update_def split: if_splits bind_splits)
  show ?thesis
  proof (cases "u8 r = 0")
    case True
    with v assms(2) have "commit_update L w1 (t @ [(Verify, 0)]) = Some (res, w', t')"
      by (auto simp: verify_update_def split: if_splits)
    with path_commit path_step [OF assms(1), of "(Verify, 0)" Verified] show ?thesis by simp
  next
    case False
    with v assms(2) have "t' = t @ [(Verify, u8 r)]" "res = u8 r"
      by (auto simp: verify_update_def split: if_splits)
    with False path_step [OF assms(1), of "(Verify, u8 r)" "Finished (u8 r)"] show ?thesis by simp
  qed
qed

text \<open>Both branches on the flag verify the whole flash.\<close>

lemma verify_flag: "verify_update L f w t = verify_update L 0 w t"
  by (simp add: verify_update_def)

lemma path_write:
  assumes "path t Whole" "write_update B L w t = Some (res, w', t')"
  shows "path t' (Finished res)"
proof -
  obtain r n w1 where ty: "update_type_check L w = Some (r, n, w1)"
    using assms(2) by (auto simp: write_update_def split: bind_splits)
  obtain s q where no: "ble_notify_update_content_size B n (fst w1) = (s, q)" by fastforce
  show ?thesis
  proof (cases "u8 r \<noteq> 0 \<and> u8 r \<noteq> UPDATE_ERR_UBOOT_NOT_MATCH")
    case True
    with ty assms(2) have "t' = t @ [(Type_check, u8 r)]" "res = u8 r"
      by (auto simp: write_update_def)
    with True path_step [OF assms(1), of "(Type_check, u8 r)" "Finished (u8 r)"] show ?thesis by simp
  next
    case go: False
    let ?t = "t @ [(Type_check, u8 r)]"
    have typed: "path ?t Typed" using go path_step [OF assms(1), of "(Type_check, u8 r)" Typed] by auto
    show ?thesis
    proof (cases "q = 0")
      case False
      with ty no go assms(2) have "t' = ?t @ [(Notify n, q)]" "res = UPDATE_ERR_CONN_ERR"
        by (auto simp: write_update_def Let_def)
      with False path_step [OF typed, of "(Notify n, q)" "Finished UPDATE_ERR_CONN_ERR"] show ?thesis by simp
    next
      case True
      let ?u = "?t @ [(Notify n, 0)]"
      have ann: "path ?u Announced" using path_step [OF typed, of "(Notify n, 0)" Announced] by simp
      from ty no go assms(2) True obtain p w2 where
        pr: "flash_update_process L (s, snd w1) = Some (p, w2)"
        by (auto simp: write_update_def Let_def split: bind_splits)
      have k: "(if u8 p = 0 then verify_update L 0 w2 (?u @ [(Update_process, u8 p)])
                 else Some (u8 p, w2, ?u @ [(Update_process, u8 p)])) = Some (res, w', t')"
        using ty no go assms(2) True pr by (auto simp: write_update_def Let_def verify_flag [of L "all_flash_update_flag L w1 n"])
      have "path (?u @ [(Update_process, u8 p)]) (if u8 p = 0 then Written else Finished (u8 p))"
        by (rule path_step [OF ann]) simp
      with k path_verify show ?thesis by (auto split: if_splits)
    qed
  qed
qed

lemma path_stages:
  assumes "update_stages B L w = Some (res, w', t)"
  shows "path t (Finished res)"
proof -
  obtain r f w1 where h: "ufw_head_check L w = Some (r, f, w1)"
    using assms by (auto simp: update_stages_def split: bind_splits)
  have st: "path [(Ufw_head, u8 r)] (if u8 r = 0 then Headed else Finished (u8 r))"
    using path_step [OF path_start, of "(Ufw_head, u8 r)" "if u8 r = 0 then Headed else Finished (u8 r)"]
    by simp
  consider "u8 r \<noteq> 0" | "u8 r = 0" "f = UPDATE_PART_ALL_FLASH" | "u8 r = 0" "f \<noteq> UPDATE_PART_ALL_FLASH"
    by blast
  then show ?thesis
  proof cases
    case 1
    with h assms st show ?thesis by (auto simp: update_stages_def Let_def)
  next
    case 2
    with h assms obtain q w2 where b: "flash_bin_head_check L w1 = Some (q, w2)"
      by (auto simp: update_stages_def split: bind_splits)
    have "path ([(Ufw_head, 0)] @ [(Bin_head, u8 q)]) (if u8 q = 0 then Whole else Finished (u8 q))"
      using st 2 by (intro path_step [of _ Headed]) auto
    with 2 h b assms path_write show ?thesis by (auto simp: update_stages_def Let_def split: if_splits)
  next
    case 3
    with h assms obtain q w2 where b: "flash_parts_update_check L f w1 = Some (q, w2)"
      by (auto simp: update_stages_def split: bind_splits)
    have "path ([(Ufw_head, 0)] @ [(Parts f, u8 q)]) (Finished (u8 q))"
      using st 3 by (intro path_step [of _ Headed]) auto
    with 3 h b assms show ?thesis by (auto simp: update_stages_def Let_def)
  qed
qed

definition mismatch :: "nat \<Rightarrow> bool" where
  "mismatch res \<longleftrightarrow> res \<in> {UPDATE_ERR_KEY_ERR, UPDATE_ERR_UBOOT_NOT_MATCH, UPDATE_ERR_PRODUCT_ID_NOT_MATCH}"

definition verdict :: "nat \<Rightarrow> nat" where
  "verdict res = (if res = 0 then DEV_UPDATA_SUCC else if mismatch res then DEV_UPDATA_KEY_ERR
                  else DEV_UPDATA_FAIL)"

lemma loop_path:
  assumes "ble_updata_loop B L w = Some (ret, w', t)"
  obtains res t0 where "path t0 (Finished res)" "ret = verdict res"
    "t = t0 @ (if mismatch res then [(Clear_record, 0)] else []) @ [(To_user res, 0)]"
proof -
  obtain res w1 t0 where st: "update_stages B L
      ((ble_updata_bfu_open B (fst w))\<lparr>ble_update_state := ble_update_state (ble_updata_bfu_open B (fst w))
         OR LMP_STA_UPDATA_ACTIVE_SCUSS\<rparr>, snd w) = Some (res, w1, t0)"
    using assms by (auto simp: ble_updata_loop_def Let_def split: bind_splits)
  with assms have "ret = verdict res"
    "t = t0 @ (if mismatch res then [(Clear_record, 0)] else []) @ [(To_user res, 0)]"
    by (auto simp: ble_updata_loop_def Let_def verdict_def mismatch_def split: bind_splits if_splits)
  with that path_stages [OF st] show ?thesis by blast
qed

text \<open>C2: The update routine implements the abstract protocol: whatever the library answers, the calls it
  makes are a run of the phase machine to a final result, after which the loader record is cleared
  when key, loader or product do not match, the result is reported to the user, and the value
  returned is the verdict on that result.\<close>

theorem update_refines_protocol:
  assumes "ble_updata_loop B L w = Some (ret, w', t)"
  shows "\<exists>res t0. path t0 (Finished res) \<and> ret = verdict res \<and>
    t = t0 @ (if mismatch res then [(Clear_record, 0)] else []) @ [(To_user res, 0)]"
  using loop_path [OF assms] by metis

text \<open>What a run has behind it in each phase, and where the two irreversible calls can stand in it.\<close>

fun behind :: "phase \<Rightarrow> trace \<Rightarrow> bool" where
  "behind Start t = (t = [])"
| "behind Headed t = (t = [(Ufw_head, 0)])"
| "behind Whole t = (t = [(Ufw_head, 0), (Bin_head, 0)])"
| "behind Typed t = (\<exists>r. t = [(Ufw_head, 0), (Bin_head, 0), (Type_check, r)] \<and> (r = 0 \<or> r = 13))"
| "behind Announced t = (\<exists>r n. t = [(Ufw_head, 0), (Bin_head, 0), (Type_check, r), (Notify n, 0)] \<and>
     (r = 0 \<or> r = 13))"
| "behind Written t = (\<exists>r n. t = [(Ufw_head, 0), (Bin_head, 0), (Type_check, r), (Notify n, 0),
     (Update_process, 0)] \<and> (r = 0 \<or> r = 13))"
| "behind Verified t = (\<exists>r n. t = [(Ufw_head, 0), (Bin_head, 0), (Type_check, r), (Notify n, 0),
     (Update_process, 0), (Verify, 0)] \<and> (r = 0 \<or> r = 13))"
| "behind Cleared t = (\<exists>r n. t = [(Ufw_head, 0), (Bin_head, 0), (Type_check, r), (Notify n, 0),
     (Update_process, 0), (Verify, 0), (Clear_record, 0)] \<and> (r = 0 \<or> r = 13))"
| "behind (Finished res) t =
    ((\<exists>r n. t = [(Ufw_head, 0), (Bin_head, 0), (Type_check, r), (Notify n, 0), (Update_process, 0),
        (Verify, 0), (Clear_record, 0), (Reserve_area, res)] \<and> (r = 0 \<or> r = 13)) \<or>
     (\<exists>f. t = [(Ufw_head, 0), (Parts f, res)]) \<or>
     (res \<noteq> 0 \<and> Clear_record \<notin> fst ` set t \<and> Reserve_area \<notin> fst ` set t))"

lemma path_behind: "path t p \<Longrightarrow> behind p t"
proof (induction rule: path.induct)
  case (path_step t p c q)
  then show ?case by (cases p) auto
qed simp

lemma verdict_simps: "verdict res = DEV_UPDATA_SUCC \<longleftrightarrow> res = 0"
  by (simp add: verdict_def)

lemma split_after: "a @ b = xs @ (c, r) # ys \<Longrightarrow> c \<notin> fst ` set a \<Longrightarrow> set a \<subseteq> set xs"
proof (induction a arbitrary: xs)
  case (Cons x a)
  then show ?case by (cases xs) auto
qed simp

text \<open>C11: The irreversible steps come last.  The loader record is cleared, and the reserved area written,
  only after the whole flash was verified, unless the update is refused because key, loader or
  product do not match (then the record alone is cleared); and the routine reports success only for
  a verified image with its reserved area written, or for a completed update of single parts.\<close>

theorem update_commits_last:
  assumes "ble_updata_loop B L w = Some (ret, w', t)"
  shows "(\<forall>xs r ys. t = xs @ (Clear_record, r) # ys \<longrightarrow>
        (Verify, 0) \<in> set xs \<or> ret = DEV_UPDATA_KEY_ERR \<and> Reserve_area \<notin> fst ` set t) \<and>
    (\<forall>xs r ys. t = xs @ (Reserve_area, r) # ys \<longrightarrow> (Verify, 0) \<in> set xs) \<and>
    (ret = DEV_UPDATA_SUCC \<longrightarrow>
      (Verify, 0) \<in> set t \<and> (Reserve_area, 0) \<in> set t \<or> (\<exists>f. (Parts f, 0) \<in> set t))"
proof -
  obtain res t0 where p: "path t0 (Finished res)" and ret: "ret = verdict res"
    and t: "t = t0 @ (if mismatch res then [(Clear_record, 0)] else []) @ [(To_user res, 0)]"
    using loop_path [OF assms] by metis
  from path_behind [OF p] consider (full) r n where
      "t0 = [(Ufw_head, 0), (Bin_head, 0), (Type_check, r), (Notify n, 0), (Update_process, 0),
        (Verify, 0), (Clear_record, 0), (Reserve_area, res)]"
    | (parts) f where "t0 = [(Ufw_head, 0), (Parts f, res)]"
    | (bad) "res \<noteq> 0" "Clear_record \<notin> fst ` set t0" "Reserve_area \<notin> fst ` set t0" by auto
  then show ?thesis
  proof cases
    case full
    let ?a = "[(Ufw_head, 0), (Bin_head, 0), (Type_check, r), (Notify n, 0), (Update_process, 0), (Verify, 0)]"
    obtain b where b: "t = ?a @ b" using full t by simp
    have v: "(Verify, 0) \<in> set xs" if "t = xs @ (c, q) # ys" "c = Clear_record \<or> c = Reserve_area" for xs c q ys
    proof -
      have "?a @ b = xs @ (c, q) # ys" using b that(1) by simp
      moreover have "c \<notin> fst ` set ?a" using that(2) by auto
      ultimately have "set ?a \<subseteq> set xs" by (rule split_after)
      then show ?thesis by simp
    qed
    have "(Verify, 0) \<in> set t" "res = 0 \<longrightarrow> (Reserve_area, 0) \<in> set t" using full t by simp_all
    then have "ret = DEV_UPDATA_SUCC \<longrightarrow> (Verify, 0) \<in> set t \<and> (Reserve_area, 0) \<in> set t"
      using ret verdict_simps by simp
    with v show ?thesis by (intro conjI allI impI) simp_all
  next
    case parts
    have nr: "Reserve_area \<notin> fst ` set t" using parts t by auto
    have nc: "Clear_record \<in> fst ` set t \<Longrightarrow> ret = DEV_UPDATA_KEY_ERR"
      using parts t ret by (auto simp: verdict_def mismatch_def split: if_splits)
    have "(Parts f, res) \<in> set t" using parts t by simp
    then have "ret = DEV_UPDATA_SUCC \<longrightarrow> (\<exists>f. (Parts f, 0) \<in> set t)" using ret verdict_simps by auto
    with nr nc show ?thesis by (intro conjI allI impI) (simp_all add: image_iff)
  next
    case bad
    have nr: "Reserve_area \<notin> fst ` set t" using bad t by auto
    have nc: "Clear_record \<in> fst ` set t \<Longrightarrow> ret = DEV_UPDATA_KEY_ERR"
      using bad t ret by (auto simp: verdict_def mismatch_def split: if_splits)
    have "ret \<noteq> DEV_UPDATA_SUCC" using bad(1) ret verdict_simps by simp
    with nr nc show ?thesis by (intro conjI allI impI) (simp_all add: image_iff)
  qed
qed

section \<open>The result reaches the peer, and the main loop ends with success\<close>

lemma result_code_range: "result_code e < DEVICE_UPDATE_STA_MAX_ERR"
  by (simp add: result_code_def)

text \<open>The result of an update is reported: from the update state the closing request is sent, and
  after at most 2001 ticks the status response that belongs to the result goes out as the last
  thing the transport is handed.\<close>

lemma result_reported:
  assumes "u_ble_status s = UPDATA_STA_BFU_UPDATE_LOOP" "2000 < ticks es"
  shows "\<exists>s' rest. update_result_handle B err (ble_updata_rsp_complete B s, es) = Some (s', rest) \<and>
    last (sent s') = Status_response (result_code err)"
proof -
  obtain r s1 rest where h: "ble_updata_handler B UPDATA_STOP 0 0 (ble_updata_rsp_complete B s, es) =
      Some (r, s1, rest)" using handler_returns [OF assms(2)] by metis
  have "u_ble_status (ble_updata_rsp_complete B s) = UPDATA_STA_BFU_UPDATE_LOOP"
    using assms(1) by (simp add: ble_updata_rsp_complete_def)
  with h result_code_range [of err] show ?thesis
    by (simp add: update_result_handle_def ble_updata_stop_def)
qed

lemma process_result:
  assumes "ble_updata_process B L w = Some (res, s, es)"
  shows "res = 0 \<or> res = DEV_UPDATA_SUCC \<and> u_ble_status s = UPDATA_STA_DISCONNECTION_COMPLETED \<and>
    last (sent s) = Dev_disconnect"
proof -
  have d: "ble_update_wait_disconnect B v = Some (s', es') \<Longrightarrow> last (sent s') = Dev_disconnect" for v s' es'
    by (auto simp: ble_update_wait_disconnect_def split: option.splits bind_splits if_splits prod.splits)
  show ?thesis
    using assms by (auto simp: ble_updata_process_def Let_def dest!: d split: if_splits bind_splits)
qed

text \<open>The main loop of the update task ends with success only: whatever the transport, the library
  and the peer do, when it returns it returns \<open>DEV_UPDATA_SUCC\<close>, after the device was disconnected.
  (So the key error that \<open>ble_updata_process\<close> means to return never gets out: the status is set to
  sleep before it is looked at.)\<close>

lemma run_returns_success:
  assumes "ble_updata_run B L w = Some (res, s, es)"
  shows "res = DEV_UPDATA_SUCC \<and> u_ble_status s = UPDATA_STA_DISCONNECTION_COMPLETED \<and>
    last (sent s) = Dev_disconnect"
proof -
  define ok :: "world \<Rightarrow> bool" where
    "ok v \<longleftrightarrow> u_ble_status (fst v) = UPDATA_STA_DISCONNECTION_COMPLETED \<and> last (sent (fst v)) = Dev_disconnect" for v
  have "run_loop B L w = Some (res, s, es)" using assms by (simp add: ble_updata_run_def split: if_splits)
  then have "fst (res, s, es) = DEV_UPDATA_SUCC \<and> ok (snd (res, s, es))"
  proof (rule run_loop.raw_induct [rotated, where P = "\<lambda>B L w r. fst r = DEV_UPDATA_SUCC \<and> ok (snd r)"])
    fix rec :: "build \<Rightarrow> lib \<Rightarrow> world \<Rightarrow> (nat \<times> world) option" and B L w r
    assume IH: "\<And>B L w r. rec B L w = Some r \<Longrightarrow> fst r = DEV_UPDATA_SUCC \<and> ok (snd r)"
      and step: "(ble_updata_process B L w \<bind> (\<lambda>(res, s, es).
        if res \<noteq> 0 then Some (res, s, es)
        else case es of [] \<Rightarrow> None | e # es' \<Rightarrow> rec B L (event B e s, es'))) = Some r"
    then obtain q s' es' where p: "ble_updata_process B L w = Some (q, s', es')"
      by (auto split: bind_splits)
    show "fst r = DEV_UPDATA_SUCC \<and> ok (snd r)"
    proof (cases "q = 0")
      case True
      with step p IH show ?thesis by (auto split: list.splits)
    next
      case False
      with step p process_result [OF p] show ?thesis by (auto simp: ok_def)
    qed
  qed
  then show ?thesis by (simp add: ok_def)
qed

section \<open>The update returns\<close>

text \<open>The library is a parameter; what is asked of it is that each of its routines returns and takes at most \<open>c\<close>
  ticks of the timer, for whatever the peer does.  That is what a routine does that makes a bounded number of block
  reads: each of them takes at most 4002 ticks (\<open>read_within\<close>).\<close>

definition left :: "nat \<Rightarrow> world \<Rightarrow> bool" where "left m w \<longleftrightarrow> m \<le> ticks (snd w)"

definition within :: "nat \<Rightarrow> (world \<Rightarrow> (nat \<times> world) option) \<Rightarrow> bool" where
  "within c f \<longleftrightarrow> (\<forall>m w. left (c + m) w \<longrightarrow> (\<exists>r w'. f w = Some (r, w') \<and> left m w'))"

definition paced :: "nat \<Rightarrow> lib \<Rightarrow> bool" where
  "paced c L \<longleftrightarrow>
    (\<forall>m w. left (c + m) w \<longrightarrow> (\<exists>r f w'. ufw_head_check L w = Some (r, f, w') \<and> left m w')) \<and>
    (\<forall>m w. left (c + m) w \<longrightarrow> (\<exists>r n w'. update_type_check L w = Some (r, n, w') \<and> left m w')) \<and>
    within c (flash_bin_head_check L) \<and> (\<forall>f. within c (flash_parts_update_check L f)) \<and>
    within c (flash_update_process L) \<and> within c (flash_all_data_verify L) \<and>
    within c (flash_update_reserve_area L) \<and> (\<forall>m w. left m w \<longrightarrow> left m (clr_update_loader_record L w)) \<and>
    (\<forall>m st r w. left m w \<longrightarrow> left m (updata_status_to_user L st r w))"

lemma left_pair [simp]: "left m (s, es) = (m \<le> ticks es)"
  by (simp add: left_def)

lemma left_less: "left m w \<Longrightarrow> k \<le> m \<Longrightarrow> left k w"
  by (simp add: left_def)

lemma withinE: "within c f \<Longrightarrow> left (c + m) w \<Longrightarrow> (\<And>r w'. f w = Some (r, w') \<Longrightarrow> left m w' \<Longrightarrow> P) \<Longrightarrow> P"
  unfolding within_def by blast

lemma pacedD:
  assumes "paced c L"
  shows "left (c + m) w \<Longrightarrow> \<exists>r f w'. ufw_head_check L w = Some (r, f, w') \<and> left m w'"
    and "left (c + m) w \<Longrightarrow> \<exists>r n w'. update_type_check L w = Some (r, n, w') \<and> left m w'"
    and "left m w \<Longrightarrow> left m (clr_update_loader_record L w)" and "left m w \<Longrightarrow> left m (updata_status_to_user L st r w)"
    and "within c (flash_bin_head_check L)" "within c (flash_parts_update_check L f)"
    "within c (flash_update_process L)" "within c (flash_all_data_verify L)" "within c (flash_update_reserve_area L)"
  using assms unfolding paced_def by blast+

text \<open>A wait, and a block read with the wait for a prefetch before it.\<close>

lemma handler_within: "within 2001 (ble_updata_handler B cmd rec n)"
  unfolding within_def
proof (intro allI impI)
  fix m w assume "left (2001 + m) w"
  moreover obtain s es where w: "w = (s, es)" by (cases w)
  ultimately have "2000 < ticks es" "2001 + m \<le> ticks es" by simp_all
  with handler_returns [of es B cmd rec n s] w show "\<exists>r w'. ble_updata_handler B cmd rec n w = Some (r, w') \<and> left m w'"
    by fastforce
qed

lemma drain_within:
  assumes "left (2001 + m) w"
  shows "\<exists>w'. drain_pre_read B fl prev n w = Some w' \<and> left m w'"
proof (cases "fl = PRE_READ_FLAG_TOGGLE_TO_DIS")
  case True
  obtain r s es where "ble_updata_handler B UPDATA_READ (u32_sub prev ONCE_UPDATE_READ_LEN) n w = Some (r, s, es)" "left m (s, es)"
    using withinE [OF handler_within assms] by (metis surj_pair)
  with True show ?thesis by (simp add: drain_pre_read_def)
next
  case False
  with assms left_less [OF assms, of m] show ?thesis by (simp add: drain_pre_read_def)
qed

lemma read_within: "within 4002 (ble_updata_read B buf n ty off)"
  unfolding within_def
proof (intro allI impI)
  fix m w assume l: "left (4002 + m) w"
  obtain s es where w: "w = (s, es)" by (cases w)
  show "\<exists>r w'. ble_updata_read B buf n ty off w = Some (r, w') \<and> left m w'"
  proof (cases "u_ble_status s = UPDATA_STA_BFU_UPDATE_LOOP")
    case False
    with w l show ?thesis by (simp add: ble_updata_read_def)
  next
    case True
    let ?fl = "\<lambda>s. pre_read_flag (pre_read s)" and ?prev = "last_addr (pre_read (read_setup s off))"
    have go: "\<exists>r w'. ble_updata_handler B UPDATA_READ off n (read_request B fl buf n ty off s1, es1) = Some (r, w') \<and> left m w'"
      if "left (2001 + m) (s1, es1)" for fl s1 es1
      by (rule handler_within [unfolded within_def, rule_format]) (use that in simp)
    show ?thesis
    proof (cases "UPDATE_PRE_READ_EN B")
      case on: True
      let ?q = "(read_setup s off)\<lparr>pre_read := get_update_pre_read_flag (pre_read (read_setup s off)) off (u16 n)\<rparr>"
      have "left (2001 + (2001 + m)) (?q, es)" using l w by simp
      from drain_within [OF this, of B "?fl ?q" ?prev n] obtain s1 es1 where
        d: "drain_pre_read B (?fl ?q) ?prev n (?q, es) = Some (s1, es1)" "left (2001 + m) (s1, es1)" by (metis surj_pair)
      with go [OF d(2), of "?fl ?q"] True on w show ?thesis by (auto simp: ble_updata_read_def Let_def)
    next
      case False
      have "left (2001 + m) (read_setup s off, es)" using l w by simp
      from go [OF this, of "?fl (read_setup s off)"] True False w show ?thesis by (auto simp: ble_updata_read_def Let_def)
    qed
  qed
qed

lemma commit_returns:
  assumes "paced c L" "left (c + m) w"
  shows "\<exists>r w' t'. commit_update L w t = Some (r, w', t') \<and> left m w'"
proof -
  obtain r w' where "flash_update_reserve_area L (clr_update_loader_record L w) = Some (r, w')" "left m w'"
    using withinE [OF pacedD(9) [OF assms(1)] pacedD(3) [OF assms]] by blast
  then show ?thesis by (simp add: commit_update_def)
qed

lemma verify_returns:
  assumes "paced c L" "left (2 * c + m) w"
  shows "\<exists>r w' t'. verify_update L f w t = Some (r, w', t') \<and> left m w'"
proof -
  have "left (c + (c + m)) w" using assms(2) by (simp add: mult_2 add.assoc)
  then obtain r w1 where "flash_all_data_verify L w = Some (r, w1)" "left (c + m) w1"
    using withinE [OF pacedD(8) [OF assms(1)]] by blast
  with commit_returns [OF assms(1), of m w1] left_less [of "c + m" w1 m] show ?thesis
    by (cases "u8 r = 0") (simp_all add: verify_flag [of L f] verify_update_def)
qed

lemma write_returns:
  assumes "paced c L" "left (4 * c + m) w"
  shows "\<exists>r w' t'. write_update B L w t = Some (r, w', t') \<and> left m w'"
proof -
  have "left (c + (3 * c + m)) w" using assms(2) by (simp add: add.assoc [symmetric])
  then obtain r n w1 where ty: "update_type_check L w = Some (r, n, w1)" "left (3 * c + m) w1"
    using pacedD(2) [OF assms(1)] by blast
  obtain s q where no: "ble_notify_update_content_size B n (fst w1) = (s, q)" by fastforce
  have al: "left (c + (2 * c + m)) (s, snd w1)" using ty(2) by (cases w1) simp
  obtain p w2 where p: "flash_update_process L (s, snd w1) = Some (p, w2)" "left (2 * c + m) w2"
    using withinE [OF pacedD(7) [OF assms(1)] al] by blast
  have "left m w1" "left m w2" "left m (s, snd w1)"
    using left_less [OF ty(2), of m] left_less [OF p(2), of m] left_less [OF al, of m] by simp_all
  with ty no p verify_returns [OF assms(1) p(2)] show ?thesis
    by (cases w1; cases w2) (simp add: write_update_def Let_def)
qed

lemma stages_return:
  assumes "paced c L" "left (6 * c + m) w"
  shows "\<exists>r w' t'. update_stages B L w = Some (r, w', t') \<and> left m w'"
proof -
  have "left (c + (5 * c + m)) w" using assms(2) by (simp add: add.assoc [symmetric])
  then obtain r f w1 where h: "ufw_head_check L w = Some (r, f, w1)" "left (5 * c + m) w1"
    using pacedD(1) [OF assms(1)] by blast
  have l: "left (c + (4 * c + m)) w1" using h(2) by (simp add: add.assoc [symmetric])
  obtain p w2 where b: "flash_bin_head_check L w1 = Some (p, w2)" "left (4 * c + m) w2"
    using withinE [OF pacedD(5) [OF assms(1)] l] by blast
  obtain q w3 where pa: "flash_parts_update_check L f w1 = Some (q, w3)" "left (4 * c + m) w3"
    using withinE [OF pacedD(6) [OF assms(1)] l] by blast
  have "left m w1" "left m w2" "left m w3"
    using left_less [OF h(2), of m] left_less [OF b(2), of m] left_less [OF pa(2), of m] by simp_all
  with h b pa write_returns [OF assms(1) b(2)] show ?thesis
    by (cases w1; cases w2; cases w3; cases "f = UPDATE_PART_ALL_FLASH"; cases "u8 p = 0")
      (simp_all add: update_stages_def Let_def)
qed

lemma result_returns:
  assumes "left (2001 + m) w"
  shows "\<exists>w'. update_result_handle B err w = Some w' \<and> left m w'"
proof (cases "u_ble_status (fst w) = UPDATA_STA_BFU_UPDATE_LOOP")
  case True
  obtain r s es where "ble_updata_handler B UPDATA_STOP 0 0 w = Some (r, s, es)" "left m (s, es)"
    using withinE [OF handler_within assms] by (metis surj_pair)
  with True result_code_range [of err] show ?thesis
    by (simp add: update_result_handle_def ble_updata_stop_def)
qed (use left_less [OF assms, of m] in \<open>simp add: update_result_handle_def ble_updata_stop_def\<close>)

text \<open>C19: An update comes to an end, whatever the peer and the connection do.  If each routine of the library
  returns within \<open>c\<close> ticks of the timer - a routine that makes \<open>k\<close> block reads takes at most \<open>4002 * k\<close> - then the
  update routine returns a verdict within \<open>6 * c + 2001\<close> ticks: six routines at most are called one after another,
  and the wait for the peer's closing request has its own time limit.  The ticks beyond that are left.\<close>

theorem update_returns:
  assumes "paced c L" "left (6 * c + 2001 + m) w"
  shows "\<exists>ret w' t. ble_updata_loop B L w = Some (ret, w', t) \<and>
    ret \<in> {DEV_UPDATA_SUCC, DEV_UPDATA_FAIL, DEV_UPDATA_KEY_ERR} \<and> left m w'"
proof -
  define s where "s = (ble_updata_bfu_open B (fst w))\<lparr>ble_update_state :=
    ble_update_state (ble_updata_bfu_open B (fst w)) OR LMP_STA_UPDATA_ACTIVE_SCUSS\<rparr>"
  have "left (6 * c + (2001 + m)) (s, snd w)" using assms(2) by (cases w) simp
  from stages_return [OF assms(1) this, of B] obtain res w1 t where
    st: "update_stages B L (s, snd w) = Some (res, w1, t)" "left (2001 + m) w1" by blast
  define w2 where "w2 = updata_status_to_user L 1 res
    (if res \<noteq> 0 \<and> mismatch res then clr_update_loader_record L w1 else w1)"
  have "left (2001 + m) w2" unfolding w2_def
    by (rule pacedD(4) [OF assms(1)]) (use pacedD(3) [OF assms(1) st(2)] st(2) in simp)
  then have "left (2001 + m) (ble_updata_rsp_complete B (fst w2), snd w2)" by (cases w2) simp
  from result_returns [OF this, of B "u8 res"] obtain w3 where
    "update_result_handle B (u8 res) (ble_updata_rsp_complete B (fst w2), snd w2) = Some w3" "left m w3" by blast
  with st(1) show ?thesis
    by (cases w3) (auto simp: ble_updata_loop_def s_def [symmetric] Let_def w2_def mismatch_def)
qed

section \<open>Concrete runs\<close>

text \<open>A library that finds everything in order, one that refuses the image, and a transport.\<close>

definition ex_lib :: "nat \<Rightarrow> lib" where
  "ex_lib r = \<lparr>ufw_head_check = (\<lambda>w. Some (0, UPDATE_PART_ALL_FLASH, w)),
    flash_bin_head_check = (\<lambda>w. Some (r, w)), flash_parts_update_check = (\<lambda>_ w. Some (0, w)),
    update_type_check = (\<lambda>w. Some (0, 4096, w)), check_flash_is_ze = (\<lambda>_. False),
    flash_update_process = (\<lambda>w. Some (0, w)), flash_all_data_verify = (\<lambda>w. Some (0, w)),
    flash_update_reserve_area = (\<lambda>w. Some (0, w)), clr_update_loader_record = (\<lambda>w. w),
    updata_status_to_user = (\<lambda>_ _ w. w)\<rparr>"

definition ex_build :: "bool \<Rightarrow> build" where
  "ex_build pre = \<lparr>UPDATE_PRE_READ_EN = pre, update_temp_buf = 8192,
    p_update_op = Some \<lparr>data_send = True, notify_update_content_size = None,
      get_number_of_pkt_sending = None, task_run = None, dev_disconnect = True\<rparr>\<rparr>"

definition ex_upd :: upd where
  "ex_upd = \<lparr>ble_update_state = 0, btupdata_sw = 3, date_len = 0, need_rx_len = 2,
    flash_write_addr = 0, once_write_len = 512, once_rx_len = 0, read_buf = 4096,
    wait_timeout_instant = 0, updata_write_flash_flag = 0,
    u_ble_status = UPDATA_STA_BFU_UPDATE_LOOP, u_led_status = UPDATA_STA_LED_FILCKER,
    jl_device_update_status = 2, reboot_status = 1, ble_file_offset = 0, g_bfu_burn_start_addr = 0,
    pre_read = \<lparr>pre_read_cnt = 0, pre_read_flag = 0, buf_busy_flag = 0, curr_file_offset = 0,
      last_addr = 0, buf0 = 8192, buf0_addr = 0, buf1 = 8704, buf1_addr = 0\<rparr>,
    bt_time_timeout = 0, tmr_2ms_cnt = 0, mem = (\<lambda>_. 0), sent = []\<rparr>"

lemmas ex_defs = ex_lib_def ex_build_def ex_upd_def
lemmas run_defs = ble_updata_process_def ble_updata_loop_def update_stages_def write_update_def
  verify_update_def commit_update_def ble_updata_bfu_open_def ble_notify_update_content_size_def
  ble_updata_rsp_complete_def ble_updata_control_def update_result_handle_def ble_updata_stop_def
  result_code_def ble_updata_handler_def poll_def poll_switch_def poll_reply_def accept_def
  accepted_def dev_update_status_req_handle_def jl_update_get_reboot_sta_def
  ble_update_wait_reboot_cmd_def ble_update_wait_disconnect_def jl_update_set_reboot_status_def
  all_flash_update_flag_def LMP_STA_UPDATA_ACCEPT_def LMP_STA_UPDATA_ACTIVE_SCUSS_def

lemma ticks_replicate [simp]: "ticks (replicate n Tick) = n"
  by (simp add: ticks_def)

lemma handler_deadline_witness:
  "\<exists>r s' used rest. ble_updata_handler (ex_build False) 0 0 0 (ex_upd, replicate 2001 Tick) =
      Some (r, s', rest) \<and> replicate 2001 Tick = used @ rest \<and> ticks used \<le> 2001"
  using handler_deadline [of "replicate 2001 Tick" "ex_build False" 0 0 0 ex_upd] by simp

theorem read_delivers_witness:
  "(\<exists>s'. ble_updata_read (ex_build True) 4096 2 0 77 (ex_upd, [Tick, Packet [9]] @ Packet [1, 2] # []) = Some (2, s', []) \<and>
      (\<forall>i < 2. mem s' (4096 + i) = [1, 2] ! i) \<and> mem s' = mcpy_in (mem ex_upd) 4096 [1, 2] \<and> read_buf s' = 0 \<and>
      sent s' = sent ex_upd @ [Data_send UPDATA_READ_OFFSIZE 0 77 2]) \<and>
   (\<exists>s' used rest. ble_updata_read (ex_build True) 4096 2 0 77 (ex_upd, Packet [9] # replicate 2001 Tick) = Some (0, s', rest) \<and>
      mem s' = mem ex_upd \<and> Packet [9] # replicate 2001 Tick = used @ rest \<and> ticks used \<le> 2001)"
proof -
  have st: "quiet (ex_build True) ex_upd \<and> (UPDATE_PRE_READ_EN (ex_build True) \<longrightarrow>
      pre_read_flag (next_ctl (ex_build True) ex_upd 77 2) = 0)"
    by (simp add: quiet_def next_ctl_def get_update_pre_read_flag_def ex_defs u16_def)
  have d: "p_update_op (ex_build True) = Some (the (p_update_op (ex_build True)))" "data_send (the (p_update_op (ex_build True)))"
    "u_ble_status ex_upd = UPDATA_STA_BFU_UPDATE_LOOP" "updata_write_flash_flag ex_upd = 0" by (simp_all add: ex_defs)
  note r = read_delivers [OF st d(1-3), of 4096 0]
  have "\<forall>bs. Packet bs \<in> set (Packet [9] # replicate 2001 Tick) \<longrightarrow> length bs \<noteq> 2"
    "2000 < ticks (Packet [9] # replicate 2001 Tick)" by simp_all
  with r [THEN conjunct2, THEN spec, of "Packet [9] # replicate 2001 Tick"]
    r [THEN conjunct1, THEN spec, THEN spec, THEN spec, of "[1, 2]" "[Tick, Packet [9]]" "[]"] d(4)
  show ?thesis by auto
qed

theorem packet_confined_witness:
  "mem (event (ex_build True) (Packet [7, 8]) (ble_updata_bfu_open (ex_build True) ex_upd)) 4098 = 0 \<and>
   mem (event (ex_build True) (Packet [7, 8]) (ble_updata_bfu_open (ex_build True) ex_upd)) 4097 = 8"
proof -
  let ?s = "ble_updata_bfu_open (ex_build True) ex_upd"
  have s: "session (ex_build True) ?s" by (rule session.opened) (simp add: ex_defs)
  have "mem (event (ex_build True) (Packet [7, 8]) ?s) 4098 = mem ?s 4098"
    by (rule packet_confined [OF s, of "[7, 8]", THEN conjunct2, THEN conjunct1, THEN spec, THEN mp])
      (simp_all add: ex_defs ble_updata_bfu_open_def update_pre_read_ctl_init_def moved_def)
  then show ?thesis
    by (simp add: ex_defs ble_updata_bfu_open_def update_pre_read_ctl_init_def
      dev_read_update_block_handle_def one_time_copy_def one_time_flash_def mcpy_in_def accept_def)
qed

lemma ex_refused: "ble_updata_loop (ex_build False) (ex_lib 12) (ex_upd, [Status_request]) =
    Some (DEV_UPDATA_KEY_ERR, (ex_upd\<lparr>ble_update_state := 0x6000, btupdata_sw := 6, need_rx_len := 0,
      sent := [Data_send 0 0 0 0, Status_response 3]\<rparr>, []),
      [(Ufw_head, 0), (Bin_head, 12), (Clear_record, 0), (To_user 12, 0)])"
  by (simp add: ex_defs run_defs wait_loop.simps)

theorem update_refines_protocol_witness:
  "\<exists>res t0. path t0 (Finished res) \<and> DEV_UPDATA_KEY_ERR = verdict res \<and>
    [(Ufw_head, 0), (Bin_head, 12), (Clear_record, 0), (To_user 12, 0)] =
      t0 @ (if mismatch res then [(Clear_record, 0)] else []) @ [(To_user res, 0)]"
  by (rule update_refines_protocol [OF ex_refused])

theorem update_commits_last_witness:
  "(Verify, 0) \<in> set [(Ufw_head, 0), (Bin_head, 12 :: nat)] \<or>
    DEV_UPDATA_KEY_ERR = DEV_UPDATA_KEY_ERR \<and>
    Reserve_area \<notin> fst ` set [(Ufw_head, 0), (Bin_head, 12), (Clear_record, 0), (To_user 12, 0 :: nat)]"
  using update_commits_last [OF ex_refused, THEN conjunct1, THEN spec, THEN spec, THEN spec,
      of "[(Ufw_head, 0), (Bin_head, 12)]" 0 "[(To_user 12, 0)]"] by simp

lemma result_reported_witness:
  "\<exists>s' rest. update_result_handle (ex_build False) 12
      (ble_updata_rsp_complete (ex_build False) ex_upd, replicate 2001 Tick) = Some (s', rest) \<and>
    last (sent s') = Status_response (result_code 12)"
  by (rule result_reported) (simp_all add: ex_upd_def)

lemma ex_run: "\<exists>s. ble_updata_run (ex_build False) (ex_lib 0) (ex_upd, [Status_request, Reboot_query]) =
    Some (1, s, [])"
  unfolding ble_updata_run_def
  by (subst run_loop.simps) (simp add: ex_defs run_defs wait_loop.simps)

lemma run_returns_success_witness:
  "\<exists>s. ble_updata_run (ex_build False) (ex_lib 0) (ex_upd, [Status_request, Reboot_query]) = Some (1, s, []) \<and>
    u_ble_status s = UPDATA_STA_DISCONNECTION_COMPLETED"
proof -
  obtain s where s: "ble_updata_run (ex_build False) (ex_lib 0) (ex_upd, [Status_request, Reboot_query]) =
    Some (1, s, [])" using ex_run by blast
  from run_returns_success [OF s] s show ?thesis by blast
qed

text \<open>A library whose six routines read a block each, from a peer that is silent: each read waits for its time limit.\<close>

definition ex_reading :: lib where
  "ex_reading = (let rd = ble_updata_read (ex_build True) 4096 512 0 in
     \<lparr>ufw_head_check = (\<lambda>w. map_option (\<lambda>(_, w). (0, UPDATE_PART_ALL_FLASH, w)) (rd 0 w)),
      flash_bin_head_check = (\<lambda>w. map_option (\<lambda>(_, w). (0, w)) (rd 512 w)),
      flash_parts_update_check = (\<lambda>_ w. map_option (\<lambda>(_, w). (0, w)) (rd 1024 w)),
      update_type_check = (\<lambda>w. map_option (\<lambda>(_, w). (0, 4096, w)) (rd 1536 w)),
      check_flash_is_ze = (\<lambda>_. False), flash_update_process = rd 2048, flash_all_data_verify = rd 2560,
      flash_update_reserve_area = rd 3072, clr_update_loader_record = (\<lambda>w. w), updata_status_to_user = (\<lambda>_ _ w. w)\<rparr>)"

lemma ex_reading_paced: "paced 4002 ex_reading"
proof -
  have w: "within 4002 (\<lambda>w. map_option (\<lambda>(_, w). (0, w)) (ble_updata_read (ex_build True) 4096 512 0 off w))" for off
    unfolding within_def
  proof (intro allI impI)
    fix m w assume "left (4002 + m) w"
    from withinE [OF read_within this, of "ex_build True" 4096 512 0 off] obtain r w' where
      "ble_updata_read (ex_build True) 4096 512 0 off w = Some (r, w')" "left m w'" by blast
    then show "\<exists>r w'. map_option (\<lambda>(_, w). (0, w)) (ble_updata_read (ex_build True) 4096 512 0 off w) = Some (r, w') \<and> left m w'"
      by simp
  qed
  have h: "\<exists>w'. ble_updata_read (ex_build True) 4096 512 0 off w = Some (fst w', snd w') \<and> left m (snd w')"
    if "left (4002 + m) w" for m w off
    using withinE [OF read_within that, of "ex_build True" 4096 512 0 off] by (metis fst_conv snd_conv)
  have t: "\<exists>r f w'. map_option (\<lambda>(_, w). (a, b, w)) (ble_updata_read (ex_build True) 4096 512 0 off w) = Some (r, f, w') \<and> left m w'"
    if "left (4002 + m) w" for m w off and a b :: nat
    using h [OF that, of off] by auto
  show ?thesis
    unfolding paced_def ex_reading_def Let_def using w t read_within by simp
qed

theorem update_returns_witness:
  "\<exists>ret w' t. ble_updata_loop (ex_build True) ex_reading (ex_upd, replicate 26023 Tick) = Some (ret, w', t) \<and>
    ret \<in> {DEV_UPDATA_SUCC, DEV_UPDATA_FAIL, DEV_UPDATA_KEY_ERR} \<and> left 10 w'"
  by (rule update_returns [OF ex_reading_paced]) simp

end
