(* ===== verification/Block_Source.thy ===== *)
theory Block_Source
  imports ByteMem
begin

text \<open>
  The contract between the update library and the file interfaces of the loader, as a locale: a fetch
  of a block puts the bytes of the upgrade file at the library's buffer and leaves the interface ready
  for the next one.  What the peer and the environment do meanwhile is a list of events, of which a
  fetch consumes the first ones; \<open>answers\<close> says which events answer a fetch.  \<open>UpdateSource\<close>
  interprets the locale on the block reads over Bluetooth and USB, \<open>NetSource\<close> on those from a phone,
  \<open>HttpSource\<close> on those from an HTTP server.
\<close>

section \<open>Sequences of fetches\<close>

text \<open>A request is a buffer, an offset in the file and a length.\<close>

type_synonym block_req = "addr \<times> nat \<times> nat"
type_synonym ('w, 'e) fetcher = "addr \<Rightarrow> nat \<Rightarrow> nat \<Rightarrow> 'w \<times> 'e list \<Rightarrow> ('w \<times> 'e list) option"

fun fetch_all :: "('w, 'e) fetcher \<Rightarrow> block_req list \<Rightarrow> 'w \<times> 'e list \<Rightarrow> ('w \<times> 'e list) option" where
  "fetch_all f [] w = Some w"
| "fetch_all f ((b, a, n) # rs) w = Option.bind (f b a n w) (fetch_all f rs)"

text \<open>The events of a sequence: those that answer each fetch in the state it is made in.\<close>

inductive answered :: "('w, 'e) fetcher \<Rightarrow> (nat \<Rightarrow> nat \<Rightarrow> 'w \<Rightarrow> 'e list \<Rightarrow> bool) \<Rightarrow> block_req list \<Rightarrow>
    'w \<Rightarrow> 'e list \<Rightarrow> 'e list \<Rightarrow> bool" for f h where
  answered_Nil: "answered f h [] w es es"
| answered_Cons: "h a n w evs \<Longrightarrow> (\<And>w'. f b a n (w, evs @ es) = Some (w', es) \<Longrightarrow> answered f h rs w' es rest) \<Longrightarrow>
    answered f h ((b, a, n) # rs) w (evs @ es) rest"

inductive_cases answered_NilE: "answered f h [] w es rest"
inductive_cases answered_ConsE: "answered f h ((b, a, n) # rs) w es rest"

definition file_bytes :: "(nat \<Rightarrow> byte) \<Rightarrow> nat \<Rightarrow> nat \<Rightarrow> byte list" where
  "file_bytes file a n = map file [a..<a + n]"

lemma length_file_bytes [simp]: "length (file_bytes file a n) = n"
  by (simp add: file_bytes_def)

lemma file_bytes_append: "file_bytes file a m @ file_bytes file (a + m) n = file_bytes file a (m + n)"
  using upt_add_eq_append [of a "a + m" n] by (simp add: file_bytes_def add.assoc)

text \<open>The buffers after a sequence, and the sequence that reads a part of the file block by block.\<close>

lemma mcpy_in_before:
  "length xs = n \<Longrightarrow> mcpy_in (mcpy_in m (b + n) ys) b xs = mcpy_in m b (xs @ ys)"
  by (rule ext) (auto simp: mcpy_in_def nth_append)

fun stored :: "(nat \<Rightarrow> byte) \<Rightarrow> block_req list \<Rightarrow> memory \<Rightarrow> memory" where
  "stored file [] m = m"
| "stored file ((b, a, n) # rs) m = stored file rs (mcpy_in m b (file_bytes file a n))"

fun blockwise :: "addr \<Rightarrow> nat \<Rightarrow> nat \<Rightarrow> nat \<Rightarrow> block_req list" where
  "blockwise b a n 0 = []"
| "blockwise b a n (Suc k) = (b, a, n) # blockwise (b + n) (a + n) n k"

lemma stored_blockwise: "stored file (blockwise b a n k) m = mcpy_in m b (file_bytes file a (k * n))"
proof (induction k arbitrary: b a m)
  case 0
  show ?case by (simp add: file_bytes_def)
next
  case (Suc k)
  show ?case
    using mcpy_in_append [of m b "file_bytes file a n" "file_bytes file (a + n) (k * n)"]
    by (simp add: Suc file_bytes_append)
qed

lemma stored_append: "stored img (rs @ rs') m = stored img rs' (stored img rs m)"
proof (induction rs arbitrary: m)
  case (Cons r rs)
  show ?case by (cases r) (simp add: Cons)
qed simp

text \<open>From the last block down to the first it comes to the same.\<close>

lemma stored_blockwise_down:
  "stored img (rev (blockwise b a n k)) m = mcpy_in m b (file_bytes img a (k * n))"
proof (induction k arbitrary: b a m)
  case 0
  show ?case by (simp add: file_bytes_def)
next
  case (Suc k)
  have "stored img (rev (blockwise b a n (Suc k))) m =
      mcpy_in (mcpy_in m (b + n) (file_bytes img (a + n) (k * n))) b (file_bytes img a n)"
    by (simp add: stored_append Suc)
  also have "\<dots> = mcpy_in m b (file_bytes img a n @ file_bytes img (a + n) (k * n))"
    by (rule mcpy_in_before) simp
  also have "\<dots> = mcpy_in m b (file_bytes img a (Suc k * n))" by (simp add: file_bytes_append)
  finally show ?case .
qed

lemma set_blockwise: "r \<in> set (blockwise b a n k) \<Longrightarrow> \<exists>i<k. r = (b + i * n, a + i * n, n)"
proof (induction k arbitrary: b a)
  case (Suc k)
  show ?case
  proof (cases "r = (b, a, n)")
    case True
    then show ?thesis by (intro exI [of _ 0]) simp
  next
    case False
    then obtain i where "i < k" "r = (b + n + i * n, a + n + i * n, n)" using Suc by auto
    then show ?thesis by (intro exI [of _ "Suc i"]) (simp add: add.assoc)
  qed
qed simp

section \<open>The contract\<close>

locale block_source =
  fixes fetch :: "('w, 'e) fetcher"
    and buffers :: "'w \<Rightarrow> memory"
    and ready :: "'w \<Rightarrow> bool"
    and fits :: "block_req \<Rightarrow> bool"
    and answers :: "nat \<Rightarrow> nat \<Rightarrow> 'w \<Rightarrow> 'e list \<Rightarrow> bool"
    and img :: "nat \<Rightarrow> byte"
  assumes fetch_block: "\<lbrakk>ready w; fits (b, a, n); answers a n w evs\<rbrakk> \<Longrightarrow>
    \<exists>w'. fetch b a n (w, evs @ es) = Some (w', es) \<and> ready w' \<and>
      buffers w' = mcpy_in (buffers w) b (file_bytes img a n)"
begin

text \<open>A sequence of fetches in any order, with any gaps and repetitions, stores the blocks of the file.\<close>

lemma fetch_all_stores:
  assumes "answered fetch answers rs w es rest" "ready w" "\<forall>r \<in> set rs. fits r"
  shows "\<exists>w'. fetch_all fetch rs (w, es) = Some (w', rest) \<and> ready w' \<and> buffers w' = stored img rs (buffers w)"
  using assms
proof (induction rs w es rest rule: answered.induct)
  case (answered_Nil w es)
  then show ?case by simp
next
  case (answered_Cons a n w evs b es rs rest)
  from answered_Cons.prems have "ready w" "fits (b, a, n)" by auto
  from fetch_block [OF this answered_Cons.hyps(1)] obtain w' where
    f: "fetch b a n (w, evs @ es) = Some (w', es)" and r: "ready w'"
    and m: "buffers w' = mcpy_in (buffers w) b (file_bytes img a n)" by blast
  from answered_Cons.IH [OF f r] answered_Cons.prems(2) f m show ?case by auto
qed

text \<open>Read block by block, upwards or downwards, a part of the file lies in the memory as a whole.\<close>

lemma fetch_part:
  assumes "rs = blockwise b a n k \<or> rs = rev (blockwise b a n k)"
    and "answered fetch answers rs w es rest" "ready w" "\<And>i. i < k \<Longrightarrow> fits (b + i * n, a + i * n, n)"
  shows "\<exists>w'. fetch_all fetch rs (w, es) = Some (w', rest) \<and> ready w' \<and>
    buffers w' = mcpy_in (buffers w) b (file_bytes img a (k * n))"
proof -
  have "fits r" if "r \<in> set rs" for r
  proof -
    have "r \<in> set (blockwise b a n k)" using that assms(1) by auto
    then obtain i where "i < k" "r = (b + i * n, a + i * n, n)" using set_blockwise by blast
    with assms(4) show ?thesis by simp
  qed
  hence f: "\<forall>r \<in> set rs. fits r" by blast
  have "stored img rs (buffers w) = mcpy_in (buffers w) b (file_bytes img a (k * n))"
    using assms(1) stored_blockwise stored_blockwise_down by metis
  with fetch_all_stores [OF assms(2,3) f] show ?thesis by simp
qed

end

end
