(* ===== verification/UpdateSource.thy ===== *)
theory UpdateSource
  imports UpdateMain_Spec Block_Source
begin

text \<open>
  The block reads over USB-HID and Bluetooth as a source of blocks for the update library.  A packet
  that answers a request made ahead goes to the caller's buffer and to the first read-ahead buffer,
  from which the read is served; in a run of reads of descending offsets what is under way is always
  the next block wanted.  The contract of \<open>Block_Source\<close> is interpreted on these reads, so the
  library gets the image as the peer holds it.
\<close>

section \<open>Requests\<close>

text \<open>The block requests among what the transport was handed: offset and length, in order.\<close>

definition requests :: "action list \<Rightarrow> (nat \<times> nat) list" where
  "requests acts = concat (map (\<lambda>a. case a of
     Data_send c _ off len \<Rightarrow> if c = UPDATA_READ_OFFSIZE then [(off, len)] else [] | _ \<Rightarrow> []) acts)"

lemma requests_append [simp]: "requests (xs @ ys) = requests xs @ requests ys"
  by (simp add: requests_def)

lemma requests_simps [simp]:
  "requests [] = []" "requests (Data_send UPDATA_READ_OFFSIZE ty off len # acts) = (off, len) # requests acts"
  "requests (Flash_write bs a n # acts) = requests acts"
  by (simp_all add: requests_def)

lemma asked_requests:
  assumes "p_update_op B = Some ops" "data_send ops" "fl = (if UPDATE_PRE_READ_EN B then pre_read_flag (next_ctl B s off n) else 0)"
  shows "requests (sent (asked B buf n ty off s)) = requests (sent s) @ (if fl = 3 then u32_sub off 512 else off, u16 n) #
    (if fl = 2 then [(u32_sub off 512, u16 n)] else [])"
  using assms by (simp add: asked_def read_request_def ble_updata_control_def arm_read_def read_setup_def Let_def)

section \<open>Reading ahead\<close>

text \<open>A packet that was asked for ahead goes to the caller's buffer and to the first read-ahead buffer.\<close>

lemma prefetch_answer:
  assumes "UPDATE_PRE_READ_EN B" "0 < pre_read_flag (pre_read s)" "armed 512 s" "length bs = 512"
    "buf_busy_flag (pre_read s) = 0" "once_rx_len s = 0" "once_write_len s = 512" "read_buf s \<noteq> 0"
    and "p = dev_read_update_block_handle B s bs"
  shows "mem p = mcpy_in (mcpy_in (mem s) (read_buf s) bs) (buf0 (pre_read s)) bs"
    and "pre_read p = (pre_read s)\<lparr>buf_busy_flag := 1, buf0_addr := curr_file_offset (pre_read s),
      curr_file_offset := u32_sub (curr_file_offset (pre_read s)) 512\<rparr>"
    and "u_ble_status p = u_ble_status s" "updata_write_flash_flag p = updata_write_flash_flag s"
    and "read_buf p = read_buf s" "bt_time_timeout p = bt_time_timeout s" "requests (sent p) = requests (sent s)"
proof -
  let ?f = "one_time_flash (one_time_copy s bs\<lparr>date_len := 512\<rparr>) bs"
  have sw: "btupdata_sw s = UPDATA_READ" "need_rx_len s = 512" using assms(3) by (auto simp: armed_def)
  have p: "p = pre_read_store ?f bs"
    using sw assms by (simp add: dev_read_update_block_handle_def Let_def)
  have m: "mem ?f = mcpy_in (mem s) (read_buf s) bs"
    using assms sw by (simp add: one_time_flash_def one_time_copy_def Let_def u16_def)
  have pr: "pre_read ?f = pre_read s" "date_len ?f = 512" using assms by simp_all
  show "mem p = mcpy_in (mcpy_in (mem s) (read_buf s) bs) (buf0 (pre_read s)) bs"
    using assms(4,5) by (simp add: p pre_read_store_def Let_def pr m)
  show "pre_read p = (pre_read s)\<lparr>buf_busy_flag := 1, buf0_addr := curr_file_offset (pre_read s),
      curr_file_offset := u32_sub (curr_file_offset (pre_read s)) 512\<rparr>"
    using assms(4,5) by (simp add: p pre_read_store_def Let_def pr)
  show "u_ble_status p = u_ble_status s" "read_buf p = read_buf s" "bt_time_timeout p = bt_time_timeout s"
    by (simp_all add: p)
  have "sent ?f = sent s \<or> (\<exists>a. sent ?f = sent s @ [Flash_write bs a FLASH_WRITE_ONCE_LEN])"
    by (simp add: one_time_flash_def one_time_copy_def Let_def)
  moreover have "sent p = sent ?f" by (simp add: p pre_read_store_def Let_def split: prod.splits)
  ultimately show "requests (sent p) = requests (sent s)" by auto
  show "updata_write_flash_flag p = updata_write_flash_flag s"
    by (simp add: p pre_read_store_def one_time_flash_def one_time_copy_def Let_def split: prod.splits)
qed

text \<open>A run of reads keeps or switches on reading ahead; what is under way then is the block it wants next.\<close>

lemma get_flag_cases:
  assumes "pre_read_flag p \<in> {0, 2, 3}" "pre_read_flag p \<noteq> 0 \<longrightarrow> n = 512 \<and> a = u32_sub (last_addr p) 512"
    and "q = get_update_pre_read_flag p a n"
  shows "pre_read_flag q = 0 \<or> n = 512 \<and>
    (pre_read_flag q = 2 \<and> pre_read_flag p = 0 \<or>
     pre_read_flag q = 3 \<and> pre_read_flag p \<noteq> 0 \<and> a = u32_sub (last_addr p) 512)"
  using assms by (auto simp: get_update_pre_read_flag_def Let_def split: if_splits)

lemma read_ahead_served:
  assumes B: "UPDATE_PRE_READ_EN B" "p_update_op B = Some ops" "data_send ops"
    and s: "u_ble_status s = UPDATA_STA_BFU_UPDATE_LOOP" "buf_busy_flag (pre_read s) = 0" "buf0 (pre_read s) \<noteq> 0"
    and q: "q = get_update_pre_read_flag (pre_read s) off 512"
      "pre_read_flag q = 2 \<or> pre_read_flag q = 3 \<and> curr_file_offset (pre_read s) = off"
    and n: "length bs = 512" "buf \<noteq> 0" "\<forall>e \<in> set noise. idle 512 e" "ticks noise \<le> 2000"
      "Conn DEV_CONN_STATE_CONNECTED \<notin> set noise"
  shows "\<exists>s'. ble_updata_read B buf 512 ty off (s, noise @ Packet bs # es) = Some (512, s', es) \<and>
    mem s' = mcpy (mcpy_in (mcpy_in (mem s) buf bs) (buf0 (pre_read s)) bs) buf (buf0 (pre_read s)) 512 \<and>
    pre_read s' = q\<lparr>buf_busy_flag := 0, buf0_addr := off, curr_file_offset := u32_sub off 512\<rparr> \<and>
    updata_write_flash_flag s' = updata_write_flash_flag s \<and> u_ble_status s' = UPDATA_STA_BFU_UPDATE_LOOP \<and>
    requests (sent s') = requests (sent (asked B buf 512 ty off s))"
proof -
  define a where "a = (read_request B (pre_read_flag q) buf 512 ty off ((read_setup s off)\<lparr>pre_read := q\<rparr>))\<lparr>bt_time_timeout := 0\<rparr>"
  have u: "u16 512 = 512" by (simp add: u16_def)
  have call: "ble_updata_read B buf 512 ty off (s, es') = wait_loop B UPDATA_READ off 512 a es'" for es'
    using B s(1) q by (auto simp: ble_updata_read_def ble_updata_handler_def a_def Let_def drain_pre_read_def read_setup_def u)
  have as: "sent a = sent (asked B buf 512 ty off s)"
    using B(1) q(1) by (simp add: a_def asked_def next_ctl_def u)
  have ctl: "buf_busy_flag q = 0" "buf0 q = buf0 (pre_read s)" "curr_file_offset q = curr_file_offset (pre_read s)"
    using s(2) by (simp_all add: q(1) get_flag_simps)
  have a: "armed 512 a" "mem a = mem s" "read_buf a = buf" "once_rx_len a = 0" "once_write_len a = 512"
    "bt_time_timeout a = 0" "updata_write_flash_flag a = updata_write_flash_flag s"
    "u_ble_status a = UPDATA_STA_BFU_UPDATE_LOOP" "pre_read a = q\<lparr>curr_file_offset := off\<rparr>"
    using B s(1) q(2) ctl not_accepted_arm [of "(read_setup s off)\<lparr>pre_read := q\<rparr>" buf 512]
    by (auto simp: a_def read_request_def ble_updata_control_def read_setup_def arm_read_def armed_def accepted_def Let_def)
  have qa: "quiet B a" using ctl(1) by (simp add: quiet_def a(9))
  obtain c t where w: "wait_loop B UPDATA_READ off 512 a (noise @ Packet bs # es) =
      wait_loop B UPDATA_READ off 512 (a\<lparr>bt_time_timeout := c, tmr_2ms_cnt := t,
        u_ble_status := UPDATA_STA_BFU_UPDATE_LOOP\<rparr>) (Packet bs # es)" "c \<le> 2000"
      "armed 512 (a\<lparr>bt_time_timeout := c, tmr_2ms_cnt := t, u_ble_status := UPDATA_STA_BFU_UPDATE_LOOP\<rparr>)"
    using wait_read_idle [OF qa a(1) n(3), of off "Packet bs # es"] n(4,5) a(6,8) by auto
  define r where "r = a\<lparr>bt_time_timeout := c, tmr_2ms_cnt := t, u_ble_status := UPDATA_STA_BFU_UPDATE_LOOP\<rparr>"
  have r: "armed 512 r" "mem r = mem s" "read_buf r = buf" "once_rx_len r = 0" "once_write_len r = 512"
    "updata_write_flash_flag r = updata_write_flash_flag s" "bt_time_timeout r = c"
    "pre_read r = q\<lparr>curr_file_offset := off\<rparr>" "quiet B r"
    using w(3) a qa by (simp_all add: r_def quiet_def)
  define p where "p = dev_read_update_block_handle B r bs"
  have pos: "0 < pre_read_flag (pre_read r)" "buf_busy_flag (pre_read r) = 0" "read_buf r \<noteq> 0"
    using q(2) ctl(1) n(2) r(3,8) by auto
  note ans = prefetch_answer [OF B(1) pos(1) r(1) n(1) pos(2) r(4,5) pos(3) p_def]
  define s' where "s' = p\<lparr>mem := mcpy (mem p) buf (buf0 (pre_read s)) 512,
    pre_read := (pre_read p)\<lparr>buf_busy_flag := 0\<rparr>\<rparr>"
  have g: "get_update_pre_read_buf p off (read_buf p) 512 = (s', buf0 (pre_read s))"
    using ans(2,5) r(3,8) ctl(2) by (simp add: get_update_pre_read_buf_def s'_def Let_def u)
  have "wait_loop B UPDATA_READ off 512 r (Packet bs # es) = wait_loop B UPDATA_READ off 512 p es"
    using wait_read_step [OF r(9,1)] w(2) r(7) by (simp add: p_def)
  also have "\<dots> = Some (512, s', es)"
    using w(2) r(7) ans(6) g s(3) B(1)
    by (subst wait_loop.simps) (simp add: poll_def poll_switch_def poll_read_def)
  finally have "ble_updata_read B buf 512 ty off (s, noise @ Packet bs # es) = Some (512, s', es)"
    using call w(1) by (simp only: r_def)
  moreover have "mem s' = mcpy (mcpy_in (mcpy_in (mem s) buf bs) (buf0 (pre_read s)) bs) buf (buf0 (pre_read s)) 512"
    using ans(1) r(2,3,8) ctl(2) by (simp add: s'_def)
  moreover have "pre_read s' = q\<lparr>buf_busy_flag := 0, buf0_addr := off, curr_file_offset := u32_sub off 512\<rparr>"
    using ans(2) r(8) by (simp add: s'_def)
  moreover have "updata_write_flash_flag s' = updata_write_flash_flag s" using ans(4) r(6) by (simp add: s'_def)
  moreover have "u_ble_status s' = UPDATA_STA_BFU_UPDATE_LOOP" using ans(3) by (simp add: s'_def r_def)
  moreover have "requests (sent s') = requests (sent (asked B buf 512 ty off s))"
    using ans(7) as by (simp add: s'_def r_def)
  ultimately show ?thesis by blast
qed

section \<open>The loader's block reads as a source of blocks\<close>

text \<open>The state is the loader's with the number of requests the peer has answered.\<close>

definition peer_fetch :: "build \<Rightarrow> nat \<Rightarrow> (upd \<times> nat, ev) fetcher" where
  "peer_fetch B ty b a n w =
     (case ble_updata_read B b n ty a (fst (fst w), snd w) of
        None \<Rightarrow> None
      | Some (r, s', es) \<Rightarrow> if r = n then Some ((s', Suc (snd (fst w))), es) else None)"

text \<open>The memory but for the two read-ahead buffers.\<close>

definition own_mem :: "build \<Rightarrow> upd \<Rightarrow> memory" where
  "own_mem B s = (\<lambda>x. if UPDATE_PRE_READ_EN B \<and> update_temp_buf B \<le> x \<and> x < update_temp_buf B + 1024 then 0 else mem s x)"

text \<open>The transport is there and the update runs; with read-ahead nothing is stored.  Every request is answered but,
  while a run is read ahead, the last one: it asks for the block below the one read last.\<close>

definition link_up :: "build \<Rightarrow> nat \<Rightarrow> upd \<times> nat \<Rightarrow> bool" where
  "link_up B fl w \<longleftrightarrow> (case w of (s, k) \<Rightarrow>
     (\<exists>ops. p_update_op B = Some ops \<and> data_send ops) \<and>
     u_ble_status s = UPDATA_STA_BFU_UPDATE_LOOP \<and> updata_write_flash_flag s = fl \<and> quiet B s \<and>
     (if UPDATE_PRE_READ_EN B \<and> pre_read_flag (pre_read s) \<noteq> 0
      then (\<exists>rs. requests (sent s) = rs @ [(u32_sub (last_addr (pre_read s)) 512, 512)] \<and> length rs = k) \<and>
        curr_file_offset (pre_read s) = u32_sub (last_addr (pre_read s)) 512
      else length (requests (sent s)) = k) \<and>
     (UPDATE_PRE_READ_EN B \<longrightarrow> buf0 (pre_read s) = update_temp_buf B \<and> update_temp_buf B \<noteq> 0 \<and>
        pre_read_flag (pre_read s) \<in> {0, 2, 3}))"

definition read_fits :: "build \<Rightarrow> nat \<Rightarrow> block_req \<Rightarrow> bool" where
  "read_fits B fl r = (case r of (b, a, n) \<Rightarrow> n < 65536 \<and> (fl \<noteq> 0 \<longrightarrow> 512 \<le> n) \<and>
     (UPDATE_PRE_READ_EN B \<longrightarrow> b \<noteq> 0 \<and> (b + n \<le> update_temp_buf B \<or> update_temp_buf B + 1024 \<le> b)))"

text \<open>The peer answers the requests in their order, with what each of them names: of the requests that are out when the
  call waits, the oldest one that is not answered, after any idle events.  What the call reads is not looked at.\<close>

definition peer_answers :: "(nat \<Rightarrow> byte) \<Rightarrow> build \<Rightarrow> nat \<Rightarrow> nat \<Rightarrow> nat \<Rightarrow> upd \<times> nat \<Rightarrow> ev list \<Rightarrow> bool" where
  "peer_answers img B ty a n w evs \<longleftrightarrow> (case w of (s, k) \<Rightarrow>
     let rq = requests (sent (asked B 0 n ty a s))
     in k < length rq \<and> (\<exists>noise. evs = noise @ [Packet (file_bytes img (fst (rq ! k)) (snd (rq ! k)))] \<and>
        (\<forall>e \<in> set noise. idle n e) \<and> Conn DEV_CONN_STATE_CONNECTED \<notin> set noise \<and> ticks noise \<le> 2000))"

text \<open>A run that is read ahead is not broken off.\<close>

definition goes_on :: "build \<Rightarrow> nat \<Rightarrow> nat \<Rightarrow> upd \<times> nat \<Rightarrow> bool" where
  "goes_on B a n w \<longleftrightarrow> (UPDATE_PRE_READ_EN B \<and> pre_read_flag (pre_read (fst w)) \<noteq> 0 \<longrightarrow>
     n = 512 \<and> a = u32_sub (last_addr (pre_read (fst w))) 512)"

lemma own_mem_store:
  assumes "UPDATE_PRE_READ_EN B \<longrightarrow> b + length bs \<le> update_temp_buf B \<or> update_temp_buf B + 1024 \<le> b"
    and "mem s' = mcpy_in (mem s) b bs"
  shows "own_mem B s' = mcpy_in (own_mem B s) b bs"
  using assms by (auto simp: own_mem_def mcpy_in_def fun_eq_iff)

lemma own_mem_ahead:
  assumes "UPDATE_PRE_READ_EN B" "b + 512 \<le> t \<or> t + 1024 \<le> b" "t = update_temp_buf B" "length bs = 512"
    and "mem s' = mcpy (mcpy_in (mcpy_in (mem s) b bs) t bs) b t 512"
  shows "own_mem B s' = mcpy_in (own_mem B s) b bs"
proof
  fix x
  consider "t \<le> x \<and> x < t + 1024" | "b \<le> x \<and> x < b + 512" | "\<not> (t \<le> x \<and> x < t + 1024)" "\<not> (b \<le> x \<and> x < b + 512)" by auto
  then show "own_mem B s' x = mcpy_in (own_mem B s) b bs x"
  proof cases
    case 1
    with assms show ?thesis by (auto simp: own_mem_def mcpy_in_def)
  next
    case 2
    then obtain i where i: "x = b + i" "i < 512" using le_Suc_ex by fastforce
    hence "b + i + t - b = t + i" by simp
    hence "mem s' x = bs ! i" using i assms(2,4) by (auto simp: assms(5) mcpy_def mcpy_in_def add.commute add.left_commute)
    with i assms(1-4) show ?thesis by (auto simp: own_mem_def mcpy_in_def)
  next
    case 3
    hence "mem s' x = mem s x" using assms(4) by (auto simp: assms(5) mcpy_def mcpy_in_def)
    with 3 assms(1-4) show ?thesis by (auto simp: own_mem_def mcpy_in_def)
  qed
qed

lemma asked_buf: "sent (asked B buf n ty off s) = sent (asked B 0 n ty off s)"
  by (simp add: asked_def read_request_def ble_updata_control_def arm_read_def Let_def split: option.splits)

lemma peer_fetch_block:
  assumes L: "link_up B fl w" and f: "read_fits B fl (b, a, n)" and e: "peer_answers img B ty a n w evs \<and> goes_on B a n w"
  shows "\<exists>w'. peer_fetch B ty b a n (w, evs @ es) = Some (w', es) \<and> link_up B fl w' \<and>
    own_mem B (fst w') = mcpy_in (own_mem B (fst w)) b (file_bytes img a n)"
proof -
  obtain s k where w: "w = (s, k)" by (cases w)
  let ?bs = "file_bytes img a n" let ?q = "next_ctl B s a n"
  let ?fl = "if UPDATE_PRE_READ_EN B then pre_read_flag ?q else 0"
  obtain ops where ops: "p_update_op B = Some ops" "data_send ops" using L by (auto simp: link_up_def w)
  define rq where "rq = requests (sent (asked B b n ty a s))"
  have rq: "rq = requests (sent s) @ (if ?fl = 3 then u32_sub a 512 else a, u16 n) # (if ?fl = 2 then [(u32_sub a 512, u16 n)] else [])"
    unfolding rq_def by (rule asked_requests [OF ops refl])
  obtain noise where ev: "evs = noise @ [Packet (file_bytes img (fst (rq ! k)) (snd (rq ! k)))]" "\<forall>e \<in> set noise. idle n e"
      "Conn DEV_CONN_STATE_CONNECTED \<notin> set noise" "ticks noise \<le> 2000"
    using e by (auto simp: peer_answers_def w Let_def rq_def asked_buf [of B b])
  have st: "u_ble_status s = UPDATA_STA_BFU_UPDATE_LOOP" "updata_write_flash_flag s = fl" "quiet B s"
    using L by (simp_all add: link_up_def w)
  have n: "n < 65536" "u16 n = n" using f by (simp_all add: read_fits_def u16_def)
  have c: "UPDATE_PRE_READ_EN B \<and> pre_read_flag (pre_read s) \<noteq> 0 \<longrightarrow> n = 512 \<and> a = u32_sub (last_addr (pre_read s)) 512"
    using e by (simp add: goes_on_def w)
  show ?thesis
  proof (cases "UPDATE_PRE_READ_EN B \<and> pre_read_flag ?q \<noteq> 0")
    case False
    have off: "\<not> (UPDATE_PRE_READ_EN B \<and> pre_read_flag (pre_read s) \<noteq> 0)"
      using False c n(2) L by (auto simp: next_ctl_def get_update_pre_read_flag_def Let_def link_up_def w split: if_splits)
    have k: "length (requests (sent s)) = k" using L off by (auto simp: link_up_def w split: if_splits)
    have "rq ! k = (a, n)" using k n(2) False by (auto simp: rq nth_append)
    hence evs: "evs = noise @ [Packet ?bs]" using ev(1) by simp
    have d: "quiet B s \<and> (UPDATE_PRE_READ_EN B \<longrightarrow> pre_read_flag ?q = 0)" using st(3) False by auto
    from read_returns_packet [OF d ops st(1) _ n(1) ev(2,4), of ?bs b ty es] f st(2) ev(3)
    obtain s' where r: "ble_updata_read B b n ty a (s, noise @ Packet ?bs # es) = Some (n, s', es)"
      "mem s' = mcpy_in (mem s) b ?bs" "updata_write_flash_flag s' = fl" "pre_read s' = ?q"
      "u_ble_status s' = UPDATA_STA_BFU_UPDATE_LOOP"
      "requests (sent s') = requests (sent s) @ [(a, n)]" by (auto simp: read_fits_def)
    have "link_up B fl (s', Suc k)" using L r ops False k
      by (auto simp: link_up_def w quiet_def next_ctl_def get_flag_simps)
    moreover have "own_mem B s' = mcpy_in (own_mem B s) b ?bs"
      using f r(2) by (intro own_mem_store) (auto simp: read_fits_def)
    ultimately show ?thesis using r(1) by (intro exI [of _ "(s', Suc k)"]) (simp add: peer_fetch_def evs w)
  next
    case True
    hence B: "UPDATE_PRE_READ_EN B" and q: "?q = get_update_pre_read_flag (pre_read s) a n"
      using n(2) by (simp_all add: next_ctl_def)
    have p: "pre_read_flag (pre_read s) \<in> {0, 2, 3}" "buf0 (pre_read s) = update_temp_buf B" "update_temp_buf B \<noteq> 0"
      "pre_read_flag (pre_read s) \<noteq> 0 \<longrightarrow> curr_file_offset (pre_read s) = u32_sub (last_addr (pre_read s)) 512"
      "buf_busy_flag (pre_read s) = 0"
      using L B by (auto simp: link_up_def w quiet_def split: if_splits)
    have c': "pre_read_flag (pre_read s) \<noteq> 0 \<longrightarrow> n = 512 \<and> a = u32_sub (last_addr (pre_read s)) 512" using c B by simp
    note fc = get_flag_cases [OF p(1) c' q]
    have 512: "n = 512" and fl: "pre_read_flag ?q = 2 \<or> pre_read_flag ?q = 3 \<and> curr_file_offset (pre_read s) = a"
      using fc True p(4) by auto
    have out: "rq ! k = (a, 512) \<and> (\<exists>rs. rq = rs @ [(u32_sub a 512, 512)] \<and> length rs = Suc k)"
    proof (cases "pre_read_flag ?q = 2")
      case t: True
      with fc have "pre_read_flag (pre_read s) = 0" by auto
      with L B have k: "length (requests (sent s)) = k" by (simp add: link_up_def w)
      have "rq = (requests (sent s) @ [(a, 512)]) @ [(u32_sub a 512, 512)]" using t B n(2) 512 by (simp add: rq)
      with k show ?thesis by (intro conjI exI [of _ "requests (sent s) @ [(a, 512)]"]) (auto simp: nth_append)
    next
      case f: False
      with fc True have t: "pre_read_flag ?q = 3" "pre_read_flag (pre_read s) \<noteq> 0" "a = u32_sub (last_addr (pre_read s)) 512" by auto
      with L B obtain rs where rs: "requests (sent s) = rs @ [(a, 512)]" "length rs = k" by (auto simp: link_up_def w)
      have "rq = (rs @ [(a, 512)]) @ [(u32_sub a 512, 512)]" using t B n(2) 512 rs(1) by (simp add: rq)
      with rs(2) show ?thesis by (intro conjI exI [of _ "rs @ [(a, 512)]"]) (auto simp: nth_append)
    qed
    have evs: "evs = noise @ [Packet ?bs]" using ev(1) out 512 by simp
    have b: "b \<noteq> 0" "b + 512 \<le> update_temp_buf B \<or> update_temp_buf B + 1024 \<le> b"
      using f B 512 by (auto simp: read_fits_def)
    have q5: "?q = get_update_pre_read_flag (pre_read s) a 512" using q 512 by simp
    have n5: "\<forall>e \<in> set noise. idle 512 e" using ev(2) 512 by simp
    have lb: "length ?bs = 512" using 512 by simp
    from read_ahead_served [OF B ops st(1) p(5) _ q5 fl lb b(1) n5 ev(4,3), of ty es] p(2,3)
    obtain s' where r: "ble_updata_read B b 512 ty a (s, noise @ Packet ?bs # es) = Some (512, s', es)"
      "mem s' = mcpy (mcpy_in (mcpy_in (mem s) b ?bs) (update_temp_buf B) ?bs) b (update_temp_buf B) 512"
      "pre_read s' = ?q\<lparr>buf_busy_flag := 0, buf0_addr := a, curr_file_offset := u32_sub a 512\<rparr>"
      "updata_write_flash_flag s' = fl" "u_ble_status s' = UPDATA_STA_BFU_UPDATE_LOOP" "requests (sent s') = rq"
      using st(2) 512 by (auto simp: rq_def)
    have "last_addr ?q = a" "buf0 ?q = update_temp_buf B" using p(2) by (simp_all add: q get_flag_simps)
    hence "link_up B fl (s', Suc k)" using r ops fl p(3) out B by (auto simp: link_up_def quiet_def)
    moreover have "own_mem B s' = mcpy_in (own_mem B s) b ?bs" by (rule own_mem_ahead [OF B b(2) refl lb r(2)])
    ultimately show ?thesis using r(1) 512 by (intro exI [of _ "(s', Suc k)"]) (simp add: peer_fetch_def evs w)
  qed
qed

interpretation peer: block_source "peer_fetch B ty" "\<lambda>w. own_mem B (fst w)" "link_up B fl" "read_fits B fl"
    "\<lambda>a n w evs. peer_answers img B ty a n w evs \<and> goes_on B a n w" img
  for B ty fl img
  by unfold_locales (rule peer_fetch_block)

text \<open>C3: Over USB-HID and Bluetooth the update library gets the image, with and without reading ahead.  The peer answers
  the requests it is sent, in their order, each with the bytes of its file at the offset and of the length that the
  request names (after any ticks within the time limit, packets of other lengths, status requests and reports); it does
  not know what the library reads.  Then a part of the file that is read block by block, upwards or downwards, lies in
  the library's buffer as a whole, no event is left over, the link is ready for the next read, and no other byte changes
  but those of the read-ahead buffers.  A run that is read ahead must not be broken off (\<open>goes_on\<close>): a read elsewhere
  would be given the block that is under way.\<close>

theorem image_delivered:
  assumes "link_up B fl w" "rs = blockwise b a n k \<or> rs = rev (blockwise b a n k)"
    and "answered (peer_fetch B ty) (\<lambda>a n w evs. peer_answers img B ty a n w evs \<and> goes_on B a n w) rs w es rest"
    and "n < 65536" "fl \<noteq> 0 \<longrightarrow> 512 \<le> n" "0 < b"
    and "UPDATE_PRE_READ_EN B \<longrightarrow> b + k * n \<le> update_temp_buf B \<or> update_temp_buf B + 1024 \<le> b"
  shows "\<exists>w'. fetch_all (peer_fetch B ty) rs (w, es) = Some (w', rest) \<and> link_up B fl w' \<and>
    own_mem B (fst w') = mcpy_in (own_mem B (fst w)) b (file_bytes img a (k * n))"
proof (rule peer.fetch_part [OF assms(2,3,1)])
  fix i assume "i < k"
  hence "i * n + n \<le> k * n" by (metis Suc_leI mult_Suc mult_le_mono1 add.commute)
  thus "read_fits B fl (b + i * n, a + i * n, n)" using assms(4-7) by (auto simp: read_fits_def)
qed

section \<open>Concrete runs\<close>

text \<open>Two blocks without reading ahead, the upper one first and a packet of another length before it; and with
  reading ahead a block of a run that is under way, which the peer was asked for before.\<close>

definition ex_run :: upd where
  "ex_run = ex_upd\<lparr>pre_read := (pre_read ex_upd)\<lparr>pre_read_flag := 2, last_addr := 1024, curr_file_offset := 512\<rparr>,
     sent := [Data_send UPDATA_READ_OFFSIZE 0 1024 512, Data_send UPDATA_READ_OFFSIZE 0 512 512]\<rparr>"

definition ex_img :: "nat \<Rightarrow> byte" where "ex_img a = of_nat a"

definition ex_ans :: "build \<Rightarrow> nat \<Rightarrow> nat \<Rightarrow> upd \<times> nat \<Rightarrow> ev list \<Rightarrow> bool" where
  "ex_ans B a n w evs \<longleftrightarrow> peer_answers ex_img B 0 a n w evs \<and> goes_on B a n w"

lemma ex_direct:
  assumes "length (requests (sent s)) = k" "evs = noise @ [Packet (file_bytes ex_img a 2)]" "\<forall>e \<in> set noise. idle 2 e"
    and "Conn DEV_CONN_STATE_CONNECTED \<notin> set noise" "ticks noise \<le> 2000"
  shows "ex_ans (ex_build False) a 2 (s, k) evs"
proof -
  have "requests (sent (asked (ex_build False) 0 2 0 a s)) = requests (sent s) @ [(a, 2)]"
    using asked_requests [of "ex_build False" "the (p_update_op (ex_build False))" 0 s a 2 0 0]
    by (simp add: ex_build_def u16_def)
  with assms show ?thesis
    by (auto simp: ex_ans_def peer_answers_def goes_on_def ex_build_def nth_append intro!: exI [of _ noise])
qed

lemma ex_up: "link_up (ex_build False) 0 (ex_upd, 0)" "link_up (ex_build True) 0 (ex_run, 1)"
  by (simp_all add: link_up_def quiet_def ex_defs ex_run_def u32_sub_def u32_def)

lemma ex_answered:
  "answered (peer_fetch (ex_build False) 0) (ex_ans (ex_build False)) [(4098, 9, 2), (4096, 7, 2)] (ex_upd, 0)
     ([Packet [1], Tick, Packet [9, 10]] @ [Tick, Packet [7, 8]] @ [Tick]) [Tick]"
proof (intro answered_Cons answered_Nil)
  have b: "file_bytes ex_img 9 2 = [9, 10]" "file_bytes ex_img 7 2 = [7, 8]"
    by (simp_all add: ex_img_def file_bytes_def upt_rec)
  have p: "ex_ans (ex_build False) 9 2 (ex_upd, 0) [Packet [1], Tick, Packet [9, 10]]"
    by (rule ex_direct [where noise = "[Packet [1], Tick]"]) (simp_all add: b, simp add: ex_upd_def)
  then show "ex_ans (ex_build False) 9 2 (ex_upd, 0) [Packet [1], Tick, Packet [9, 10]]" .
  fix w assume f: "peer_fetch (ex_build False) 0 4098 9 2 ((ex_upd, 0), [Packet [1], Tick, Packet [9, 10]] @ [Tick, Packet [7, 8]] @ [Tick]) =
    Some (w, [Tick, Packet [7, 8]] @ [Tick])"
  have "read_fits (ex_build False) 0 (4098, 9, 2)" by (simp add: read_fits_def ex_build_def)
  from peer_fetch_block [OF ex_up(1) this p [unfolded ex_ans_def], of "[Tick, Packet [7, 8]] @ [Tick]"] f
  have "link_up (ex_build False) 0 w" by auto
  then obtain s k where "w = (s, k)" "length (requests (sent s)) = k" by (cases w) (auto simp: link_up_def ex_build_def)
  then show "ex_ans (ex_build False) 7 2 w [Tick, Packet [7, 8]]"
    by (auto intro!: ex_direct [where noise = "[Tick]"] simp: b)
qed

lemma ex_answered_ahead:
  "answered (peer_fetch (ex_build True) 0) (ex_ans (ex_build True)) [(4096, 512, 512)] (ex_run, 1)
     ([Tick, Packet (file_bytes ex_img 512 512)] @ []) []"
proof (intro answered_Cons answered_Nil)
  have "pre_read_flag (next_ctl (ex_build True) ex_run 512 512) = 3"
    by (simp add: next_ctl_def get_update_pre_read_flag_def ex_defs ex_run_def u16_def u32_sub_def u32_def)
  hence "requests (sent (asked (ex_build True) 0 512 0 512 ex_run)) = [(1024, 512), (512, 512), (u32_sub 512 512, 512)]"
    using asked_requests [of "ex_build True" "the (p_update_op (ex_build True))" 3 ex_run 512 512 0 0]
    by (simp add: ex_build_def u16_def) (simp add: ex_run_def)
  then show "ex_ans (ex_build True) 512 512 (ex_run, 1) [Tick, Packet (file_bytes ex_img 512 512)]"
    by (auto simp: ex_ans_def peer_answers_def goes_on_def ex_defs ex_run_def u32_sub_def u32_def intro!: exI [of _ "[Tick]"])
qed

theorem image_delivered_witness:
  "(\<exists>w'. fetch_all (peer_fetch (ex_build False) 0) [(4098, 9, 2), (4096, 7, 2)]
       ((ex_upd, 0), [Packet [1], Tick, Packet [9, 10]] @ [Tick, Packet [7, 8]] @ [Tick]) = Some (w', [Tick]) \<and>
     link_up (ex_build False) 0 w' \<and>
     own_mem (ex_build False) (fst w') = mcpy_in (own_mem (ex_build False) ex_upd) 4096 [7, 8, 9, 10]) \<and>
   (\<exists>w'. fetch_all (peer_fetch (ex_build True) 0) [(4096, 512, 512)]
       ((ex_run, 1), [Tick, Packet (file_bytes ex_img 512 512)] @ []) = Some (w', []) \<and>
     link_up (ex_build True) 0 w' \<and>
     own_mem (ex_build True) (fst w') = mcpy_in (own_mem (ex_build True) ex_run) 4096 (file_bytes ex_img 512 512))"
proof
  have rs: "[(4098, 9, 2), (4096, 7, 2)] = rev (blockwise 4096 7 2 2)" "[(4096, 512, 512)] = blockwise 4096 512 512 1"
    by (simp_all add: eval_nat_numeral)
  have img: "file_bytes ex_img 7 (2 * 2) = [7, 8, 9, 10]" by (simp add: ex_img_def file_bytes_def upt_rec)
  have an: "answered (peer_fetch B 0) (ex_ans B) rs w es rest \<Longrightarrow>
    answered (peer_fetch B 0) (\<lambda>a n w evs. peer_answers ex_img B 0 a n w evs \<and> goes_on B a n w) rs w es rest" for B rs w es rest
    by (simp add: ex_ans_def [abs_def])
  show "\<exists>w'. fetch_all (peer_fetch (ex_build False) 0) [(4098, 9, 2), (4096, 7, 2)]
       ((ex_upd, 0), [Packet [1], Tick, Packet [9, 10]] @ [Tick, Packet [7, 8]] @ [Tick]) = Some (w', [Tick]) \<and>
     link_up (ex_build False) 0 w' \<and>
     own_mem (ex_build False) (fst w') = mcpy_in (own_mem (ex_build False) ex_upd) 4096 [7, 8, 9, 10]"
    by (rule image_delivered [OF ex_up(1) disjI2 [OF rs(1)] an [OF ex_answered], unfolded img fst_conv]) (simp_all add: ex_build_def)
  show "\<exists>w'. fetch_all (peer_fetch (ex_build True) 0) [(4096, 512, 512)]
       ((ex_run, 1), [Tick, Packet (file_bytes ex_img 512 512)] @ []) = Some (w', []) \<and>
     link_up (ex_build True) 0 w' \<and>
     own_mem (ex_build True) (fst w') = mcpy_in (own_mem (ex_build True) ex_run) 4096 (file_bytes ex_img 512 512)"
    by (rule image_delivered [OF ex_up(2) disjI1 [OF rs(2)] an [OF ex_answered_ahead], unfolded mult_1 fst_conv]) (simp_all add: ex_build_def)
qed

end
