(* ===== verification/CText.thy ===== *)
theory CText
  imports OTA_Prelude "HOL-Library.Monad_Syntax"
begin

unbundle bit_operations_syntax

text \<open>
  C strings and bounded output.  A character is its code, a natural number below 256, and
  \<open>asc\<close> gives the code of a character constant; a zero-terminated string is the list of the codes
  before the terminator, and \<open>pk\<close> reads the character under a pointer into it.

  An output cursor is a buffer (whose length is the distance from \<open>buf\<close> to \<open>end\<close>) and the offset of
  \<open>str\<close>; \<open>emit\<close> is the fragment \<open>if (str < end) *str = c; ++str;\<close> that the formatter repeats.
  \<open>holds\<close> relates a cursor to the text produced so far: the buffer holds a prefix of the text,
  cut at its end, and is untouched behind the text.
\<close>

section \<open>Characters and strings\<close>

definition asc :: "char \<Rightarrow> nat" where
  "asc c = of_char c"

lemma asc_Char [simp]: "asc (Char b0 b1 b2 b3 b4 b5 b6 b7) =
    of_bool b0 + 2 * of_bool b1 + 4 * of_bool b2 + 8 * of_bool b3 + 16 * of_bool b4 +
    32 * of_bool b5 + 64 * of_bool b6 + 128 * of_bool b7"
  by (simp add: asc_def of_char_def)

definition cstr :: "string \<Rightarrow> byte list" where
  "cstr s = map asc s"

lemma cstr_simps [simp]: "cstr [] = []" "cstr (c # s) = asc c # cstr s"
  by (simp_all add: cstr_def)

definition pk :: "byte list \<Rightarrow> byte" where
  "pk s = (case s of [] \<Rightarrow> 0 | c # _ \<Rightarrow> c)"

lemma pk_simps [simp]: "pk [] = 0" "pk (c # s) = c"
  by (simp_all add: pk_def)

definition is_digit :: "byte \<Rightarrow> bool" where
  "is_digit c \<longleftrightarrow> asc CHR ''0'' \<le> c \<and> c \<le> asc CHR ''9''"

text \<open>\<open>TOLOWER(x)\<close>: \<open>x | 0x20\<close>.\<close>

definition TOLOWER :: "byte \<Rightarrow> byte" where
  "TOLOWER c = c OR 32"

text \<open>\<open>strnlen\<close> on a memory: at most \<open>n\<close> bytes are looked at.\<close>

fun strnlen :: "(addr \<Rightarrow> byte) \<Rightarrow> addr \<Rightarrow> nat \<Rightarrow> nat" where
  "strnlen m a n = (if n = 0 then 0 else if m a = 0 then 0 else Suc (strnlen m (u32_add a 1) (n - 1)))"

declare strnlen.simps [simp del]

lemma strnlen_le: "strnlen m a n \<le> n"
  by (induction m a n rule: strnlen.induct) (subst strnlen.simps, auto)

section \<open>Bounded output\<close>

record out =
  ob_buf :: "byte list"
  ob_pos :: nat

definition emit :: "out \<Rightarrow> byte \<Rightarrow> out" where
  "emit o' c = (if ob_pos o' < length (ob_buf o')
     then o'\<lparr>ob_buf := (ob_buf o')[ob_pos o' := c], ob_pos := ob_pos o' + 1\<rparr>
     else o'\<lparr>ob_pos := ob_pos o' + 1\<rparr>)"

fun emits :: "out \<Rightarrow> byte list \<Rightarrow> out" where
  "emits o' [] = o'"
| "emits o' (c # cs) = emits (emit o' c) cs"

definition holds :: "byte list \<Rightarrow> byte list \<Rightarrow> out \<Rightarrow> bool" where
  "holds b t o' \<longleftrightarrow> ob_pos o' = length t \<and> ob_buf o' = take (length b) t @ drop (length t) b"

lemma holds_start: "holds b [] \<lparr>ob_buf = b, ob_pos = 0\<rparr>"
  by (simp add: holds_def)

lemma holds_length: "holds b t o' \<Longrightarrow> length (ob_buf o') = length b"
  by (auto simp: holds_def)

lemma holds_emit: "holds b t o' \<Longrightarrow> holds b (t @ [c]) (emit o' c)"
proof -
  assume s: "holds b t o'"
  show ?thesis
  proof (cases "length t < length b")
    case True
    then have "drop (length t) b = b ! length t # drop (Suc (length t)) b"
      by (simp add: Cons_nth_drop_Suc)
    with s True show ?thesis by (auto simp: holds_def emit_def list_update_append)
  next
    case False
    with s show ?thesis by (simp add: holds_def emit_def)
  qed
qed

lemma holds_emits: "holds b t o' \<Longrightarrow> holds b (t @ cs) (emits o' cs)"
  by (induction cs arbitrary: t o') (use holds_emit in fastforce)+

lemma emits_append: "emits o' (xs @ ys) = emits (emits o' xs) ys"
  by (induction xs arbitrary: o') simp_all

text \<open>Copying a piece of the source with its length cut to the room left has the same effect.\<close>

definition put_mem :: "byte list \<Rightarrow> nat \<Rightarrow> byte list \<Rightarrow> byte list" where
  "put_mem b i cs = take i b @ cs @ drop (i + length cs) b"

lemma holds_memcpy:
  assumes "holds b t o'"
  shows "holds b (t @ cs) (o'\<lparr>ob_buf := (if ob_pos o' < length (ob_buf o')
      then put_mem (ob_buf o') (ob_pos o') (take (length (ob_buf o') - ob_pos o') cs)
      else ob_buf o'), ob_pos := ob_pos o' + length cs\<rparr>)"
proof -
  have p: "ob_pos o' = length t" and b: "ob_buf o' = take (length b) t @ drop (length t) b"
    and l: "length (ob_buf o') = length b"
    using assms holds_length by (auto simp: holds_def)
  show ?thesis
  proof (cases "length t < length b")
    case True
    then have "put_mem (ob_buf o') (ob_pos o') (take (length (ob_buf o') - ob_pos o') cs) =
        take (length b) (t @ cs) @ drop (length (t @ cs)) b"
      using p b by (auto simp: put_mem_def min_def add.commute)
    with True p l show ?thesis by (simp add: holds_def)
  next
    case False
    with assms p l b show ?thesis by (simp add: holds_def)
  qed
qed

text \<open>Sign extension of an argument to sixty-four bits.\<close>

definition sext :: "nat \<Rightarrow> nat \<Rightarrow> nat" where
  "sext w n = (if n mod 2 ^ w < 2 ^ (w - 1) then n mod 2 ^ w
     else n mod 2 ^ w + (18446744073709551616 - 2 ^ w))"

end
