(* ===== verification/Vsnprintf.thy ===== *)
theory Vsnprintf
  imports CText
begin

unbundle bit_operations_syntax

text \<open>
  The bounded formatter \<open>common/Vsnprintf.c\<close>: digit generation, field layout, the format decoder and
  the main loop.  Output goes through the cursor of \<open>CText\<close>.  Arguments are a list of 32-bit or
  64-bit values; reading past the list or at the wrong width is undefined in C and the error
  \<open>BadArg\<close> here.  Strings are read from a memory; \<open>%n\<close> stores are recorded in a list.  The helpers
  for kernel pointer extensions return the null pointer, with which the loop goes on: that is the
  error \<open>WildPointer\<close>.  A \<open>memcpy\<close> with a negative length is the error \<open>WildCopy\<close>.
\<close>

section \<open>Types\<close>

definition ZEROPAD :: nat where "ZEROPAD = 1"
definition SIGN :: nat where "SIGN = 2"
definition PLUS :: nat where "PLUS = 4"
definition SPACE :: nat where "SPACE = 8"
definition LEFT :: nat where "LEFT = 16"
definition SMALL :: nat where "SMALL = 32"
definition SPECIAL :: nat where "SPECIAL = 64"

lemmas flag_defs = ZEROPAD_def SIGN_def PLUS_def SPACE_def LEFT_def SMALL_def SPECIAL_def

datatype format_type =
    FORMAT_TYPE_NONE | FORMAT_TYPE_WIDTH | FORMAT_TYPE_PRECISION | FORMAT_TYPE_CHAR
  | FORMAT_TYPE_STR | FORMAT_TYPE_PTR | FORMAT_TYPE_PERCENT_CHAR | FORMAT_TYPE_INVALID
  | FORMAT_TYPE_LONG_LONG | FORMAT_TYPE_ULONG | FORMAT_TYPE_LONG | FORMAT_TYPE_UBYTE
  | FORMAT_TYPE_BYTE | FORMAT_TYPE_USHORT | FORMAT_TYPE_SHORT | FORMAT_TYPE_UINT
  | FORMAT_TYPE_INT | FORMAT_TYPE_NRCHARS | FORMAT_TYPE_SIZE_T | FORMAT_TYPE_PTRDIFF
  | FORMAT_TYPE_ULONG_LONG

record printf_spec =
  sp_type :: format_type
  sp_flags :: nat
  sp_base :: nat
  sp_qualifier :: nat
  sp_width :: int
  sp_precision :: int

definition spec0 :: printf_spec where
  "spec0 = \<lparr>sp_type = FORMAT_TYPE_NONE, sp_flags = 0, sp_base = 0, sp_qualifier = 0,
            sp_width = 0, sp_precision = 0\<rparr>"

datatype va = VInt nat | VLL nat
datatype fmt_error = BadArg | WildPointer | WildCopy | LongString

definition flag :: "printf_spec \<Rightarrow> nat \<Rightarrow> bool" where
  "flag spec f \<longleftrightarrow> sp_flags spec AND f \<noteq> 0"

definition set_flag :: "nat \<Rightarrow> printf_spec \<Rightarrow> printf_spec" where
  "set_flag f spec = spec\<lparr>sp_flags := sp_flags spec OR f\<rparr>"

definition isalnum :: "byte \<Rightarrow> bool" where
  "isalnum c \<longleftrightarrow> (asc CHR ''0'' \<le> c \<and> c \<le> asc CHR ''9'') \<or> (asc CHR ''a'' \<le> c \<and> c \<le> asc CHR ''z'') \<or>
     (asc CHR ''A'' \<le> c \<and> c \<le> asc CHR ''Z'')"

section \<open>Decimal digits\<close>

text \<open>The accumulator is an \<open>int\<close>; the pair is the value and the rest of the string.\<close>

fun skip_atoi_from :: "int \<Rightarrow> byte list \<Rightarrow> int \<times> byte list" where
  "skip_atoi_from i [] = (i, [])"
| "skip_atoi_from i (c # s) =
    (if is_digit c then skip_atoi_from (s32 (i * 10 + int c - int (asc CHR ''0''))) s else (i, c # s))"

definition skip_atoi :: "byte list \<Rightarrow> int \<times> byte list" where
  "skip_atoi s = skip_atoi_from 0 s"

definition put_dec_trunc :: "nat \<Rightarrow> byte list" where
  "put_dec_trunc q =
    (let d1 = drop_bit 4 q AND 15; d2 = drop_bit 8 q AND 15; d3 = drop_bit 12 q;
         d0 = 6 * (d3 + d2 + d1) + (q AND 15);
         q = drop_bit 11 (d0 * 205); d0 = u32_sub d0 (10 * q);
         d1 = q + 9 * d3 + 5 * d2 + d1
     in u8 (d0 + 48) #
        (if d1 \<noteq> 0 then
           let q = drop_bit 11 (d1 * 205); d1 = u32_sub d1 (10 * q); d2 = q + 2 * d2
           in u8 (d1 + 48) #
              (if d2 \<noteq> 0 \<or> d3 \<noteq> 0 then
                 let q = drop_bit 7 (d2 * 13); d2 = u32_sub d2 (10 * q); d3 = q + 4 * d3
                 in u8 (d2 + 48) #
                    (if d3 \<noteq> 0 then
                       let q = drop_bit 11 (d3 * 205); d3 = u32_sub d3 (10 * q)
                       in u8 (d3 + 48) # (if q \<noteq> 0 then [u8 (q + 48)] else [])
                     else [])
               else [])
         else []))"

definition put_dec_full :: "nat \<Rightarrow> byte list" where
  "put_dec_full q =
    (let d1 = drop_bit 4 q AND 15; d2 = drop_bit 8 q AND 15; d3 = drop_bit 12 q;
         d0 = 6 * (d3 + d2 + d1) + (q AND 15);
         q = drop_bit 11 (d0 * 205); d0 = u64_sub d0 (10 * q);
         d1 = q + 9 * d3 + 5 * d2 + d1;
         q = drop_bit 11 (d1 * 205); d1 = u64_sub d1 (10 * q);
         d2 = q + 2 * d2; q = drop_bit 7 (d2 * 13); d2 = u64_sub d2 (10 * q);
         d3 = q + 4 * d3; q = drop_bit 11 (d3 * 205); d3 = u64_sub d3 (10 * q)
     in [u8 (d0 + 48), u8 (d1 + 48), u8 (d2 + 48), u8 (d3 + 48), u8 (q + 48)])"

fun put_dec :: "nat \<Rightarrow> byte list" where
  "put_dec num = (if num < 100000 then put_dec_trunc num
     else put_dec_full (num mod 100000) @ put_dec (num div 100000))"

declare put_dec.simps [simp del]

text \<open>The digits of bases 8 and 16: one per \<open>shift\<close> bits, at least one.\<close>

function pow2_digits :: "nat \<Rightarrow> nat \<Rightarrow> nat \<Rightarrow> nat \<Rightarrow> byte list" where
  "pow2_digits msk shift locase num =
    ((cstr ''0123456789ABCDEF'' ! (u8 num AND msk)) OR locase) #
      (if drop_bit shift num = 0 \<or> shift = 0 then [] else pow2_digits msk shift locase (drop_bit shift num))"
  by pat_completeness auto
termination
proof (relation "measure (\<lambda>(_, _, _, num). num)")
  fix shift num :: nat
  assume a: "\<not> (drop_bit shift num = 0 \<or> shift = 0)"
  have "num div 2 ^ shift < num"
  proof (rule div_less_dividend)
    show "1 < (2::nat) ^ shift" using a one_less_power [of "2::nat" shift] by simp
    show "0 < num" using a by (cases num) auto
  qed
  then show "((msk, shift, locase, drop_bit shift num), msk, shift, locase, num)
      \<in> measure (\<lambda>(_, _, _, num). num)" for msk locase :: nat
    by (simp add: drop_bit_eq_div)
qed simp

declare pow2_digits.simps [simp del]

section \<open>Padding loops\<close>

text \<open>Field widths are of type \<open>short\<close>: a decrement below -32768 wraps to 32767.  The three
  loops are \<open>while (--w >= 0)\<close>, \<open>while (--w > 0)\<close> and \<open>while (len < w--)\<close>, the last for lengths
  \<open>len\<close> that are not negative.\<close>

lemma s16_pred_less: "0 \<le> s16 (w - 1) \<Longrightarrow> s16 (s16 (w - 1) - 1) + 1 \<le> s16 (w - 1)"
  using s16_bounds [of "w - 1"] by simp

function pad_ge :: "out \<Rightarrow> byte \<Rightarrow> int \<Rightarrow> out \<times> int" where
  "pad_ge o' c w = (let w' = s16 (w - 1) in if 0 \<le> w' then pad_ge (emit o' c) c w' else (o', w'))"
  by pat_completeness auto
termination
  by (relation "measure (\<lambda>(_, _, w). nat (s16 (w - 1) + 1))") (auto simp del: s16_id intro: s16_pred_less)

function pad_gt :: "out \<Rightarrow> byte \<Rightarrow> int \<Rightarrow> out \<times> int" where
  "pad_gt o' c w = (let w' = s16 (w - 1) in if 0 < w' then pad_gt (emit o' c) c w' else (o', w'))"
  by pat_completeness auto
termination
  by (relation "measure (\<lambda>(_, _, w). nat (s16 (w - 1) + 1))") (auto simp del: s16_id intro: s16_pred_less)

function pad_lt :: "out \<Rightarrow> byte \<Rightarrow> int \<Rightarrow> int \<Rightarrow> out \<times> int" where
  "pad_lt o' c len w = (if len < w \<and> 0 \<le> len then pad_lt (emit o' c) c len (s16 (w - 1)) else (o', s16 (w - 1)))"
  by pat_completeness auto
termination
proof (relation "measure (\<lambda>(_, _, len, w). if w < 32768 then nat w else nat (w + 65536))")
  fix len w :: int
  assume "len < w \<and> 0 \<le> len"
  then have w: "0 < w" by simp
  have "nat (if s16 (w - 1) < 32768 then s16 (w - 1) else s16 (w - 1) + 65536) <
      (if w < 32768 then nat w else nat (w + 65536))"
    using w s16_bounds(2) [of "w - 1"] by (cases "w < 32768") auto
  then show "((emit o' c, c, len, s16 (w - 1)), o', c, len, w)
      \<in> measure (\<lambda>(_, _, len, w). if w < 32768 then nat w else nat (w + 65536))" for o' c
    using s16_bounds(2) [of "w - 1"] by simp
qed simp

text \<open>\<open>while (i <= --spec.precision)\<close>.\<close>

function pad_prec :: "out \<Rightarrow> int \<Rightarrow> int \<Rightarrow> out" where
  "pad_prec o' i p = (let p' = s16 (p - 1) in
     if i \<le> p' \<and> 0 \<le> i then pad_prec (emit o' (asc CHR ''0'')) i p' else o')"
  by pat_completeness auto
termination
  by (relation "measure (\<lambda>(_, _, p). nat (s16 (p - 1) + 1))") (auto simp del: s16_id intro: s16_pred_less)

declare pad_ge.simps [simp del] pad_gt.simps [simp del] pad_lt.simps [simp del] pad_prec.simps [simp del]

section \<open>Numbers\<close>

text \<open>The sign character (0 for none), the magnitude and the width that is left.\<close>

definition number_sign :: "nat \<Rightarrow> printf_spec \<Rightarrow> nat \<times> nat \<times> int" where
  "number_sign num spec =
    (if flag spec SIGN then
       (if 9223372036854775808 \<le> num
        then (asc CHR ''-'', u64_sub 0 num, s16 (sp_width spec - 1))
        else if flag spec PLUS then (asc CHR ''+'', num, s16 (sp_width spec - 1))
        else if flag spec SPACE then (asc CHR '' '', num, s16 (sp_width spec - 1))
        else (0, num, sp_width spec))
     else (0, num, sp_width spec))"

definition number_digits :: "nat \<Rightarrow> nat \<Rightarrow> nat \<Rightarrow> byte list" where
  "number_digits base locase num =
    (if num = 0 then [asc CHR ''0'']
     else if base \<noteq> 10
     then pow2_digits (base - 1) (if base = 16 then 4 else 3) locase num
     else put_dec num)"

definition number :: "out \<Rightarrow> nat \<Rightarrow> printf_spec \<Rightarrow> out" where
  "number o' num spec =
    (let need_pfx = (flag spec SPECIAL \<and> sp_base spec \<noteq> 10);
         locase = sp_flags spec AND SMALL;
         left = flag spec LEFT;
         zero = flag spec ZEROPAD \<and> \<not> left;
         (sign, num, width) = number_sign num spec;
         width = (if need_pfx
                  then (if sp_base spec = 16 then s16 (s16 (width - 1) - 1) else s16 (width - 1))
                  else width);
         tmp = number_digits (sp_base spec) locase num;
         i = int (length tmp);
         precision = (if i > sp_precision spec then s16 i else sp_precision spec);
         width = s16 (width - precision);
         (o', width) = (if \<not> zero \<and> \<not> left then pad_ge o' (asc CHR '' '') width else (o', width));
         o' = (if sign \<noteq> 0 then emit o' sign else o');
         o' = (if need_pfx
               then (let o' = emit o' (asc CHR ''0'')
                     in if sp_base spec = 16 then emit o' (asc CHR ''X'' OR locase) else o')
               else o');
         (o', width) = (if \<not> left
                        then pad_ge o' (if zero then asc CHR ''0'' else asc CHR '' '') width
                        else (o', width));
         o' = pad_prec o' i precision;
         o' = emits o' (rev tmp)
     in fst (pad_ge o' (asc CHR '' '') width))"

section \<open>Decoding the format\<close>

fun fd_flags :: "byte list \<Rightarrow> printf_spec \<Rightarrow> byte list \<times> printf_spec" where
  "fd_flags [] spec = ([], spec)"
| "fd_flags (c # fmt) spec =
    (if c = asc CHR ''-'' then fd_flags fmt (set_flag LEFT spec)
     else if c = asc CHR ''+'' then fd_flags fmt (set_flag PLUS spec)
     else if c = asc CHR '' '' then fd_flags fmt (set_flag SPACE spec)
     else if c = asc CHR ''#'' then fd_flags fmt (set_flag SPECIAL spec)
     else if c = asc CHR ''0'' then fd_flags fmt (set_flag ZEROPAD spec)
     else (c # fmt, spec))"

definition fd_int_type :: "printf_spec \<Rightarrow> format_type" where
  "fd_int_type spec =
    (let q = sp_qualifier spec; sgn = flag spec SIGN
     in if q = asc CHR ''L'' then (if sgn then FORMAT_TYPE_LONG_LONG else FORMAT_TYPE_ULONG_LONG)
        else if q = asc CHR ''l'' then (if sgn then FORMAT_TYPE_LONG else FORMAT_TYPE_ULONG)
        else if TOLOWER q = asc CHR ''z'' then FORMAT_TYPE_SIZE_T
        else if q = asc CHR ''t'' then FORMAT_TYPE_PTRDIFF
        else if q = asc CHR ''H'' then (if sgn then FORMAT_TYPE_BYTE else FORMAT_TYPE_UBYTE)
        else if q = asc CHR ''h'' then (if sgn then FORMAT_TYPE_SHORT else FORMAT_TYPE_USHORT)
        else (if sgn then FORMAT_TYPE_INT else FORMAT_TYPE_UINT))"

text \<open>The part after the label \<open>qualifier\<close>: the conversion qualifier and the conversion itself.\<close>

definition fd_conversion :: "byte list \<Rightarrow> printf_spec \<Rightarrow> byte list \<times> printf_spec" where
  "fd_conversion fmt spec =
    (let spec = spec\<lparr>sp_base := 10\<rparr>; c = pk fmt
     in if c = asc CHR ''c'' then (tl fmt, spec\<lparr>sp_type := FORMAT_TYPE_CHAR\<rparr>)
        else if c = asc CHR ''s'' then (tl fmt, spec\<lparr>sp_type := FORMAT_TYPE_STR\<rparr>)
        else if c = asc CHR ''p'' then (fmt, spec\<lparr>sp_type := FORMAT_TYPE_PTR\<rparr>)
        else if c = asc CHR ''n'' then (tl fmt, spec\<lparr>sp_type := FORMAT_TYPE_NRCHARS\<rparr>)
        else if c = asc CHR ''%'' then (tl fmt, spec\<lparr>sp_type := FORMAT_TYPE_PERCENT_CHAR\<rparr>)
        else if c = asc CHR ''o''
        then (let spec = spec\<lparr>sp_base := 8\<rparr> in (tl fmt, spec\<lparr>sp_type := fd_int_type spec\<rparr>))
        else if c = asc CHR ''x''
        then (let spec = set_flag SMALL spec\<lparr>sp_base := 16\<rparr> in (tl fmt, spec\<lparr>sp_type := fd_int_type spec\<rparr>))
        else if c = asc CHR ''X''
        then (let spec = spec\<lparr>sp_base := 16\<rparr> in (tl fmt, spec\<lparr>sp_type := fd_int_type spec\<rparr>))
        else if c = asc CHR ''d'' \<or> c = asc CHR ''i''
        then (let spec = set_flag SIGN spec in (tl fmt, spec\<lparr>sp_type := fd_int_type spec\<rparr>))
        else if c = asc CHR ''u'' then (tl fmt, spec\<lparr>sp_type := fd_int_type spec\<rparr>)
        else (fmt, spec\<lparr>sp_type := FORMAT_TYPE_INVALID\<rparr>))"

definition fd_qualifier :: "byte list \<Rightarrow> printf_spec \<Rightarrow> byte list \<times> printf_spec" where
  "fd_qualifier fmt spec =
    (let c = pk fmt
     in if c = asc CHR ''h'' \<or> TOLOWER c = asc CHR ''l'' \<or> TOLOWER c = asc CHR ''z'' \<or> c = asc CHR ''t''
        then (if c = pk (tl fmt) \<and> c = asc CHR ''l''
              then fd_conversion (tl (tl fmt)) (spec\<lparr>sp_qualifier := asc CHR ''L''\<rparr>)
              else if c = pk (tl fmt) \<and> c = asc CHR ''h''
              then fd_conversion (tl (tl fmt)) (spec\<lparr>sp_qualifier := asc CHR ''H''\<rparr>)
              else fd_conversion (tl fmt) (spec\<lparr>sp_qualifier := c\<rparr>))
        else fd_conversion fmt (spec\<lparr>sp_qualifier := 255\<rparr>))"

text \<open>The part after the label \<open>precision\<close>.\<close>

definition fd_precision :: "byte list \<Rightarrow> printf_spec \<Rightarrow> byte list \<times> printf_spec" where
  "fd_precision fmt spec =
    (let spec = spec\<lparr>sp_precision := -1\<rparr>
     in if pk fmt = asc CHR ''.'' then
          (let fmt = tl fmt
           in if is_digit (pk fmt) then
                (case skip_atoi fmt of (i, fmt) \<Rightarrow>
                   fd_qualifier fmt (spec\<lparr>sp_precision := (if s16 i < 0 then 0 else s16 i)\<rparr>))
              else if pk fmt = asc CHR ''*'' then (tl fmt, spec\<lparr>sp_type := FORMAT_TYPE_PRECISION\<rparr>)
              else fd_qualifier fmt spec)
        else fd_qualifier fmt spec)"

text \<open>The result is the rest of the format, \<open>fmt + read\<close>, and the token.\<close>

definition format_decode :: "byte list \<Rightarrow> printf_spec \<Rightarrow> byte list \<times> printf_spec" where
  "format_decode fmt spec =
    (if sp_type spec = FORMAT_TYPE_WIDTH then
       (let spec = (if sp_width spec < 0
                    then set_flag LEFT (spec\<lparr>sp_width := s16 (- sp_width spec)\<rparr>) else spec)
        in fd_precision fmt (spec\<lparr>sp_type := FORMAT_TYPE_NONE\<rparr>))
     else if sp_type spec = FORMAT_TYPE_PRECISION then
       fd_qualifier fmt (spec\<lparr>sp_precision := (if sp_precision spec < 0 then 0 else sp_precision spec),
                              sp_type := FORMAT_TYPE_NONE\<rparr>)
     else
       (let spec = spec\<lparr>sp_type := FORMAT_TYPE_NONE\<rparr>;
            rest = dropWhile (\<lambda>c. c \<noteq> asc CHR ''%'') fmt
        in if rest \<noteq> fmt \<or> rest = [] then (rest, spec)
           else (case fd_flags (tl fmt) (spec\<lparr>sp_flags := 0\<rparr>) of (fmt, spec) \<Rightarrow>
             let spec = spec\<lparr>sp_width := -1\<rparr>
             in if is_digit (pk fmt)
                then (case skip_atoi fmt of (i, fmt) \<Rightarrow> fd_precision fmt (spec\<lparr>sp_width := s16 i\<rparr>))
                else if pk fmt = asc CHR ''*'' then (tl fmt, spec\<lparr>sp_type := FORMAT_TYPE_WIDTH\<rparr>)
                else fd_precision fmt spec)))"

section \<open>Strings and pointers\<close>

text \<open>\<open>string\<close> in two parts: \<open>string_at\<close> measures the string in memory, \<open>string_text\<close> lays it out.\<close>

definition string_text :: "out \<Rightarrow> byte list \<Rightarrow> printf_spec \<Rightarrow> out" where
  "string_text o' s spec =
    (let len = int (length s);
         (o', width) = (if \<not> flag spec LEFT then pad_lt o' (asc CHR '' '') len (sp_width spec)
                        else (o', sp_width spec));
         o' = emits o' s
     in fst (pad_lt o' (asc CHR '' '') len width))"

text \<open>A precision of -1 is converted to the largest \<open>size_t\<close>; the length is an \<open>int\<close>, which a string
  of two gigabytes or more overflows: the error \<open>LongString\<close>.\<close>

definition string_at :: "out \<Rightarrow> (addr \<Rightarrow> byte) \<Rightarrow> addr \<Rightarrow> printf_spec \<Rightarrow> fmt_error + out" where
  "string_at o' m s spec =
    (let len = strnlen m s (nat (sp_precision spec mod 4294967296))
     in if 2147483648 \<le> len then Inl LongString
        else Inr (string_text o' (map (\<lambda>i. m (u32_add s i)) [0..<len]) spec))"

definition pointer :: "byte list \<Rightarrow> out \<Rightarrow> addr \<Rightarrow> printf_spec \<Rightarrow> fmt_error + out" where
  "pointer fmt o' ptr spec =
    (if ptr = 0
     then Inr (string_text o' (take (nat (sp_precision spec mod 4294967296)) (cstr ''(null)'')) spec)
     else if pk fmt \<in> set (cstr ''FfSsRrMmU'') then Inl WildPointer
     else if pk fmt \<in> set (cstr ''Ii'') \<and> pk (tl fmt) \<in> set (cstr ''64'') then Inl WildPointer
     else (let spec = set_flag SMALL spec;
               spec = (if sp_width spec = -1 then set_flag ZEROPAD (spec\<lparr>sp_width := 8\<rparr>) else spec)
           in Inr (number o' ptr (spec\<lparr>sp_base := 16\<rparr>))))"

section \<open>The main loop\<close>

record vstate =
  v_out :: out
  v_args :: "va list"
  v_stores :: "(addr \<times> nat) list"

definition va_int :: "va list \<Rightarrow> fmt_error + (nat \<times> va list)" where
  "va_int args = (case args of VInt n # r \<Rightarrow> Inr (u32 n, r) | _ \<Rightarrow> Inl BadArg)"

definition va_ll :: "va list \<Rightarrow> fmt_error + (nat \<times> va list)" where
  "va_ll args = (case args of VLL n # r \<Rightarrow> Inr (u64 n, r) | _ \<Rightarrow> Inl BadArg)"

text \<open>The argument as \<open>unsigned long long\<close>, by token type.\<close>

definition va_num :: "format_type \<Rightarrow> va list \<Rightarrow> fmt_error + (nat \<times> va list)" where
  "va_num t args =
    (if t = FORMAT_TYPE_LONG_LONG \<or> t = FORMAT_TYPE_ULONG_LONG then va_ll args
     else case va_int args of
       Inl x \<Rightarrow> Inl x
     | Inr (n, r) \<Rightarrow> Inr (
         if t = FORMAT_TYPE_LONG \<or> t = FORMAT_TYPE_PTRDIFF \<or> t = FORMAT_TYPE_INT then sext 32 n
         else if t = FORMAT_TYPE_UBYTE then u8 n
         else if t = FORMAT_TYPE_BYTE then sext 8 n
         else if t = FORMAT_TYPE_USHORT then u16 n
         else if t = FORMAT_TYPE_SHORT then sext 16 n
         else n, r))"

definition char_conv :: "out \<Rightarrow> byte \<Rightarrow> printf_spec \<Rightarrow> out" where
  "char_conv o' c spec =
    (let (o', width) = (if \<not> flag spec LEFT then pad_gt o' (asc CHR '' '') (sp_width spec)
                        else (o', sp_width spec))
     in fst (pad_gt (emit o' c) (asc CHR '' '') width))"

text \<open>\<open>copy_text\<close> is the case \<open>FORMAT_TYPE_NONE\<close>; \<open>end - str\<close> is a signed difference.\<close>

definition copy_text :: "out \<Rightarrow> byte list \<Rightarrow> fmt_error + out" where
  "copy_text o' t =
    (let n = length (ob_buf o'); p = ob_pos o'
     in if p < n
        then (let room = s32 (int n - int p); copy = (if int (length t) > room then room else int (length t))
              in if copy < 0 then Inl WildCopy
                 else Inr (o'\<lparr>ob_buf := put_mem (ob_buf o') p (take (nat copy) t), ob_pos := p + length t\<rparr>))
        else Inr (o'\<lparr>ob_pos := p + length t\<rparr>))"

text \<open>One iteration: \<open>fmt\<close> is the format before the call of \<open>format_decode\<close>.\<close>

definition vsn_step :: "(addr \<Rightarrow> byte) \<Rightarrow> byte list \<Rightarrow> printf_spec \<Rightarrow> vstate \<Rightarrow>
    fmt_error + (byte list \<times> printf_spec \<times> vstate)" where
  "vsn_step m fmt spec st =
    (case format_decode fmt spec of (rest, spec) \<Rightarrow>
     let o' = v_out st; t = sp_type spec
     in if t = FORMAT_TYPE_NONE then
          (case copy_text o' (take (length fmt - length rest) fmt) of
             Inl x \<Rightarrow> Inl x
           | Inr o' \<Rightarrow> Inr (rest, spec, st\<lparr>v_out := o'\<rparr>))
        else if t = FORMAT_TYPE_PERCENT_CHAR \<or> t = FORMAT_TYPE_INVALID then
          Inr (rest, spec, st\<lparr>v_out := emit o' (asc CHR ''%'')\<rparr>)
        else if t = FORMAT_TYPE_LONG_LONG \<or> t = FORMAT_TYPE_ULONG_LONG then
          (case va_num t (v_args st) of
             Inl x \<Rightarrow> Inl x
           | Inr (n, r) \<Rightarrow> Inr (rest, spec, st\<lparr>v_out := number o' n spec, v_args := r\<rparr>))
        else (case va_int (v_args st) of
          Inl x \<Rightarrow> Inl x
        | Inr (n, r) \<Rightarrow>
            if t = FORMAT_TYPE_WIDTH then
              Inr (rest, spec\<lparr>sp_width := s16 (int n)\<rparr>, st\<lparr>v_args := r\<rparr>)
            else if t = FORMAT_TYPE_PRECISION then
              Inr (rest, spec\<lparr>sp_precision := s16 (int n)\<rparr>, st\<lparr>v_args := r\<rparr>)
            else if t = FORMAT_TYPE_CHAR then
              Inr (rest, spec, st\<lparr>v_out := char_conv o' (u8 n) spec, v_args := r\<rparr>)
            else if t = FORMAT_TYPE_STR then
              (case string_at o' m n spec of
                 Inl x \<Rightarrow> Inl x
               | Inr o' \<Rightarrow> Inr (rest, spec, st\<lparr>v_out := o', v_args := r\<rparr>))
            else if t = FORMAT_TYPE_PTR then
              (case pointer (tl rest) o' n spec of
                 Inl x \<Rightarrow> Inl x
               | Inr o' \<Rightarrow> Inr (dropWhile isalnum rest, spec, st\<lparr>v_out := o', v_args := r\<rparr>))
            else if t = FORMAT_TYPE_NRCHARS then
              Inr (rest, spec, st\<lparr>v_args := r, v_stores := v_stores st @ [(n, u32 (ob_pos o'))]\<rparr>)
            else (case va_num t (v_args st) of
                 Inl x \<Rightarrow> Inl x
               | Inr (n, r) \<Rightarrow> Inr (rest, spec, st\<lparr>v_out := number o' n spec, v_args := r\<rparr>))))"


text \<open>A token consumes input, except that a conversion that follows a \<open>*\<close> may be invalid or a
  pointer without consuming any; the weight counts the two stars that can be pending.\<close>

definition fmt_weight :: "byte list \<Rightarrow> printf_spec \<Rightarrow> nat" where
  "fmt_weight fmt spec = 3 * length fmt +
    (case sp_type spec of FORMAT_TYPE_WIDTH \<Rightarrow> 2 | FORMAT_TYPE_PRECISION \<Rightarrow> 1 | _ \<Rightarrow> 0)"

lemma skip_atoi_from_length: "length (snd (skip_atoi_from i s)) \<le> length s"
  by (induction i s rule: skip_atoi_from.induct) auto

lemma fd_flags_length: "length (fst (fd_flags fmt spec)) \<le> length fmt"
  by (induction fmt spec rule: fd_flags.induct) (auto simp: le_SucI)

lemma fd_flags_type: "sp_type (snd (fd_flags fmt spec)) = sp_type spec"
  by (induction fmt spec rule: fd_flags.induct) (simp_all add: set_flag_def)

lemma fd_int_type_cases: "fd_int_type spec \<notin> {FORMAT_TYPE_WIDTH, FORMAT_TYPE_PRECISION,
    FORMAT_TYPE_NONE, FORMAT_TYPE_PTR, FORMAT_TYPE_INVALID}"
  by (simp add: fd_int_type_def Let_def)

definition is_conv :: "byte list \<Rightarrow> byte list \<times> printf_spec \<Rightarrow> bool" where
  "is_conv fmt r \<longleftrightarrow> length (fst r) \<le> length fmt \<and>
    sp_type (snd r) \<notin> {FORMAT_TYPE_WIDTH, FORMAT_TYPE_PRECISION, FORMAT_TYPE_NONE} \<and>
    (sp_type (snd r) = FORMAT_TYPE_PTR \<longrightarrow> pk (fst r) = asc CHR ''p'')"

lemma is_conv_shorter: "is_conv fmt' r \<Longrightarrow> length fmt' \<le> length fmt \<Longrightarrow> is_conv fmt r"
  by (auto simp: is_conv_def)

lemma fd_conversion_conv: "is_conv fmt (fd_conversion fmt spec)"
  using fd_int_type_cases by (auto simp: fd_conversion_def Let_def is_conv_def)

lemma fd_qualifier_conv: "is_conv fmt (fd_qualifier fmt spec)"
  unfolding fd_qualifier_def Let_def
  by (auto intro!: fd_conversion_conv [THEN is_conv_shorter])

lemma fd_precision_cases: "is_conv fmt (fd_precision fmt spec) \<or>
    sp_type (snd (fd_precision fmt spec)) = FORMAT_TYPE_PRECISION \<and>
    length (fst (fd_precision fmt spec)) + 2 \<le> length fmt"
proof -
  have a: "is_conv fmt (fd_qualifier (snd (skip_atoi (tl fmt))) s)" for s
    using skip_atoi_from_length [of 0 "tl fmt"]
    by (intro fd_qualifier_conv [THEN is_conv_shorter]) (auto simp: skip_atoi_def)
  have b: "is_conv fmt (fd_qualifier (tl fmt) s)" for s
    by (intro fd_qualifier_conv [THEN is_conv_shorter]) auto
  have c: "pk fmt = asc CHR ''.'' \<Longrightarrow> pk (tl fmt) = asc CHR ''*'' \<Longrightarrow> length (tl (tl fmt)) + 2 \<le> length fmt"
    by (cases fmt; cases "tl fmt") auto
  show ?thesis
  proof (cases "pk fmt = asc CHR ''.''")
    case True
    then consider "is_digit (pk (tl fmt))" | "\<not> is_digit (pk (tl fmt))" "pk (tl fmt) = asc CHR ''*''"
      | "\<not> is_digit (pk (tl fmt))" "pk (tl fmt) \<noteq> asc CHR ''*''" by blast
    then show ?thesis
    proof cases
      case 1
      then show ?thesis using a True by (simp add: fd_precision_def Let_def split_beta)
    next
      case 2
      then show ?thesis using c [OF True] True by (simp add: fd_precision_def Let_def)
    next
      case 3
      then show ?thesis using b True by (simp add: fd_precision_def Let_def)
    qed
  qed (use fd_qualifier_conv in \<open>simp add: fd_precision_def Let_def\<close>)
qed

lemma fd_none: "sp_type spec \<notin> {FORMAT_TYPE_WIDTH, FORMAT_TYPE_PRECISION} \<Longrightarrow> fmt \<noteq> [] \<Longrightarrow>
    format_decode fmt spec = (rest, spec') \<Longrightarrow> length rest < length fmt"
proof -
  assume t: "sp_type spec \<notin> {FORMAT_TYPE_WIDTH, FORMAT_TYPE_PRECISION}" and ne: "fmt \<noteq> []"
    and fd: "format_decode fmt spec = (rest, spec')"
  let ?r = "dropWhile (\<lambda>c. c \<noteq> asc CHR ''%'') fmt"
  obtain f1 s1 where f1: "fd_flags (tl fmt) (spec\<lparr>sp_type := FORMAT_TYPE_NONE, sp_flags := 0\<rparr>) = (f1, s1)"
    by force
  have l1: "length f1 < length fmt"
    using fd_flags_length [of "tl fmt" "spec\<lparr>sp_type := FORMAT_TYPE_NONE, sp_flags := 0\<rparr>"] f1 ne
    by (cases fmt) auto
  have p: "length (fst (fd_precision g s)) \<le> length g" for g s
    using fd_precision_cases [of g s] by (auto simp: is_conv_def)
  have sk: "length (snd (skip_atoi f1)) \<le> length f1"
    using skip_atoi_from_length [of 0 f1] by (simp add: skip_atoi_def)
  show ?thesis
  proof (cases "?r = fmt")
    case True
    consider "is_digit (pk f1)" | "\<not> is_digit (pk f1)" "pk f1 = asc CHR ''*''"
      | "\<not> is_digit (pk f1)" "pk f1 \<noteq> asc CHR ''*''" by blast
    then show ?thesis
    proof cases
      case 1
      then have "rest = fst (fd_precision (snd (skip_atoi f1))
          (s1\<lparr>sp_width := s16 (fst (skip_atoi f1))\<rparr>))"
        using fd True t ne f1 by (simp add: format_decode_def Let_def split_beta)
      with p [of "snd (skip_atoi f1)"] sk l1 show ?thesis by (meson le_trans less_le_trans not_le)
    next
      case 2
      then have "rest = tl f1" using fd True t ne f1 by (simp add: format_decode_def Let_def)
      with l1 show ?thesis by simp
    next
      case 3
      then have "rest = fst (fd_precision f1 (s1\<lparr>sp_width := -1\<rparr>))"
        using fd True t ne f1 by (simp add: format_decode_def Let_def)
      with p [of f1] l1 show ?thesis by (meson le_less_trans)
    qed
  next
    case False
    then have "rest = ?r" using fd t by (auto simp: format_decode_def Let_def)
    moreover have "length ?r < length fmt"
      using False length_dropWhile_le [of "\<lambda>c. c \<noteq> asc CHR ''%''" fmt]
      by (metis le_neq_implies_less dropWhile_eq_drop drop_0 diff_is_0_eq length_drop nat_le_linear
          length_0_conv takeWhile_dropWhile_id append_eq_conv_conj le_refl
          takeWhile_eq_take length_append self_append_conv2 add_cancel_right_left)
    ultimately show ?thesis by simp
  qed
qed


lemma vsn_step_weight:
  assumes "vsn_step m fmt spec st = Inr (fmt', spec', st')" "fmt \<noteq> []"
  shows "fmt_weight fmt' spec' < fmt_weight fmt spec"
proof -
  obtain r s where d: "format_decode fmt spec = (r, s)" by force
  have type: "sp_type spec' = sp_type s"
    using assms(1) d unfolding vsn_step_def Let_def
    by (auto split: if_splits sum.splits prod.splits)
  have len: "length fmt' \<le> length r" and ptr: "sp_type s = FORMAT_TYPE_PTR \<Longrightarrow> fmt' = dropWhile isalnum r"
    using assms(1) d length_dropWhile_le [of isalnum r] unfolding vsn_step_def Let_def
    by (auto split: if_splits sum.splits prod.splits)
  show ?thesis
  proof (cases "sp_type spec \<in> {FORMAT_TYPE_WIDTH, FORMAT_TYPE_PRECISION}")
    case False
    then have "length r < length fmt" using fd_none [OF _ assms(2) d] by simp
    then have "3 * length fmt' + 3 \<le> 3 * length fmt" using len by simp
    moreover have "fmt_weight fmt' spec' \<le> 3 * length fmt' + 2"
      by (simp add: fmt_weight_def split: format_type.splits)
    moreover have "3 * length fmt \<le> fmt_weight fmt spec" by (simp add: fmt_weight_def)
    ultimately show ?thesis by linarith
  next
    case True
    have weight: "fmt_weight fmt spec \<ge> 3 * length fmt + 1" using True by (auto simp: fmt_weight_def)
    have conv: ?thesis if c: "is_conv fmt (r, s)"
    proof -
      have "fmt_weight fmt' spec' = 3 * length fmt'"
        using c type by (auto simp: is_conv_def fmt_weight_def split: format_type.splits)
      also have "\<dots> \<le> 3 * length fmt" using c len by (simp add: is_conv_def)
      finally show ?thesis using weight by linarith
    qed
    show ?thesis
    proof (cases "sp_type spec = FORMAT_TYPE_WIDTH")
      case W: True
      define sp where "sp = (if sp_width spec < 0
        then set_flag LEFT (spec\<lparr>sp_width := s16 (- sp_width spec)\<rparr>) else spec)\<lparr>sp_type := FORMAT_TYPE_NONE\<rparr>"
      have fd: "fd_precision fmt sp = (r, s)" using d W by (simp add: format_decode_def Let_def sp_def)
      from fd_precision_cases [of fmt sp] consider "is_conv fmt (r, s)"
        | "sp_type s = FORMAT_TYPE_PRECISION" "length r + 2 \<le> length fmt" by (auto simp: fd)
      then show ?thesis
      proof cases
        case 2
        then have "fmt_weight fmt' spec' = 3 * length fmt' + 1" using type by (simp add: fmt_weight_def)
        with 2 len weight show ?thesis by linarith
      qed (rule conv)
    next
      case False
      with True have P: "sp_type spec = FORMAT_TYPE_PRECISION" by simp
      define sp where "sp = spec\<lparr>sp_precision := (if sp_precision spec < 0 then 0 else sp_precision spec),
        sp_type := FORMAT_TYPE_NONE\<rparr>"
      have "fd_qualifier fmt sp = (r, s)" using d P by (simp add: format_decode_def sp_def)
      then show ?thesis using conv fd_qualifier_conv [of fmt sp] by simp
    qed
  qed
qed

function vsn_loop :: "(addr \<Rightarrow> byte) \<Rightarrow> byte list \<Rightarrow> printf_spec \<Rightarrow> vstate \<Rightarrow> fmt_error + vstate" where
  "vsn_loop m fmt spec st =
    (if fmt = [] then Inr st
     else case vsn_step m fmt spec st of
            Inl x \<Rightarrow> Inl x
          | Inr (fmt', spec', st') \<Rightarrow> vsn_loop m fmt' spec' st')"
  by pat_completeness auto
termination
  by (relation "measure (\<lambda>(_, fmt, spec, _). fmt_weight fmt spec)") (auto intro: vsn_step_weight)

declare vsn_loop.simps [simp del]

text \<open>The room the formatter believes in, when \<open>buf + size\<close> wraps.\<close>

definition vsn_size :: "addr \<Rightarrow> nat \<Rightarrow> nat" where
  "vsn_size buf size' = (if u32_add buf size' < buf then u32_sub 4294967295 buf else size')"

definition terminate_buf :: "byte list \<Rightarrow> nat \<Rightarrow> byte list" where
  "terminate_buf b pos = (if b = [] then b else if pos < length b then b[pos := 0] else b[length b - 1 := 0])"

text \<open>The call on a buffer \<open>b\<close> of \<open>vsn_size buf size\<close> bytes: the buffer, the value returned (an
  \<open>int\<close>) and the stores of \<open>%n\<close>.\<close>

definition vsnprintf :: "(addr \<Rightarrow> byte) \<Rightarrow> byte list \<Rightarrow> byte list \<Rightarrow> va list \<Rightarrow>
    fmt_error + (byte list \<times> int \<times> (addr \<times> nat) list)" where
  "vsnprintf m b fmt args =
    (case vsn_loop m fmt spec0 \<lparr>v_out = \<lparr>ob_buf = b, ob_pos = 0\<rparr>, v_args = args, v_stores = []\<rparr> of
       Inl x \<Rightarrow> Inl x
     | Inr st \<Rightarrow> Inr (terminate_buf (ob_buf (v_out st)) (ob_pos (v_out st)),
                      s32 (int (ob_pos (v_out st))), v_stores st))"

definition snprintf :: "(addr \<Rightarrow> byte) \<Rightarrow> byte list \<Rightarrow> byte list \<Rightarrow> va list \<Rightarrow>
    fmt_error + (byte list \<times> int \<times> (addr \<times> nat) list)" where
  "snprintf m b fmt args = vsnprintf m b fmt args"

end
