(* ===== verification/Vsprintf.thy ===== *)
theory Vsprintf
  imports Vsnprintf
begin

unbundle bit_operations_syntax

text \<open>
  The number parsers, the scanner and the unbounded formatter of \<open>common/Vsprintf.c\<close>.

  A string is the list of bytes from the pointer on; the memory behind the list is zero, so the
  terminator is implicit and a list may also hold what lies behind a terminator.  \<open>isspace\<close> of the
  source counts the terminator as a space: \<open>skip_spaces\<close> runs through it, and on a list that ends
  it never stops, which is \<open>None\<close>, and the error \<open>Runaway\<close> of the scanner.
  The formatter writes without a bound, so its result is the text written.
\<close>

section \<open>Numbers from text\<close>

definition isspace :: "byte \<Rightarrow> bool" where
  "isspace c \<longleftrightarrow> c = asc CHR '' '' \<or> c = 9 \<or> c = 10 \<or> c = 13 \<or> c = 0"

definition isxdigit :: "byte \<Rightarrow> bool" where
  "isxdigit c \<longleftrightarrow> is_digit c \<or> (asc CHR ''a'' \<le> c \<and> c \<le> asc CHR ''f'') \<or>
     (asc CHR ''A'' \<le> c \<and> c \<le> asc CHR ''F'')"

fun skip_spaces :: "byte list \<Rightarrow> byte list option" where
  "skip_spaces [] = None"
| "skip_spaces (c # s) = (if isspace c then skip_spaces s else Some (c # s))"

definition simple_guess_base :: "byte list \<Rightarrow> nat" where
  "simple_guess_base cp =
    (if pk cp = asc CHR ''0'' then
       (if TOLOWER (pk (tl cp)) = asc CHR ''x'' \<and> isxdigit (pk (tl (tl cp))) then 16 else 8)
     else 10)"

definition digit_value :: "byte \<Rightarrow> nat" where
  "digit_value c = (if is_digit c then c - asc CHR ''0'' else TOLOWER c - asc CHR ''a'' + 10)"

fun strtoull_loop :: "nat \<Rightarrow> nat \<Rightarrow> byte list \<Rightarrow> nat \<times> byte list" where
  "strtoull_loop base result [] = (result, [])"
| "strtoull_loop base result (c # cp) =
    (if isxdigit c \<and> digit_value c < base
     then strtoull_loop base (u64 (result * base + digit_value c)) cp
     else (result, c # cp))"

definition simple_strtoull :: "byte list \<Rightarrow> nat \<Rightarrow> nat \<times> byte list" where
  "simple_strtoull cp base =
    (let base = (if base = 0 then simple_guess_base cp else base);
         cp = (if base = 16 \<and> pk cp = asc CHR ''0'' \<and> TOLOWER (pk (tl cp)) = asc CHR ''x''
               then tl (tl cp) else cp)
     in strtoull_loop base 0 cp)"

text \<open>Signed results are the two's complement bits of the result type.\<close>

definition simple_strtoll :: "byte list \<Rightarrow> nat \<Rightarrow> nat \<times> byte list" where
  "simple_strtoll cp base =
    (if pk cp = asc CHR ''-'' then map_prod (u64_sub 0) id (simple_strtoull (tl cp) base)
     else simple_strtoull cp base)"

definition simple_strtoul :: "byte list \<Rightarrow> nat \<Rightarrow> nat \<times> byte list" where
  "simple_strtoul cp base = map_prod u32 id (simple_strtoull cp base)"

definition simple_strtol :: "byte list \<Rightarrow> nat \<Rightarrow> nat \<times> byte list" where
  "simple_strtol cp base =
    (if pk cp = asc CHR ''-'' then map_prod (u32_sub 0) id (simple_strtoul (tl cp) base)
     else simple_strtoul cp base)"

section \<open>The scanner\<close>

text \<open>What a conversion stores at its pointer: a number of some bytes, the characters of a string
  (the terminator included), or a double from the C library's \<open>strtod\<close>, a parameter.\<close>

datatype 'd sval = SNum nat nat | SBytes "byte list" | SDouble 'd

datatype scan_error = Runaway | NoPointer | DeadLoop

record 'd scan =
  sc_fmt :: "byte list"
  sc_str :: "byte list"
  sc_num :: nat
  sc_args :: "addr list"
  sc_stores :: "(addr \<times> 'd sval) list"

datatype 'd outcome = Continue "'d scan" | Break "'d scan" | Return "'d scan"

definition store_at :: "'d scan \<Rightarrow> 'd sval \<Rightarrow> scan_error + 'd scan" where
  "store_at s v = (case sc_args s of [] \<Rightarrow> Inl NoPointer
     | p # ps \<Rightarrow> Inr (s\<lparr>sc_args := ps, sc_stores := sc_stores s @ [(p, v)]\<rparr>))"

text \<open>Case \<open>c\<close>: at least one character, at most \<open>w\<close>, up to the terminator.\<close>

fun scan_chars :: "nat \<Rightarrow> byte list \<Rightarrow> byte list \<times> byte list" where
  "scan_chars 0 s = ([], s)"
| "scan_chars (Suc w) s =
    (if pk s = 0 then ([], s) else case scan_chars w (tl s) of (t, r) \<Rightarrow> (pk s # t, r))"

fun scan_word :: "nat \<Rightarrow> byte list \<Rightarrow> byte list \<times> byte list" where
  "scan_word w [] = ([], [])"
| "scan_word w (c # s) =
    (if isspace c \<or> w = 0 then ([], c # s) else case scan_word (w - 1) s of (t, r) \<Rightarrow> (c # t, r))"

text \<open>The value and width an integer conversion stores, by qualifier.\<close>

definition scan_number :: "(byte list \<Rightarrow> 'd \<times> byte list) \<Rightarrow> nat \<Rightarrow> bool \<Rightarrow> bool \<Rightarrow> nat \<Rightarrow> byte list \<Rightarrow>
    'd sval \<times> byte list" where
  "scan_number strtod q is_sign is_float base str =
    (let sl = simple_strtol str base; ul = simple_strtoul str base
     in if q = asc CHR ''H'' then
          (if is_sign then (SNum 1 (u8 (fst sl)), snd sl) else (SNum 1 (u8 (fst ul)), snd ul))
        else if q = asc CHR ''h'' then
          (if is_sign then (SNum 2 (u16 (fst sl)), snd sl) else (SNum 2 (u16 (fst ul)), snd ul))
        else if q = asc CHR ''l'' then
          (if is_sign then (SNum 4 (fst sl), snd sl)
           else if is_float then map_prod SDouble id (strtod str)
           else (SNum 4 (fst ul), snd ul))
        else if q = asc CHR ''L'' then
          (if is_sign then map_prod (SNum 8) id (simple_strtoll str base)
           else map_prod (SNum 8) id (simple_strtoull str base))
        else if q = asc CHR ''Z'' \<or> q = asc CHR ''z'' then (SNum 4 (fst ul), snd ul)
        else
          (if is_sign then (SNum 4 (fst sl), snd sl)
           else if is_float then map_prod SDouble id (strtod str)
           else (SNum 4 (fst ul), snd ul)))"

text \<open>An integer or float conversion: the part behind the first \<open>switch\<close>.\<close>

definition scan_conv :: "(byte list \<Rightarrow> 'd \<times> byte list) \<Rightarrow> nat \<Rightarrow> bool \<Rightarrow> bool \<Rightarrow> nat \<Rightarrow> 'd scan \<Rightarrow>
    scan_error + 'd outcome" where
  "scan_conv strtod q is_sign is_float base s =
    (case skip_spaces (sc_str s) of
       None \<Rightarrow> Inl Runaway
     | Some str \<Rightarrow>
         let s = s\<lparr>sc_str := str\<rparr>;
             digit = (if (is_sign \<or> is_float) \<and> pk str = asc CHR ''-'' then pk (tl str) else pk str)
         in if digit = 0 \<or> (base = 16 \<and> \<not> isxdigit digit) \<or> (base = 10 \<and> \<not> is_digit digit) \<or>
               (base = 8 \<and> (\<not> is_digit digit \<or> digit > asc CHR ''7'')) \<or> (base = 0 \<and> \<not> is_digit digit)
            then Inr (Break s)
            else case scan_number strtod q is_sign is_float base str of (v, next) \<Rightarrow>
              map_sum id (\<lambda>s. Continue (s\<lparr>sc_num := sc_num s + 1, sc_str := next\<rparr>)) (store_at s v))"

definition scan_width :: "byte list \<Rightarrow> int \<times> byte list" where
  "scan_width fmt = (if is_digit (pk fmt) then skip_atoi fmt else (-1, fmt))"

definition scan_qualifier :: "byte list \<Rightarrow> nat \<times> byte list" where
  "scan_qualifier fmt =
    (let c = pk fmt
     in if c = asc CHR ''h'' \<or> TOLOWER c = asc CHR ''l'' \<or> TOLOWER c = asc CHR ''z''
        then (if c = pk (tl fmt) \<and> c = asc CHR ''h'' then (asc CHR ''H'', tl (tl fmt))
              else if c = pk (tl fmt) \<and> c = asc CHR ''l'' then (asc CHR ''L'', tl (tl fmt))
              else (c, tl fmt))
        else (255, fmt))"

text \<open>The first \<open>switch\<close>, on the conversion character; \<open>buflen\<close> is the length of the input.\<close>

definition scan_switch :: "(byte list \<Rightarrow> 'd \<times> byte list) \<Rightarrow> nat \<Rightarrow> int \<Rightarrow> nat \<Rightarrow> 'd scan \<Rightarrow>
    scan_error + 'd outcome" where
  "scan_switch strtod buflen w q s =
    (let c = pk (sc_fmt s); s = s\<lparr>sc_fmt := tl (sc_fmt s)\<rparr>
     in if c = asc CHR ''c'' then
          (case scan_chars (max 1 (nat w)) (sc_str s) of (t, r) \<Rightarrow>
             map_sum id (\<lambda>s. Continue (s\<lparr>sc_num := sc_num s + 1, sc_str := r\<rparr>)) (store_at s (SBytes t)))
        else if c = asc CHR ''s'' then
          (case skip_spaces (sc_str s) of
             None \<Rightarrow> Inl Runaway
           | Some str \<Rightarrow>
               if sc_args s \<noteq> [] \<and> hd (sc_args s) = 0 then Inl DeadLoop
               else case scan_word (if w = -1 then 2147483647 else nat w) str of (t, r) \<Rightarrow>
                 map_sum id (\<lambda>s. Continue (s\<lparr>sc_num := sc_num s + 1, sc_str := r\<rparr>))
                   (store_at s (SBytes (t @ [0]))))
        else if c = asc CHR ''n'' then
          map_sum id Continue (store_at s (SNum 4 (u32 (buflen - length (sc_str s)))))
        else if c = asc CHR ''o'' then scan_conv strtod q False False 8 s
        else if c = asc CHR ''x'' \<or> c = asc CHR ''X'' then scan_conv strtod q False False 16 s
        else if c = asc CHR ''i'' then scan_conv strtod q True False 0 s
        else if c = asc CHR ''d'' then scan_conv strtod q True False 10 s
        else if c = asc CHR ''u'' then scan_conv strtod q False False 10 s
        else if c = asc CHR ''f'' then scan_conv strtod q False True 10 s
        else if c = asc CHR ''%'' then
          (if pk (sc_str s) \<noteq> asc CHR ''%'' then Inr (Return s)
           else Inr (Continue (s\<lparr>sc_str := tl (sc_str s)\<rparr>)))
        else Inr (Return s))"

text \<open>The white space at the head of an iteration: \<open>if (isspace(*fmt) && *(++fmt))\<close>.\<close>

definition scan_blank :: "'d scan \<Rightarrow> scan_error + 'd scan" where
  "scan_blank s =
    (if isspace (pk (sc_fmt s)) then
       (let s = s\<lparr>sc_fmt := tl (sc_fmt s)\<rparr>
        in if pk (sc_fmt s) \<noteq> 0 then
             (case (skip_spaces (sc_fmt s), skip_spaces (sc_str s)) of
                (Some f, Some t) \<Rightarrow> Inr (s\<lparr>sc_fmt := f, sc_str := t\<rparr>)
              | _ \<Rightarrow> Inl Runaway)
           else Inr s)
     else Inr s)"

definition vsscanf_step :: "(byte list \<Rightarrow> 'd \<times> byte list) \<Rightarrow> nat \<Rightarrow> 'd scan \<Rightarrow> scan_error + 'd outcome" where
  "vsscanf_step strtod buflen s =
    (case scan_blank s of
       Inl x \<Rightarrow> Inl x
     | Inr s \<Rightarrow>
         let c = pk (sc_fmt s)
         in if c = 0 then Inr (Break s)
            else if c \<noteq> asc CHR ''%'' then
              (let s' = s\<lparr>sc_fmt := tl (sc_fmt s), sc_str := tl (sc_str s)\<rparr>
               in Inr (if c \<noteq> pk (sc_str s) then Break s' else Continue s'))
            else let fmt = tl (sc_fmt s)
                 in if pk fmt = asc CHR ''*'' then
                      Inr (Continue (s\<lparr>
                        sc_fmt := dropWhile (\<lambda>c. \<not> isspace c \<and> c \<noteq> asc CHR ''%'' \<and> c \<noteq> 0) fmt,
                        sc_str := dropWhile (\<lambda>c. \<not> isspace c \<and> c \<noteq> 0) (sc_str s)\<rparr>))
                    else (case scan_width fmt of (w, fmt) \<Rightarrow>
                          case scan_qualifier fmt of (q, fmt) \<Rightarrow>
                            let s = s\<lparr>sc_fmt := fmt\<rparr>
                            in if pk fmt = 0 \<or> pk (sc_str s) = 0 then Inr (Break s)
                               else scan_switch strtod buflen w q s))"

lemma skip_spaces_length: "skip_spaces s = Some t \<Longrightarrow> length t \<le> length s"
  by (induction s) (auto split: if_splits intro: le_SucI)

lemma scan_width_length: "length (snd (scan_width fmt)) \<le> length fmt"
  using skip_atoi_from_length [of 0 fmt] by (simp add: scan_width_def skip_atoi_def)

lemma scan_qualifier_length: "length (snd (scan_qualifier fmt)) \<le> length fmt"
  by (simp add: scan_qualifier_def Let_def)

lemma store_at_fmt: "store_at s v = Inr s' \<Longrightarrow> sc_fmt s' = sc_fmt s"
  by (auto simp: store_at_def split: list.splits)

lemma scan_conv_fmt: "scan_conv strtod q a b base s = Inr (Continue s') \<Longrightarrow> sc_fmt s' = sc_fmt s"
  unfolding scan_conv_def Let_def
  by (auto dest!: store_at_fmt split: option.splits prod.splits if_splits simp: map_sum_def
      split: sum.splits)

lemma map_sum_Inr: "map_sum f g x = Inr y \<longleftrightarrow> (\<exists>z. x = Inr z \<and> y = g z)"
  by (cases x) auto

lemma scan_switch_fmt:
  "scan_switch strtod n w q s = Inr (Continue s') \<Longrightarrow> sc_fmt s' = tl (sc_fmt s)"
  unfolding scan_switch_def Let_def
  by (auto dest!: store_at_fmt scan_conv_fmt simp: map_sum_Inr split: option.splits prod.splits if_splits)

lemma scan_blank_length: "scan_blank s = Inr s' \<Longrightarrow> length (sc_fmt s') \<le> length (sc_fmt s)"
  unfolding scan_blank_def Let_def
  by (auto dest!: skip_spaces_length split: option.splits if_splits)

lemma vsscanf_step_shorter:
  assumes "vsscanf_step strtod n s = Inr (Continue s')"
  shows "length (sc_fmt s') < length (sc_fmt s)"
proof -
  obtain t where t: "scan_blank s = Inr t" and ne: "pk (sc_fmt t) \<noteq> 0"
    using assms by (auto simp: vsscanf_step_def Let_def split: sum.splits if_splits)
  have "sc_fmt t \<noteq> []" using ne by auto
  then have tl: "length (tl (sc_fmt t)) < length (sc_fmt t)" by (cases "sc_fmt t") auto
  obtain w f1 where w: "scan_width (tl (sc_fmt t)) = (w, f1)" by force
  obtain q f2 where q: "scan_qualifier f1 = (q, f2)" by force
  have f2: "length f2 \<le> length (tl (sc_fmt t))"
    using scan_width_length [of "tl (sc_fmt t)"] scan_qualifier_length [of f1] w q by simp
  have "length (sc_fmt s') < length (sc_fmt t)"
  proof -
    consider "sc_fmt s' = tl (sc_fmt t)"
      | "sc_fmt s' = dropWhile (\<lambda>c. \<not> isspace c \<and> c \<noteq> asc CHR ''%'' \<and> c \<noteq> 0) (tl (sc_fmt t))"
      | "scan_switch strtod n w q (t\<lparr>sc_fmt := f2\<rparr>) = Inr (Continue s')"
      using assms t w q by (auto simp: vsscanf_step_def Let_def split: if_splits)
    then show ?thesis
    proof cases
      case 2
      then show ?thesis using length_dropWhile_le tl by (metis le_less_trans)
    next
      case 3
      from scan_switch_fmt [OF this] f2 tl show ?thesis by simp
    qed (use tl in simp)
  qed
  with scan_blank_length [OF t] show ?thesis by simp
qed

text \<open>The loop and the conversion of a \<open>%n\<close> behind it.\<close>

definition scan_finish :: "nat \<Rightarrow> 'd scan \<Rightarrow> scan_error + 'd scan" where
  "scan_finish buflen s =
    (if pk (sc_fmt s) = asc CHR ''%'' \<and> pk (tl (sc_fmt s)) = asc CHR ''n''
     then store_at s (SNum 4 (u32 (buflen - length (sc_str s)))) else Inr s)"

function vsscanf_loop :: "(byte list \<Rightarrow> 'd \<times> byte list) \<Rightarrow> nat \<Rightarrow> 'd scan \<Rightarrow> scan_error + 'd scan" where
  "vsscanf_loop strtod buflen s =
    (if pk (sc_fmt s) = 0 \<or> pk (sc_str s) = 0 then scan_finish buflen s
     else case vsscanf_step strtod buflen s of
            Inl x \<Rightarrow> Inl x
          | Inr (Continue s') \<Rightarrow> vsscanf_loop strtod buflen s'
          | Inr (Break s') \<Rightarrow> scan_finish buflen s'
          | Inr (Return s') \<Rightarrow> Inr s')"
  by pat_completeness auto
termination
  by (relation "measure (\<lambda>(_, _, s). length (sc_fmt s))") (auto intro: vsscanf_step_shorter)

declare vsscanf_loop.simps [simp del]

definition vsscanf :: "(byte list \<Rightarrow> 'd \<times> byte list) \<Rightarrow> byte list \<Rightarrow> byte list \<Rightarrow> addr list \<Rightarrow>
    scan_error + (nat \<times> (addr \<times> 'd sval) list)" where
  "vsscanf strtod buf fmt args =
    map_sum id (\<lambda>s. (sc_num s, sc_stores s))
      (vsscanf_loop strtod (length buf)
         \<lparr>sc_fmt = fmt, sc_str = buf, sc_num = 0, sc_args = args, sc_stores = []\<rparr>)"

definition sscanf :: "(byte list \<Rightarrow> 'd \<times> byte list) \<Rightarrow> byte list \<Rightarrow> byte list \<Rightarrow> addr list \<Rightarrow>
    scan_error + (nat \<times> (addr \<times> 'd sval) list)" where
  "sscanf strtod buf fmt args = vsscanf strtod buf fmt args"

section \<open>The unbounded formatter\<close>

definition N_LEFT :: nat where "N_LEFT = 1"
definition N_PLUS :: nat where "N_PLUS = 2"
definition N_SPACE :: nat where "N_SPACE = 4"
definition N_SPECIAL :: nat where "N_SPECIAL = 8"
definition N_ZERO :: nat where "N_ZERO = 16"
definition N_SIGN :: nat where "N_SIGN = 32"
definition N_SMALL :: nat where "N_SMALL = 64"

lemmas nflag_defs = N_LEFT_def N_PLUS_def N_SPACE_def N_SPECIAL_def N_ZERO_def N_SIGN_def N_SMALL_def

definition has :: "nat \<Rightarrow> nat \<Rightarrow> bool" where
  "has flags f \<longleftrightarrow> flags AND f \<noteq> 0"

definition get_wide :: "byte list \<Rightarrow> int \<times> byte list" where
  "get_wide s = skip_atoi_from 0 s"

text \<open>\<open>while (wide-- > 0)\<close> emits \<open>wide\<close> characters; the second component is what is left of it.\<close>

definition pad_wide :: "int \<Rightarrow> byte \<Rightarrow> byte list \<times> int" where
  "pad_wide wide c = (replicate (nat wide) c, s32 (min wide 0 - 1))"

text \<open>The digits, least significant first; an index outside the digit string is \<open>None\<close>.\<close>

definition LONG_STRSIZE_BASE_2 :: nat where "LONG_STRSIZE_BASE_2 = 32"

function signed_digits :: "byte list \<Rightarrow> int \<Rightarrow> int \<Rightarrow> byte list option" where
  "signed_digits digits base num =
    (if num = 0 then Some []
     else if base < 2 then None
     else if num < 0 then None
     else map_option (Cons (digits ! nat (num mod base))) (signed_digits digits base (num div base)))"
  by pat_completeness auto
termination
proof (relation "measure (\<lambda>(_, _, num). nat num)")
  fix digits :: "byte list" and base num :: int
  assume "num \<noteq> 0" "\<not> base < 2" "\<not> num < 0"
  then have "num div base < num" by (intro int_div_less_self) auto
  then show "((digits, base, num div base), digits, base, num) \<in> measure (\<lambda>(_, _, num). nat num)"
    using \<open>num \<noteq> 0\<close> \<open>\<not> num < 0\<close> by simp
qed simp

definition unsigned_digits :: "byte list \<Rightarrow> nat \<Rightarrow> nat \<Rightarrow> byte list" where
  "unsigned_digits digits base num = map (\<lambda>d. digits ! d) (digits_lsb base num)"

declare signed_digits.simps [simp del]

text \<open>\<open>num\<close> is a \<open>long\<close>.  \<open>-num\<close> of the least long is itself, and its digits are read with
  negative indices: that is \<open>None\<close>.\<close>

definition number_to_string :: "int \<Rightarrow> nat \<Rightarrow> nat \<Rightarrow> int \<Rightarrow> int \<Rightarrow> byte list option" where
  "number_to_string num base flags wide precision =
    (let num_cpy = num; ul_num = nat (num mod 4294967296);
         digits = (if has flags N_SMALL then cstr ''0123456789abcdef'' else cstr ''0123456789ABCDEF'')
     in if base < 2 \<or> base > 16 then Some []
        else
          let (sign, num) = (if has flags N_SIGN \<and> num < 0 then (asc CHR ''-'', s32 (- num))
                 else (if has flags N_PLUS then asc CHR ''+'' else if has flags N_SPACE then asc CHR '' '' else 0, num));
              wide = (if sign \<noteq> 0 then s32 (wide - 1) else wide);
              wide = (if has flags N_SPECIAL \<and> base = 16 \<and> num \<noteq> 0 then s32 (wide - 2) else wide);
              (wide, precision) = (if has flags N_SPECIAL \<and> base = 8
                                   then (s32 (wide - 1), s32 (precision - 1)) else (wide, precision))
          in case (if num = 0 then Some [asc CHR ''0'']
                   else if has flags N_SIGN then signed_digits digits (int base) num
                   else Some (unsigned_digits digits base ul_num)) of
               None \<Rightarrow> None
             | Some tmp \<Rightarrow>
                 let i = int (length tmp);
                     precision = (if i > precision then i else precision);
                     wide = s32 (wide - precision);
                     (p1, wide) = (if \<not> (has flags N_LEFT \<or> has flags N_ZERO)
                                   then pad_wide wide (asc CHR '' '') else ([], wide));
                     pfx = (if has flags N_SPECIAL \<and> num_cpy \<noteq> 0 then
                              (if base = 8 then [asc CHR ''0'']
                               else if base = 16
                               then [asc CHR ''0'', if has flags N_SMALL then asc CHR ''x'' else asc CHR ''X'']
                               else [])
                            else []);
                     (p2, wide) = (if \<not> has flags N_LEFT then pad_wide wide (asc CHR ''0'') else ([], wide))
                 in Some (p1 @ (if sign \<noteq> 0 then [sign] else []) @ pfx @ p2 @
                          replicate (nat (precision - i)) (asc CHR ''0'') @ rev tmp @
                          fst (pad_wide wide (asc CHR '' ''))))"

fun vs_flags :: "byte list \<Rightarrow> nat \<Rightarrow> nat \<times> byte list" where
  "vs_flags [] flags = (flags, [])"
| "vs_flags (c # fmt) flags =
    (if c = asc CHR ''-'' then vs_flags fmt (flags OR N_LEFT)
     else if c = asc CHR ''+'' then vs_flags fmt (flags OR N_PLUS)
     else if c = asc CHR '' '' then vs_flags fmt (flags OR N_SPACE)
     else if c = asc CHR ''#'' then vs_flags fmt (flags OR N_SPECIAL)
     else if c = asc CHR ''0'' then vs_flags fmt (flags OR N_ZERO)
     else (flags, c # fmt))"

text \<open>A width or precision: a number, \<open>*\<close> for the next argument, or the default.\<close>

definition vs_field :: "byte list \<Rightarrow> va list \<Rightarrow> int \<Rightarrow> fmt_error + (int \<times> byte list \<times> va list)" where
  "vs_field fmt args dflt =
    (if is_digit (pk fmt) then (case get_wide fmt of (w, fmt) \<Rightarrow> Inr (w, fmt, args))
     else if pk fmt = asc CHR ''*'' then
       (case va_int args of Inl x \<Rightarrow> Inl x | Inr (n, r) \<Rightarrow> Inr (s32 (int n), tl fmt, r))
     else Inr (dflt, fmt, args))"

text \<open>\<open>while (len < wide--)\<close>, for the strings and characters.\<close>

definition vs_pads :: "nat \<Rightarrow> byte list \<Rightarrow> nat \<Rightarrow> int \<Rightarrow> byte list" where
  "vs_pads flags t len wide =
    (let pad = replicate (nat (wide - int len)) (asc CHR '' '')
     in if has flags N_LEFT then t @ pad else pad @ t)"

definition vs_string :: "(addr \<Rightarrow> byte) \<Rightarrow> nat \<Rightarrow> addr \<Rightarrow> int \<Rightarrow> int \<Rightarrow> byte list" where
  "vs_string m flags p wide precision =
    (let len = strnlen m p 2147483647;
         len = (if 0 \<le> precision \<and> precision < int len then nat precision else len)
     in vs_pads flags (map (\<lambda>i. m (u32_add p i)) [0..<len]) len wide)"

text \<open>The last \<open>switch\<close>, for conversion \<open>c\<close> with qualifier \<open>q\<close> and argument word \<open>n\<close>.\<close>

definition vs_format :: "(addr \<Rightarrow> byte) \<Rightarrow> nat \<Rightarrow> int \<Rightarrow> int \<Rightarrow> byte \<Rightarrow> byte \<Rightarrow> nat \<Rightarrow> byte list option" where
  "vs_format m flags wide precision q c n =
    (let nozero = (if precision \<noteq> -1 then 15 OR 32 OR 64 else 15 OR 16 OR 32 OR 64)
     in if c = asc CHR ''i'' \<or> c = asc CHR ''d'' then
          number_to_string (if q = asc CHR ''h'' then s16 (int n) else s32 (int n)) 10
            ((flags OR N_SIGN) AND nozero) wide precision
        else if c = asc CHR ''s'' then Some (vs_string m flags n wide precision)
        else if c = asc CHR ''c'' then Some (vs_pads flags [u8 n] 1 wide)
        else
          number_to_string (if q = asc CHR ''h'' then int (u16 n) else s32 (int n))
            (if c = asc CHR ''u'' then 10 else if c = asc CHR ''o'' then 8 else 16)
            ((if c = asc CHR ''x'' then flags OR N_SMALL else flags) AND (1 OR 8 OR 16 OR 32 OR 64) AND nozero)
            wide precision)"

text \<open>One conversion; \<open>None\<close> in the result is \<open>return -1\<close>.\<close>

definition vs_conv :: "(addr \<Rightarrow> byte) \<Rightarrow> byte list \<Rightarrow> va list \<Rightarrow>
    fmt_error + (byte list \<times> byte list \<times> va list) option" where
  "vs_conv m fmt args =
    (case vs_flags fmt 0 of (flags, fmt) \<Rightarrow>
     case vs_field fmt args (-1) of Inl x \<Rightarrow> Inl x
     | Inr (wide, fmt, args) \<Rightarrow>
     case (if pk fmt = asc CHR ''.'' then vs_field (tl fmt) args 0 else Inr (-1, fmt, args)) of Inl x \<Rightarrow> Inl x
     | Inr (precision, fmt, args) \<Rightarrow>
     let q = (if pk fmt = asc CHR ''h'' \<or> pk fmt = asc CHR ''l'' then pk fmt else 255);
         fmt = (if q \<noteq> 255 then tl fmt else fmt)
     in if pk fmt \<notin> set (cstr ''iduoxXsc'') then Inr None
        else case va_int args of Inl x \<Rightarrow> Inl x
        | Inr (n, args) \<Rightarrow>
            (case vs_format m flags wide precision q (pk fmt) n of
               None \<Rightarrow> Inl WildPointer
             | Some t \<Rightarrow> Inr (Some (t, tl fmt, args))))"

lemma vs_flags_length: "length (snd (vs_flags fmt flags)) \<le> length fmt"
  by (induction fmt flags rule: vs_flags.induct) (auto intro: le_SucI)

lemma vs_field_length: "vs_field fmt args d = Inr (w, fmt', args') \<Longrightarrow> length fmt' \<le> length fmt"
  using skip_atoi_from_length [of 0 fmt]
  by (auto simp: vs_field_def get_wide_def split: if_splits prod.splits sum.splits)

lemma vs_conv_length:
  assumes "vs_conv m fmt args = Inr (Some (t, fmt', args'))"
  shows "length fmt' \<le> length fmt"
proof -
  obtain flags f1 where f1: "vs_flags fmt 0 = (flags, f1)" by force
  obtain w f2 a2 where f2: "vs_field f1 args (-1) = Inr (w, f2, a2)"
    using assms f1 by (auto simp: vs_conv_def split: sum.splits)
  let ?r = "if pk f2 = asc CHR ''.'' then vs_field (tl f2) a2 0 else Inr (-1, f2, a2)"
  obtain p f3 a3 where f3: "?r = Inr (p, f3, a3)"
  proof (cases ?r)
    case (Inl x)
    with assms f1 f2 show ?thesis by (simp add: vs_conv_def del: asc_Char)
  next
    case (Inr z)
    with that show ?thesis by (cases z) simp
  qed
  have "length f3 \<le> length (tl f2) \<or> length f3 \<le> length f2"
    using f3 vs_field_length [of "tl f2" a2 0] by (auto split: if_splits)
  then have l3: "length f3 \<le> length fmt"
    using vs_flags_length [of fmt 0] f1 vs_field_length [OF f2] by auto
  have "length fmt' \<le> length f3"
    using assms f1 f2 f3 by (auto simp: vs_conv_def Let_def simp del: asc_Char
        split: sum.splits if_splits option.splits prod.splits)
  with l3 show ?thesis by simp
qed

text \<open>The text written, whether a terminator follows it, and the result.\<close>

function vsprintf_loop :: "(addr \<Rightarrow> byte) \<Rightarrow> byte list \<Rightarrow> va list \<Rightarrow> byte list \<Rightarrow>
    fmt_error + (byte list \<times> bool \<times> int)" where
  "vsprintf_loop m fmt args str =
    (case fmt of
       [] \<Rightarrow> Inr (str, True, s32 (int (length str)))
     | c # fmt \<Rightarrow>
         if c \<noteq> asc CHR ''%'' then vsprintf_loop m fmt args (str @ [c])
         else if pk fmt = asc CHR ''%'' then vsprintf_loop m (tl fmt) args (str @ [asc CHR ''%''])
         else (case vs_conv m fmt args of
                 Inl x \<Rightarrow> Inl x
               | Inr None \<Rightarrow> Inr (str, False, -1)
               | Inr (Some (t, fmt', args')) \<Rightarrow> vsprintf_loop m fmt' args' (str @ t)))"
  by pat_completeness auto
termination
  by (relation "measure (\<lambda>(_, fmt, _, _). length fmt)") (auto dest: vs_conv_length)

declare vsprintf_loop.simps [simp del]

definition vsprintf :: "(addr \<Rightarrow> byte) \<Rightarrow> byte list \<Rightarrow> va list \<Rightarrow> fmt_error + (byte list \<times> bool \<times> int)" where
  "vsprintf m format ap = vsprintf_loop m format ap []"

end
