(* ===== verification/NetOta.thy ===== *)
theory NetOta
  imports ByteMem Vsprintf
begin

text \<open>
  The access-point download server (\<open>demo_wifi/net_update.c\<close>, \<open>CONFIG_WL_AP_ENABLE\<close>): the phone
  connects, the loader asks it for windows of the upgrade file over TCP and serves the update
  library's reads from the window it holds.

  \<open>net\<close> holds the file's static variables.  The fixed RAM area of 40 KB starts with \<open>net_local\<close> (24
  bytes, the request of the library), here the record \<open>loc\<close>; behind it lies \<open>net_ota\<close>, which is both
  the request packet and the receive buffer: it is the byte memory \<open>ram\<close>, addressed from \<open>net_ota\<close> on,
  with its header fields at the offsets of the C struct, since TCP data is copied over it.  The
  library's destination buffers are the memory \<open>dest\<close>.

  The TCP callbacks run in the network thread.  What it does while the update thread sleeps is the
  list of \<open>tcp_ev\<close> events; \<open>Timer\<close> is the end of the sleep (a semaphore timeout, a delay).  A wait
  with no event left is \<^const>\<open>None\<close>.  A callback is invoked only for a connection that is registered,
  which \<open>conns\<close> records.
\<close>

section \<open>Constants\<close>

abbreviation (input) CTP_CTRL_PORT :: nat where "CTP_CTRL_PORT \<equiv> 3333"
abbreviation (input) NET_UPDATE_PORT :: nat where "NET_UPDATE_PORT \<equiv> 3335"
abbreviation (input) HTTP_PORT :: nat where "HTTP_PORT \<equiv> 8080"

abbreviation (input) NET_UPDATE_STATUS_OK :: nat where "NET_UPDATE_STATUS_OK \<equiv> 1"
abbreviation (input) NET_UPDATE_STATUS_ERR :: nat where "NET_UPDATE_STATUS_ERR \<equiv> 2"
abbreviation (input) NET_UPDATE_STATUS_READ :: nat where "NET_UPDATE_STATUS_READ \<equiv> 4"
abbreviation (input) NET_UPDATE_STATUS_STOP :: nat where "NET_UPDATE_STATUS_STOP \<equiv> 8"
abbreviation (input) NET_UPDATE_STATUS_SAME :: nat where "NET_UPDATE_STATUS_SAME \<equiv> 16"

definition sizeof_net_ota :: nat where [simp]: "sizeof_net_ota = 20"
definition sizeof_net_local :: nat where [simp]: "sizeof_net_local = 24"
definition BUF_MAX_SIZE :: nat where [simp]: "BUF_MAX_SIZE = 40960"
definition RECV_BUF_MAX_SIZE :: nat where
  [simp]: "RECV_BUF_MAX_SIZE = BUF_MAX_SIZE - sizeof_net_local - sizeof_net_ota"

text \<open>Offsets of the fields of \<open>struct net_ota\<close>.\<close>

abbreviation (input) F_SUM :: nat where "F_SUM \<equiv> 0"
abbreviation (input) F_SEEK :: nat where "F_SEEK \<equiv> 4"
abbreviation (input) F_READ :: nat where "F_READ \<equiv> 8"
abbreviation (input) F_ALL :: nat where "F_ALL \<equiv> 12"
abbreviation (input) F_STATUS :: nat where "F_STATUS \<equiv> 16"
abbreviation (input) F_PERCENT :: nat where "F_PERCENT \<equiv> 17"
abbreviation (input) F_BUF :: nat where "F_BUF \<equiv> 20"

section \<open>State\<close>

record net_local =
  seek_addr :: nat
  read_size :: nat
  all_size :: nat
  status :: nat
  download_percent :: nat
  resv :: nat
  buf :: addr

type_synonym pcb = "nat \<times> nat"      \<comment> \<open>identity, local port\<close>

definition local_port :: "pcb \<Rightarrow> nat" where [simp]: "local_port p = snd p"

record net =
  client_pcb :: "pcb option"
  client_accept :: int
  http_accept :: int
  ctp_accept :: int
  net_ota_listen :: bool
  net_ota_stop :: bool
  net_ota_lastpacket :: bool
  net_ota_start :: bool
  ota_all_size :: nat
  ota_read_size :: nat
  net_local_addr :: bool             \<comment> \<open>the pointer is set\<close>
  loc :: net_local
  ram :: memory
  dest :: memory
  read_sem :: nat                    \<comment> \<open>its count\<close>
  sem_valid :: bool
  conns :: "pcb set"
  wire :: "(pcb \<times> byte list) list"

text \<open>The send side of the TCP stack: the room in the send buffer, and whether a write succeeds.\<close>

record tcp =
  tcp_sndbuf :: "pcb \<Rightarrow> nat"
  tcp_write_ok :: "pcb \<Rightarrow> byte list \<Rightarrow> bool"

definition s8 :: "int \<Rightarrow> int" where "s8 x = (x + 128) mod 256 - 128"

lemma s8_id [simp]: "-128 \<le> x \<Longrightarrow> x < 128 \<Longrightarrow> s8 x = x"
  by (simp add: s8_def)

section \<open>Sums and sending\<close>

text \<open>The loop of \<open>sumget\<close> and \<open>sumcheck\<close>; a negative length is no iteration.\<close>

fun sumget :: "memory \<Rightarrow> nat \<Rightarrow> nat \<Rightarrow> nat" where
  "sumget m a 0 = 0"
| "sumget m a (Suc n) = u32_add (sumget m a n) (m (a + n))"

definition sumcheck :: "memory \<Rightarrow> nat \<Rightarrow> int \<Rightarrow> nat \<Rightarrow> int" where
  "sumcheck m a n sm = (if sumget m a (nat n) \<noteq> sm then -1 else 0)"

definition send_msg :: "tcp \<Rightarrow> pcb \<Rightarrow> byte list \<Rightarrow> net \<Rightarrow> net \<times> nat" where
  "send_msg T pcb bs s =
    (if tcp_sndbuf T pcb < length bs then (s, 0)
     else if \<not> tcp_write_ok T pcb bs then (s, 0)
     else (s\<lparr>wire := wire s @ [(pcb, bs)]\<rparr>, length bs))"

section \<open>Connections\<close>

definition msgclose :: "pcb \<Rightarrow> net \<Rightarrow> net" where
  "msgclose pcb s =
    (let s = (if local_port pcb = NET_UPDATE_PORT
              then let s = (if client_accept s > 0 then s\<lparr>client_accept := client_accept s - 1\<rparr> else s)
                in if client_accept s = 0 \<or> Some pcb = client_pcb s then s\<lparr>client_pcb := None\<rparr> else s
              else s);
         s = (if local_port pcb = CTP_CTRL_PORT
              then if ctp_accept s > 0 then s\<lparr>ctp_accept := ctp_accept s - 1\<rparr> else s
              else s)
     in s\<lparr>conns := conns s - {pcb}\<rparr>)"

definition msgaccept :: "pcb \<Rightarrow> net \<Rightarrow> net" where
  "msgaccept pcb s =
    (if local_port pcb = NET_UPDATE_PORT
     then let s = s\<lparr>client_accept := s8 (client_accept s + 1)\<rparr>
       in if client_accept s > 1 then msgclose pcb s
          else s\<lparr>client_pcb := Some pcb, conns := insert pcb (conns s)\<rparr>
     else s\<lparr>conns := insert pcb (conns s)\<rparr>)"

text \<open>The error callbacks; the stack has freed the connection.\<close>

definition msgerr_http :: "net \<Rightarrow> net" where
  "msgerr_http s = (if http_accept s > 0 then s\<lparr>http_accept := http_accept s - 1\<rparr> else s)"

definition msgerr_ctp :: "net \<Rightarrow> net" where
  "msgerr_ctp s = (if ctp_accept s > 0 then s\<lparr>ctp_accept := ctp_accept s - 1\<rparr> else s)"

definition msgerr_ota :: "net \<Rightarrow> net" where
  "msgerr_ota s = (if client_accept s > 0 then s\<lparr>client_accept := client_accept s - 1\<rparr> else s)"

definition msgerr :: "pcb \<Rightarrow> net \<Rightarrow> net" where
  "msgerr pcb s =
    (let s = (if local_port pcb = NET_UPDATE_PORT then msgerr_ota s
              else if local_port pcb = CTP_CTRL_PORT then msgerr_ctp s else msgerr_http s)
     in s\<lparr>conns := conns s - {pcb}\<rparr>)"

definition msgsent :: "pcb \<Rightarrow> net \<Rightarrow> net" where
  "msgsent pcb s = (if local_port pcb = NET_UPDATE_PORT \<and> net_ota_lastpacket s
     then s\<lparr>net_ota_lastpacket := False\<rparr> else s)"

section \<open>Receiving\<close>

definition os_sem_post :: "net \<Rightarrow> net" where
  "os_sem_post s = s\<lparr>read_sem := read_sem s + 1\<rparr>"

text \<open>\<open>memcpy(net_local->buf, net_ota->buf + (net_local->seek_addr - net_ota->seek_addr), read_size)\<close>\<close>

definition copy_window :: "net \<Rightarrow> net" where
  "copy_window s = s\<lparr>dest := mcpy_in (dest s) (buf (loc s))
     (bytes (ram s) (F_BUF + u32_sub (seek_addr (loc s)) (get32 (ram s) F_SEEK)) (read_size (loc s)))\<rparr>"

definition msgrecvmemcpy :: "net \<Rightarrow> net" where
  "msgrecvmemcpy s =
    os_sem_post
      (if ram s F_STATUS = NET_UPDATE_STATUS_STOP
       then s\<lparr>loc := (loc s)\<lparr>status := ram s F_STATUS\<rparr>, net_ota_stop := True\<rparr>
       else if read_size (loc s) \<noteq> 0 then copy_window s
       else s)"

text \<open>The packet is put together behind what has been received: the count is the field \<open>all_size\<close>.\<close>

definition recv_ota :: "byte list \<Rightarrow> net \<Rightarrow> net" where
  "recv_ota p s =
    (let m = mcpy_in (ram s) (get32 (ram s) F_ALL) p;
         m = put32 m F_ALL (u32_add (get32 m F_ALL) (length p))
     in if get32 m F_ALL \<ge> u32_add (get32 m F_READ) sizeof_net_ota
        then let m = put32 m F_ALL 0
          in if sumcheck m 4 (s32 (int (u32_add (get32 m F_READ) 16))) (get32 m F_SUM) \<noteq> 0
             then s\<lparr>ram := m\<rparr>
             else msgrecvmemcpy (s\<lparr>ram := m\<rparr>)
        else s\<lparr>ram := m\<rparr>)"

text \<open>The control connection: the version in the phone's message is echoed in the answer.\<close>

fun parse_ver :: "byte list \<Rightarrow> nat \<Rightarrow> nat" where
  "parse_ver [] v = v"
| "parse_ver (c # cs) v = (if is_digit c then parse_ver cs (u32_add (c - asc CHR ''0'') (u32_mul v 10)) else v)"

definition CTP_APP_ACCESS :: "byte list" where "CTP_APP_ACCESS = cstr ''APP_ACCESS''"
definition CTP_APP_ACCESS_NOTIFY_START :: "byte list" where
  "CTP_APP_ACCESS_NOTIFY_START = cstr ''{\"op\":\"NOTIFY\",\"param\":{\"type\":\"0\",\"ver\":\"%d%s''"
definition CTP_APP_ACCESS_NOTIFY_END :: "byte list" where "CTP_APP_ACCESS_NOTIFY_END = cstr ''\"}}''"
definition CTP_APP_ACCESS_NOTIFY_VER :: nat where "CTP_APP_ACCESS_NOTIFY_VER = 20906"

text \<open>The program's \<open>sprintf\<close>; the string argument lies at some address.\<close>

definition ctp_content :: "nat \<Rightarrow> byte list" where
  "ctp_content vers =
    (case vsprintf (mcpy_in (\<lambda>_. 0) 4096 CTP_APP_ACCESS_NOTIFY_END) CTP_APP_ACCESS_NOTIFY_START
       [VInt (if vers \<noteq> 0 then vers else CTP_APP_ACCESS_NOTIFY_VER), VInt 4096] of
       Inl _ \<Rightarrow> [] | Inr (t, _) \<Rightarrow> t)"

definition ctp_version :: "memory \<Rightarrow> nat" where
  "ctp_version m =
    (case strstr (cstring m F_BUF BUF_MAX_SIZE) (cstr ''ver\":\"'') of
       None \<Rightarrow> 0 | Some t \<Rightarrow> parse_ver (drop 6 t) 0)"

definition ctp_reply :: "nat \<Rightarrow> byte list" where
  "ctp_reply vers = cstr ''CTP:'' @ le16 (length CTP_APP_ACCESS) @ CTP_APP_ACCESS @
     le32 (length (ctp_content vers)) @ ctp_content vers"

definition recv_ctp :: "tcp \<Rightarrow> pcb \<Rightarrow> byte list \<Rightarrow> net \<Rightarrow> net" where
  "recv_ctp T pcb p s =
    (if ctp_accept s \<noteq> 0 then s
     else let m = mcpy_in (ram s) F_BUF p;
              m = m(F_BUF + length p + 1 := 0);
              reply = ctp_reply (ctp_version m);
              s = s\<lparr>ram := mcpy_in m F_BUF (reply @ [0]), ctp_accept := s8 (ctp_accept s + 1)\<rparr>
       in fst (send_msg T pcb reply s))"

definition HTTP_DEV_DESC :: "byte list" where
  "HTTP_DEV_DESC =
    cstr ''HTTP/1.1 200 OK'' @ [13, 10] @ cstr ''Content-Type:text'' @ [13, 10] @
    cstr ''Content-Length:454'' @ [13, 10] @ cstr ''Accept-Ranges:bytes'' @ [13, 10] @
    cstr ''Connection:close'' @ [13, 10, 13, 10] @
    cstr ''{\"app_list\":{\"match_android_ver\":[\"1.0\",\"2.0\"],\"match_ios_ver\":[\"1.0\",\"2.0\"]},'' @
    cstr ''\"forward_support\":[\"0\"],\"behind_support\":[\"0\"],\"forward_record_support\":[\"0\"],'' @
    cstr ''\"behind_record_support\":[\"0\"],\"rtsp_forward_support\":[\"0\"],\"rtsp_behind_support\":[\"0\"],'' @
    cstr ''\"device_type\":\"1\",\"net_type\":\"1\",\"rts_type\":\"0\",\"product_type\":\"AC79x_wifi_camera\",'' @
    cstr ''\"support_projection\":\"0\",\"ota_type\":\"1\",\"ota_step\":\"1\",\"firmware_version\":\"1.0.1\",'' @
    cstr ''\"match_app_type\":\"DVRunning2\",\"uuid\":\"xxxxxx\"}''"

definition msgrecv :: "tcp \<Rightarrow> pcb \<Rightarrow> byte list \<Rightarrow> net \<Rightarrow> net" where
  "msgrecv T pcb p s =
    (if length p > RECV_BUF_MAX_SIZE then s
     else if local_port pcb = HTTP_PORT
     then let s = fst (send_msg T pcb HTTP_DEV_DESC s) in s\<lparr>http_accept := s8 (http_accept s + 1)\<rparr>
     else if local_port pcb = CTP_CTRL_PORT then recv_ctp T pcb p s
     else recv_ota p s)"

section \<open>Sleeping\<close>

datatype tcp_ev = Seg pcb "byte list" | Fin pcb | Accept pcb | Sent pcb | Err pcb | Timer

fun net_event :: "tcp \<Rightarrow> tcp_ev \<Rightarrow> net \<Rightarrow> net" where
  "net_event T (Seg pcb p) s = (if pcb \<in> conns s then msgrecv T pcb p s else s)"
| "net_event T (Fin pcb) s = (if pcb \<in> conns s then msgclose pcb s else s)"
| "net_event T (Accept pcb) s = (if pcb \<in> conns s then s else msgaccept pcb s)"
| "net_event T (Sent pcb) s = (if pcb \<in> conns s then msgsent pcb s else s)"
| "net_event T (Err pcb) s = (if pcb \<in> conns s then msgerr pcb s else s)"
| "net_event T Timer s = s"

type_synonym nworld = "net \<times> tcp_ev list"

text \<open>\<open>os_sem_pend\<close>: 0 when the semaphore was taken, 1 on a timeout; nothing is known of a deleted one.\<close>

fun os_sem_pend :: "tcp \<Rightarrow> net \<Rightarrow> tcp_ev list \<Rightarrow> (nat \<times> nworld) option" where
  "os_sem_pend T s es =
    (if read_sem s > 0 then Some (0, s\<lparr>read_sem := read_sem s - 1\<rparr>, es)
     else case es of [] \<Rightarrow> None
       | e # es' \<Rightarrow> if e = Timer then Some (1, s, es') else os_sem_pend T (net_event T e s) es')"

declare os_sem_pend.simps [simp del]

fun os_time_dly :: "tcp \<Rightarrow> net \<Rightarrow> tcp_ev list \<Rightarrow> nworld option" where
  "os_time_dly T s [] = None"
| "os_time_dly T s (e # es) = (if e = Timer then Some (s, es) else os_time_dly T (net_event T e s) es)"

text \<open>\<open>while (cond && --cnt) os_time_dly(10)\<close>: the final count.\<close>

fun poll_until :: "tcp \<Rightarrow> (net \<Rightarrow> bool) \<Rightarrow> nat \<Rightarrow> net \<Rightarrow> tcp_ev list \<Rightarrow> (nat \<times> nworld) option" where
  "poll_until T waiting cnt s es =
    (if \<not> waiting s then Some (cnt, s, es)
     else if cnt \<le> 1 then Some (0, s, es)
     else do { (s, es) \<leftarrow> os_time_dly T s es; poll_until T waiting (cnt - 1) s es })"

declare poll_until.simps [simp del]

section \<open>Requests\<close>

definition window_hit :: "net_local \<Rightarrow> memory \<Rightarrow> bool" where
  "window_hit l m \<longleftrightarrow> \<not> (get32 m F_READ = 0 \<or> seek_addr l < get32 m F_SEEK \<or>
     u32_add (seek_addr l) (read_size l) > u32_add (get32 m F_SEEK) (get32 m F_READ))"

text \<open>A miss asks for a whole window; with \<open>NET_OTA_FILE_RESV\<close> it ends with the block asked for.\<close>

definition window_request :: "net_local \<Rightarrow> memory \<Rightarrow> memory" where
  "window_request l m =
    (let m = put32 m F_ALL 0; m = put32 m F_READ RECV_BUF_MAX_SIZE; m = put32 m F_SEEK (seek_addr l)
     in if get32 m F_SEEK > u32_sub RECV_BUF_MAX_SIZE (read_size l)
        then put32 m F_SEEK (u32_sub (get32 m F_SEEK) (u32_sub RECV_BUF_MAX_SIZE (read_size l)))
        else m)"

definition seal :: "net \<Rightarrow> net" where
  "seal s = (let m = (ram s)(F_PERCENT := u8 (download_percent (loc s)), F_STATUS := u8 (status (loc s)))
     in s\<lparr>ram := put32 m F_SUM (sumget m 4 (sizeof_net_ota - 4))\<rparr>)"

text \<open>Sending the header, waiting for the answer.\<close>

definition send_wait :: "tcp \<Rightarrow> pcb \<Rightarrow> nat \<Rightarrow> nat \<Rightarrow> bool \<Rightarrow> nworld \<Rightarrow> (nat \<times> nworld) option" where
  "send_wait T pcb n saved no_wait w =
    (let s = seal ((fst w)\<lparr>read_sem := 0\<rparr>);
         (s, err) = send_msg T pcb (bytes (ram s) 0 n) s;
         s = (if saved \<noteq> 0 then s\<lparr>ram := put32 (ram s) F_READ saved\<rparr> else s)
     in if no_wait then Some (err, s, snd w)
        else if \<not> sem_valid s then None
        else do { (r, w) \<leftarrow> os_sem_pend T s (snd w); Some (if r \<noteq> 0 then 0 else err, w) })"

definition msgsenddata :: "tcp \<Rightarrow> nat \<Rightarrow> bool \<Rightarrow> nworld \<Rightarrow> (nat \<times> nworld) option" where
  "msgsenddata T n no_wait w =
    (let s = fst w; l = loc s in
     if n > sizeof_net_local then Some (0, w)
     else case client_pcb s of None \<Rightarrow> Some (0, w)
     | Some pcb \<Rightarrow>
         if status l = NET_UPDATE_STATUS_READ
         then if all_size l = 0
           then let m = (if get32 (ram s) F_SEEK = 0 \<and> get32 (ram s) F_READ = 0
                         then put32 (ram s) F_SEEK (seek_addr l) else ram s)
             in if \<not> window_hit l m
                then send_wait T pcb n 0 no_wait (s\<lparr>ram := window_request l m\<rparr>, snd w)
                else Some (read_size l, copy_window (s\<lparr>ram := m\<rparr>), snd w)
           else send_wait T pcb n 0 no_wait (s\<lparr>ram := put32 (ram s) F_ALL (all_size l)\<rparr>, snd w)
         else let saved = get32 (ram s) F_READ;
                  m = put32 (ram s) F_READ 0;
                  m = put32 m F_ALL (if all_size l \<noteq> 0 then all_size l else get32 m F_ALL)
           in send_wait T pcb n saved no_wait (s\<lparr>ram := m\<rparr>, snd w))"

section \<open>The file interface of the update library\<close>

definition fresh_local :: net_local where
  "fresh_local = \<lparr>seek_addr = 0, read_size = 0, all_size = 0, status = 0, download_percent = 0,
     resv = 0, buf = 0\<rparr>"

text \<open>Waiting for the phone, for at most five minutes.\<close>

definition open_wait :: "tcp \<Rightarrow> net \<Rightarrow> tcp_ev list \<Rightarrow> (nat \<times> nworld) option" where
  "open_wait T s es =
    do { (cnt, s, es) \<leftarrow> poll_until T (\<lambda>s. client_accept s = 0) 3000 (s\<lparr>net_ota_listen := True\<rparr>) es;
         if http_accept s = 0 then Some (0, s, es)
         else if cnt = 0 then Some (0, s, es)
         else Some (1, s\<lparr>net_local_addr := True, loc := (loc s)\<lparr>download_percent := 1\<rparr>\<rparr>, es) }"

text \<open>\<open>pcb_ok\<close>: the stack had a listening connection to give.  The jump to \<open>ota_wait\<close> of a second
  call passes over the creation of the semaphore.\<close>

definition net_f_open :: "tcp \<Rightarrow> bool \<Rightarrow> nat \<Rightarrow> nworld \<Rightarrow> (nat \<times> nworld) option" where
  "net_f_open T pcb_ok port w =
    (let s = (fst w)\<lparr>loc := fresh_local, net_ota_stop := False,
               ram := (\<lambda>a. if a < BUF_MAX_SIZE - sizeof_net_local then 0 else ram (fst w) a)\<rparr>
     in if net_ota_listen s \<and> port = NET_UPDATE_PORT then open_wait T s (snd w)
        else if \<not> pcb_ok then Some (0, s, snd w)
        else let s = (if sem_valid s then s else s\<lparr>read_sem := 0, sem_valid := True\<rparr>)
          in if port = NET_UPDATE_PORT then open_wait T s (snd w) else Some (1, s, snd w))"

definition stopped :: "net \<Rightarrow> bool" where
  "stopped s \<longleftrightarrow> status (loc s) = NET_UPDATE_STATUS_STOP \<or> net_ota_stop s"

definition net_f_seek :: "nat \<Rightarrow> nat \<Rightarrow> net \<Rightarrow> net \<times> int" where
  "net_f_seek ty off s =
    (if stopped s then (s, -1)
     else if ty = 1 then (s\<lparr>loc := (loc s)\<lparr>seek_addr := off\<rparr>\<rparr>, 0)
     else (s\<lparr>loc := (loc s)\<lparr>seek_addr := u32_add (seek_addr (loc s)) off\<rparr>\<rparr>, 0))"

definition net_f_send_update_len :: "tcp \<Rightarrow> nat \<Rightarrow> nworld \<Rightarrow> (int \<times> nworld) option" where
  "net_f_send_update_len T n w =
    (let s = fst w in
     if stopped s \<or> n = 0 then Some (-1, w)
     else let s = s\<lparr>loc := (loc s)\<lparr>seek_addr := 0, read_size := 0, all_size := n, status := 0, resv := 0\<rparr>,
                    ota_all_size := n, ota_read_size := 0\<rparr>
       in do { (_, w) \<leftarrow> msgsenddata T sizeof_net_ota False (s, snd w); Some (0, w) })"

text \<open>The progress percentage: it never goes back and stays below a hundred.\<close>

definition progress :: "nat \<Rightarrow> nat \<Rightarrow> nat \<Rightarrow> nat" where
  "progress all done pct =
    (if all = 0 then pct
     else let p = u8 (u64 (done * 100) div all);
              q = (if p > pct then p else pct)
       in if q < 100 then q else 99)"

definition read_start :: "addr \<Rightarrow> nat \<Rightarrow> net \<Rightarrow> net" where
  "read_start b n s = s\<lparr>loc := (loc s)\<lparr>read_size := n, status := NET_UPDATE_STATUS_READ, resv := 0,
     buf := b, all_size := 0,
     download_percent := progress (ota_all_size s) (ota_read_size s) (download_percent (loc s))\<rparr>\<rparr>"

definition net_f_read :: "tcp \<Rightarrow> addr \<Rightarrow> nat \<Rightarrow> nworld \<Rightarrow> (int \<times> nworld) option" where
  "net_f_read T b n w =
    (if n > RECV_BUF_MAX_SIZE then Some (-1, w)
     else let s = read_start b n (fst w) in
       if stopped s then Some (-1, s, snd w)
       else do {
         (r, s, es) \<leftarrow> msgsenddata T sizeof_net_ota False (s, snd w);
         if r = 0 then Some (-1, s, es)
         else if stopped s then Some (-1, s, es)
         else let s = (if ota_all_size s \<noteq> 0
                       then s\<lparr>ota_read_size := u32_add (ota_read_size s) (read_size (loc s))\<rparr> else s)
           in Some (s32 (int (read_size (loc s))), s, es) })"

text \<open>The end of the update: \<open>p\<close> is the error code; the last packets tell the phone.\<close>

definition send_success :: "tcp \<Rightarrow> nworld \<Rightarrow> nworld option" where
  "send_success T w =
    do { let s = (fst w)\<lparr>loc := (loc (fst w))\<lparr>status := 0, download_percent :=
           (if ota_all_size (fst w) \<noteq> 0 then 100 else download_percent (loc (fst w)))\<rparr>\<rparr>;
         (_, s, es) \<leftarrow> msgsenddata T sizeof_net_ota False (s, snd w);
         os_time_dly T s es }"

definition send_status :: "tcp \<Rightarrow> nat \<Rightarrow> nworld \<Rightarrow> nworld option" where
  "send_status T p w =
    do { let s = (fst w)\<lparr>net_ota_lastpacket := True, loc := (loc (fst w))\<lparr>status :=
           (if p \<noteq> 0 then NET_UPDATE_STATUS_ERR else NET_UPDATE_STATUS_OK)\<rparr>\<rparr>;
         (_, s, es) \<leftarrow> msgsenddata T sizeof_net_ota True (s, snd w);
         (_, s, es) \<leftarrow> poll_until T net_ota_lastpacket 200 s es;
         Some (s\<lparr>loc := (loc s)\<lparr>status := 0, download_percent := 0\<rparr>\<rparr>, es) }"

definition stop_client :: "tcp \<Rightarrow> nat \<Rightarrow> nworld \<Rightarrow> nworld option" where
  "stop_client T p w =
    do { let s = (fst w)\<lparr>loc := (loc (fst w))\<lparr>read_size := 0\<rparr>\<rparr>;
         w \<leftarrow> (if p = 0 then send_success T (s, snd w) else Some (s, snd w));
         send_status T p w }"

definition net_f_stop :: "tcp \<Rightarrow> nat \<Rightarrow> nworld \<Rightarrow> (nat \<times> nworld) option" where
  "net_f_stop T p w =
    do { let s = (fst w)\<lparr>loc := fresh_local\<rparr>;
         (s, es) \<leftarrow> (if client_pcb s \<noteq> None then stop_client T p (s, snd w) else Some (s, snd w));
         (s, es) \<leftarrow> os_time_dly T s es;
         let s = s\<lparr>sem_valid := False\<rparr>;
         let s = (case client_pcb s of Some pcb \<Rightarrow> msgclose pcb s | None \<Rightarrow> s);
         Some (0, s\<lparr>ram := mcpy_in (ram s) 0 (replicate 20 0), net_local_addr := False,
                    net_ota_stop := False, ota_all_size := 0, ota_read_size := 0\<rparr>, es) }"

definition net_ota_update_read_size_check :: "net \<Rightarrow> int" where
  "net_ota_update_read_size_check s =
    (if \<not> net_ota_start s then 0
     else if net_ota_stop s then -1
     else s32 (int (if ota_read_size s \<noteq> 0 then ota_read_size s else 1)))"

end
