(* ===== verification/NetOta_Spec.thy ===== *)
theory NetOta_Spec
  imports NetOta
begin

text \<open>
  The download server delivers the file: a packet is put together whatever pieces TCP delivers it
  in, the window asked for holds the block that is read, a read returns the file's bytes from the
  window or after one request, at most one phone is served, the percentage never falls, and the waits
  of an attempt end.
\<close>

section \<open>Reassembly\<close>

text \<open>A packet of the phone: header with \<open>all_size\<close> 0, and the data.\<close>

definition packet :: "nat \<Rightarrow> nat \<Rightarrow> byte list \<Rightarrow> byte list \<Rightarrow> byte list" where
  "packet sm sk tail data = le32 sm @ le32 sk @ le32 (length data) @ le32 0 @ tail @ data"

text \<open>What the buffer holds when the first \<open>length q\<close> bytes, \<open>q\<close>, have come in.\<close>

definition partial :: "memory \<Rightarrow> byte list \<Rightarrow> memory" where
  "partial m q = put32 (mcpy_in m 0 q) F_ALL (length q)"

lemma get32_mcpy_in: "a + 4 \<le> length q \<Longrightarrow> get32 (mcpy_in m 0 q) a = get32 (\<lambda>i. q ! i) a"
  by (rule get32_cong) (simp add: mcpy_in_def)

lemma get32_le32_at:
  assumes "q = xs @ le32 v @ ys" "length xs = a" "v < 4294967296"
  shows "get32 (\<lambda>i. q ! i) a = v"
proof -
  have "get32 (\<lambda>i. q ! i) a = get32 (put32 (\<lambda>_. 0) a v) a"
    using assms(1,2) by (intro get32_cong) (simp add: nth_append put32_def mcpy_in_def)
  with assms(3) show ?thesis by simp
qed

lemma packet_fields:
  assumes "length data < 4294967296" "sm < 4294967296" "sk < 4294967296"
  shows "get32 (\<lambda>i. packet sm sk tail data ! i) F_SUM = sm"
    and "get32 (\<lambda>i. packet sm sk tail data ! i) F_SEEK = sk"
    and "get32 (\<lambda>i. packet sm sk tail data ! i) F_READ = length data"
    and "get32 (\<lambda>i. packet sm sk tail data ! i) F_ALL = 0"
proof -
  let ?p = "packet sm sk tail data"
  show "get32 (\<lambda>i. ?p ! i) F_SUM = sm"
    by (rule get32_le32_at [of _ "[]"]) (use assms in \<open>simp_all add: packet_def\<close>)
  show "get32 (\<lambda>i. ?p ! i) F_SEEK = sk"
    by (rule get32_le32_at [of _ "le32 sm"]) (use assms in \<open>simp_all add: packet_def\<close>)
  show "get32 (\<lambda>i. ?p ! i) F_READ = length data"
    by (rule get32_le32_at [of _ "le32 sm @ le32 sk"]) (use assms in \<open>simp_all add: packet_def\<close>)
  show "get32 (\<lambda>i. ?p ! i) F_ALL = 0"
    by (rule get32_le32_at [of _ "le32 sm @ le32 sk @ le32 (length data)"])
      (use assms in \<open>simp_all add: packet_def\<close>)
qed

lemma packet_length [simp]: "length (packet sm sk tail data) = 16 + length tail + length data"
  by (simp add: packet_def)

text \<open>Placing a piece behind a partial packet: whatever the count field holds, the bytes around it are
  those of the longer partial packet.\<close>

lemma put32_mcpy_in_put32:
  "put32 (mcpy_in (put32 (mcpy_in m 0 q) 12 v) (length q) c) 12 w = put32 (mcpy_in m 0 (q @ c)) 12 w"
  by (rule ext) (auto simp: mcpy_in_def put32_def nth_append)

lemma put32_twice: "put32 (put32 m a v) a w = put32 m a w"
  by (rule ext) (simp add: put32_def mcpy_in_def)

lemma partial_get:
  "length q < 4294967296 \<Longrightarrow> get32 (partial m q) F_ALL = length q"
  "12 \<le> length q \<Longrightarrow> get32 (partial m q) F_READ = get32 (\<lambda>i. q ! i) F_READ"
  by (simp_all add: partial_def get32_put32_other get32_mcpy_in)

lemma get32_zero: "get32 m a = 0 \<longleftrightarrow> (\<forall>i < 4. m (a + i) = 0)"
proof -
  have "(\<forall>i < 4. m (a + i) = 0) \<longleftrightarrow> m (a + 0) = 0 \<and> m (a + 1) = 0 \<and> m (a + 2) = 0 \<and> m (a + 3) = 0"
    by (auto simp: eval_nat_numeral less_Suc_eq)
  then show ?thesis by (auto simp: get32_def)
qed

lemma put32_id: "get32 m a = 0 \<Longrightarrow> put32 m a 0 = m"
proof -
  assume z: "get32 m a = 0"
  show ?thesis
  proof (rule ext)
    fix x
    show "put32 m a 0 x = m x"
    proof (cases "a \<le> x \<and> x < a + 4")
      case True
      then have "x = a \<or> x = a + 1 \<or> x = a + 2 \<or> x = a + 3" by arith
      with z True show ?thesis by (auto simp: get32_def put32_def mcpy_in_def le32_def)
    qed (auto simp: put32_def mcpy_in_def)
  qed
qed

text \<open>A piece that does not complete the packet, and the one that does.\<close>

definition counted :: "memory \<Rightarrow> byte list \<Rightarrow> memory \<Rightarrow> bool" where
  "counted m q r \<longleftrightarrow> get32 m F_ALL = 0 \<and> ((q = [] \<and> r = m) \<or> (13 \<le> length q \<and> r = partial m q))"

text \<open>Thirteen bytes are enough: the count of the first pieces is below 256, so only its first byte
  is not zero, and the bytes of the field that come later are zero as those of the count.\<close>

definition no_count :: "byte list \<Rightarrow> bool" where
  "no_count q \<longleftrightarrow> (\<forall>i < length q. 12 \<le> i \<and> i < 16 \<longrightarrow> q ! i = 0)"

lemma first_count: "get32 m F_ALL = 0 \<Longrightarrow> no_count q \<Longrightarrow> get32 (mcpy_in m 0 q) F_ALL = 0"
  by (simp add: get32_zero mcpy_in_def no_count_def)

lemma later_count:
  assumes "13 \<le> length q" "no_count (q @ c)" "length q < 4294967296"
  shows "get32 (mcpy_in (put32 m 12 (length q)) (length q) c) F_ALL = length q"
proof (cases "16 \<le> length q")
  case True
  then have "get32 (mcpy_in (put32 m 12 (length q)) (length q) c) 12 = get32 (put32 m 12 (length q)) 12"
    by (intro get32_cong) (simp add: mcpy_in_def)
  with assms(3) show ?thesis by simp
next
  case False
  have z: "c ! (i - length q) = 0" if "length q \<le> i" "i < length q + length c" "i < 16" for i
    using that assms(1,2) by (auto simp: no_count_def nth_append dest: spec [of _ i])
  have "mcpy_in (put32 m 12 (length q)) (length q) c (12 + i) = put32 m 12 (length q) (12 + i)" if "i < 4" for i
  proof (cases "length q \<le> 12 + i \<and> 12 + i < length q + length c")
    case True
    have i: "i = 1 \<or> i = 2 \<or> i = 3" using True that assms(1) by arith
    have "mcpy_in (put32 m 12 (length q)) (length q) c (12 + i) = 0"
      using True z [of "12 + i"] that by (simp add: mcpy_in_def)
    moreover have "put32 m 12 (length q) (12 + i) = 0"
      using i False by (auto simp: put32_def mcpy_in_def le32_def)
    ultimately show ?thesis by simp
  next
    case False
    then show ?thesis by (auto simp: mcpy_in_def)
  qed
  then have "get32 (mcpy_in (put32 m 12 (length q)) (length q) c) 12 = get32 (put32 m 12 (length q)) 12"
    by (intro get32_cong) simp
  with assms(3) show ?thesis by simp
qed

lemma count_step:
  assumes "counted m q r" "13 \<le> length (q @ c)" "length (q @ c) < 4294967296" "no_count (q @ c)"
  shows "put32 (mcpy_in r (get32 r F_ALL) c) F_ALL
      (u32_add (get32 (mcpy_in r (get32 r F_ALL) c) F_ALL) (length c)) = partial m (q @ c)"
proof -
  have z: "get32 m 12 = 0" and "(q = [] \<and> r = m) \<or> (13 \<le> length q \<and> r = partial m q)"
    using assms(1) unfolding counted_def by blast+
  then show ?thesis
  proof (elim disjE conjE)
    assume q: "q = []" "r = m"
    then show ?thesis using z assms first_count [OF z, of c] by (simp add: partial_def)
  next
    assume q: "13 \<le> length q" "r = partial m q"
    have l: "length q < 4294967296" using assms(3) by simp
    then have g: "get32 r 12 = length q" using q(2) partial_get(1) by simp
    have "get32 (mcpy_in r (length q) c) 12 = length q"
      using later_count [OF q(1) assms(4) l] by (simp add: q(2) partial_def)
    moreover have "put32 (mcpy_in r (length q) c) 12 w = put32 (mcpy_in m 0 (q @ c)) 12 w" for w
      by (simp add: q(2) partial_def put32_mcpy_in_put32)
    ultimately show ?thesis using assms(3) unfolding g by (simp add: partial_def)
  qed
qed

lemma no_count_packet: "q @ rest = packet sm sk tail data \<Longrightarrow> no_count q"
proof -
  assume e: "q @ rest = packet sm sk tail data"
  have "q ! i = 0" if i: "i < length q" "12 \<le> i" "i < 16" for i
  proof -
    have "q ! i = packet sm sk tail data ! i" using i(1) by (simp add: e [symmetric] nth_append)
    also have "i = 12 \<or> i = 13 \<or> i = 14 \<or> i = 15" using i by arith
    then have "packet sm sk tail data ! i = 0" by (elim disjE) (simp_all add: packet_def le32_def)
    finally show ?thesis .
  qed
  then show ?thesis by (simp add: no_count_def)
qed

text \<open>The whole packet with a good sum leads to \<open>msgrecvmemcpy\<close> on the packet, whatever the pieces.\<close>

definition good_sum :: "byte list \<Rightarrow> bool" where
  "good_sum p \<longleftrightarrow> sumget (\<lambda>i. p ! i) 4 (length p - 4) = get32 (\<lambda>i. p ! i) F_SUM"

lemma sumget_cong: "(\<And>i. i < n \<Longrightarrow> m (a + i) = m' (a + i)) \<Longrightarrow> sumget m a n = sumget m' a n"
  by (induction n) simp_all

lemma recv_last:
  assumes "counted m q (ram s)" "q @ c = p" "p = packet sm sk tail data" "length tail = 4"
    and "length data \<le> 40916" "sm < 4294967296" "sk < 4294967296" "good_sum p"
  shows "recv_ota c s = msgrecvmemcpy (s\<lparr>ram := mcpy_in m 0 p\<rparr>)"
proof -
  have len: "length p = 20 + length data" using assms(3,4) by simp
  have f: "get32 (\<lambda>i. p ! i) 12 = 0" "get32 (\<lambda>i. p ! i) 8 = length data" "get32 (\<lambda>i. p ! i) 0 = sm"
    using packet_fields [of data sm sk tail] assms(3,5-7) by simp_all
  have st: "put32 (mcpy_in (ram s) (get32 (ram s) 12) c) 12
      (u32_add (get32 (mcpy_in (ram s) (get32 (ram s) 12) c) 12) (length c)) = partial m p"
    using count_step [OF assms(1), of c] assms(2,3,5) len no_count_packet [of p "[]"] by simp
  have g: "get32 (partial m p) 12 = 20 + length data" "get32 (partial m p) 8 = length data"
    using partial_get [of p m] len f(2) assms(5) by simp_all
  have fin: "put32 (partial m p) 12 0 = mcpy_in m 0 p"
    unfolding partial_def put32_twice using len f(1) by (intro put32_id) (simp add: get32_mcpy_in)
  have r: "get32 (mcpy_in m 0 p) 8 = length data" "get32 (mcpy_in m 0 p) 0 = sm"
    using len f by (simp_all add: get32_mcpy_in)
  have "sumget (mcpy_in m 0 p) 4 (length data + 16) = sumget (\<lambda>i. p ! i) 4 (length data + 16)"
    by (rule sumget_cong) (simp add: mcpy_in_def len)
  moreover have "length p - 4 = length data + 16" using len by simp
  ultimately have "sumcheck (mcpy_in m 0 p) 4 (int (length data + 16)) sm = 0"
    using assms(8) f(3) by (simp add: sumcheck_def good_sum_def del: of_nat_add)
  moreover have "s32 (int (u32_add (length data) 16)) = int (length data + 16)"
    using assms(5) by simp
  ultimately show ?thesis
    unfolding recv_ota_def Let_def st g fin r using assms(5) by simp
qed

lemma recv_more:
  assumes "counted m q (ram s)" "c \<noteq> []" "13 \<le> length (q @ c)" "q @ c @ rest = p" "rest \<noteq> []"
    and "p = packet sm sk tail data" "length tail = 4"
    and "length data \<le> 40916" "sm < 4294967296" "sk < 4294967296"
  shows "recv_ota c s = s\<lparr>ram := partial m (q @ c)\<rparr>"
proof -
  have len: "length p = 20 + length data" using assms(6,7) by simp
  have sub: "(q @ c) ! i = p ! i" if "i < length (q @ c)" for i
  proof -
    have "p ! i = ((q @ c) @ rest) ! i" using assms(4) by simp
    also have "\<dots> = (q @ c) ! i" using that by (simp only: nth_append if_True)
    finally show ?thesis by simp
  qed
  have f: "get32 (\<lambda>i. (q @ c) ! i) 8 = length data"
    using packet_fields(3) [of data sm sk tail] assms(3,6,8-10) sub
    by (simp add: get32_cong [of "\<lambda>i. (q @ c) ! i" _ "\<lambda>i. p ! i"])
  have lt: "length (q @ c) < 20 + length data"
  proof -
    have "length p = length (q @ c) + length rest" using assms(4) by auto
    with assms(5) len show ?thesis by (cases rest) auto
  qed
  have st: "put32 (mcpy_in (ram s) (get32 (ram s) 12) c) 12
      (u32_add (get32 (mcpy_in (ram s) (get32 (ram s) 12) c) 12) (length c)) = partial m (q @ c)"
    using count_step [OF assms(1,3)] lt no_count_packet [of "q @ c" rest] assms(4,6,8) by simp
  have g: "get32 (partial m (q @ c)) 12 = length (q @ c)" "get32 (partial m (q @ c)) 8 = length data"
    using partial_get [of "q @ c" m] assms(3) lt f assms(8) by simp_all
  show ?thesis unfolding recv_ota_def Let_def st g using lt assms(8) by simp
qed

text \<open>Pieces of a packet, as TCP may cut it: none is empty or longer than a window, and the first one
  reaches into the field the count is kept in.\<close>

definition pieces :: "byte list \<Rightarrow> byte list list \<Rightarrow> bool" where
  "pieces p segs \<longleftrightarrow> concat segs = p \<and> segs \<noteq> [] \<and> 13 \<le> length (hd segs) \<and>
    (\<forall>c \<in> set segs. c \<noteq> [] \<and> length c \<le> 40916)"

definition ota_packet :: "byte list \<Rightarrow> bool" where
  "ota_packet p \<longleftrightarrow> (\<exists>sm sk tail data. p = packet sm sk tail data \<and> length tail = 4 \<and> length data \<le> 40916 \<and>
     sm < 4294967296 \<and> sk < 4294967296) \<and> good_sum p"

lemma msgrecvmemcpy_frame [simp]:
  "conns (msgrecvmemcpy s) = conns s" "client_pcb (msgrecvmemcpy s) = client_pcb s"
  "ram (msgrecvmemcpy s) = ram s" "wire (msgrecvmemcpy s) = wire s" "sem_valid (msgrecvmemcpy s) = sem_valid s"
  "read_sem (msgrecvmemcpy s) = read_sem s + 1"
  by (simp_all add: msgrecvmemcpy_def os_sem_post_def copy_window_def)

lemma seg_event:
  "pcb \<in> conns s \<Longrightarrow> snd pcb = NET_UPDATE_PORT \<Longrightarrow> length c \<le> 40916 \<Longrightarrow>
    net_event T (Seg pcb c) s = recv_ota c s"
  by (simp add: msgrecv_def)

lemma recv_pieces:
  assumes "counted m q (ram s)" "q @ concat segs = p" "segs \<noteq> []" "13 \<le> length (q @ hd segs)"
    and "\<forall>c \<in> set segs. c \<noteq> [] \<and> length c \<le> 40916" "ota_packet p"
    and "pcb \<in> conns s" "snd pcb = NET_UPDATE_PORT"
  shows "fold (\<lambda>c. net_event T (Seg pcb c)) segs s = msgrecvmemcpy (s\<lparr>ram := mcpy_in m 0 p\<rparr>)"
  using assms(1-5,7)
proof (induction segs arbitrary: q s)
  case (Cons c segs)
  obtain sm sk tail data where p: "p = packet sm sk tail data" "length tail = 4" "length data \<le> 40916"
    "sm < 4294967296" "sk < 4294967296" and gs: "good_sum p"
    using assms(6) by (auto simp: ota_packet_def)
  have ev: "net_event T (Seg pcb c) s = recv_ota c s"
    using Cons.prems assms(8) by (intro seg_event) auto
  have ne: "c \<noteq> []" and reach: "13 \<le> length (q @ c)" using Cons.prems by auto
  show ?case
  proof (cases "segs = []")
    case True
    then have "recv_ota c s = msgrecvmemcpy (s\<lparr>ram := mcpy_in m 0 p\<rparr>)"
      using recv_last [OF Cons.prems(1) _ p gs] Cons.prems(2) by simp
    with True ev show ?thesis by simp
  next
    case False
    have rest: "concat segs \<noteq> []" using False Cons.prems(5) by (cases segs) auto
    let ?s = "s\<lparr>ram := partial m (q @ c)\<rparr>"
    have "recv_ota c s = ?s"
      by (rule recv_more [OF Cons.prems(1) ne reach _ rest p]) (use Cons.prems(2) in simp)
    moreover have "fold (\<lambda>c. net_event T (Seg pcb c)) segs ?s = msgrecvmemcpy (?s\<lparr>ram := mcpy_in m 0 p\<rparr>)"
      using Cons.prems False reach by (intro Cons.IH [of "q @ c"]) (auto simp: counted_def)
    ultimately show ?thesis using ev by (simp del: net_event.simps)
  qed
qed simp

text \<open>A first piece of at most twelve bytes: the count it leaves in the header is overwritten by the next
  piece, which carries the field, and its bytes are never counted.\<close>

lemma rest_counted:
  assumes "get32 (ram s) F_ALL = n" "16 \<le> n" "get32 (ram s) F_READ = l" "n + length (concat segs) < l + 20"
    and "l \<le> 40916" "\<forall>c \<in> set segs. length c \<le> 40916" "pcb \<in> conns s" "snd pcb = NET_UPDATE_PORT"
  shows "\<exists>m. fold (\<lambda>c. net_event T (Seg pcb c)) segs s = s\<lparr>ram := m\<rparr> \<and> get32 m F_ALL = n + length (concat segs)"
  using assms(1-4,6,7)
proof (induction segs arbitrary: n s)
  case Nil
  then show ?case by (intro exI [of _ "ram s"]) simp
next
  case (Cons c segs)
  let ?m = "mcpy_in (ram s) n c"
  have f: "get32 ?m 12 = n" "get32 ?m 8 = l"
    using Cons.prems(1-3) by (auto simp: get32_def mcpy_in_def)
  have lt: "n + length c < l + 20" using Cons.prems(4) by simp
  then have ev: "net_event T (Seg pcb c) s = s\<lparr>ram := put32 ?m 12 (n + length c)\<rparr>"
    using Cons.prems f assms(5,8) by (subst seg_event) (simp_all add: recv_ota_def Let_def get32_put32_other)
  let ?s = "s\<lparr>ram := put32 ?m 12 (n + length c)\<rparr>"
  have "\<exists>m. fold (\<lambda>c. net_event T (Seg pcb c)) segs ?s = ?s\<lparr>ram := m\<rparr> \<and>
      get32 m 12 = (n + length c) + length (concat segs)"
    using Cons.prems lt f assms(5) by (intro Cons.IH) (simp_all add: get32_put32_other)
  then show ?case using ev by (auto simp: add.assoc simp del: net_event.simps)
qed

lemma short_first_lost:
  assumes "get32 (ram s) F_ALL = 0" "bytes (ram s) F_READ 4 = le32 (length data)" "c \<noteq> []" "length c \<le> 12"
    and "16 \<le> length d" "c @ d @ concat segs = packet sm sk tail data" "length tail = 4" "length data \<le> 40916"
    and "\<forall>c \<in> set (c # d # segs). length c \<le> 40916" "pcb \<in> conns s" "snd pcb = NET_UPDATE_PORT"
  shows "\<exists>m. fold (\<lambda>c. net_event T (Seg pcb c)) (c # d # segs) s = s\<lparr>ram := m\<rparr> \<and>
    get32 m F_ALL = length (d @ concat segs)"
proof -
  let ?k = "length c" let ?m = "put32 (mcpy_in (ram s) 0 c) 12 ?k" let ?n = "mcpy_in ?m ?k d"
  let ?p = "packet sm sk tail data"
  have len: "?k + length d + length (concat segs) = 20 + length data"
    using arg_cong [OF assms(6), of length] assms(7) by (simp add: add.assoc)
  have k: "0 < ?k" using assms(3) by simp
  have ld: "length d < length data + 20" "length d + length (concat segs) < length data + 20"
    using k len by arith+
  have inp: "(c @ d) ! i = ?p ! i" if "i < length (c @ d)" for i
  proof -
    have "?p ! i = ((c @ d) @ concat segs) ! i" using assms(6) by simp
    also have "\<dots> = (c @ d) ! i" using that by (simp only: nth_append if_True)
    finally show ?thesis by simp
  qed
  have cp: "c ! i = ?p ! i" if "i < ?k" for i using that inp [of i] by (simp add: nth_append)
  have dp: "d ! (i - ?k) = ?p ! i" if "?k \<le> i" "i < 16" for i
    using that inp [of i] assms(5) by (simp add: nth_append)
  have p8: "?p ! (8 + i) = le32 (length data) ! i" if "i < 4" for i
    using that by (simp add: packet_def nth_append)
  have p12: "?p ! (12 + i) = 0" if "i < 4" for i
    using that no_count_packet [of ?p "[]" sm sk tail data] assms(7) by (simp add: no_count_def)
  have r8: "ram s (8 + i) = le32 (length data) ! i" if "i < 4" for i
    using arg_cong [OF assms(2), of "\<lambda>x. x ! i"] that by simp
  have rd: "get32 x 8 = length data" if "\<And>i. i < 4 \<Longrightarrow> x (8 + i) = le32 (length data) ! i" for x
  proof -
    have "get32 x 8 = get32 (put32 x 8 (length data)) 8"
      using that by (intro get32_cong) (simp add: put32_def mcpy_in_def)
    with assms(8) show ?thesis by simp
  qed
  have "get32 (mcpy_in (ram s) 0 c) 12 = 0"
    using assms(1,4) by (simp add: get32_zero mcpy_in_def)
  moreover have g: "get32 ?m 8 = length data"
    unfolding get32_put32_other [of 8 12, simplified]
    by (rule rd) (auto simp: mcpy_in_def r8 cp p8)
  ultimately have 1: "net_event T (Seg pcb c) s = s\<lparr>ram := ?m\<rparr>"
    using assms k by (subst seg_event) (simp_all add: recv_ota_def Let_def get32_put32_other)
  have z: "get32 ?n 12 = 0"
    unfolding get32_zero using assms(4,5) by (auto simp: mcpy_in_def dp p12)
  have n8: "get32 ?n 8 = length data"
  proof (rule rd)
    fix i :: nat assume i: "i < 4"
    show "?n (8 + i) = le32 (length data) ! i"
    proof (cases "?k \<le> 8 + i")
      case True
      with i assms(5) show ?thesis by (simp add: mcpy_in_def dp p8)
    next
      case False
      with i show ?thesis by (simp add: mcpy_in_def put32_other cp p8)
    qed
  qed
  let ?s = "s\<lparr>ram := put32 ?n 12 (length d)\<rparr>"
  have 2: "net_event T (Seg pcb d) (s\<lparr>ram := ?m\<rparr>) = ?s"
    using assms ld z n8 by (subst seg_event) (simp_all add: recv_ota_def Let_def get32_put32_other)
  have "\<exists>m. fold (\<lambda>c. net_event T (Seg pcb c)) segs ?s = ?s\<lparr>ram := m\<rparr> \<and>
      get32 m 12 = length d + length (concat segs)"
    using assms ld n8 by (intro rest_counted [where l = "length data"]) (simp_all add: get32_put32_other)
  then show ?thesis using 1 2 by (auto simp del: net_event.simps)
qed

text \<open>C15: How a packet is put together from the pieces TCP delivers it in, none empty or longer than a
  window.  If the first piece has at least 13 bytes, so that it reaches into the field of the header
  the count is kept in, receiving the pieces one by one, however the rest is cut, leaves the buffer
  with exactly the packet, serves the library's read from it once and wakes the update thread once.
  If the first piece is shorter and the second one, of at least 16 bytes, carries the field, the packet
  is lost: with the request's own size in the header, no read is served, the thread is not woken, and
  the count stays short by the first piece.\<close>

theorem reassembly:
  assumes "get32 (ram s) F_ALL = 0" "ota_packet p" "concat segs = p" "\<forall>c \<in> set segs. c \<noteq> [] \<and> length c \<le> RECV_BUF_MAX_SIZE"
    and "pcb \<in> conns s" "local_port pcb = NET_UPDATE_PORT"
  shows "(13 \<le> length (hd segs) \<longrightarrow>
      fold (\<lambda>c. net_event T (Seg pcb c)) segs s = msgrecvmemcpy (s\<lparr>ram := mcpy_in (ram s) 0 p\<rparr>)) \<and>
    (length (hd segs) \<le> 12 \<and> 16 \<le> length (segs ! 1) \<and> bytes (ram s) F_READ 4 = bytes (\<lambda>i. p ! i) F_READ 4 \<longrightarrow>
      (\<exists>m. fold (\<lambda>c. net_event T (Seg pcb c)) segs s = s\<lparr>ram := m\<rparr> \<and>
        get32 m F_ALL = length p - length (hd segs)))"
proof -
  obtain sm sk tail data where pk: "p = packet sm sk tail data" "length tail = 4" "length data \<le> 40916"
    using assms(2) by (auto simp: ota_packet_def)
  have ne: "segs \<noteq> []" using pk(1) assms(3) by (auto simp: packet_def le32_def)
  have "fold (\<lambda>c. net_event T (Seg pcb c)) segs s = msgrecvmemcpy (s\<lparr>ram := mcpy_in (ram s) 0 p\<rparr>)"
    if "13 \<le> length (hd segs)"
    using assms ne that by (intro recv_pieces [where q = "[]"]) (auto simp: counted_def)
  moreover have "\<exists>m. fold (\<lambda>c. net_event T (Seg pcb c)) segs s = s\<lparr>ram := m\<rparr> \<and>
        get32 m F_ALL = length p - length (hd segs)"
    if h: "length (hd segs) \<le> 12" "16 \<le> length (segs ! 1)" "bytes (ram s) F_READ 4 = bytes (\<lambda>i. p ! i) F_READ 4"
  proof -
    have l: "length (concat segs) = 20 + length data" using assms(3) pk by simp
    obtain c d cs where segs: "segs = c # d # cs"
      using ne l h(1) by (cases segs; cases "tl segs") auto
    have "bytes (\<lambda>i. p ! i) 8 4 = le32 (length data)"
      by (rule nth_equalityI) (simp_all add: pk(1) packet_def nth_append)
    then have "\<exists>m. fold (\<lambda>c. net_event T (Seg pcb c)) (c # d # cs) s = s\<lparr>ram := m\<rparr> \<and>
        get32 m F_ALL = length (d @ concat cs)"
      using assms h segs pk by (intro short_first_lost [where data = data and sm = sm and sk = sk and tail = tail]) auto
    moreover have "length p - length (hd segs) = length (d @ concat cs)"
      using assms(3) segs by auto
    ultimately show ?thesis using segs by simp
  qed
  ultimately show ?thesis by blast
qed

section \<open>The window\<close>

lemma window_fields:
  assumes "seek_addr l < 4294967296" "read_size l \<le> 40916"
  shows "get32 (window_request l m) F_READ = 40916" "get32 (window_request l m) F_ALL = 0"
    and "get32 (window_request l m) F_SEEK = (if seek_addr l > 40916 - read_size l
      then seek_addr l - (40916 - read_size l) else seek_addr l)"
  using assms by (simp_all add: window_request_def Let_def get32_put32_other)

lemma window_holds:
  assumes "seek_addr l + 40916 < 4294967296" "read_size l \<le> 40916"
  shows "get32 (window_request l m) F_SEEK \<le> seek_addr l"
    and "seek_addr l + read_size l \<le> get32 (window_request l m) F_SEEK + get32 (window_request l m) F_READ"
    and "get32 (window_request l m) F_SEEK + 40916 < 4294967296"
proof -
  have f: "get32 (window_request l m) 8 = 40916" "get32 (window_request l m) 4 = (if seek_addr l > 40916 - read_size l
      then seek_addr l - (40916 - read_size l) else seek_addr l)"
    using window_fields [of l m] assms by simp_all
  show "get32 (window_request l m) 4 \<le> seek_addr l"
    "seek_addr l + read_size l \<le> get32 (window_request l m) 4 + get32 (window_request l m) 8"
    "get32 (window_request l m) 4 + 40916 < 4294967296"
    unfolding f using assms by auto
qed

lemma seal_fields:
  "get32 (ram (seal s)) F_SEEK = get32 (ram s) F_SEEK"
  "get32 (ram (seal s)) F_READ = get32 (ram s) F_READ" "get32 (ram (seal s)) F_ALL = get32 (ram s) F_ALL"
  by (simp_all add: seal_def Let_def get32_put32_other) (simp_all add: get32_def)

lemma sumget_less: "sumget m a n < 4294967296"
  by (cases n) simp_all

lemma seal_sum: "sumcheck (ram (seal s)) 4 16 (get32 (ram (seal s)) F_SUM) = 0"
proof -
  let ?m = "(ram s)(F_PERCENT := u8 (download_percent (loc s)), F_STATUS := u8 (status (loc s)))"
  have r: "ram (seal s) = put32 ?m 0 (sumget ?m 4 16)" by (simp add: seal_def Let_def)
  have "sumget (put32 ?m 0 v) 4 16 = sumget ?m 4 16" for v
    by (rule sumget_cong) (simp add: put32_other)
  then show ?thesis unfolding r sumcheck_def by (simp add: sumget_less)
qed

text \<open>When the block the library reads is not in the window, the header sent to the phone asks for a
  window of the whole buffer that contains the block, and carries the right checksum: the sum the
  receiver of such a header computes over its last reach bytes is the one it carries.\<close>

lemma request_covers:
  assumes "seek_addr (loc s) + 40916 < 4294967296" "read_size (loc s) \<le> 40916"
  shows "let m = ram (seal (s\<lparr>ram := window_request (loc s) (ram s)\<rparr>)) in
    get32 m F_SEEK \<le> seek_addr (loc s) \<and>
    seek_addr (loc s) + read_size (loc s) \<le> get32 m F_SEEK + get32 m F_READ \<and>
    get32 m F_READ = RECV_BUF_MAX_SIZE \<and> get32 m F_ALL = 0 \<and>
    sumcheck m 4 16 (get32 m F_SUM) = 0"
  using window_holds [OF assms, of "ram s"] window_fields [of "loc s" "ram s"] assms
    seal_sum [of "s\<lparr>ram := window_request (loc s) (ram s)\<rparr>"]
  by (simp add: seal_fields)

section \<open>A read\<close>

text \<open>What may come in between without touching the transfer: connections to the other ports are
  opened, closed or lost, the HTTP port is asked for the description, data sent is acknowledged.  (A
  message on the control port is not among these: it is received into the window.)\<close>

definition bystander :: "tcp_ev \<Rightarrow> bool" where
  "bystander e = (case e of Seg q c \<Rightarrow> local_port q = HTTP_PORT | Fin q \<Rightarrow> local_port q \<noteq> NET_UPDATE_PORT
    | Accept q \<Rightarrow> local_port q \<noteq> NET_UPDATE_PORT | Err q \<Rightarrow> local_port q \<noteq> NET_UPDATE_PORT
    | Sent q \<Rightarrow> True | Timer \<Rightarrow> False)"

definition amid :: "pcb \<Rightarrow> byte list list \<Rightarrow> tcp_ev list \<Rightarrow> bool" where
  "amid pcb segs evs \<longleftrightarrow> filter (\<lambda>e. \<not> bystander e) evs = map (Seg pcb) segs \<and> (evs = [] \<or> \<not> bystander (last evs))"

definition beside :: "pcb \<Rightarrow> net \<Rightarrow> net \<Rightarrow> bool" where
  "beside pcb s t \<longleftrightarrow> loc t = loc s \<and> dest t = dest s \<and> client_pcb t = client_pcb s \<and>
    sem_valid t = sem_valid s \<and> net_ota_stop t = net_ota_stop s \<and> (pcb \<in> conns s \<longrightarrow> pcb \<in> conns t)"

lemma beside_trans: "beside pcb s t \<Longrightarrow> beside pcb t u \<Longrightarrow> beside pcb s u"
  by (simp add: beside_def)

lemma bystander_keeps:
  assumes "bystander e" "snd pcb = NET_UPDATE_PORT"
  shows "ram (net_event T e s) = ram s" "read_sem (net_event T e s) = read_sem s" "beside pcb s (net_event T e s)"
  using assms
  by (cases e; auto simp: bystander_def beside_def msgrecv_def send_msg_def msgclose_def msgaccept_def
      msgerr_def msgerr_ctp_def msgerr_http_def msgsent_def Let_def)+

lemma amid_Cons:
  assumes "amid pcb segs (e # evs)" "snd pcb = NET_UPDATE_PORT" "segs \<noteq> []"
  shows "e \<noteq> Timer"
    and "bystander e \<Longrightarrow> amid pcb segs evs"
    and "\<not> bystander e \<Longrightarrow> e = Seg pcb (hd segs) \<and> amid pcb (tl segs) evs \<and> (tl segs = [] \<longrightarrow> evs = [])"
proof -
  have f: "filter (\<lambda>e. \<not> bystander e) (e # evs) = map (Seg pcb) segs"
    and l: "evs \<noteq> [] \<Longrightarrow> \<not> bystander (last evs)" and l1: "evs = [] \<Longrightarrow> \<not> bystander e"
    using assms(1) by (auto simp: amid_def)
  have seg: "\<not> bystander e \<Longrightarrow> e = Seg pcb (hd segs) \<and> filter (\<lambda>e. \<not> bystander e) evs = map (Seg pcb) (tl segs)"
    using f assms(3) by (cases segs) auto
  show "e \<noteq> Timer" using seg by (auto simp: bystander_def)
  show "bystander e \<Longrightarrow> amid pcb segs evs" using f l l1 by (auto simp: amid_def)
  assume nb: "\<not> bystander e"
  have "evs = []" if "tl segs = []"
  proof (rule ccontr)
    assume "evs \<noteq> []"
    then have "last evs \<in> set (filter (\<lambda>e. \<not> bystander e) evs)" using l by simp
    with seg [OF nb] that show False by simp
  qed
  with seg [OF nb] l show "e = Seg pcb (hd segs) \<and> amid pcb (tl segs) evs \<and> (tl segs = [] \<longrightarrow> evs = [])"
    by (auto simp: amid_def)
qed

text \<open>The pieces while the update thread waits on the semaphore: the wait succeeds with the last.\<close>

lemma pend_pieces:
  assumes "counted m q (ram s)" "q @ concat segs = p" "segs \<noteq> []" "13 \<le> length (q @ hd segs)"
    and "\<forall>c \<in> set segs. c \<noteq> [] \<and> length c \<le> 40916" "ota_packet p"
    and "pcb \<in> conns s" "snd pcb = NET_UPDATE_PORT" "read_sem s = 0" "amid pcb segs evs"
  shows "\<exists>t. beside pcb s t \<and> os_sem_pend T s (evs @ es) =
    Some (0, (msgrecvmemcpy (t\<lparr>ram := mcpy_in m 0 p\<rparr>))\<lparr>read_sem := 0\<rparr>, es)"
  using assms(1-5,7,9,10)
proof (induction evs arbitrary: q s segs)
  case Nil
  then show ?case by (cases segs) (auto simp: amid_def)
next
  case (Cons e evs)
  note am = amid_Cons [OF Cons.prems(8) assms(8) Cons.prems(3)]
  have step: "os_sem_pend T s ((e # evs) @ es) = os_sem_pend T (net_event T e s) (evs @ es)"
    using Cons.prems am(1) by (subst os_sem_pend.simps) (simp del: net_event.simps)
  show ?case
  proof (cases "bystander e")
    case True
    note k = bystander_keeps [OF True assms(8), where s = s and T = T]
    have "\<exists>t. beside pcb (net_event T e s) t \<and> os_sem_pend T (net_event T e s) (evs @ es) =
        Some (0, (msgrecvmemcpy (t\<lparr>ram := mcpy_in m 0 p\<rparr>))\<lparr>read_sem := 0\<rparr>, es)"
      using Cons.prems k am(2) [OF True]
      by (intro Cons.IH [of q _ segs]) (auto simp: beside_def simp del: net_event.simps)
    then show ?thesis unfolding step using beside_trans [OF k(3)] by blast
  next
    case False
    define c cs where "c = hd segs" and "cs = tl segs"
    have segs: "segs = c # cs" and e: "e = Seg pcb c" "amid pcb cs evs" "cs = [] \<Longrightarrow> evs = []"
      using am(3) [OF False] Cons.prems(3) by (auto simp: c_def cs_def)
    obtain sm sk tail data where pk: "p = packet sm sk tail data" "length tail = 4" "length data \<le> 40916"
      "sm < 4294967296" "sk < 4294967296" and gs: "good_sum p"
      using assms(6) by (auto simp: ota_packet_def)
    have ev: "net_event T e s = recv_ota c s" unfolding e(1)
      using Cons.prems assms(8) segs by (intro seg_event) auto
    have ne: "c \<noteq> []" and reach: "13 \<le> length (q @ c)" using Cons.prems segs by auto
    show ?thesis
    proof (cases "cs = []")
      case True
      then have "recv_ota c s = msgrecvmemcpy (s\<lparr>ram := mcpy_in m 0 p\<rparr>)"
        using recv_last [OF Cons.prems(1) _ pk gs] Cons.prems(2) segs by simp
      with True step e ev Cons.prems show ?thesis
        by (intro exI [of _ s]) (simp add: os_sem_pend.simps beside_def)
    next
      case False
      have rest: "concat cs \<noteq> []" using False Cons.prems(5) segs by (cases cs) auto
      let ?s = "s\<lparr>ram := partial m (q @ c)\<rparr>"
      have "recv_ota c s = ?s"
        by (rule recv_more [OF Cons.prems(1) ne reach _ rest pk]) (use Cons.prems(2) segs in simp)
      moreover have "\<exists>t. beside pcb ?s t \<and> os_sem_pend T ?s (evs @ es) =
          Some (0, (msgrecvmemcpy (t\<lparr>ram := mcpy_in m 0 p\<rparr>))\<lparr>read_sem := 0\<rparr>, es)"
        using Cons.prems False reach segs e(2) by (intro Cons.IH [of "q @ c" _ cs]) (auto simp: counted_def)
      ultimately show ?thesis using step ev by (auto simp: beside_def)
    qed
  qed
qed

text \<open>The phone answers a request with the file's bytes; the window holds the file's bytes.\<close>

definition answers :: "(nat \<Rightarrow> byte) \<Rightarrow> memory \<Rightarrow> byte list \<Rightarrow> bool" where
  "answers file m p \<longleftrightarrow> (\<exists>sm tail. p = packet sm (get32 m F_SEEK) tail (map file [get32 m F_SEEK ..< get32 m F_SEEK + get32 m F_READ]) \<and>
     sm < 4294967296 \<and> length tail = 4 \<and> hd tail \<noteq> NET_UPDATE_STATUS_STOP \<and> good_sum p)"

definition cache_ok :: "(nat \<Rightarrow> byte) \<Rightarrow> memory \<Rightarrow> bool" where
  "cache_ok file m \<longleftrightarrow> get32 m F_SEEK + get32 m F_READ < 4294967296 \<and>
    (\<forall>j < get32 m F_READ. m (F_BUF + j) = file (get32 m F_SEEK + j))"

lemma cache_copy:
  assumes "cache_ok file (ram s)" "get32 (ram s) F_SEEK \<le> seek_addr (loc s)"
    and "seek_addr (loc s) + read_size (loc s) \<le> get32 (ram s) F_SEEK + get32 (ram s) F_READ"
  shows "dest (copy_window s) = mcpy_in (dest s) (buf (loc s))
    (map file [seek_addr (loc s) ..< seek_addr (loc s) + read_size (loc s)])"
proof -
  let ?k = "get32 (ram s) 4" let ?a = "seek_addr (loc s)" let ?n = "read_size (loc s)"
  have u: "u32_sub ?a ?k = ?a - ?k" using assms by (simp add: cache_ok_def)
  have "bytes (ram s) (20 + (?a - ?k)) ?n = map file [?a ..< ?a + ?n]"
  proof (rule nth_equalityI)
    fix i assume "i < length (bytes (ram s) (20 + (?a - ?k)) ?n)"
    then have i: "i < ?n" by simp
    then have "?a - ?k + i < get32 (ram s) 8" using assms(2,3) by arith
    then have "ram s (20 + (?a - ?k + i)) = file (?k + (?a - ?k + i))"
      using assms(1) by (simp add: cache_ok_def)
    then show "bytes (ram s) (20 + (?a - ?k)) ?n ! i = map file [?a ..< ?a + ?n] ! i"
      using i assms(2) by (simp add: add.assoc)
  qed simp
  then show ?thesis by (simp add: copy_window_def u)
qed

lemma packet_nth:
  "length tail = 4 \<Longrightarrow> j < length data \<Longrightarrow> packet sm sk tail data ! (20 + j) = data ! j"
  by (simp add: packet_def nth_append le32_def)

lemma packet_status: "length tail = 4 \<Longrightarrow> packet sm sk tail data ! 16 = hd tail"
  by (cases tail) (simp_all add: packet_def nth_append le32_def)

text \<open>An answer fills the window and serves the read.\<close>

lemma answer_serves:
  assumes "answers file w p" "get32 w F_READ = 40916" "get32 w F_SEEK + 40916 < 4294967296"
    and "get32 w F_SEEK \<le> seek_addr (loc s)" "seek_addr (loc s) + read_size (loc s) \<le> get32 w F_SEEK + 40916"
    and "read_size (loc s) \<noteq> 0"
  shows "ota_packet p" "cache_ok file (mcpy_in m 0 p)"
    and "dest (msgrecvmemcpy (s\<lparr>ram := mcpy_in m 0 p\<rparr>)) = mcpy_in (dest s) (buf (loc s))
      (map file [seek_addr (loc s) ..< seek_addr (loc s) + read_size (loc s)])"
    and "loc (msgrecvmemcpy (s\<lparr>ram := mcpy_in m 0 p\<rparr>)) = loc s"
    and "net_ota_stop (msgrecvmemcpy (s\<lparr>ram := mcpy_in m 0 p\<rparr>)) = net_ota_stop s"
proof -
  define k where "k = get32 w 4" define data where "data = map file [k ..< k + 40916]"
  have dl: "length data = 40916" by (simp add: data_def)
  obtain sm tail where p: "p = packet sm k tail data" "sm < 4294967296" "length tail = 4"
    "hd tail \<noteq> 8" "good_sum p" using assms(1,2) by (auto simp: answers_def k_def data_def)
  have k: "k + 40916 < 4294967296" using assms(3) by (simp add: k_def)
  show ok: "ota_packet p" unfolding ota_packet_def using p dl k
    by (intro conjI exI [of _ sm] exI [of _ k] exI [of _ tail] exI [of _ data]) auto
  have pl: "length p = 40936" using p dl by simp
  have f: "get32 (mcpy_in m 0 p) 4 = k" "get32 (mcpy_in m 0 p) 8 = 40916"
    using packet_fields(2,3) [of data sm k tail] p(1,2) dl k pl by (simp_all add: get32_mcpy_in)
  show c: "cache_ok file (mcpy_in m 0 p)"
    unfolding cache_ok_def f
  proof (intro conjI allI impI)
    fix j :: nat assume j: "j < 40916"
    have "mcpy_in m 0 p (20 + j) = p ! (20 + j)" using j pl by (simp add: mcpy_in_def)
    also have "\<dots> = data ! j" unfolding p(1) by (rule packet_nth) (use p(3) j dl in simp_all)
    finally show "mcpy_in m 0 p (20 + j) = file (k + j)" using j by (simp add: data_def)
  qed (rule k)
  have st: "mcpy_in m 0 p 16 \<noteq> 8"
    using pl p(1,3,4) packet_status [of tail sm k data] by (simp add: mcpy_in_def)
  then have m: "msgrecvmemcpy (s\<lparr>ram := mcpy_in m 0 p\<rparr>) = os_sem_post (copy_window (s\<lparr>ram := mcpy_in m 0 p\<rparr>))"
    using assms(6) by (simp add: msgrecvmemcpy_def)
  let ?t = "s\<lparr>ram := mcpy_in m 0 p\<rparr>"
  have "dest (copy_window ?t) = mcpy_in (dest ?t) (buf (loc ?t))
      (map file [seek_addr (loc ?t) ..< seek_addr (loc ?t) + read_size (loc ?t)])"
    by (rule cache_copy) (use c assms(4,5) f in \<open>simp_all add: k_def\<close>)
  then have "dest (copy_window ?t) = mcpy_in (dest s) (buf (loc s))
      (map file [seek_addr (loc s) ..< seek_addr (loc s) + read_size (loc s)])" by simp
  with m show "dest (msgrecvmemcpy (s\<lparr>ram := mcpy_in m 0 p\<rparr>)) = mcpy_in (dest s) (buf (loc s))
      (map file [seek_addr (loc s) ..< seek_addr (loc s) + read_size (loc s)])"
    by (simp add: os_sem_post_def)
  show "loc (msgrecvmemcpy (s\<lparr>ram := mcpy_in m 0 p\<rparr>)) = loc s"
    "net_ota_stop (msgrecvmemcpy (s\<lparr>ram := mcpy_in m 0 p\<rparr>)) = net_ota_stop s"
    by (simp_all add: m os_sem_post_def copy_window_def)
qed

lemma window_request_quirk: "window_request l (put32 m F_SEEK v) = window_request l m"
proof -
  have "put32 (put32 (put32 (put32 m 4 v) 12 0) 8 40916) 4 a = put32 (put32 (put32 m 12 0) 8 40916) 4 a" for a
    by (rule ext) (simp add: put32_def mcpy_in_def)
  then show ?thesis by (simp add: window_request_def)
qed

lemma hit_quirk:
  "get32 m F_SEEK = 0 \<and> get32 m F_READ = 0 \<Longrightarrow> v < 4294967296 \<Longrightarrow>
    window_hit l (put32 m F_SEEK v) = window_hit l m"
  by (simp add: window_hit_def get32_put32_other)

lemma msgsenddata_hit:
  assumes "client_pcb s = Some pcb" "status (loc s) = NET_UPDATE_STATUS_READ" "all_size (loc s) = 0"
    and "window_hit (loc s) (ram s)"
  shows "msgsenddata T sizeof_net_ota False (s, es) = Some (read_size (loc s), copy_window s, es)"
  using assms by (auto simp: msgsenddata_def Let_def window_hit_def)

lemma msgsenddata_miss:
  assumes "client_pcb s = Some pcb" "status (loc s) = NET_UPDATE_STATUS_READ" "all_size (loc s) = 0"
    and "\<not> window_hit (loc s) (ram s)" "seek_addr (loc s) < 4294967296"
  shows "msgsenddata T sizeof_net_ota False (s, es) =
    send_wait T pcb sizeof_net_ota 0 False (s\<lparr>ram := window_request (loc s) (ram s)\<rparr>, es)"
  using assms hit_quirk [of "ram s" "seek_addr (loc s)" "loc s"]
  by (simp add: msgsenddata_def Let_def window_request_quirk)

lemma seal_frame [simp]:
  "conns (seal s) = conns s" "client_pcb (seal s) = client_pcb s" "dest (seal s) = dest s"
  "loc (seal s) = loc s" "read_sem (seal s) = read_sem s" "sem_valid (seal s) = sem_valid s"
  "net_ota_stop (seal s) = net_ota_stop s" "wire (seal s) = wire s"
  by (simp_all add: seal_def Let_def)

lemma copy_window_frame [simp]:
  "conns (copy_window s) = conns s" "client_pcb (copy_window s) = client_pcb s"
  "loc (copy_window s) = loc s" "ram (copy_window s) = ram s" "sem_valid (copy_window s) = sem_valid s"
  "net_ota_stop (copy_window s) = net_ota_stop s" "wire (copy_window s) = wire s"
  by (simp_all add: copy_window_def)

lemma send_wait_answered:
  assumes "tcp_write_ok T pcb = (\<lambda>_. True)" "20 \<le> tcp_sndbuf T pcb" "sem_valid s"
    and "pcb \<in> conns s" "snd pcb = NET_UPDATE_PORT" "get32 (ram s) F_ALL = 0" "pieces p segs" "ota_packet p"
    and "amid pcb segs evs"
  shows "\<exists>m t. beside pcb s t \<and> send_wait T pcb sizeof_net_ota 0 False (s, evs @ es) =
    Some (20, (msgrecvmemcpy (t\<lparr>ram := mcpy_in m 0 p\<rparr>))\<lparr>read_sem := 0\<rparr>, es)"
proof -
  define s1 where "s1 = seal (s\<lparr>read_sem := 0\<rparr>)"
  define s2 where "s2 = s1\<lparr>wire := wire s @ [(pcb, bytes (ram s1) 0 20)]\<rparr>"
  have r: "get32 (ram s2) 12 = 0" using assms(6) by (simp add: s2_def s1_def seal_fields)
  have "\<exists>t. beside pcb s2 t \<and> os_sem_pend T s2 (evs @ es) =
      Some (0, (msgrecvmemcpy (t\<lparr>ram := mcpy_in (ram s2) 0 p\<rparr>))\<lparr>read_sem := 0\<rparr>, es)"
    using assms r by (intro pend_pieces [where q = "[]"])
      (auto simp: counted_def pieces_def s2_def s1_def)
  then obtain t where t: "beside pcb s2 t" "os_sem_pend T s2 (evs @ es) =
      Some (0, (msgrecvmemcpy (t\<lparr>ram := mcpy_in (ram s2) 0 p\<rparr>))\<lparr>read_sem := 0\<rparr>, es)" by blast
  have "beside pcb s t" using t(1) by (simp add: beside_def s2_def s1_def)
  moreover have "send_wait T pcb sizeof_net_ota 0 False (s, evs @ es) =
    Some (20, (msgrecvmemcpy (t\<lparr>ram := mcpy_in (ram s2) 0 p\<rparr>))\<lparr>read_sem := 0\<rparr>, es)"
    using assms(1-3) t(2) by (simp add: send_wait_def send_msg_def Let_def s1_def [symmetric] s2_def [symmetric])
      (simp add: s2_def s1_def)
  ultimately show ?thesis by blast
qed

definition serving :: "tcp \<Rightarrow> pcb \<Rightarrow> (nat \<Rightarrow> byte) \<Rightarrow> net \<Rightarrow> bool" where
  "serving T pcb file s \<longleftrightarrow> client_pcb s = Some pcb \<and> pcb \<in> conns s \<and> local_port pcb = NET_UPDATE_PORT \<and>
    tcp_write_ok T pcb = (\<lambda>_. True) \<and> 20 \<le> tcp_sndbuf T pcb \<and> sem_valid s \<and> \<not> net_ota_stop s \<and>
    cache_ok file (ram s)"

text \<open>The phone's part: nothing when the window holds the block, else an answer in some pieces, between
  which other connections may be busy.\<close>

definition phone :: "(nat \<Rightarrow> byte) \<Rightarrow> pcb \<Rightarrow> nat \<Rightarrow> net \<Rightarrow> tcp_ev list \<Rightarrow> bool" where
  "phone file pcb n s evs \<longleftrightarrow>
    (let l = (loc s)\<lparr>read_size := n\<rparr> in
     if window_hit l (ram s) then evs = []
     else \<exists>p segs. answers file (window_request l (ram s)) p \<and> pieces p segs \<and> amid pcb segs evs)"

lemma window_hit_cong:
  "seek_addr l = seek_addr l' \<Longrightarrow> read_size l = read_size l' \<Longrightarrow> window_hit l m = window_hit l' m"
  "seek_addr l = seek_addr l' \<Longrightarrow> read_size l = read_size l' \<Longrightarrow> window_request l m = window_request l' m"
  by (simp_all only: window_hit_def window_request_def)

lemma read_start_frame:
  "seek_addr (loc (read_start b n s)) = seek_addr (loc s)" "read_size (loc (read_start b n s)) = n"
  "status (loc (read_start b n s)) = NET_UPDATE_STATUS_READ" "all_size (loc (read_start b n s)) = 0"
  "buf (loc (read_start b n s)) = b" "ram (read_start b n s) = ram s" "dest (read_start b n s) = dest s"
  "client_pcb (read_start b n s) = client_pcb s" "conns (read_start b n s) = conns s"
  "net_ota_stop (read_start b n s) = net_ota_stop s" "sem_valid (read_start b n s) = sem_valid s"
  by (simp_all add: read_start_def)

text \<open>After the request: the block is at the destination, the window is right again.\<close>

lemma read_request_serves:
  assumes "serving T pcb file s" "0 < n" "n \<le> RECV_BUF_MAX_SIZE" "seek_addr (loc s) + 40916 < 4294967296"
    and "phone file pcb n s evs"
  shows "\<exists>r s'. msgsenddata T sizeof_net_ota False (read_start b n s, evs @ es) = Some (r, s', es) \<and> 0 < r \<and>
    loc s' = loc (read_start b n s) \<and> serving T pcb file s' \<and>
    dest s' = mcpy_in (dest s) b (map file [seek_addr (loc s) ..< seek_addr (loc s) + n])"
proof -
  let ?q = "read_start b n s" let ?l = "loc (read_start b n s)"
  note fr = read_start_frame [of b n s]
  have h: "window_hit ((loc s)\<lparr>read_size := n\<rparr>) (ram s) = window_hit ?l (ram ?q)"
    "window_request ((loc s)\<lparr>read_size := n\<rparr>) (ram s) = window_request ?l (ram ?q)"
    by (simp_all add: fr window_hit_cong [of "(loc s)\<lparr>read_size := n\<rparr>" ?l])
  have sv: "client_pcb ?q = Some pcb" "pcb \<in> conns ?q" "snd pcb = 3335" "cache_ok file (ram ?q)"
    "sem_valid ?q" "\<not> net_ota_stop ?q" using assms(1) by (simp_all add: serving_def fr)
  show ?thesis
  proof (cases "window_hit ?l (ram ?q)")
    case True
    with assms(5) h have ev: "evs = []" by (simp add: phone_def Let_def)
    have b: "get32 (ram ?q) 4 \<le> seek_addr ?l" "seek_addr ?l + read_size ?l \<le> get32 (ram ?q) 4 + get32 (ram ?q) 8"
      using True assms(3,4) sv(4) by (simp_all add: window_hit_def cache_ok_def fr)
    have "msgsenddata T sizeof_net_ota False (?q, es) = Some (n, copy_window ?q, es)"
      using msgsenddata_hit [OF sv(1) fr(3,4) True, of T es] fr(2) by simp
    moreover have "dest (copy_window ?q) = mcpy_in (dest s) b (map file [seek_addr (loc s) ..< seek_addr (loc s) + n])"
      using cache_copy [OF sv(4) b] by (simp add: fr)
    moreover have "serving T pcb file (copy_window ?q)" using assms(1) by (simp add: serving_def fr)
    ultimately show ?thesis using ev assms(2) by (intro exI conjI) auto
  next
    case False
    let ?w = "window_request ?l (ram ?q)" let ?r = "?q\<lparr>ram := window_request (loc ?q) (ram ?q)\<rparr>"
    obtain p segs where ans: "answers file ?w p" "pieces p segs" "amid pcb segs evs"
      using False assms(5) h by (auto simp: phone_def Let_def)
    have l: "seek_addr ?l + 40916 < 4294967296" "read_size ?l \<le> 40916" "seek_addr ?l < 4294967296"
      using assms(3,4) by (simp_all add: fr)
    note wf = window_fields [OF l(3,2), of "ram ?q"] and wh = window_holds [OF l(1,2), of "ram ?q"]
    have n0: "read_size (loc t) \<noteq> 0" if "loc t = ?l" for t using that assms(2) fr(2) by simp
    have bnd: "get32 ?w 4 \<le> seek_addr (loc t)" "seek_addr (loc t) + read_size (loc t) \<le> get32 ?w 4 + 40916"
      if "loc t = ?l" for t using wh wf(1) that by simp_all
    have op: "ota_packet p" by (rule answer_serves(1) [OF ans(1) wf(1) wh(3) bnd n0]) simp_all
    obtain m t where bs: "beside pcb ?r t" and sw: "send_wait T pcb sizeof_net_ota 0 False (?r, evs @ es) =
      Some (20, (msgrecvmemcpy (t\<lparr>ram := mcpy_in m 0 p\<rparr>))\<lparr>read_sem := 0\<rparr>, es)"
      using send_wait_answered [of T pcb ?r p segs evs es] assms(1) sv wf(2) ans(2,3) op by (auto simp: serving_def)
    have tl: "loc t = ?l" and td: "dest t = dest s" using bs by (simp_all add: beside_def fr)
    note a = answer_serves [OF ans(1) wf(1) wh(3) bnd [OF tl] n0 [OF tl]]
    define s' where "s' = (msgrecvmemcpy (t\<lparr>ram := mcpy_in m 0 p\<rparr>))\<lparr>read_sem := 0\<rparr>"
    have "msgsenddata T sizeof_net_ota False (?q, evs @ es) = Some (20, s', es)"
      using msgsenddata_miss [OF sv(1) fr(3,4) False l(3)] sw by (simp add: s'_def)
    moreover have "loc s' = ?l" using a(4) [of m] tl by (simp add: s'_def)
    moreover have "dest s' = mcpy_in (dest s) b (map file [seek_addr (loc s) ..< seek_addr (loc s) + n])"
      using a(3) [of m] tl td by (simp add: s'_def fr)
    moreover have "serving T pcb file s'"
      using assms(1) bs a(2) [of m] a(5) [of m] by (simp add: serving_def beside_def s'_def fr)
    ultimately show ?thesis by (intro exI conjI) auto
  qed
qed

lemma net_read_serves:
  assumes "serving T pcb file s" "0 < n" "n \<le> RECV_BUF_MAX_SIZE" "seek_addr (loc s) + 40916 < 4294967296"
    and "phone file pcb n s evs"
  shows "\<exists>s'. net_f_read T b n (s, evs @ es) = Some (int n, s', es) \<and> serving T pcb file s' \<and>
    dest s' = mcpy_in (dest s) b (map file [seek_addr (loc s) ..< seek_addr (loc s) + n]) \<and>
    seek_addr (loc s') = seek_addr (loc s) \<and> \<not> stopped s'"
proof -
  obtain r s1 where r: "msgsenddata T sizeof_net_ota False (read_start b n s, evs @ es) = Some (r, s1, es)"
    "0 < r" "loc s1 = loc (read_start b n s)" "serving T pcb file s1"
    "dest s1 = mcpy_in (dest s) b (map file [seek_addr (loc s) ..< seek_addr (loc s) + n])"
    using read_request_serves [OF assms, of b es] by blast
  have ns: "\<not> stopped (read_start b n s)" "\<not> stopped s1"
    using assms(1) r(3,4) by (simp_all add: stopped_def read_start_frame serving_def)
  have n: "s32 (int n) = int n" using assms(3) by simp
  have st: "stopped (s1\<lparr>ota_read_size := x\<rparr>) = stopped s1" for x by (simp add: stopped_def)
  show ?thesis
    using r ns n assms(3) st by (auto simp: net_f_read_def Let_def serving_def read_start_frame)
qed

text \<open>C7: A read of the update library delivers the file's bytes.  When the window holds the block nothing is
  sent and nothing waited for.  Otherwise the phone answers the request with the bytes of its file, in
  pieces of which the first has at least 13 bytes and which are cut in any other way, while connections
  to the other ports come and go, are lost, or ask for the description over HTTP between the pieces.
  Then a read of up to a window at the current position returns its length, with exactly the file's
  bytes at the library's buffer and nothing else changed there, and it leaves a state in which the
  same holds of the next read.\<close>

theorem net_read_delivers:
  assumes "serving T pcb file s" "0 < n" "n \<le> RECV_BUF_MAX_SIZE" "seek_addr (loc s) + 40916 < 4294967296"
    and "phone file pcb n s evs"
  shows "\<exists>s'. net_f_read T b n (s, evs @ es) = Some (int n, s', es) \<and> serving T pcb file s' \<and>
    dest s' = mcpy_in (dest s) b (map file [seek_addr (loc s) ..< seek_addr (loc s) + n]) \<and>
    seek_addr (loc s') = seek_addr (loc s)"
  using net_read_serves [OF assms] by blast

section \<open>Connections\<close>

lemma send_msg_frame [simp]:
  "loc (fst (send_msg T p bs s)) = loc s" "sem_valid (fst (send_msg T p bs s)) = sem_valid s"
  "client_pcb (fst (send_msg T p bs s)) = client_pcb s" "conns (fst (send_msg T p bs s)) = conns s"
  "client_accept (fst (send_msg T p bs s)) = client_accept s"
  by (simp_all add: send_msg_def)

lemma msgclose_frame [simp]: "loc (msgclose p s) = loc s" "sem_valid (msgclose p s) = sem_valid s"
  by (simp_all add: msgclose_def Let_def)

lemma recv_ota_frame [simp]:
  "download_percent (loc (recv_ota p s)) = download_percent (loc s)" "sem_valid (recv_ota p s) = sem_valid s"
  "client_pcb (recv_ota p s) = client_pcb s" "conns (recv_ota p s) = conns s"
  "client_accept (recv_ota p s) = client_accept s"
  by (simp_all add: recv_ota_def Let_def msgrecvmemcpy_def os_sem_post_def copy_window_def)

lemma msgrecv_frame [simp]:
  "download_percent (loc (msgrecv T q p s)) = download_percent (loc s)" "sem_valid (msgrecv T q p s) = sem_valid s"
  "client_pcb (msgrecv T q p s) = client_pcb s" "conns (msgrecv T q p s) = conns s"
  "client_accept (msgrecv T q p s) = client_accept s"
  by (simp_all add: msgrecv_def recv_ctp_def Let_def)

lemma net_event_frame [simp]:
  "download_percent (loc (net_event T e s)) = download_percent (loc s)" "sem_valid (net_event T e s) = sem_valid s"
  by (cases e; simp add: msgaccept_def msgsent_def msgerr_def msgerr_ota_def msgerr_ctp_def msgerr_http_def Let_def)+

text \<open>The states the network thread can reach from start-up.\<close>

inductive net_reach :: "tcp \<Rightarrow> net \<Rightarrow> bool" for T where
  boot: "client_accept s = 0 \<Longrightarrow> conns s = {} \<Longrightarrow> net_reach T s"
| event: "net_reach T s \<Longrightarrow> net_reach T (net_event T e s)"

lemma msgclose_conns: "conns (msgclose p s) = conns s - {p}"
  by (simp add: msgclose_def Let_def)

definition ota :: "pcb set \<Rightarrow> pcb set" where "ota C = {p \<in> C. snd p = NET_UPDATE_PORT}"

lemma ota_simps [simp]:
  "ota {} = {}" "ota (C - {p}) = ota C - {p}"
  "snd p = NET_UPDATE_PORT \<Longrightarrow> ota (insert p C) = insert p (ota C)"
  "snd p \<noteq> NET_UPDATE_PORT \<Longrightarrow> ota (insert p C) = ota C"
  by (auto simp: ota_def)

lemma ota_mem: "p \<in> ota C \<longleftrightarrow> p \<in> C \<and> snd p = NET_UPDATE_PORT"
  by (simp add: ota_def)

definition one_client :: "net \<Rightarrow> bool" where
  "one_client s \<longleftrightarrow> (client_accept s = 0 \<and> ota (conns s) = {}) \<or>
    (client_accept s = 1 \<and> (\<exists>p. client_pcb s = Some p \<and> ota (conns s) = {p}))"

lemma one_client_cong:
  "one_client s \<Longrightarrow> client_accept t = client_accept s \<Longrightarrow> client_pcb t = client_pcb s \<Longrightarrow>
    ota (conns t) = ota (conns s) \<Longrightarrow> one_client t"
  by (simp add: one_client_def)

lemma one_client_accept:
  assumes "one_client s" "p \<notin> conns s"
  shows "one_client (msgaccept p s)"
proof (cases "snd p = NET_UPDATE_PORT")
  case False
  show ?thesis by (rule one_client_cong [OF assms(1)]) (use False in \<open>simp_all add: msgaccept_def\<close>)
next
  case port: True
  from assms(1) consider "client_accept s = 0" "ota (conns s) = {}"
    | q where "client_accept s = 1" "client_pcb s = Some q" "ota (conns s) = {q}"
    unfolding one_client_def by blast
  then show ?thesis
  proof cases
    case 1
    with port show ?thesis by (simp add: msgaccept_def one_client_def)
  next
    case 2
    then have "q \<in> conns s" using ota_mem [of q "conns s"] by simp
    then have "q \<noteq> p" using assms(2) by blast
    with 2 port show ?thesis by (simp add: msgaccept_def msgclose_def one_client_def)
  qed
qed

lemma one_client_leave:
  assumes "one_client s" "p \<in> conns s"
  shows "one_client (msgclose p s)" "one_client (msgerr p s)"
proof -
  have "one_client (msgclose p s) \<and> one_client (msgerr p s)"
  proof (cases "snd p = NET_UPDATE_PORT")
    case True
    with assms(2) have "p \<in> ota (conns s)" by (simp add: ota_mem)
    with assms(1) have c: "client_accept s = 1" "client_pcb s = Some p" "ota (conns s) = {p}"
      unfolding one_client_def by (elim disjE; force)+
    with True show ?thesis
      by (simp add: one_client_def msgclose_def msgerr_def msgerr_ota_def)
  next
    case False
    then have "ota (conns s) - {p} = ota (conns s)" using ota_mem [of p "conns s"] by blast
    with False have "one_client (msgclose p s)"
      by (intro one_client_cong [OF assms(1)]) (simp_all add: msgclose_def Let_def)
    moreover have "one_client (msgerr p s)" using False \<open>ota (conns s) - {p} = ota (conns s)\<close>
      by (intro one_client_cong [OF assms(1)])
        (simp_all add: msgerr_def msgerr_ctp_def msgerr_http_def Let_def)
    ultimately show ?thesis ..
  qed
  then show "one_client (msgclose p s)" "one_client (msgerr p s)" by simp_all
qed

lemma one_client_event: "one_client s \<Longrightarrow> one_client (net_event T e s)"
proof (cases e)
  case (Seg p c)
  assume "one_client s"
  then show ?thesis unfolding Seg by (rule one_client_cong) simp_all
next
  case (Sent p)
  assume "one_client s"
  then show ?thesis unfolding Sent by (rule one_client_cong) (simp_all add: msgsent_def)
qed (simp_all add: one_client_accept one_client_leave)

text \<open>C25: At most one phone is served: in every state the network thread can reach, the connections on
  the update port are none, with the accept counter 0, or exactly the one that requests are sent to,
  with the counter 1; a second phone is turned away without disturbing the first.\<close>

theorem one_phone:
  assumes "net_reach T s"
  shows "(client_accept s = 0 \<and> {p \<in> conns s. local_port p = NET_UPDATE_PORT} = {}) \<or>
    (client_accept s = 1 \<and> (\<exists>p. client_pcb s = Some p \<and> {p \<in> conns s. local_port p = NET_UPDATE_PORT} = {p}))"
proof -
  from assms have "one_client s"
    by (induction rule: net_reach.induct) (simp_all add: one_client_event, simp add: one_client_def)
  then show ?thesis by (simp add: one_client_def ota_def)
qed

section \<open>Progress\<close>

lemma progress_range: "pct \<le> 99 \<Longrightarrow> pct \<le> progress all done pct \<and> progress all done pct \<le> 99"
  by (auto simp: progress_def Let_def)

definition keeps :: "net \<Rightarrow> net \<Rightarrow> bool" where
  "keeps s s' \<longleftrightarrow> download_percent (loc s') = download_percent (loc s) \<and> sem_valid s' = sem_valid s \<and>
    (one_client s \<longrightarrow> one_client s')"

lemma one_client_upd [simp]:
  "one_client (s\<lparr>ram := m\<rparr>) = one_client s" "one_client (s\<lparr>loc := l\<rparr>) = one_client s"
  "one_client (s\<lparr>wire := v\<rparr>) = one_client s" "one_client (s\<lparr>read_sem := n\<rparr>) = one_client s"
  "one_client (s\<lparr>net_ota_lastpacket := b\<rparr>) = one_client s" "one_client (copy_window s) = one_client s"
  "one_client (seal s) = one_client s" "one_client (fst (send_msg T p bs s)) = one_client s"
  by (simp_all add: one_client_def copy_window_def seal_def send_msg_def Let_def)

lemma keeps_refl: "keeps s s"
  by (simp add: keeps_def)

lemma pend_keeps: "os_sem_pend T s es = Some (r, s', rest) \<Longrightarrow> keeps s s'"
proof (induction es arbitrary: s)
  case (Cons e es)
  then show ?case
    by (subst (asm) (2) os_sem_pend.simps) (auto simp: keeps_def one_client_event simp del: net_event.simps split: if_splits)
qed (subst (asm) os_sem_pend.simps, auto simp: keeps_def split: if_splits)

lemma send_wait_keeps:
  assumes "send_wait T p n v nw (s, es) = Some (r, s', rest)"
  shows "keeps s s'"
proof -
  obtain t e where t: "send_msg T p (bytes (ram (seal (s\<lparr>read_sem := 0\<rparr>))) 0 n) (seal (s\<lparr>read_sem := 0\<rparr>)) = (t, e)"
    by fastforce
  let ?t = "if v \<noteq> 0 then t\<lparr>ram := put32 (ram t) 8 v\<rparr> else t"
  have k: "keeps s ?t"
    using send_msg_frame(1,2) [of T p "bytes (ram (seal (s\<lparr>read_sem := 0\<rparr>))) 0 n" "seal (s\<lparr>read_sem := 0\<rparr>)"] t
      one_client_upd(8) [of T p "bytes (ram (seal (s\<lparr>read_sem := 0\<rparr>))) 0 n" "seal (s\<lparr>read_sem := 0\<rparr>)"]
    by (simp add: keeps_def)
  show ?thesis
  proof (cases nw)
    case True
    with assms t k show ?thesis by (auto simp: send_wait_def Let_def)
  next
    case False
    then obtain q where "os_sem_pend T ?t es = Some (q, s', rest)"
      using assms t by (auto simp: send_wait_def Let_def split: if_splits bind_splits)
    then have "keeps ?t s'" by (rule pend_keeps)
    with k show ?thesis by (simp add: keeps_def)
  qed
qed

lemma msgsenddata_keeps:
  assumes "msgsenddata T n nw (s, es) = Some (r, s', rest)"
  shows "keeps s s'"
proof -
  have u: "keeps s t" if "keeps (s\<lparr>ram := m\<rparr>) t" for m t using that by (simp add: keeps_def)
  have c: "keeps s (copy_window (s\<lparr>ram := m\<rparr>))" for m by (simp add: keeps_def)
  show ?thesis
    using assms c c [of "ram s"] by (auto simp: msgsenddata_def Let_def keeps_refl split: if_splits option.splits
        dest!: send_wait_keeps intro: u)
qed

text \<open>The percentage shown to the phone never falls and never reaches a hundred while blocks are
  read: from a value up to 99, a read, whatever its outcome, leaves one that is at least as large
  and at most 99.\<close>

lemma progress_monotone:
  assumes "download_percent (loc s) \<le> 99" "net_f_read T b n (s, es) = Some (r, s', rest)"
  shows "download_percent (loc s) \<le> download_percent (loc s') \<and> download_percent (loc s') \<le> 99"
proof -
  have p: "download_percent (loc s) \<le> download_percent (loc (read_start b n s)) \<and>
      download_percent (loc (read_start b n s)) \<le> 99"
    using progress_range [OF assms(1)] by (simp add: read_start_def)
  have k: "keeps (read_start b n s) t"
    if "msgsenddata T sizeof_net_ota False (read_start b n s, es) = Some (v, t, es')" for v t es'
    using that by (rule msgsenddata_keeps)
  show ?thesis
    using assms p by (auto simp: net_f_read_def Let_def split: if_splits bind_splits
        dest!: k simp: keeps_def simp del: sizeof_net_ota_def)
qed

section \<open>Every wait ends\<close>

definition timers :: "tcp_ev list \<Rightarrow> nat" where "timers es = length (filter (\<lambda>e. e = Timer) es)"

lemma timers_simps [simp]:
  "timers [] = 0" "timers (e # es) = (if e = Timer then 1 else 0) + timers es"
  by (simp_all add: timers_def)

lemma pend_returns:
  "1 \<le> timers es \<Longrightarrow> \<exists>r s' rest. os_sem_pend T s es = Some (r, s', rest) \<and> timers es \<le> timers rest + 1"
proof (induction es arbitrary: s)
  case (Cons e es)
  show ?case
  proof (cases "read_sem s > 0 \<or> e = Timer")
    case True
    then show ?thesis by (subst os_sem_pend.simps) auto
  next
    case False
    with Cons show ?thesis by (subst os_sem_pend.simps) (simp del: net_event.simps)
  qed
qed simp

lemma dly_returns:
  "1 \<le> timers es \<Longrightarrow> \<exists>s' rest. os_time_dly T s es = Some (s', rest) \<and> timers es \<le> timers rest + 1 \<and> keeps s s'"
proof (induction es arbitrary: s)
  case (Cons e es)
  show ?case
  proof (cases "e = Timer")
    case False
    with Cons obtain s' rest where "os_time_dly T (net_event T e s) es = Some (s', rest)"
      "timers es \<le> timers rest + 1" "keeps (net_event T e s) s'" by force
    with False show ?thesis by (auto simp: keeps_def one_client_event simp del: net_event.simps)
  qed (simp add: keeps_refl)
qed simp

lemma dly_keeps: "os_time_dly T s es = Some (s', rest) \<Longrightarrow> keeps s s'"
proof (induction es arbitrary: s)
  case (Cons e es)
  then show ?case
    by (cases "e = Timer") (auto simp: keeps_def one_client_event simp del: net_event.simps)
qed simp

lemma poll_keeps: "poll_until T f cnt s es = Some (r, s', rest) \<Longrightarrow> keeps s s'"
proof (induction cnt arbitrary: s es)
  case 0
  then show ?case by (subst (asm) poll_until.simps) (auto simp: keeps_refl split: if_splits)
next
  case (Suc cnt)
  show ?case
  proof (cases "\<not> f s \<or> cnt = 0")
    case True
    with Suc.prems show ?thesis by (subst (asm) poll_until.simps) (auto simp: keeps_refl split: if_splits)
  next
    case False
    with Suc.prems obtain s1 es1 where d: "os_time_dly T s es = Some (s1, es1)"
      "poll_until T f cnt s1 es1 = Some (r, s', rest)"
      by (subst (asm) poll_until.simps) (auto split: bind_splits)
    from dly_keeps [OF d(1)] Suc.IH [OF d(2)] show ?thesis by (auto simp: keeps_def)
  qed
qed

lemma stop_client_keeps:
  assumes "stop_client T p (s, es) = Some (s', rest)"
  shows "one_client s \<Longrightarrow> one_client s'"
proof -
  have 1: "one_client t \<longrightarrow> one_client t'" if "send_success T (t, fs) = Some (t', fs')" for t t' fs fs'
    using that by (auto simp: send_success_def Let_def keeps_def split: bind_splits
        dest!: msgsenddata_keeps dly_keeps)
  have 2: "one_client t \<longrightarrow> one_client t'" if "send_status T q (t, fs) = Some (t', fs')" for q t t' fs fs'
    using that by (auto simp: send_status_def Let_def keeps_def split: bind_splits
        dest!: msgsenddata_keeps poll_keeps)
  show "one_client s \<Longrightarrow> one_client s'"
    using assms by (auto simp: stop_client_def Let_def split: bind_splits if_splits dest!: 1 2)
qed

lemma poll_returns:
  "cnt - 1 \<le> timers es \<Longrightarrow> \<exists>r s' rest. poll_until T f cnt s es = Some (r, s', rest) \<and>
    timers es \<le> timers rest + (cnt - 1) \<and> keeps s s'"
proof (induction cnt arbitrary: s es)
  case 0
  then show ?case by (subst poll_until.simps) (auto simp: keeps_refl)
next
  case (Suc cnt)
  show ?case
  proof (cases "\<not> f s \<or> cnt = 0")
    case True
    then show ?thesis by (subst poll_until.simps) (auto simp: keeps_refl)
  next
    case False
    then have "1 \<le> timers es" using Suc.prems by simp
    then obtain s1 es1 where d: "os_time_dly T s es = Some (s1, es1)" "timers es \<le> timers es1 + 1" "keeps s s1"
      using dly_returns by blast
    with Suc.prems Suc.IH [of es1 s1] obtain r s' rest where
      "poll_until T f cnt s1 es1 = Some (r, s', rest)" "timers es1 \<le> timers rest + (cnt - 1)" "keeps s1 s'"
      by (auto simp: le_diff_conv)
    with False d show ?thesis by (subst poll_until.simps) (auto simp: keeps_def)
  qed
qed

lemma send_wait_returns:
  assumes "sem_valid s" "1 \<le> timers es"
  shows "\<exists>r s' rest. send_wait T p n v nw (s, es) = Some (r, s', rest) \<and> timers es \<le> timers rest + 1 \<and> keeps s s'"
proof -
  obtain t e where t: "send_msg T p (bytes (ram (seal (s\<lparr>read_sem := 0\<rparr>))) 0 n) (seal (s\<lparr>read_sem := 0\<rparr>)) = (t, e)"
    by fastforce
  let ?t = "if v \<noteq> 0 then t\<lparr>ram := put32 (ram t) 8 v\<rparr> else t"
  have "sem_valid ?t"
    using send_msg_frame(2) [of T p "bytes (ram (seal (s\<lparr>read_sem := 0\<rparr>))) 0 n" "seal (s\<lparr>read_sem := 0\<rparr>)"] t assms(1)
    by simp
  moreover obtain q s' rest where "os_sem_pend T ?t es = Some (q, s', rest)" "timers es \<le> timers rest + 1"
    using pend_returns [OF assms(2)] by blast
  ultimately have "\<exists>r s' rest. send_wait T p n v nw (s, es) = Some (r, s', rest) \<and> timers es \<le> timers rest + 1"
    using t by (auto simp: send_wait_def Let_def)
  then show ?thesis using send_wait_keeps by blast
qed

lemma msgsenddata_returns:
  assumes "sem_valid s" "1 \<le> timers es"
  shows "\<exists>r s' rest. msgsenddata T n nw (s, es) = Some (r, s', rest) \<and> timers es \<le> timers rest + 1 \<and> keeps s s'"
proof -
  have w: "\<exists>r s' rest. send_wait T p n v nw (s\<lparr>ram := m\<rparr>, es) = Some (r, s', rest) \<and>
      timers es \<le> timers rest + 1" for p v m
    using send_wait_returns [of "s\<lparr>ram := m\<rparr>" es T p n v nw] assms by auto
  have "\<exists>r s' rest. msgsenddata T n nw (s, es) = Some (r, s', rest) \<and> timers es \<le> timers rest + 1"
    using w by (auto simp: msgsenddata_def Let_def split: option.splits)
  then show ?thesis using msgsenddata_keeps by blast
qed

lemma read_returns:
  assumes "sem_valid s" "1 \<le> timers es"
  shows "\<exists>r s' rest. net_f_read T b n (s, es) = Some (r, s', rest) \<and> sem_valid s'"
proof -
  have sv: "sem_valid (read_start b n s)" using assms(1) by (simp add: read_start_frame)
  from msgsenddata_returns [OF this assms(2), of T sizeof_net_ota False] obtain r s' rest where
    "msgsenddata T sizeof_net_ota False (read_start b n s, es) = Some (r, s', rest)" "sem_valid s'"
    using sv by (auto simp: keeps_def)
  then show ?thesis using assms(1) sv by (auto simp: net_f_read_def Let_def simp del: sizeof_net_ota_def)
qed

lemma send_len_returns:
  assumes "sem_valid s" "1 \<le> timers es"
  shows "\<exists>r s' rest. net_f_send_update_len T n (s, es) = Some (r, s', rest) \<and> sem_valid s'"
proof -
  let ?s = "s\<lparr>loc := (loc s)\<lparr>seek_addr := 0, read_size := 0, all_size := n, status := 0, resv := 0\<rparr>,
    ota_all_size := n, ota_read_size := 0\<rparr>"
  have sv: "sem_valid ?s" using assms(1) by simp
  from msgsenddata_returns [OF this assms(2), of T sizeof_net_ota False] obtain r s' rest where
    "msgsenddata T sizeof_net_ota False (?s, es) = Some (r, s', rest)" "keeps ?s s'" by blast
  moreover from this(2) have "sem_valid s'" using sv by (simp add: keeps_def)
  ultimately show ?thesis using assms(1)
    by (auto simp: net_f_send_update_len_def Let_def simp del: sizeof_net_ota_def)
qed

lemma open_returns:
  assumes "2999 \<le> timers es"
  shows "\<exists>r s' rest. net_f_open T ok port (s, es) = Some (r, s', rest) \<and>
    sem_valid s' = (sem_valid s \<or> ok \<and> \<not> (net_ota_listen s \<and> port = NET_UPDATE_PORT))"
proof -
  have "\<exists>r s' rest. open_wait T t es = Some (r, s', rest) \<and> sem_valid s' = sem_valid t" for t
  proof -
    from poll_returns [of 3000 es T "\<lambda>s. client_accept s = 0" "t\<lparr>net_ota_listen := True\<rparr>"] assms
    obtain c s1 es1 where p: "poll_until T (\<lambda>s. client_accept s = 0) 3000 (t\<lparr>net_ota_listen := True\<rparr>) es = Some (c, s1, es1)"
      "keeps (t\<lparr>net_ota_listen := True\<rparr>) s1" by auto
    from p(2) have "sem_valid s1 = sem_valid t" by (simp add: keeps_def)
    with p(1) show ?thesis by (simp add: open_wait_def)
  qed
  note w = this
  let ?s = "s\<lparr>loc := fresh_local, net_ota_stop := False,
    ram := \<lambda>a. if a < BUF_MAX_SIZE - sizeof_net_local then 0 else ram s a\<rparr>"
  let ?v = "if sem_valid ?s then ?s else ?s\<lparr>read_sem := 0, sem_valid := True\<rparr>"
  have "sem_valid ?v" by simp
  then show ?thesis using w [of ?s] w [of ?v] by (auto simp: net_f_open_def Let_def cong: if_cong)
qed

lemma success_returns:
  assumes "sem_valid s" "2 \<le> timers es"
  shows "\<exists>s' rest. send_success T (s, es) = Some (s', rest) \<and> timers es \<le> timers rest + 2 \<and> sem_valid s'"
proof -
  let ?s = "s\<lparr>loc := (loc s)\<lparr>status := 0, download_percent :=
    (if ota_all_size s \<noteq> 0 then 100 else download_percent (loc s))\<rparr>\<rparr>"
  have "sem_valid ?s" "1 \<le> timers es" using assms by simp_all
  from msgsenddata_returns [OF this, of T sizeof_net_ota False] obtain r s1 es1 where
    m: "msgsenddata T sizeof_net_ota False (?s, es) = Some (r, s1, es1)" "timers es \<le> timers es1 + 1" "keeps ?s s1"
    by blast
  then have "1 \<le> timers es1" using assms(2) by simp
  from dly_returns [OF this, of T s1] obtain s2 es2 where
    d: "os_time_dly T s1 es1 = Some (s2, es2)" "timers es1 \<le> timers es2 + 1" "keeps s1 s2" by blast
  have "send_success T (s, es) = Some (s2, es2)" using m(1) d(1)
    by (cases "ota_all_size s = 0") (simp_all add: send_success_def Let_def)
  moreover have "sem_valid s2" using m(3) d(3) assms(1) by (simp add: keeps_def)
  moreover have "timers es \<le> timers es2 + 2" using m(2) d(2) by arith
  ultimately show ?thesis by blast
qed

lemma status_returns:
  assumes "sem_valid s" "200 \<le> timers es"
  shows "\<exists>s' rest. send_status T p (s, es) = Some (s', rest) \<and> timers es \<le> timers rest + 200"
proof -
  let ?s = "s\<lparr>net_ota_lastpacket := True, loc := (loc s)\<lparr>status := (if p \<noteq> 0 then 2 else 1)\<rparr>\<rparr>"
  have "sem_valid ?s" "1 \<le> timers es" using assms by simp_all
  from msgsenddata_returns [OF this, of T sizeof_net_ota True] obtain r s1 es1 where
    m: "msgsenddata T sizeof_net_ota True (?s, es) = Some (r, s1, es1)" "timers es \<le> timers es1 + 1" by blast
  then have "200 - 1 \<le> timers es1" using assms(2) by simp
  from poll_returns [OF this, of T net_ota_lastpacket s1] obtain q s2 es2 where
    d: "poll_until T net_ota_lastpacket 200 s1 es1 = Some (q, s2, es2)" "timers es1 \<le> timers es2 + (200 - 1)" by blast
  have "\<exists>s'. send_status T p (s, es) = Some (s', es2)" using m(1) d(1) by (simp add: send_status_def Let_def)
  then show ?thesis using m(2) d(2) by auto
qed

lemma stop_returns:
  assumes "sem_valid s" "203 \<le> timers es"
  shows "\<exists>r s' rest. net_f_stop T p (s, es) = Some (r, s', rest) \<and> \<not> sem_valid s'"
proof -
  let ?s = "s\<lparr>loc := fresh_local\<rparr>" let ?t = "?s\<lparr>loc := (loc ?s)\<lparr>read_size := 0\<rparr>\<rparr>"
  have sv: "sem_valid ?t" using assms(1) by simp
  obtain s1 es1 where 1: "(if p = 0 then send_success T (?t, es) else Some (?t, es)) = Some (s1, es1)"
    "timers es \<le> timers es1 + 2" "sem_valid s1"
    using success_returns [OF sv, of es T] assms(2) sv by (cases "p = 0") auto
  obtain s2 es2 where 2: "send_status T p (s1, es1) = Some (s2, es2)" "timers es1 \<le> timers es2 + 200"
    using status_returns [OF 1(3), of es1 T p] 1(2) assms(2) by auto
  have sc: "stop_client T p (?s, es) = Some (s2, es2)" using 1(1) 2(1)
    by (cases "p = 0") (simp_all add: stop_client_def Let_def)
  have d: "\<exists>s' rest. os_time_dly T u (if b then es2 else es) = Some (s', rest)" for u b
    using dly_returns [of "if b then es2 else es" T u] 1(2) 2(2) assms(2) by auto
  show ?thesis
  proof (cases "client_pcb s = None")
    case True
    then show ?thesis using d [of ?s False] by (auto simp: net_f_stop_def Let_def split: option.splits)
  next
    case False
    then show ?thesis using sc d [of s2 True] by (auto simp: net_f_stop_def Let_def split: option.splits)
  qed
qed

text \<open>C26: The waits of an attempt end, whatever the network does.  Opening waits for a phone and returns by
  the 2999th delay of the five-minute loop, from any state; the first opening creates the semaphore
  (an opening while the server listens does not).  While the semaphore is there a read and the
  announcement of the length return by its first timeout and leave it there, and closing returns by
  the 203rd timer (one answer, two delays and two hundred polls for the last packet) and deletes it.
  So each wait from the first opening to the first closing ends; a second attempt finds the server
  listening and runs without a semaphore (\<open>reopen_without_semaphore\<close>): of its waits nothing is
  claimed.\<close>

theorem server_waits_end:
  "(2999 \<le> timers es \<longrightarrow> (\<exists>r s' rest. net_f_open T ok port (s, es) = Some (r, s', rest) \<and>
      sem_valid s' = (sem_valid s \<or> ok \<and> \<not> (net_ota_listen s \<and> port = NET_UPDATE_PORT)))) \<and>
    (sem_valid s \<longrightarrow>
      (1 \<le> timers es \<longrightarrow> (\<exists>r s' rest. net_f_read T b n (s, es) = Some (r, s', rest) \<and> sem_valid s')) \<and>
      (1 \<le> timers es \<longrightarrow> (\<exists>r s' rest. net_f_send_update_len T n (s, es) = Some (r, s', rest) \<and> sem_valid s')) \<and>
      (203 \<le> timers es \<longrightarrow> (\<exists>r s' rest. net_f_stop T p (s, es) = Some (r, s', rest) \<and> \<not> sem_valid s')))"
  by (intro conjI impI open_returns read_returns send_len_returns stop_returns)

section \<open>Where the protocol fails\<close>

text \<open>The count comes from the wire: a header with any \<open>all_size\<close> moves the next write there.\<close>

lemma wire_moves_write:
  assumes "get32 (ram s) F_ALL = 0" "length c = 20" "get32 (\<lambda>i. c ! i) F_ALL = x" "x + 20 < 4294967296"
    and "get32 (\<lambda>i. c ! i) F_READ = rd" "x < rd" "rd + 20 < 4294967296"
  shows "get32 (ram (recv_ota c s)) F_ALL = x + 20"
  using assms by (simp add: recv_ota_def Let_def get32_put32_other get32_mcpy_in)

text \<open>After a timeout the window that never came counts as held: the next read is served from it.\<close>

lemma timeout_poisons_window:
  assumes "seek_addr l + 40916 < 4294967296" "read_size l \<le> 40916"
  shows "window_hit l (ram (seal (s\<lparr>ram := window_request l m\<rparr>)))"
  using window_holds [OF assms, of m] window_fields [of l m] assms
  by (simp add: window_hit_def seal_fields)

text \<open>After a connection error requests still go to the connection the stack has freed.\<close>

lemma error_leaves_client:
  "p \<in> conns s \<Longrightarrow> client_pcb s = Some p \<Longrightarrow>
    client_pcb (net_event T (Err p) s) = Some p \<and> p \<notin> conns (net_event T (Err p) s)"
  by (simp add: msgerr_def msgerr_ota_def msgerr_ctp_def msgerr_http_def Let_def)

text \<open>A second attempt after a stop runs without the semaphore.\<close>

lemma reopen_without_semaphore:
  assumes "net_ota_listen s" "client_accept s = 1" "http_accept s = 1" "\<not> sem_valid s"
  shows "\<exists>s'. net_f_open T ok NET_UPDATE_PORT (s, es) = Some (1, s', es) \<and> \<not> sem_valid s'"
  using assms by (simp add: net_f_open_def Let_def open_wait_def poll_until.simps)

section \<open>Concrete runs\<close>

definition ex_tcp :: tcp where
  "ex_tcp = \<lparr>tcp_sndbuf = (\<lambda>_. 2920), tcp_write_ok = (\<lambda>_ _. True)\<rparr>"

lemma sumget_list:
  "a + n \<le> length p \<Longrightarrow> sumget (\<lambda>i. p ! i) a n = u32 (sum_list (take n (drop a p)))"
proof (induction n)
  case (Suc n)
  then have "take (Suc n) (drop a p) = take n (drop a p) @ [p ! (a + n)]"
    by (simp add: take_Suc_conv_app_nth)
  with Suc show ?case by (simp add: u32_add_def u32_def mod_add_left_eq)
qed simp

text \<open>A phone is connected; the window holds four bytes of the file, from position 100 on.\<close>

definition ex_net :: net where
  "ex_net = \<lparr>client_pcb = Some (1, 3335), client_accept = 1, http_accept = 1, ctp_accept = 1,
    net_ota_listen = True, net_ota_stop = False, net_ota_lastpacket = False, net_ota_start = True,
    ota_all_size = 0, ota_read_size = 0, net_local_addr = True,
    loc = \<lparr>seek_addr = 101, read_size = 0, all_size = 0, status = 0, download_percent = 1, resv = 0, buf = 0\<rparr>,
    ram = mcpy_in (put32 (put32 (\<lambda>_. 0) 4 100) 8 4) 20 [7, 8, 9, 10], dest = (\<lambda>_. 0), read_sem = 0,
    sem_valid = True, conns = {(1, 3335)}, wire = []\<rparr>"

definition ex_packet :: "byte list" where
  "ex_packet = packet 13 0 [0, 0, 0, 0] [5, 6]"

lemma ex_ota_packet: "ota_packet ex_packet"
proof -
  have "sumget (\<lambda>i. ex_packet ! i) 4 18 = u32 (sum_list (take 18 (drop 4 ex_packet)))"
    by (rule sumget_list) (simp add: ex_packet_def)
  also have "\<dots> = 13" by (simp add: ex_packet_def packet_def le32_def)
  finally have "good_sum ex_packet"
    by (simp add: good_sum_def) (simp add: ex_packet_def packet_def le32_def get32_def)
  moreover have "\<exists>data. ex_packet = packet 13 0 [0, 0, 0, 0] data \<and> length data \<le> 40916"
    unfolding ex_packet_def by (rule exI [of _ "[5, 6]"]) simp
  ultimately show ?thesis unfolding ota_packet_def by fastforce
qed

theorem reassembly_witness:
  "fold (\<lambda>c. net_event ex_tcp (Seg (1, 3335) c)) [take 13 ex_packet, drop 13 ex_packet] ex_net =
      msgrecvmemcpy (ex_net\<lparr>ram := mcpy_in (ram ex_net) 0 ex_packet\<rparr>) \<and>
    (\<exists>m. fold (\<lambda>c. net_event ex_tcp (Seg (1, 3335) c)) [take 6 ex_packet, drop 6 ex_packet]
        (ex_net\<lparr>ram := put32 (ram ex_net) 8 2\<rparr>) = ex_net\<lparr>ram := m\<rparr> \<and> get32 m 12 = 16)"
proof -
  have z: "get32 (ram ex_net) 12 = 0" "get32 (ram (ex_net\<lparr>ram := put32 (ram ex_net) 8 2\<rparr>)) 12 = 0"
    by (simp_all add: ex_net_def get32_def put32_def mcpy_in_def le32_def)
  have p: "ex_packet = [13, 0, 0, 0, 0, 0, 0, 0, 2, 0, 0, 0, 0, 0, 0, 0, 0, 0, 0, 0, 5, 6]"
    by (simp add: ex_packet_def packet_def le32_def)
  have r: "bytes (put32 (ram ex_net) 8 2) 8 4 = bytes (\<lambda>i. ex_packet ! i) 8 4"
    by (simp add: p bytes_def put32_def mcpy_in_def le32_def upt_rec)
  have c: "(1, 3335) \<in> conns ex_net" by (simp add: ex_net_def)
  have len: "length ex_packet = 22" and nonempty: "ex_packet \<noteq> []" by (simp_all add: p)
  show ?thesis
    using reassembly [OF z(1) ex_ota_packet, of "[take 13 ex_packet, drop 13 ex_packet]" "(1, 3335)" ex_tcp]
      reassembly [OF z(2) ex_ota_packet, of "[take 6 ex_packet, drop 6 ex_packet]" "(1, 3335)" ex_tcp] r c
    by (simp add: len nonempty del: fold_simps net_event.simps)
qed

lemma request_covers_witness:
  "let m = ram (seal (ex_net\<lparr>ram := window_request (loc ex_net) (ram ex_net)\<rparr>)) in
    get32 m F_SEEK \<le> 101 \<and> 101 \<le> get32 m F_SEEK + get32 m F_READ \<and>
    get32 m F_READ = RECV_BUF_MAX_SIZE \<and> get32 m F_ALL = 0 \<and> sumcheck m 4 16 (get32 m F_SUM) = 0"
  using request_covers [of ex_net] by (simp add: ex_net_def Let_def)

text \<open>A file of sevens: the window is empty, the phone is asked for one from position 101 on and sends it
  in three pieces; between them another client asks for the description.\<close>

definition ex_window :: "byte list" where
  "ex_window = packet 286884 101 [0, 0, 0, 0] (replicate 40916 7)"

definition ex_empty :: net where "ex_empty = ex_net\<lparr>ram := \<lambda>_. 0\<rparr>"

definition ex_evs :: "tcp_ev list" where
  "ex_evs = [Sent (1, 3335), Accept (2, 8080), Seg (1, 3335) (take 13 ex_window), Seg (2, 8080) [71, 69, 84],
    Seg (1, 3335) (take 20000 (drop 13 ex_window)), Fin (2, 8080), Seg (1, 3335) (drop 20013 ex_window)]"

lemma ex_window_length: "length ex_window = 40936"
  by (simp add: ex_window_def)

lemma ex_window_sum: "good_sum ex_window"
proof -
  have d: "drop 4 ex_window = le32 101 @ le32 40916 @ le32 0 @ [0, 0, 0, 0] @ replicate 40916 7"
    by (simp add: ex_window_def packet_def)
  have "sumget (\<lambda>i. ex_window ! i) 4 40932 = u32 (sum_list (take 40932 (drop 4 ex_window)))"
    by (rule sumget_list) (simp add: ex_window_length)
  also have "take 40932 (drop 4 ex_window) = drop 4 ex_window" by (simp add: ex_window_length)
  also have "u32 (sum_list (drop 4 ex_window)) = 286884"
    unfolding d by (simp add: sum_list_replicate le32_def)
  finally show ?thesis
    using packet_fields(1) [of "replicate 40916 7" 286884 101 "[0, 0, 0, 0]"]
    by (simp add: good_sum_def ex_window_length) (simp add: ex_window_def)
qed

lemma ex_phone: "phone (\<lambda>_. 7) (1, 3335) 2 ex_empty ex_evs"
proof -
  let ?l = "(loc ex_empty)\<lparr>read_size := 2\<rparr>"
  have l: "seek_addr ?l = 101" "read_size ?l = 2" by (simp_all add: ex_empty_def ex_net_def)
  have w: "get32 (window_request ?l (ram ex_empty)) 4 = 101" "get32 (window_request ?l (ram ex_empty)) 8 = 40916"
    using window_fields [of ?l "ram ex_empty"] l by simp_all
  have m: "map (\<lambda>_. 7) [101 ..< 101 + 40916] = replicate 40916 (7 :: byte)"
    by (simp only: map_replicate_const length_upt) simp
  have a: "answers (\<lambda>_. 7) (window_request ?l (ram ex_empty)) ex_window"
    unfolding answers_def w m
    by (intro exI [of _ 286884] exI [of _ "[0, 0, 0, 0]"] conjI ex_window_sum ex_window_def) simp_all
  have n: "ex_window \<noteq> []" using ex_window_length by fastforce
  have "pieces ex_window [take 13 ex_window, take 20000 (drop 13 ex_window), drop 20013 ex_window]"
    using append_take_drop_id [of 20000 "drop 13 ex_window"] n by (simp add: pieces_def ex_window_length)
  moreover have "amid (1, 3335) [take 13 ex_window, take 20000 (drop 13 ex_window), drop 20013 ex_window] ex_evs"
    by (simp add: amid_def ex_evs_def bystander_def)
  moreover have "\<not> window_hit ?l (ram ex_empty)"
    by (simp add: window_hit_def ex_empty_def get32_def)
  ultimately show ?thesis using a unfolding phone_def by (auto simp: Let_def)
qed

theorem net_read_delivers_witness:
  "\<exists>s'. net_f_read ex_tcp 64 2 (ex_empty, ex_evs @ []) = Some (int 2, s', []) \<and>
    serving ex_tcp (1, 3335) (\<lambda>_. 7) s' \<and> dest s' = mcpy_in (\<lambda>_. 0) 64 [7, 7]"
proof -
  have s: "serving ex_tcp (1, 3335) (\<lambda>_. 7) ex_empty"
    by (simp add: serving_def cache_ok_def ex_empty_def get32_def) (simp add: ex_net_def ex_tcp_def)
  have "seek_addr (loc ex_empty) = 101" "dest ex_empty = (\<lambda>_. 0)" by (simp_all add: ex_empty_def ex_net_def)
  with net_read_delivers [OF s _ _ _ ex_phone, of 64 "[]"] show ?thesis by (auto simp: upt_rec)
qed

lemma ex_read_refused: "net_f_read ex_tcp 0 50000 (ex_net, []) = Some (-1, ex_net, [])"
  by (simp add: net_f_read_def)

lemma progress_monotone_witness:
  "download_percent (loc ex_net) \<le> download_percent (loc ex_net) \<and> download_percent (loc ex_net) \<le> 99"
  by (rule progress_monotone [OF _ ex_read_refused]) (simp add: ex_net_def)

theorem one_phone_witness:
  "client_accept (net_event ex_tcp (Accept (2, 3335)) (ex_net\<lparr>client_accept := 0, conns := {}\<rparr>)) = 1 \<and>
   {p \<in> conns (net_event ex_tcp (Accept (2, 3335)) (ex_net\<lparr>client_accept := 0, conns := {}\<rparr>)).
     local_port p = NET_UPDATE_PORT} = {(2, 3335)}"
  using one_phone [OF net_reach.event [OF net_reach.boot, of "ex_net\<lparr>client_accept := 0, conns := {}\<rparr>"
      ex_tcp "Accept (2, 3335)"]]
  by (auto simp: msgaccept_def ex_net_def)

text \<open>A first attempt that no phone answers, and the end of one.\<close>

theorem server_waits_end_witness:
  "(\<exists>r s' rest. net_f_open ex_tcp True NET_UPDATE_PORT (ex_net\<lparr>net_ota_listen := False, sem_valid := False\<rparr>,
      replicate 2999 Timer) = Some (r, s', rest) \<and> sem_valid s') \<and>
    (\<exists>r s' rest. net_f_read ex_tcp 64 200 (ex_net, replicate 203 Timer) = Some (r, s', rest) \<and> sem_valid s') \<and>
    (\<exists>r s' rest. net_f_stop ex_tcp 0 (ex_net, replicate 203 Timer) = Some (r, s', rest) \<and> \<not> sem_valid s')"
proof -
  have "timers (replicate k Timer) = k" for k by (simp add: timers_def)
  then show ?thesis
    using server_waits_end [of "replicate 203 Timer" ex_tcp True NET_UPDATE_PORT ex_net 64 200 0]
      server_waits_end [of "replicate 2999 Timer" ex_tcp True NET_UPDATE_PORT
        "ex_net\<lparr>net_ota_listen := False, sem_valid := False\<rparr>" 64 200 0]
    by (simp add: ex_net_def)
qed

end
