(* ===== verification/NetSource.thy ===== *)
theory NetSource
  imports NetOta_Spec Block_Source
begin

text \<open>
  The download server as a source of blocks for the update library: the library seeks and reads, the
  server answers from its window or asks the phone for a new one.  The contract of \<open>Block_Source\<close> is
  interpreted on these two calls, so the library gets the image as the phone holds it, in whatever
  order it reads.
\<close>

section \<open>Seek and read\<close>

definition phone_fetch :: "tcp \<Rightarrow> (net, tcp_ev) fetcher" where
  "phone_fetch T b a n w =
     (case net_f_seek 1 a (fst w) of (s, r) \<Rightarrow>
        if r \<noteq> 0 then None
        else case net_f_read T b n (s, snd w) of
            None \<Rightarrow> None
          | Some (k, w') \<Rightarrow> if k = int n then Some w' else None)"

definition phone_up :: "tcp \<Rightarrow> pcb \<Rightarrow> (nat \<Rightarrow> byte) \<Rightarrow> net \<Rightarrow> bool" where
  "phone_up T pcb img s \<longleftrightarrow> serving T pcb img s \<and> \<not> stopped s"

definition window_fits :: "block_req \<Rightarrow> bool" where
  "window_fits r = (case r of (b, a, n) \<Rightarrow> 0 < n \<and> n \<le> RECV_BUF_MAX_SIZE \<and> a + RECV_BUF_MAX_SIZE < 4294967296)"

definition at :: "nat \<Rightarrow> net \<Rightarrow> net" where
  "at a s = s\<lparr>loc := (loc s)\<lparr>seek_addr := a\<rparr>\<rparr>"

definition phone_answers :: "(nat \<Rightarrow> byte) \<Rightarrow> pcb \<Rightarrow> nat \<Rightarrow> nat \<Rightarrow> net \<Rightarrow> tcp_ev list \<Rightarrow> bool" where
  "phone_answers img pcb a n s evs = phone img pcb n (at a s) evs"

lemma phone_fetch_block:
  assumes "phone_up T pcb img s" "window_fits (b, a, n)" "phone_answers img pcb a n s evs"
  shows "\<exists>s'. phone_fetch T b a n (s, evs @ es) = Some (s', es) \<and> phone_up T pcb img s' \<and>
    dest s' = mcpy_in (dest s) b (file_bytes img a n)"
proof -
  have "serving T pcb img (at a s)" using assms(1) by (simp add: phone_up_def serving_def at_def)
  from net_read_serves [OF this, of n evs b es] assms(2,3) obtain s' where
    "net_f_read T b n (at a s, evs @ es) = Some (int n, s', es)" "serving T pcb img s'" "\<not> stopped s'"
    "dest s' = mcpy_in (dest s) b (map img [a ..< a + n])"
    by (auto simp: window_fits_def phone_answers_def at_def)
  with assms(1) show ?thesis
    by (intro exI [of _ s']) (simp add: phone_fetch_def phone_up_def net_f_seek_def file_bytes_def at_def)
qed

interpretation phone: block_source "phone_fetch T" dest "phone_up T pcb img" window_fits "phone_answers img pcb" img
  for T pcb img
  by unfold_locales (rule phone_fetch_block)

text \<open>C4: The update library gets the image from a phone: while the phone answers each request for a window with
  the bytes of its file (the first piece of an answer has at least 13 bytes, the rest is cut by TCP in any way, and
  other connections may be busy in between), any sequence of seeks and reads, in any order, with gaps, overlaps and
  repetitions, stores exactly the blocks asked for in the library's buffers; a part of the file that
  is read block by block, upwards or downwards, lies there as a whole; no event is left over and the connection
  serves on.\<close>

theorem phone_image_delivered:
  assumes "phone_up T pcb img s" "answered (phone_fetch T) (phone_answers img pcb) rs s es rest"
    and "\<forall>(b, a, n) \<in> set rs. 0 < n \<and> n \<le> RECV_BUF_MAX_SIZE \<and> a + RECV_BUF_MAX_SIZE < 4294967296"
  shows "\<exists>s'. fetch_all (phone_fetch T) rs (s, es) = Some (s', rest) \<and> phone_up T pcb img s' \<and>
    dest s' = stored img rs (dest s) \<and>
    (rs = blockwise b a n k \<or> rs = rev (blockwise b a n k) \<longrightarrow>
       dest s' = mcpy_in (dest s) b (file_bytes img a (k * n)))"
proof -
  have "\<forall>r \<in> set rs. window_fits r" using assms(3) by (auto simp: window_fits_def)
  from phone.fetch_all_stores [OF assms(2,1) this] show ?thesis
    by (metis stored_blockwise stored_blockwise_down)
qed

section \<open>Concrete runs\<close>

text \<open>Two blocks of the window the phone has sent.\<close>

definition ex_file8 :: "nat \<Rightarrow> byte" where "ex_file8 a = a - 93"

lemma ex_phone_up: "phone_up ex_tcp (1, 3335) ex_file8 ex_net"
proof -
  have four: "j = 0 \<or> j = 1 \<or> j = 2 \<or> j = 3" if "j < 4" for j :: nat using that by arith
  have "ram ex_net (20 + j) = 100 + j - 93" if "j < 4" for j
    using four [OF that] by (elim disjE) (simp_all add: ex_net_def mcpy_in_def)
  moreover have f: "get32 (ram ex_net) 4 = 100" "get32 (ram ex_net) 8 = 4"
    by (simp_all add: ex_net_def get32_def mcpy_in_def put32_def le32_def)
  ultimately have "serving ex_tcp (1, 3335) ex_file8 ex_net"
    by (simp add: serving_def cache_ok_def ex_file8_def) (simp add: ex_net_def ex_tcp_def)
  thus ?thesis by (simp add: phone_up_def stopped_def ex_net_def)
qed

text \<open>A block that the window holds leaves the window as it is.\<close>

lemma held_keeps_window:
  assumes "phone_up T pcb img s" "window_fits (b, a, n)"
    and "window_hit ((loc s)\<lparr>seek_addr := a, read_size := n\<rparr>) (ram s)" "phone_fetch T b a n (s, es) = Some (s', es')"
  shows "ram s' = ram s"
proof -
  define q where "q = read_start b n (at a s)"
  have "window_hit (loc q) (ram q)"
    using assms(3) by (simp add: window_hit_def q_def read_start_def at_def)
  moreover have c: "client_pcb q = Some pcb" and st: "\<not> stopped q" and n: "\<not> RECV_BUF_MAX_SIZE < n" "n \<noteq> 0"
    and ram: "ram q = ram s"
    using assms(1,2) by (simp_all add: phone_up_def serving_def q_def read_start_def at_def stopped_def window_fits_def)
  ultimately have hit: "msgsenddata T sizeof_net_ota False (q, es) = Some (n, copy_window q, es)"
    using msgsenddata_hit [of q pcb T es] read_start_frame(2-4) [of b n "at a s"] by (simp add: q_def)
  have seek: "net_f_seek (Suc 0) a s = (at a s, 0)" using assms(1) by (simp add: phone_up_def net_f_seek_def at_def)
  show ?thesis
    using assms(4) n hit st ram by (auto simp: phone_fetch_def seek net_f_read_def q_def [symmetric] Let_def split: if_splits)
qed

lemma ex_fits: "\<forall>(b, a, n) \<in> set [(64, 100, 2), (66, 102, 2 :: nat)]. 0 < n \<and> n \<le> RECV_BUF_MAX_SIZE \<and> a + RECV_BUF_MAX_SIZE < (4294967296 :: nat)"
  by simp

lemma ex_window: "100 \<le> a \<Longrightarrow> a + n \<le> 104 \<Longrightarrow> window_hit (l\<lparr>seek_addr := a, read_size := n\<rparr>) (ram ex_net)"
  by (simp add: window_hit_def ex_net_def get32_def mcpy_in_def put32_def le32_def u32_add_def u32_def)

lemma ex_held: "100 \<le> a \<Longrightarrow> a + n \<le> 104 \<Longrightarrow> ram s = ram ex_net \<Longrightarrow> phone_answers ex_file8 (1, 3335) a n s []"
  using ex_window [of a n "loc s"] by (simp add: phone_answers_def phone_def at_def)

lemma ex_phone_answered:
  "answered (phone_fetch ex_tcp) (phone_answers ex_file8 (1, 3335)) [(64, 100, 2), (66, 102, 2)] ex_net ([] @ [] @ []) []"
proof (intro answered_Cons answered_Nil ex_held)
  fix w' assume f: "phone_fetch ex_tcp 64 100 2 (ex_net, [] @ [] @ []) = Some (w', [] @ [])"
  show "ram w' = ram ex_net"
    by (rule held_keeps_window [OF ex_phone_up _ _ f]) (simp_all add: window_fits_def ex_window)
qed simp_all

theorem phone_image_delivered_witness:
  "\<exists>s'. fetch_all (phone_fetch ex_tcp) [(64, 100, 2), (66, 102, 2)] (ex_net, [] @ [] @ []) = Some (s', []) \<and>
    phone_up ex_tcp (1, 3335) ex_file8 s' \<and> dest s' = stored ex_file8 [(64, 100, 2), (66, 102, 2)] (dest ex_net) \<and>
    dest s' = mcpy_in (dest ex_net) 64 [7, 8, 9, 10]"
proof -
  have b: "[(64, 100, 2), (66, 102, 2)] = blockwise 64 100 2 2" by (simp add: eval_nat_numeral)
  have f: "file_bytes ex_file8 100 (2 * 2) = [7, 8, 9, 10]" by (simp add: ex_file8_def file_bytes_def upt_rec)
  show ?thesis
    using phone_image_delivered [OF ex_phone_up ex_phone_answered ex_fits, of 64 100 2 2] b by (auto simp only: f)
qed
end
