(* ===== verification/HttpOta.thy ===== *)
theory HttpOta
  imports NetOta
begin

text \<open>
  The download client of the station build (\<open>demo_wifi/net_update.c\<close>, \<open>HTTP_UPDATE_ENABLE\<close>): the upgrade
  file is fetched in ranges over HTTP, one connection per range, and the update library reads from
  the range that is held.

  The record \<open>http\<close> is \<open>struct http_range_ota\<close> with the static variables.  Its buffer is first the
  place of the request (host, path and request text) and then of the answer; \<open>hbuf\<close> is the memory it
  lies in, at the address \<open>http_buf\<close>.  Text is searched up to its terminator or the end of the buffer.
  Name service and TCP stack are the record \<open>httplib\<close>, the network thread is a list of events as in
  \<open>NetOta\<close>.
\<close>

section \<open>State\<close>

definition http_buf :: addr where [simp]: "http_buf = 4096"
definition HTTP_RECV_BUF :: nat where [simp]: "HTTP_RECV_BUF = 4096 * 10"
definition sizeof_http_range_ota :: nat where [simp]: "sizeof_http_range_ota = 52"
abbreviation (input) HTTP_UPDATE_PORT :: nat where "HTTP_UPDATE_PORT \<equiv> 80"

definition CRLF :: "byte list" where [simp]: "CRLF = [13, 10]"

definition HTTP_GET_HEAD :: "byte list" where
  "HTTP_GET_HEAD = cstr ''GET %s HTTP/1.1'' @ CRLF @ cstr ''Host: %s'' @ CRLF @ cstr ''User-Agent: User'' @ CRLF @
     cstr ''Accept: */*'' @ CRLF @ cstr ''Connection: Close'' @ CRLF @ cstr ''Range: bytes=%d-%d'' @ CRLF @ CRLF"

definition HTTP_UPDATE_URL :: "byte list" where
  "HTTP_UPDATE_URL = cstr ''http://172.16.109.91:18888/update-ota.ufw''"

record http =
  http_ota :: bool                  \<comment> \<open>allocated\<close>
  ip_addr :: nat
  http_pcb :: "nat option"
  conneted :: bool
  lock :: bool
  file_size :: nat
  content_length :: nat
  range_start :: nat
  range_end :: nat
  recv_offset :: nat
  host :: "addr option"
  http_file :: "addr option"
  send_buf :: "addr option"
  buf_size :: nat
  hbuf :: memory
  http_url_path :: "byte list option"
  net_recv_err :: int
  http_stopped :: bool              \<comment> \<open>\<open>net_ota_stop\<close>\<close>
  http_all_size :: nat
  http_read_size :: nat
  http_loc_ok :: bool               \<comment> \<open>\<open>net_local_addr\<close> is set\<close>
  http_loc :: net_local
  http_dest :: memory
  http_sem :: nat
  http_conns :: "nat set"
  http_wire :: "(nat \<times> byte list) list"
  http_dials :: "(nat \<times> nat \<times> nat) list"    \<comment> \<open>connection, address and port of each \<open>tcp_connect\<close>\<close>

record httplib =
  new_pcb :: "nat set \<Rightarrow> nat option"
  connect_ok :: "nat \<Rightarrow> nat \<Rightarrow> nat \<Rightarrow> bool"
  gethostbyname :: "byte list \<Rightarrow> nat option"
  inet_addr :: "byte list \<Rightarrow> nat"
  write_ok :: "nat \<Rightarrow> byte list \<Rightarrow> bool"      \<comment> \<open>there is room and the write succeeds\<close>

section \<open>Text\<close>

text \<open>\<open>atoi\<close> of the C library.\<close>

definition digits_value :: "byte list \<Rightarrow> nat" where
  "digits_value t = foldl (\<lambda>v c. v * 10 + (c - asc CHR ''0'')) 0 (takeWhile is_digit t)"

definition atoi :: "byte list \<Rightarrow> int" where
  "atoi t =
    (let t = dropWhile (\<lambda>c. c = 32 \<or> (9 \<le> c \<and> c \<le> 13)) t
     in if pk t = asc CHR ''-'' then s32 (- int (digits_value (tl t)))
        else if pk t = asc CHR ''+'' then s32 (int (digits_value (tl t)))
        else s32 (int (digits_value t)))"

definition u32_of_int :: "int \<Rightarrow> nat" where "u32_of_int x = nat (x mod 4294967296)"

definition text_at :: "nat \<Rightarrow> memory \<Rightarrow> addr \<Rightarrow> byte list" where
  "text_at size' m a = cstring m a (http_buf + size' - a)"

text \<open>\<open>strstr\<close> as an address.\<close>

definition find_at :: "nat \<Rightarrow> memory \<Rightarrow> addr \<Rightarrow> byte list \<Rightarrow> addr option" where
  "find_at size' m a pat =
    (let t = text_at size' m a in map_option (\<lambda>r. a + (length t - length r)) (strstr t pat))"

definition find_either :: "nat \<Rightarrow> memory \<Rightarrow> addr \<Rightarrow> byte list \<Rightarrow> byte list \<Rightarrow> addr option" where
  "find_either size' m a p q = (case find_at size' m a p of None \<Rightarrow> find_at size' m a q | Some c \<Rightarrow> Some c)"

section \<open>The answer\<close>

definition at_crlf :: "memory \<Rightarrow> addr \<Rightarrow> bool" where
  "at_crlf m c \<longleftrightarrow> m c = 13 \<and> m (c + 1) = 10"

definition at_end :: "memory \<Rightarrow> addr \<Rightarrow> bool" where
  "at_end m c \<longleftrightarrow> m c = 13 \<and> m (c + 1) = 10 \<and> m (c + 2) = 13 \<and> m (c + 3) = 10"

text \<open>The line behind \<open>Content-Range:\<close>, for the size of the file: the position, whether the header ended
  there, the size.\<close>

function range_line :: "nat \<Rightarrow> memory \<Rightarrow> addr \<Rightarrow> addr \<Rightarrow> nat \<Rightarrow> addr \<times> bool \<times> nat" where
  "range_line size' m e c fs =
    (if \<not> c < e then (c, False, fs)
     else if at_end m c then (c + 4, True, fs)
     else if at_crlf m c then (c + 2, False, fs)
     else if m c = asc CHR ''/'' then range_line size' m e (c + 2) (u32_of_int (atoi (text_at size' m (c + 1))))
     else range_line size' m e (c + 1) fs)"
  by pat_completeness auto
termination by (relation "measure (\<lambda>(_, _, e, c, _). e - c)") auto

declare range_line.simps [simp del]

function head_end :: "memory \<Rightarrow> addr \<Rightarrow> addr \<Rightarrow> addr option" where
  "head_end m e c =
    (if \<not> c < e then None else if at_end m c then Some (c + 4) else head_end m e (c + 1))"
  by pat_completeness auto
termination by (relation "measure (\<lambda>(_, e, c). e - c)") auto

declare head_end.simps [simp del]

text \<open>The header of an answer that starts at \<open>f\<close>; the address of the body, when its end is found.\<close>

definition parse_range :: "nat \<Rightarrow> addr \<Rightarrow> http \<Rightarrow> http \<times> addr \<times> bool" where
  "parse_range tot_len f s =
    (let m = hbuf s; e = http_buf + tot_len; n = buf_size s
     in case find_either n m f (cstr ''Content-Range:'') (cstr ''content-range:'') of
          None \<Rightarrow> (s, f, False)
        | Some c \<Rightarrow>
            let f = c + 15; (c, found, fs) = range_line n m e f (file_size s)
            in if found then (s\<lparr>file_size := fs\<rparr>, c, True)
               else case find_at n m f [asc CHR ''/''] of
                  Some g \<Rightarrow> (s\<lparr>file_size := (if g < c \<and> fs = 0
                      then u32_of_int (atoi (text_at n m (g + 1))) else fs)\<rparr>, c, False)
                | None \<Rightarrow> (s\<lparr>file_size := fs\<rparr>, c, False))"

definition parse_head :: "nat \<Rightarrow> addr \<Rightarrow> http \<Rightarrow> http \<times> addr option" where
  "parse_head tot_len f s =
    (let s = s\<lparr>net_recv_err := 0\<rparr>;
         s = (case find_either (buf_size s) (hbuf s) f (cstr ''Content-Length:'') (cstr ''content-length:'') of
                Some c \<Rightarrow> s\<lparr>content_length := u32_of_int (atoi (text_at (buf_size s) (hbuf s) (c + 15)))\<rparr>
              | None \<Rightarrow> s);
         (s, c, found) = parse_range tot_len f s
     in (s, if found then Some c else head_end (hbuf s) (http_buf + tot_len) c))"

definition http_post :: "http \<Rightarrow> http" where
  "http_post s = s\<lparr>http_sem := http_sem s + 1\<rparr>"

definition recv_failed :: "http \<Rightarrow> http" where
  "recv_failed s =
    (let s = s\<lparr>net_recv_err := s8 (net_recv_err s + 1)\<rparr>;
         s = (if net_recv_err s \<ge> 3 then s\<lparr>net_recv_err := 0, http_stopped := True, recv_offset := 0\<rparr> else s)
     in http_post s)"

text \<open>The first piece of an answer.\<close>

definition recv_first :: "nat \<Rightarrow> http \<Rightarrow> http" where
  "recv_first tot_len s =
    (case find_at (buf_size s) (hbuf s) http_buf (cstr ''HTTP/1.1 206'') of
       None \<Rightarrow> recv_failed s
     | Some f \<Rightarrow>
         (case parse_head tot_len f s of
            (s, None) \<Rightarrow> recv_failed s
          | (s, Some c) \<Rightarrow>
              let n = u32_sub tot_len (c - http_buf);
                  m = mcpy (hbuf s) http_buf c n;
                  m = m(http_buf + n := 0)
              in s\<lparr>hbuf := m, recv_offset := u32_add (recv_offset s) n\<rparr>))"

definition recv_piece :: "byte list \<Rightarrow> http \<Rightarrow> http" where
  "recv_piece p s =
    (if recv_offset s + length p \<le> buf_size s
     then let s = s\<lparr>hbuf := mcpy_in (hbuf s) (http_buf + recv_offset s) p\<rparr>
       in if recv_offset s = 0 then recv_first (length p) s
          else s\<lparr>recv_offset := u32_add (recv_offset s) (length p)\<rparr>
     else s)"

definition range_done :: "http \<Rightarrow> bool" where
  "range_done s \<longleftrightarrow> recv_offset s \<noteq> 0 \<and> (recv_offset s \<ge> u32_sub (range_end s) (range_start s) \<or>
     (recv_offset s \<ge> file_size s \<and> file_size s \<noteq> 0))"

definition http_copy :: "http \<Rightarrow> http" where
  "http_copy s = s\<lparr>http_dest := mcpy_in (http_dest s) (buf (http_loc s))
     (bytes (hbuf s) (http_buf + u32_sub (seek_addr (http_loc s)) (range_start s)) (read_size (http_loc s)))\<rparr>"

definition http_msgrecv :: "byte list \<Rightarrow> http \<Rightarrow> http" where
  "http_msgrecv p s =
    (let s = recv_piece p s
     in if range_done s
        then http_post (if buf (http_loc s) \<noteq> 0 \<and> read_size (http_loc s) \<noteq> 0 then http_copy s else s)
        else s)"

section \<open>Connections and sleeping\<close>

definition http_msgclose :: "nat \<Rightarrow> http \<Rightarrow> http" where
  "http_msgclose pcb s =
    (let s = s\<lparr>lock := True\<rparr>; s = s\<lparr>http_conns := http_conns s - {pcb}\<rparr>;
         s = (if http_pcb s = Some pcb then s\<lparr>http_pcb := None, conneted := False\<rparr> else s)
     in s\<lparr>lock := False\<rparr>)"

definition tcp_dataconnected :: "http \<Rightarrow> http" where
  "tcp_dataconnected s = s\<lparr>conneted := True\<rparr>"

datatype http_ev = HSeg nat "byte list" | HFin nat | HConn nat | HErr nat | HTimer

text \<open>The error callback is empty; the stack has freed the connection.\<close>

fun http_event :: "http_ev \<Rightarrow> http \<Rightarrow> http" where
  "http_event (HSeg pcb p) s = (if pcb \<in> http_conns s then http_msgrecv p s else s)"
| "http_event (HFin pcb) s = (if pcb \<in> http_conns s then http_msgclose pcb s else s)"
| "http_event (HConn pcb) s = (if pcb \<in> http_conns s then tcp_dataconnected s else s)"
| "http_event (HErr pcb) s = s\<lparr>http_conns := http_conns s - {pcb}\<rparr>"
| "http_event HTimer s = s"

type_synonym hworld = "http \<times> http_ev list"

fun http_pend :: "http \<Rightarrow> http_ev list \<Rightarrow> (nat \<times> hworld) option" where
  "http_pend s es =
    (if http_sem s > 0 then Some (0, s\<lparr>http_sem := http_sem s - 1\<rparr>, es)
     else case es of [] \<Rightarrow> None
       | e # es' \<Rightarrow> if e = HTimer then Some (1, s, es') else http_pend (http_event e s) es')"

declare http_pend.simps [simp del]

fun http_dly :: "http \<Rightarrow> http_ev list \<Rightarrow> hworld option" where
  "http_dly s [] = None"
| "http_dly s (e # es) = (if e = HTimer then Some (s, es) else http_dly (http_event e s) es)"

fun http_poll :: "(http \<Rightarrow> bool) \<Rightarrow> nat \<Rightarrow> http \<Rightarrow> http_ev list \<Rightarrow> (nat \<times> hworld) option" where
  "http_poll waiting cnt s es =
    (if \<not> waiting s then Some (cnt, s, es)
     else if cnt \<le> 1 then Some (0, s, es)
     else do { (s, es) \<leftarrow> http_dly s es; http_poll waiting (cnt - 1) s es })"

declare http_poll.simps [simp del]

text \<open>\<open>while (http_ota->tcp.lock) os_time_dly(1);\<close>\<close>

fun wait_lock :: "http \<Rightarrow> http_ev list \<Rightarrow> hworld option" where
  "wait_lock s [] = (if lock s then None else Some (s, []))"
| "wait_lock s (e # es) = (if lock s then wait_lock (http_event e s) es else Some (s, e # es))"

section \<open>The request\<close>

text \<open>The URL is cut into host, port and path; \<open>None\<close> in the result is \<open>goto exit\<close>.  A port without a path
  behind it makes \<open>strlen\<close> read through a null pointer: that is the outer \<open>None\<close>.\<close>

definition cut_url :: "nat \<Rightarrow> byte list \<Rightarrow> (byte list \<times> nat \<times> byte list) option option" where
  "cut_url size' p =
    (case strstr p (cstr '':'') of
       Some e \<Rightarrow>
         if length p - length e \<ge> size' then Some None
         else (case strstr p (cstr ''/'') of
                 None \<Rightarrow> None
               | Some e' \<Rightarrow> Some (Some (take (length p - length e) p, u32_of_int (atoi (tl e)), e')))
     | None \<Rightarrow>
         (case strstr p (cstr ''/'') of
            Some e \<Rightarrow>
              if length p - length e \<ge> size' then Some None
              else Some (Some (take (length p - length e) p, 0, e))
          | None \<Rightarrow> Some None))"

definition place_url :: "byte list \<Rightarrow> byte list \<Rightarrow> http \<Rightarrow> http" where
  "place_url h e s =
    (let n = length h;
         s = s\<lparr>host := Some http_buf, hbuf := mcpy_in (hbuf s) http_buf (h @ [0]),
               send_buf := Some (http_buf + n + 1), http_file := None, recv_offset := 0\<rparr>
     in if length e + n + 2 < buf_size s
        then s\<lparr>http_file := Some (http_buf + n + 1), hbuf := mcpy_in (hbuf s) (http_buf + n + 1) (e @ [0]),
               send_buf := Some (http_buf + n + 1 + length e + 1)\<rparr>
        else s)"

definition resolve :: "httplib \<Rightarrow> byte list \<Rightarrow> bool \<Rightarrow> http \<Rightarrow> http option" where
  "resolve L h reset s =
    (if ip_addr s = 0 \<or> reset
     then if atoi h = 0
       then (case gethostbyname L h of None \<Rightarrow> None | Some a \<Rightarrow> Some (s\<lparr>ip_addr := a, file_size := 0\<rparr>))
       else Some (s\<lparr>ip_addr := inet_addr L h, file_size := 0\<rparr>)
     else Some s)"

definition set_range :: "nat \<Rightarrow> http \<Rightarrow> http" where
  "set_range size' s =
    (let n = (if size' \<noteq> 0 then size' else buf_size s);
         n = (if file_size s \<noteq> 0 \<and> u32_add (range_start s) (buf_size s) > file_size s
              then u32_sub (file_size s) (range_start s) else n)
     in s\<lparr>range_end := u32_add (range_start s) n\<rparr>)"

text \<open>The request text, made with the program's \<open>sprintf\<close>; a constant \<open>"/"\<close> stands below the buffer.\<close>

definition request_text :: "http \<Rightarrow> byte list option" where
  "request_text s =
    (case vsprintf ((hbuf s)(256 := asc CHR ''/'', 257 := 0)) HTTP_GET_HEAD
       [VInt (case http_file s of Some a \<Rightarrow> a | None \<Rightarrow> 256), VInt (case host s of Some a \<Rightarrow> a | None \<Rightarrow> 0),
        VInt (range_start s), VInt (u32_sub (range_end s) 1)] of
       Inl _ \<Rightarrow> None | Inr (t, _) \<Rightarrow> Some t)"

definition send_request :: "httplib \<Rightarrow> nat \<Rightarrow> http \<Rightarrow> (bool \<times> http) option" where
  "send_request L pcb s =
    (case send_buf s of
       None \<Rightarrow> Some (True, s)
     | Some a \<Rightarrow>
         do { t \<leftarrow> request_text s;
              let s = s\<lparr>hbuf := mcpy_in (hbuf s) a (t @ [0])\<rparr>;
              if write_ok L pcb t then Some (True, s\<lparr>http_wire := http_wire s @ [(pcb, t)]\<rparr>) else Some (False, s) })"

text \<open>From the new connection on; the flag says whether the request was sent.\<close>

definition connect_send :: "httplib \<Rightarrow> nat \<Rightarrow> nat \<Rightarrow> hworld \<Rightarrow> (bool \<times> hworld) option" where
  "connect_send L port size' w =
    (let s = (fst w)\<lparr>lock := True\<rparr>
     in case new_pcb L (http_conns s) of
          None \<Rightarrow> Some (False, s, snd w)
        | Some pcb \<Rightarrow>
            do { let s = s\<lparr>http_conns := insert pcb (http_conns s), http_pcb := Some pcb,
                     http_dials := http_dials s @ (pcb, ip_addr s, port) #
                       (if connect_ok L pcb (ip_addr s) port then [] else [(pcb, ip_addr s, 8080)])\<rparr>;
                 (cnt, s, es) \<leftarrow> http_poll (\<lambda>s. \<not> conneted s) 1000 s (snd w);
                 if cnt = 0 \<or> http_stopped s
                 then Some (False, s\<lparr>http_conns := http_conns s - {pcb}, http_pcb := None, ip_addr := 0\<rparr>, es)
                 else do { (r, s) \<leftarrow> send_request L pcb (set_range size' s); Some (r, s, es) } })"

definition http_get :: "httplib \<Rightarrow> bool \<Rightarrow> nat \<Rightarrow> hworld \<Rightarrow> (bool \<times> hworld) option" where
  "http_get L reset size' w =
    (let s = fst w; fail = (\<lambda>s es. Some (False, s\<lparr>lock := False\<rparr>, es))
     in case http_url_path s of None \<Rightarrow> fail s (snd w)
     | Some url \<Rightarrow> if \<not> http_ota s then fail s (snd w)
       else case strstr url (cstr ''http://'') of None \<Rightarrow> fail s (snd w)
       | Some u \<Rightarrow>
           let p = drop 7 u
           in case cut_url (buf_size s) p of
                None \<Rightarrow> None
              | Some None \<Rightarrow>
                  fail (if strstr p (cstr '':'') = None \<and> strstr p (cstr ''/'') = None
                        then s\<lparr>host := None, http_file := None, send_buf := None, recv_offset := 0, file_size := 0\<rparr>
                        else s) (snd w)
              | Some (Some (h, port, e)) \<Rightarrow>
                  let s = place_url h e s
                  in case resolve L h reset s of
                       None \<Rightarrow> fail s (snd w)
                     | Some s \<Rightarrow>
                         do { w \<leftarrow> wait_lock s (snd w);
                              (r, s, es) \<leftarrow> connect_send L (if port \<noteq> 0 then port else HTTP_UPDATE_PORT) size' w;
                              Some (r, s\<lparr>lock := False\<rparr>, es) })"

section \<open>Reading\<close>

definition http_hit :: "http \<Rightarrow> bool" where
  "http_hit s \<longleftrightarrow> \<not> (recv_offset s = 0 \<or> seek_addr (http_loc s) < range_start s \<or>
     u32_add (seek_addr (http_loc s)) (read_size (http_loc s)) > u32_add (range_start s) (recv_offset s))"

definition http_window :: "http \<Rightarrow> http" where
  "http_window s =
    (let l = http_loc s; s = s\<lparr>recv_offset := 0, range_start := seek_addr l\<rparr>
     in if range_start s > u32_sub (buf_size s) (read_size l)
        then s\<lparr>range_start := u32_sub (range_start s) (u32_sub (buf_size s) (read_size l))\<rparr> else s)"

text \<open>The request is repeated while an answer could not be used, at most three times in all; the result is
  that of the function, 0 for a failure.\<close>

fun http_redo :: "httplib \<Rightarrow> bool \<Rightarrow> nat \<Rightarrow> hworld \<Rightarrow> (nat \<times> hworld) option" where
  "http_redo L reset cnt w =
    do { (r, s, es) \<leftarrow> http_get L reset 0 ((fst w)\<lparr>http_sem := 0\<rparr>, snd w);
         if \<not> r then Some (0, s, es)
         else do { (q, s, es) \<leftarrow> http_pend s es;
                   if q \<noteq> 0 then Some (0, s, es)
                   else if net_recv_err s \<noteq> 0 \<and> 1 < cnt \<and> \<not> http_stopped s
                   then http_redo L reset (cnt - 1) (s, es)
                   else Some (if read_size (http_loc s) \<noteq> 0 then read_size (http_loc s) else buf_size s, s, es) } }"

declare http_redo.simps [simp del]

definition http_read :: "httplib \<Rightarrow> bool \<Rightarrow> hworld \<Rightarrow> (nat \<times> hworld) option" where
  "http_read L reset w =
    (let s = fst w
     in if \<not> http_ota s \<or> \<not> http_loc_ok s then Some (0, w)
        else let s = (if range_start s = 0 \<and> recv_offset s = 0
                      then s\<lparr>range_start := seek_addr (http_loc s)\<rparr> else s)
          in if http_hit s then Some (read_size (http_loc s), http_copy s, snd w)
             else http_redo L reset 3 (http_window s, snd w))"

definition http_stop :: "http \<Rightarrow> http" where
  "http_stop s =
    (if http_ota s
     then s\<lparr>http_conns := (case http_pcb s of Some p \<Rightarrow> http_conns s - {p} | None \<Rightarrow> http_conns s),
            lock := False, http_pcb := None, ip_addr := 0, conneted := False,
            hbuf := mcpy_in (hbuf s) http_buf (replicate (buf_size s) 0),
            file_size := 0, content_length := 0, range_start := 0, range_end := 0, recv_offset := 0,
            host := None, http_file := None, send_buf := None, buf_size := 0\<rparr>
     else s)"

section \<open>The file interface of the update library\<close>

text \<open>\<open>url\<close> is the address in the configuration memory; \<open>alloc_ok\<close>: \<open>malloc\<close> has the memory.\<close>

definition http_f_open :: "httplib \<Rightarrow> bool \<Rightarrow> byte list option \<Rightarrow> hworld \<Rightarrow> (nat \<times> hworld) option" where
  "http_f_open L alloc_ok url w =
    (let s = fst w
     in if \<not> http_ota s \<and> \<not> alloc_ok then Some (0, w)
        else let s = s\<lparr>http_ota := True, ip_addr := 0, http_pcb := None, conneted := False, lock := False,
                 file_size := 0, content_length := 0, range_start := 0, range_end := 0, recv_offset := 0,
                 host := None, http_file := None, send_buf := None,
                 buf_size := HTTP_RECV_BUF - sizeof_http_range_ota,
                 hbuf := mcpy_in (hbuf s) http_buf (replicate (HTTP_RECV_BUF - sizeof_http_range_ota) 0),
                 http_url_path := Some (case url of Some u \<Rightarrow> u | None \<Rightarrow> HTTP_UPDATE_URL)\<rparr>
          in if \<not> http_loc_ok s \<and> \<not> alloc_ok then Some (0, s, snd w)
             else do {
               let s = s\<lparr>http_loc_ok := True, http_loc := fresh_local\<lparr>download_percent := 1\<rparr>, http_stopped := False\<rparr>;
               (r, w) \<leftarrow> http_read L True (s, snd w);
               Some (if r = 0 then 0 else 1, w) })"

definition http_f_seek :: "nat \<Rightarrow> nat \<Rightarrow> http \<Rightarrow> http \<times> int" where
  "http_f_seek ty off s =
    (if \<not> http_loc_ok s then (s, -1)
     else if ty = 1 then (s\<lparr>http_loc := (http_loc s)\<lparr>seek_addr := off\<rparr>\<rparr>, 0)
     else (s\<lparr>http_loc := (http_loc s)\<lparr>seek_addr := u32_add (seek_addr (http_loc s)) off\<rparr>\<rparr>, 0))"

definition http_f_send_update_len :: "nat \<Rightarrow> http \<Rightarrow> http \<times> int" where
  "http_f_send_update_len n s =
    (if \<not> http_loc_ok s \<or> http_stopped s \<or> n = 0 then (s, -1)
     else (s\<lparr>http_loc := (http_loc s)\<lparr>all_size := n\<rparr>, http_all_size := n, http_read_size := 0\<rparr>, 0))"

fun read_tries :: "httplib \<Rightarrow> nat \<Rightarrow> hworld \<Rightarrow> (nat \<times> hworld) option" where
  "read_tries L 0 w = Some (0, w)"
| "read_tries L (Suc cnt) w =
    do { (r, w) \<leftarrow> http_read L False w; if r = 0 then read_tries L cnt w else Some (r, w) }"

definition http_f_read :: "httplib \<Rightarrow> addr \<Rightarrow> nat \<Rightarrow> hworld \<Rightarrow> (int \<times> hworld) option" where
  "http_f_read L b n w =
    (let s = fst w
     in if \<not> http_loc_ok s \<or> http_stopped s then Some (0, w)
        else do {
          let s = s\<lparr>http_loc := (http_loc s)\<lparr>download_percent :=
                progress (http_all_size s) (http_read_size s) (download_percent (http_loc s)),
                read_size := n, resv := 0, buf := b\<rparr>\<rparr>;
          (r, s, es) \<leftarrow> read_tries L 3 (s, snd w);
          if r = 0 then Some (0, s, es)
          else let s = (if http_all_size s \<noteq> 0
                        then s\<lparr>http_read_size := u32_add (http_read_size s) (read_size (http_loc s))\<rparr> else s)
            in Some (s32 (int (read_size (http_loc s))), s, es) })"

definition http_f_stop :: "http \<Rightarrow> http \<times> int" where
  "http_f_stop s =
    (if \<not> http_loc_ok s then (s, -1)
     else ((http_stop s)\<lparr>http_loc := fresh_local, http_stopped := False, http_all_size := 0, http_read_size := 0\<rparr>, 0))"

end
