(* ===== verification/HttpOta_Spec.thy ===== *)
theory HttpOta_Spec
  imports HttpOta
begin

text \<open>
  The download client of the station build: an answer is taken apart and put together the same way
  however TCP cuts it behind the header, the block asked for is delivered once, and the ranges
  asked for cover the blocks.
\<close>

section \<open>Text in memory\<close>

definition lies :: "memory \<Rightarrow> addr \<Rightarrow> byte list \<Rightarrow> bool" where
  "lies m a xs \<longleftrightarrow> (\<forall>i < length xs. m (a + i) = xs ! i)"

lemma lies_append: "lies m a (xs @ ys) \<longleftrightarrow> lies m a xs \<and> lies m (a + length xs) ys"
proof
  assume h: "lies m a (xs @ ys)"
  have "m (a + i) = xs ! i" if "i < length xs" for i
    using h that by (auto simp: lies_def nth_append dest!: spec [of _ i])
  moreover have "m (a + length xs + i) = ys ! i" if "i < length ys" for i
    using h that by (auto simp: lies_def nth_append add.assoc dest!: spec [of _ "length xs + i"])
  ultimately show "lies m a xs \<and> lies m (a + length xs) ys" by (simp add: lies_def)
next
  assume "lies m a xs \<and> lies m (a + length xs) ys"
  then have h: "\<forall>i < length xs. m (a + i) = xs ! i" "\<forall>i < length ys. m (a + length xs + i) = ys ! i"
    by (simp_all add: lies_def)
  show "lies m a (xs @ ys)" unfolding lies_def
  proof (intro allI impI)
    fix i assume "i < length (xs @ ys)"
    then show "m (a + i) = (xs @ ys) ! i" using h(1) h(2) [rule_format, of "i - length xs"]
      by (cases "i < length xs") (simp_all add: nth_append)
  qed
qed

lemma lies_Cons: "lies m a (x # xs) \<longleftrightarrow> m a = x \<and> lies m (a + 1) xs"
  using lies_append [of m a "[x]" xs] by (simp add: lies_def)

lemma lies_nth: "lies m a xs \<Longrightarrow> i < length xs \<Longrightarrow> xs ! i = m (a + i)"
  by (simp add: lies_def)

lemma lies_Nil [simp]: "lies m a []"
  by (simp add: lies_def)

lemma lies_bytes: "lies m a xs \<longleftrightarrow> bytes m a (length xs) = xs"
  by (auto simp: lies_def list_eq_iff_nth_eq)

text \<open>A text without a terminator, and what follows it.\<close>

lemma cstring_lies:
  "lies m a t \<Longrightarrow> 0 \<notin> set t \<Longrightarrow> length t \<le> n \<Longrightarrow> cstring m a n = t @ cstring m (a + length t) (n - length t)"
proof (induction t arbitrary: a n)
  case (Cons c t)
  then have "cstring m a n = c # cstring m (a + 1) (n - 1)"
    by (subst cstring.simps) (auto simp: lies_Cons)
  also have "cstring m (a + 1) (n - 1) = t @ cstring m (a + 1 + length t) (n - 1 - length t)"
    using Cons.prems by (intro Cons.IH) (auto simp: lies_Cons)
  finally show ?case by (simp add: add.commute)
qed simp

lemma text_at_lies:
  assumes "lies m a t" "0 \<notin> set t" "a + length t \<le> http_buf + n"
  shows "text_at n m a = t @ text_at n m (a + length t)"
  using cstring_lies [OF assms(1,2), of "http_buf + n - a"] assms(3)
  by (simp add: text_at_def diff_diff_left add.commute)

definition no_match :: "byte list \<Rightarrow> byte list \<Rightarrow> bool" where
  "no_match pat xs \<longleftrightarrow> (\<forall>k < length xs. take (length pat) (drop k (xs @ pat)) \<noteq> pat)"

lemma take_append_le: "n \<le> length xs \<Longrightarrow> take n (xs @ ys) = take n xs"
  by simp

lemma strstr_first: "no_match pat xs \<Longrightarrow> strstr (xs @ pat @ ys) pat = Some (pat @ ys)"
proof (induction xs)
  case Nil
  then show ?case by (simp add: strstr_here)
next
  case (Cons x xs)
  have t: "take (length pat) (drop k ((x # xs) @ pat)) \<noteq> pat" if "k < length (x # xs)" for k
    using Cons.prems that unfolding no_match_def by blast
  have "no_match pat xs" unfolding no_match_def
    using t [of "Suc _"] by simp
  moreover have "take (length pat) (((x # xs) @ pat) @ ys) = take (length pat) ((x # xs) @ pat)"
    by (rule take_append_le) simp
  then have "strstr (x # xs @ pat @ ys) pat = strstr (xs @ pat @ ys) pat"
    using t [of 0] by (intro strstr_skip) simp
  ultimately show ?case using Cons.IH by simp
qed

lemma find_at_lies:
  assumes "lies m a (xs @ pat)" "0 \<notin> set xs" "0 \<notin> set pat" "a + length xs + length pat \<le> http_buf + n" "no_match pat xs"
  shows "find_at n m a pat = Some (a + length xs)"
proof -
  have "text_at n m a = (xs @ pat) @ text_at n m (a + length (xs @ pat))"
    using assms(2-4) by (intro text_at_lies [OF assms(1)]) auto
  then have "text_at n m a = xs @ pat @ text_at n m (a + length (xs @ pat))" by simp
  then show ?thesis using strstr_first [OF assms(5)] by (simp add: find_at_def Let_def)
qed

section \<open>The header\<close>

text \<open>An answer with a part of a file of \<open>size\<close> bytes: the status, other lines, the range (which ends with the
  size), and either the end of the header or other lines before it.\<close>

abbreviation (input) CR_text :: "byte list" where "CR_text \<equiv> cstr ''Content-Range:''"
abbreviation (input) head_stop :: "byte list" where "head_stop \<equiv> [13, 10, 13, 10]"

definition head_text :: "byte list \<Rightarrow> byte list \<Rightarrow> byte list \<Rightarrow> byte list \<Rightarrow> byte list" where
  "head_text A R D T = ((cstr ''HTTP/1.1 206'' @ A) @ CR_text) @ [32] @ R @ [asc CHR ''/''] @ D @ T"

definition head_tail :: "byte list \<Rightarrow> bool" where
  "head_tail T \<longleftrightarrow> T = head_stop \<or>
     (\<exists>B. T = [13, 10] @ B @ head_stop \<and> take 2 (B @ [13, 10]) \<noteq> [13, 10] \<and> no_match head_stop B)"

definition partial_head :: "byte list \<Rightarrow> nat \<Rightarrow> bool" where
  "partial_head h size' \<longleftrightarrow> (\<exists>A R D T. h = head_text A R D T \<and> 0 \<notin> set h \<and>
     no_match CR_text (cstr ''HTTP/1.1 206'' @ A) \<and> 13 \<notin> set R \<and> asc CHR ''/'' \<notin> set R \<and>
     D \<noteq> [] \<and> (\<forall>c \<in> set D. is_digit c) \<and> digits_value D = size' \<and> 0 < size' \<and> size' < 2147483648 \<and>
     head_tail T)"

lemma length_cstr [simp]: "length (cstr t) = length t"
  by (simp add: cstr_def)

lemma range_skip:
  "lies m a xs \<Longrightarrow> 13 \<notin> set xs \<Longrightarrow> asc CHR ''/'' \<notin> set xs \<Longrightarrow> a + length xs \<le> e \<Longrightarrow>
    range_line n m e a fs = range_line n m e (a + length xs) fs"
proof (induction xs arbitrary: a)
  case (Cons x xs)
  then have "range_line n m e a fs = range_line n m e (a + 1) fs"
    by (subst range_line.simps) (auto simp: lies_Cons at_end_def at_crlf_def simp del: asc_Char)
  also have "\<dots> = range_line n m e (a + 1 + length xs) fs"
    using Cons.prems by (intro Cons.IH) (auto simp: lies_Cons)
  finally show ?case by (simp add: add.commute)
qed simp

lemma no_match_stop:
  "no_match head_stop xs \<longleftrightarrow> (\<forall>k < length xs. take 4 (drop k (xs @ head_stop)) \<noteq> head_stop)"
proof -
  have "length head_stop = 4" by simp
  then show ?thesis unfolding no_match_def by presburger
qed

lemma take_nth_eq:
  "k \<le> length xs \<Longrightarrow> length ys = k \<Longrightarrow> (\<And>i. i < k \<Longrightarrow> xs ! i = ys ! i) \<Longrightarrow> take k xs = ys"
  by (rule nth_equalityI) simp_all

lemma head_skip:
  "lies m a (xs @ [13, 10, 13, 10]) \<Longrightarrow> no_match [13, 10, 13, 10] xs \<Longrightarrow> a + length xs < e \<Longrightarrow>
    head_end m e a = Some (a + length xs + 4)"
proof (induction xs arbitrary: a)
  case Nil
  then show ?case by (subst head_end.simps) (simp add: lies_Cons at_end_def numeral_2_eq_2 numeral_3_eq_3)
next
  case (Cons x xs)
  let ?E = "[13, 10, 13, 10] :: byte list"
  have t: "take 4 (drop k ((x # xs) @ ?E)) \<noteq> ?E" if "k < length (x # xs)" for k
    using Cons.prems(2) that unfolding no_match_stop by blast
  have nm: "no_match ?E xs" unfolding no_match_stop using t [of "Suc _"] by simp
  have "\<not> at_end m a"
  proof
    assume e: "at_end m a"
    have "((x # xs) @ ?E) ! i = ?E ! i" if i: "i < 4" for i
    proof -
      have "((x # xs) @ ?E) ! i = m (a + i)" using Cons.prems(1) i by (intro lies_nth) simp_all
      moreover from i have "i = 0 \<or> i = 1 \<or> i = 2 \<or> i = 3" by arith
      ultimately show ?thesis using e by (auto simp: at_end_def)
    qed
    then have "take 4 ((x # xs) @ ?E) = ?E" by (intro take_nth_eq) simp_all
    then show False using t [of 0] by simp
  qed
  then have "head_end m e a = head_end m e (a + 1)" using Cons.prems(3) by (subst head_end.simps) simp
  also have "\<dots> = Some (a + 1 + length xs + 4)"
    using Cons.prems nm by (intro Cons.IH) (auto simp: lies_Cons)
  finally show ?case by simp
qed

lemma digit_bounds: "is_digit c \<Longrightarrow> c \<noteq> 13 \<and> c \<noteq> asc CHR ''/'' \<and> c \<noteq> 32 \<and> \<not> c \<le> 13 \<and> c \<noteq> 0 \<and>
    c \<noteq> asc CHR ''-'' \<and> c \<noteq> asc CHR ''+''"
  by (auto simp: is_digit_def)

lemma atoi_digits:
  assumes "D \<noteq> []" "\<forall>c \<in> set D. is_digit c" "\<not> is_digit x" "digits_value D < 2147483648"
  shows "u32_of_int (atoi (D @ x # rest)) = digits_value D"
proof -
  obtain d ds where D: "D = d # ds" using assms(1) by (cases D) auto
  then have d: "is_digit d" using assms(2) by simp
  note b = digit_bounds [OF d]
  have "takeWhile is_digit (D @ x # rest) = takeWhile is_digit D"
    using assms(2,3) by (simp add: takeWhile_append2 takeWhile_eq_all_conv [THEN iffD2])
  then have v: "digits_value (D @ x # rest) = digits_value D" by (simp add: digits_value_def)
  have "atoi (D @ x # rest) = s32 (int (digits_value (D @ x # rest)))"
    using b by (simp add: atoi_def Let_def D del: asc_Char)
  then show ?thesis using v assms(4) by (simp add: u32_of_int_def)
qed

text \<open>The line with the range.\<close>

lemma range_line_ok:
  assumes "lies m a R" "13 \<notin> set R" "asc CHR ''/'' \<notin> set R" "lies m (a + length R) (asc CHR ''/'' # D @ T)"
    and "D \<noteq> []" "\<forall>c \<in> set D. is_digit c" "digits_value D < 2147483648" "head_tail T" "0 \<notin> set T"
    and "a + length R + 1 + length D + length T \<le> e" "e \<le> http_buf + n"
  shows "range_line n m e a fs = (let c = a + length R + 1 + length D in
    if T = head_stop then (c + 4, True, digits_value D) else (c + 2, False, digits_value D))"
proof -
  let ?c = "a + length R + 1 + length D"
  obtain d ds where D: "D = d # ds" using assms(5) by (cases D) auto
  have dg: "\<forall>c \<in> set ds. is_digit c" using assms(6) D by simp
  have ds: "13 \<notin> set ds" "asc CHR ''/'' \<notin> set ds" using dg digit_bounds by blast+
  obtain T' where T: "T = 13 # 10 # T'" "2 \<le> length T" using assms(8) unfolding head_tail_def by auto
  have l: "m (a + length R) = asc CHR ''/''" "lies m (a + length R + 1) (D @ T)" "lies m (a + length R + 2) ds"
    "lies m ?c T"
    using assms(4) by (simp_all add: lies_append lies_Cons D del: asc_Char)
  have tx: "text_at n m (a + length R + 1) = D @ T @ text_at n m (?c + length T)"
  proof -
    have "0 \<notin> set D" using assms(6) digit_bounds by blast
    then show ?thesis using text_at_lies [OF l(2), of n] assms(9-11) by (simp add: add.assoc)
  qed
  have v: "u32_of_int (atoi (text_at n m (a + length R + 1))) = digits_value D"
  proof -
    have "\<not> is_digit 13" by (simp add: is_digit_def)
    with atoi_digits [OF assms(5,6) _ assms(7), of 13] show ?thesis unfolding tx T(1) by simp
  qed
  have "range_line n m e a fs = range_line n m e (a + length R) fs"
    using assms(10) by (intro range_skip [OF assms(1-3)]) simp
  also have "\<dots> = range_line n m e (a + length R + 2) (digits_value D)"
  proof -
    have "a + length R < e" using assms(10) D by simp
    then show ?thesis using l(1) v
      by (subst range_line.simps) (simp add: at_end_def at_crlf_def)
  qed
  also have "\<dots> = range_line n m e ?c (digits_value D)"
    using range_skip [OF l(3) ds, of e n "digits_value D"] assms(10) D by simp
  also have "\<dots> = (if T = head_stop then (?c + 4, True, digits_value D) else (?c + 2, False, digits_value D))"
  proof -
    have lt: "?c < e" using assms(10) T(2) by linarith
    have cr: "at_crlf m ?c" using l(4) unfolding T(1) by (simp add: lies_Cons at_crlf_def)
    have "at_end m ?c \<longleftrightarrow> T = head_stop"
    proof
      assume e: "at_end m ?c"
      show "T = head_stop"
      proof (rule ccontr)
        assume "T \<noteq> head_stop"
        then obtain B where B: "T = [13, 10] @ B @ head_stop" "take 2 (B @ [13, 10]) \<noteq> [13, 10]"
          using assms(8) unfolding head_tail_def by blast
        have "lies m (?c + 2) (B @ head_stop)" using l(4) unfolding B(1) by (simp add: lies_Cons)
        then have l2: "lies m (?c + 2) (B @ [13, 10])" by (simp add: lies_append lies_Cons)
        have "(B @ [13, 10]) ! 0 = m (?c + 2 + 0)" "(B @ [13, 10]) ! 1 = m (?c + 2 + 1)"
          by (rule lies_nth [OF l2]; simp)+
        moreover have "?c + 2 + 0 = ?c + 2" "?c + 2 + 1 = ?c + 3" by simp_all
        ultimately have "(B @ [13, 10]) ! 0 = m (?c + 2)" "(B @ [13, 10]) ! 1 = m (?c + 3)" by metis+
        then have "(B @ [13, 10]) ! 0 = 13" "(B @ [13, 10]) ! 1 = 10" using e by (simp_all add: at_end_def)
        then have "take 2 (B @ [13, 10]) = [13, 10]"
          by (intro take_nth_eq) (auto simp: less_2_cases_iff)
        with B(2) show False ..
      qed
    next
      assume "T = head_stop"
      then show "at_end m ?c" using l(4)
        by (simp add: lies_Cons at_end_def numeral_2_eq_2 numeral_3_eq_3)
    qed
    with lt cr show ?thesis by (subst range_line.simps) auto
  qed
  finally show ?thesis by (simp add: Let_def)
qed

lemma parse_head_ok:
  assumes "partial_head h size'" "lies (hbuf s) http_buf h" "length h \<le> tot" "tot \<le> buf_size s"
  shows "\<exists>cl. parse_head tot http_buf s =
    (s\<lparr>net_recv_err := 0, content_length := cl, file_size := size'\<rparr>, Some (http_buf + length h))"
proof -
  obtain A R D T where h: "h = head_text A R D T" "0 \<notin> set h" "no_match CR_text (cstr ''HTTP/1.1 206'' @ A)"
    "13 \<notin> set R" "asc CHR ''/'' \<notin> set R" "D \<noteq> []" "\<forall>c \<in> set D. is_digit c" "digits_value D = size'" "0 < size'"
    "size' < 2147483648" "head_tail T"
    using assms(1) unfolding partial_head_def by blast
  let ?m = "hbuf s" and ?n = "buf_size s" and ?e = "http_buf + tot"
  let ?P = "cstr ''HTTP/1.1 206'' @ A"
  define c0 where "c0 = http_buf + length ?P"
  define c1 where "c1 = c0 + 15"
  define c2 where "c2 = c1 + length R"
  define c3 where "c3 = c2 + 1 + length D"
  have hl: "http_buf + length h = c3 + length T"
    by (simp add: h(1) head_text_def c0_def c1_def c2_def c3_def)
  have b: "c3 + length T \<le> ?e" "?e \<le> http_buf + ?n" using assms(3,4) hl by simp_all
  have "lies ?m http_buf (?P @ CR_text) \<and> lies ?m c1 R \<and> lies ?m c2 (asc CHR ''/'' # D @ T)"
  proof -
    have e: "http_buf + length (?P @ CR_text) + length [32 :: nat] = c1" "c1 + length R = c2"
      by (simp_all add: c1_def c0_def c2_def)
    have "lies ?m http_buf ((?P @ CR_text) @ [32] @ R @ (asc CHR ''/'' # D @ T))"
      using assms(2) unfolding h(1) head_text_def by simp
    then show ?thesis unfolding lies_append [of _ _ "?P @ CR_text" "[32] @ _"] lies_append [of _ _ "[32]"]
      lies_append [of _ _ R] e by blast
  qed
  note li = this [THEN conjunct1] this [THEN conjunct2, THEN conjunct1] this [THEN conjunct2, THEN conjunct2]
  have z: "0 \<notin> set ?P" "0 \<notin> set T" using h(2) unfolding h(1) head_text_def by auto
  have "find_at ?n ?m http_buf CR_text = Some c0"
  proof -
    have "http_buf + length ?P + length CR_text \<le> http_buf + ?n"
      using b by (simp add: c3_def c2_def c1_def c0_def)
    moreover have "0 \<notin> set CR_text" by simp
    ultimately show ?thesis using find_at_lies [OF li(1) z(1) _ _ h(3), of ?n] by (simp add: c0_def)
  qed
  then have fe: "find_either ?n ?m http_buf CR_text q = Some c0" for q by (simp add: find_either_def)
  have rl: "range_line ?n ?m ?e c1 fs =
      (if T = head_stop then (c3 + 4, True, size') else (c3 + 2, False, size'))" for fs
    using range_line_ok [OF li(2) h(4,5) _ h(6,7) _ h(11) z(2), of ?e ?n fs] li(3) h(8,10) b
    by (simp add: c2_def c3_def Let_def del: asc_Char)
  have tail: "head_end ?m ?e (c3 + 2) = Some (c3 + length T)" if nt: "T \<noteq> head_stop"
  proof -
    obtain B where B: "T = [13, 10] @ B @ head_stop" "no_match head_stop B"
      using h(11) nt unfolding head_tail_def by blast
    have "lies ?m c3 T" using li(3) by (simp add: lies_append lies_Cons c3_def del: asc_Char)
    then have "lies ?m (c3 + 2) (B @ head_stop)" unfolding B(1) by (simp add: lies_Cons)
    from head_skip [OF this B(2), of ?e] b(1) show ?thesis unfolding B(1) by simp
  qed
  have pr: "parse_range tot http_buf t = (if T = head_stop then (t\<lparr>file_size := size'\<rparr>, c3 + 4, True)
      else (t\<lparr>file_size := size'\<rparr>, c3 + 2, False))"
    if "hbuf t = ?m" "buf_size t = ?n" for t
    using that rl h(9) fe [of "cstr ''content-range:''"]
    by (simp add: parse_range_def Let_def c1_def del: cstr_simps asc_Char split: option.splits)
  define cl where "cl = (case find_either ?n ?m http_buf (cstr ''Content-Length:'') (cstr ''content-length:'') of
    Some c \<Rightarrow> u32_of_int (atoi (text_at ?n ?m (c + 15))) | None \<Rightarrow> content_length s)"
  let ?s = "s\<lparr>net_recv_err := 0\<rparr>"
  have "(case find_either (buf_size ?s) (hbuf ?s) http_buf (cstr ''Content-Length:'') (cstr ''content-length:'') of
      Some c \<Rightarrow> ?s\<lparr>content_length := u32_of_int (atoi (text_at (buf_size ?s) (hbuf ?s) (c + 15)))\<rparr>
    | None \<Rightarrow> ?s) = ?s\<lparr>content_length := cl\<rparr>"
    by (simp add: cl_def del: cstr_simps split: option.split)
  then have "parse_head tot http_buf s = (case parse_range tot http_buf (?s\<lparr>content_length := cl\<rparr>) of
      (s, c, found) \<Rightarrow> (s, if found then Some c else head_end (hbuf s) ?e c))"
    by (simp add: parse_head_def Let_def del: cstr_simps)
  also have "\<dots> = (?s\<lparr>content_length := cl, file_size := size'\<rparr>, Some (http_buf + length h))"
    using pr [of "?s\<lparr>content_length := cl\<rparr>"] tail hl by (cases "T = head_stop") simp_all
  finally show ?thesis by blast
qed

section \<open>Receiving a range\<close>

lemma lies_mcpy_in: "lies (mcpy_in m a xs) a xs"
  by (simp add: lies_def mcpy_in_at)

lemma lies_cong: "(\<And>i. i < length xs \<Longrightarrow> m' (a + i) = m (a + i)) \<Longrightarrow> lies m a xs \<Longrightarrow> lies m' a xs"
  by (simp add: lies_def)

lemma lies_map: "lies m a (map f [b..<c]) \<longleftrightarrow> (\<forall>i < c - b. m (a + i) = f (b + i))"
  by (simp add: lies_def)

lemma recv_first_ok:
  assumes "partial_head h V" "recv_offset s = 0" "length h + length b \<le> buf_size s" "buf_size s < 4294967296"
  obtains m cl where "recv_piece (h @ b) s =
      s\<lparr>hbuf := m, net_recv_err := 0, content_length := cl, file_size := V, recv_offset := length b\<rparr>"
    "lies m http_buf b"
proof -
  let ?s = "s\<lparr>hbuf := mcpy_in (hbuf s) http_buf (h @ b)\<rparr>"
  have l: "lies (hbuf ?s) http_buf h" "lies (hbuf ?s) (http_buf + length h) b"
    using lies_mcpy_in [of "hbuf s" http_buf "h @ b"] by (simp_all add: lies_append)
  obtain cl where ph: "parse_head (length (h @ b)) http_buf ?s =
      (?s\<lparr>net_recv_err := 0, content_length := cl, file_size := V\<rparr>, Some (http_buf + length h))"
    using parse_head_ok [OF assms(1) l(1), of "length (h @ b)"] assms(3) by auto
  have f: "find_at (buf_size ?s) (hbuf ?s) http_buf (cstr ''HTTP/1.1 206'') = Some http_buf"
  proof -
    obtain xs where h: "h = cstr ''HTTP/1.1 206'' @ xs"
      using assms(1) unfolding partial_head_def head_text_def by auto
    have "length (cstr ''HTTP/1.1 206'') \<le> length h" unfolding h by simp
    then have "http_buf + length ([] :: byte list) + length (cstr ''HTTP/1.1 206'') \<le> http_buf + buf_size ?s"
      using assms(3) by simp
    moreover have "lies (hbuf ?s) http_buf ([] @ cstr ''HTTP/1.1 206'')"
      using l(1) unfolding h lies_append by simp
    moreover have "0 \<notin> set (cstr ''HTTP/1.1 206'')" by simp
    ultimately show ?thesis using find_at_lies [of "hbuf ?s" http_buf "[]" "cstr ''HTTP/1.1 206''" "buf_size ?s"]
      by (simp add: no_match_def del: cstr_simps)
  qed
  have n: "u32_sub (length (h @ b)) (http_buf + length h - http_buf) = length b" using assms(3,4) by simp
  define m where "m = (mcpy (hbuf ?s) http_buf (http_buf + length h) (length b))(http_buf + length b := 0)"
  have "recv_first (length (h @ b)) ?s =
      ?s\<lparr>hbuf := m, net_recv_err := 0, content_length := cl, file_size := V, recv_offset := length b\<rparr>"
    using f ph n assms(2-4) unfolding m_def
    by (simp add: recv_first_def Let_def del: cstr_simps http_buf_def)
  then have "recv_piece (h @ b) s =
      s\<lparr>hbuf := m, net_recv_err := 0, content_length := cl, file_size := V, recv_offset := length b\<rparr>"
    using assms(2,3) by (simp add: recv_piece_def)
  moreover have "lies m http_buf b" using l(2) by (simp add: m_def mcpy_def lies_def)
  ultimately show thesis by (rule that)
qed

lemma recv_more_ok:
  assumes "0 < recv_offset s" "recv_offset s + length p \<le> buf_size s" "buf_size s < 4294967296"
  shows "recv_piece p s = s\<lparr>hbuf := mcpy_in (hbuf s) (http_buf + recv_offset s) p, recv_offset := recv_offset s + length p\<rparr>"
  using assms by (simp add: recv_piece_def)

lemma upt_split: "i \<le> j \<Longrightarrow> j \<le> k \<Longrightarrow> [i..<k] = [i..<j] @ [j..<k]"
  using upt_add_eq_append [of i j "k - j"] by simp

text \<open>The part of a range that has come, for a request that is not finished.\<close>

definition got :: "(nat \<Rightarrow> byte) \<Rightarrow> nat \<Rightarrow> http \<Rightarrow> bool" where
  "got file k s \<longleftrightarrow> recv_offset s = k \<and> lies (hbuf s) http_buf (map file [range_start s..<range_start s + k])"

text \<open>A request the server can serve: the range is not empty, lies in the file and fits the buffer, and the
  block lies in the range.\<close>

definition request_ok :: "nat \<Rightarrow> http \<Rightarrow> bool" where
  "request_ok V s \<longleftrightarrow> (let l = http_loc s in
     range_start s \<le> seek_addr l \<and> seek_addr l + read_size l \<le> range_end s \<and> range_end s \<le> V \<and> V < 4294967296 \<and>
     range_end s \<le> range_start s + buf_size s \<and> buf_size s < 4294967296 \<and> 0 < read_size l \<and> buf l \<noteq> 0)"

lemma copy_got:
  assumes "request_ok V s" "got file (range_end s - range_start s) s"
  shows "http_copy s = s\<lparr>http_dest := mcpy_in (http_dest s) (buf (http_loc s))
    (map file [seek_addr (http_loc s)..<seek_addr (http_loc s) + read_size (http_loc s)])\<rparr>"
proof -
  let ?l = "http_loc s"
  have b: "range_start s \<le> seek_addr ?l" "seek_addr ?l + read_size ?l \<le> range_end s" "range_end s < 4294967296"
    using assms(1) by (auto simp: request_ok_def Let_def)
  have h: "hbuf s (http_buf + i) = file (range_start s + i)" if "i < range_end s - range_start s" for i
    using assms(2) that unfolding got_def lies_map by simp
  have "bytes (hbuf s) (http_buf + (seek_addr ?l - range_start s)) (read_size ?l) =
      map file [seek_addr ?l..<seek_addr ?l + read_size ?l]"
  proof (rule nth_equalityI)
    fix i assume "i < length (bytes (hbuf s) (http_buf + (seek_addr ?l - range_start s)) (read_size ?l))"
    then have i: "i < read_size ?l" by simp
    have "hbuf s (http_buf + (seek_addr ?l - range_start s + i)) = file (range_start s + (seek_addr ?l - range_start s + i))"
      by (rule h) (use b i in linarith)
    then show "bytes (hbuf s) (http_buf + (seek_addr ?l - range_start s)) (read_size ?l) ! i =
        map file [seek_addr ?l..<seek_addr ?l + read_size ?l] ! i"
      using b i by (simp add: add.assoc)
  qed simp
  then show ?thesis using b by (simp add: http_copy_def)
qed

definition delivered :: "(nat \<Rightarrow> byte) \<Rightarrow> nat \<Rightarrow> http \<Rightarrow> http \<Rightarrow> bool" where
  "delivered file V s s' \<longleftrightarrow> got file (range_end s - range_start s) s' \<and> range_start s' = range_start s \<and>
     http_loc s' = http_loc s \<and> file_size s' = V \<and> net_recv_err s' = 0 \<and> http_sem s' = http_sem s + 1 \<and>
     http_dest s' = mcpy_in (http_dest s) (buf (http_loc s))
       (map file [seek_addr (http_loc s)..<seek_addr (http_loc s) + read_size (http_loc s)])"

text \<open>All that the answer changes, and that the reader is woken by its last piece.\<close>

definition arrived :: "(nat \<Rightarrow> byte) \<Rightarrow> nat \<Rightarrow> http \<Rightarrow> http \<Rightarrow> bool" where
  "arrived file V s s' \<longleftrightarrow> (\<exists>m cl. s' = s\<lparr>hbuf := m, content_length := cl, net_recv_err := 0, file_size := V,
       recv_offset := range_end s - range_start s, http_sem := http_sem s + 1,
       http_dest := mcpy_in (http_dest s) (buf (http_loc s))
         (map file [seek_addr (http_loc s)..<seek_addr (http_loc s) + read_size (http_loc s)])\<rparr> \<and>
     lies m http_buf (map file [range_start s..<range_end s]))"

definition wakes :: "nat \<Rightarrow> byte list list \<Rightarrow> http \<Rightarrow> bool" where
  "wakes pcb ps s \<longleftrightarrow> (http_sem s = 0 \<longrightarrow> (\<forall>es. http_pend s (map (HSeg pcb) ps @ es) =
     Some (0, (fold (\<lambda>p. http_event (HSeg pcb p)) ps s)\<lparr>http_sem := 0\<rparr>, es)))"

lemma arrived_delivered: "request_ok V s \<Longrightarrow> arrived file V s s' \<Longrightarrow> delivered file V s s'"
  by (auto simp: arrived_def delivered_def got_def request_ok_def Let_def)

lemma pend_piece: "http_sem s = 0 \<Longrightarrow> http_pend s (HSeg pcb p # es) = http_pend (http_event (HSeg pcb p) s) es"
  by (subst http_pend.simps) simp

lemma pend_now: "http_sem s = 1 \<Longrightarrow> http_pend s es = Some (0, s\<lparr>http_sem := 0\<rparr>, es)"
  by (subst http_pend.simps) simp

lemma wakes_more: "http_sem (http_event (HSeg pcb p) s) = http_sem s \<Longrightarrow> wakes pcb ps (http_event (HSeg pcb p) s) \<Longrightarrow>
    wakes pcb (p # ps) s"
  by (simp add: wakes_def pend_piece del: http_event.simps)

lemma wakes_last: "http_sem (http_event (HSeg pcb p) s) = http_sem s + 1 \<Longrightarrow> wakes pcb [p] s"
  by (simp add: wakes_def pend_piece pend_now del: http_event.simps)

lemma range_done_iff:
  "request_ok V s \<Longrightarrow> file_size s = V \<Longrightarrow> 0 < recv_offset s \<Longrightarrow>
    range_done s \<longleftrightarrow> range_end s - range_start s \<le> recv_offset s"
  by (auto simp: request_ok_def range_done_def Let_def)

lemma after_piece:
  assumes "request_ok V t" "file_size t = V" "net_recv_err t = 0" "0 < k" "got file k t"
  shows "k < range_end t - range_start t \<Longrightarrow> (if range_done t then u else t) = t"
    and "k = range_end t - range_start t \<Longrightarrow> arrived file V t
      (if range_done t then http_post (if buf (http_loc t) \<noteq> 0 \<and> read_size (http_loc t) \<noteq> 0 then http_copy t else t) else t)"
proof -
  have k: "recv_offset t = k" using assms(5) by (simp add: got_def)
  note d = range_done_iff [OF assms(1,2), unfolded k, OF assms(4)]
  show "(if range_done t then u else t) = t" if "k < range_end t - range_start t" using d that by simp
  show "arrived file V t
      (if range_done t then http_post (if buf (http_loc t) \<noteq> 0 \<and> read_size (http_loc t) \<noteq> 0 then http_copy t else t) else t)"
    if e: "k = range_end t - range_start t"
  proof -
    have "range_done t" "buf (http_loc t) \<noteq> 0" "read_size (http_loc t) \<noteq> 0"
      using d e assms(1) by (simp_all add: request_ok_def Let_def)
    moreover have g: "got file (range_end t - range_start t) t" using assms(5) e by simp
    moreover have "range_start t \<le> range_end t" using assms(1) by (simp add: request_ok_def Let_def)
    ultimately show ?thesis using assms(2,3) unfolding arrived_def copy_got [OF assms(1) g]
      by (intro exI [of _ "hbuf t"] exI [of _ "content_length t"]) (simp add: http_post_def got_def)
  qed
qed

lemma more_pieces:
  "request_ok V s \<Longrightarrow> file_size s = V \<Longrightarrow> net_recv_err s = 0 \<Longrightarrow> 0 < k \<Longrightarrow> k < range_end s - range_start s \<Longrightarrow>
    got file k s \<Longrightarrow> pcb \<in> http_conns s \<Longrightarrow> concat ps = map file [range_start s + k..<range_end s] \<Longrightarrow>
    [] \<notin> set ps \<Longrightarrow> arrived file V s (fold (\<lambda>p. http_event (HSeg pcb p)) ps s) \<and> wakes pcb ps s"
proof (induction ps arbitrary: s k)
  case Nil
  then show ?case by auto
next
  case (Cons p ps)
  let ?r = "range_end s - range_start s"
  have r: "range_end s \<le> range_start s + buf_size s" "buf_size s < 4294967296" "recv_offset s = k"
    using Cons.prems(1,6) by (simp_all add: request_ok_def Let_def got_def)
  have len: "length p + length (concat ps) = ?r - k" "0 < length p"
    using arg_cong [OF Cons.prems(8), of length] Cons.prems(9) by auto
  define t where "t = s\<lparr>hbuf := mcpy_in (hbuf s) (http_buf + k) p, recv_offset := k + length p\<rparr>"
  have "k + length p \<le> buf_size s" using len r(1) by arith
  then have t: "recv_piece p s = t" using recv_more_ok [of s p] Cons.prems(4) r by (simp add: t_def)
  have pp: "p = map file [range_start s + k..<range_start s + k + length p]"
    "concat ps = map file [range_start s + (k + length p)..<range_end s]"
  proof -
    have "[range_start s + k..<range_end s] = [range_start s + k..<range_start s + k + length p] @
        [range_start s + k + length p..<range_end s]"
      using len Cons.prems(5) by (intro upt_split) simp_all
    with Cons.prems(8) show "p = map file [range_start s + k..<range_start s + k + length p]"
      "concat ps = map file [range_start s + (k + length p)..<range_end s]"
      by (simp_all add: append_eq_append_conv add.assoc)
  qed
  have g: "got file (k + length p) t"
  proof -
    have "hbuf t (http_buf + i) = file (range_start s + i)" if "i < k + length p" for i
    proof (cases "i < k")
      case True
      then show ?thesis using Cons.prems(6) by (simp add: t_def mcpy_in_out got_def lies_map)
    next
      case False
      with that have "hbuf t (http_buf + i) = p ! (i - k)" by (simp add: t_def mcpy_in_def)
      also have "\<dots> = file (range_start s + i)" using False that by (subst pp(1)) simp
      finally show ?thesis .
    qed
    then show ?thesis by (simp add: got_def lies_map t_def)
  qed
  have rt: "request_ok V t" "file_size t = V" "net_recv_err t = 0" "0 < k + length p"
    using Cons.prems(1-4) by (simp_all add: t_def request_ok_def)
  have ev: "http_event (HSeg pcb p) s = (if range_done t
      then http_post (if buf (http_loc t) \<noteq> 0 \<and> read_size (http_loc t) \<noteq> 0 then http_copy t else t) else t)"
    using Cons.prems(7) t by (simp add: http_msgrecv_def Let_def)
  have same: "arrived file V s u \<longleftrightarrow> arrived file V t u" for u by (simp add: arrived_def t_def)
  have sem: "http_sem t = http_sem s" by (simp add: t_def)
  show ?case
  proof (cases "k + length p < ?r")
    case True
    then have "k + length p < range_end t - range_start t" by (simp add: t_def)
    from after_piece(1) [OF rt g this] ev have e: "http_event (HSeg pcb p) s = t" by simp
    have "arrived file V t (fold (\<lambda>p. http_event (HSeg pcb p)) ps t) \<and> wakes pcb ps t"
      using Cons.IH [OF rt _ g] True Cons.prems(7,9) pp(2) by (simp add: t_def del: http_event.simps)
    then show ?thesis unfolding same using e sem wakes_more [of pcb _ s ps] by (simp del: http_event.simps)
  next
    case False
    then have "k + length p = ?r" "length (concat ps) = 0" using len by arith+
    then have "k + length p = range_end t - range_start t" "concat ps = []" by (simp_all add: t_def)
    moreover from this(2) Cons.prems(9) have "ps = []" by (cases ps) auto
    ultimately have a: "arrived file V t (http_event (HSeg pcb p) s)" using after_piece(2) [OF rt g] ev by simp
    then have "http_sem (http_event (HSeg pcb p) s) = http_sem s + 1" unfolding arrived_def sem by force
    with a show ?thesis unfolding same using \<open>ps = []\<close> wakes_last by (simp del: http_event.simps)
  qed
qed

lemma range_arrives:
  assumes "partial_head h V" "recv_offset s = 0" "request_ok V s" "pcb \<in> http_conns s"
    and "b \<noteq> []" "length h + length b \<le> buf_size s" "[] \<notin> set ps"
    and "b @ concat ps = map file [range_start s..<range_end s]"
  shows "arrived file V s (fold (\<lambda>p. http_event (HSeg pcb p)) ((h @ b) # ps) s)" "wakes pcb ((h @ b) # ps) s"
proof -
  let ?r = "range_end s - range_start s"
  have r: "buf_size s < 4294967296" using assms(3) by (simp add: request_ok_def Let_def)
  obtain m cl where rp: "recv_piece (h @ b) s =
      s\<lparr>hbuf := m, net_recv_err := 0, content_length := cl, file_size := V, recv_offset := length b\<rparr>"
    "lies m http_buf b" using recv_first_ok [OF assms(1,2,6) r] by blast
  define t where "t = s\<lparr>hbuf := m, net_recv_err := 0, content_length := cl, file_size := V, recv_offset := length b\<rparr>"
  have len: "length b + length (concat ps) = ?r" "0 < length b"
    using arg_cong [OF assms(8), of length] assms(5) by auto
  have bb: "b = map file [range_start s..<range_start s + length b]"
    "concat ps = map file [range_start s + length b..<range_end s]"
  proof -
    have "[range_start s..<range_end s] = [range_start s..<range_start s + length b] @
        [range_start s + length b..<range_end s]"
      by (intro upt_split; use len in arith)
    with assms(8) show "b = map file [range_start s..<range_start s + length b]"
      "concat ps = map file [range_start s + length b..<range_end s]"
      by (simp_all add: append_eq_append_conv)
  qed
  have g: "got file (length b) t" using rp(2) bb(1) by (simp add: got_def t_def)
  have rt: "request_ok V t" "file_size t = V" "net_recv_err t = 0"
    using assms(3) by (simp_all add: t_def request_ok_def)
  have ev: "http_event (HSeg pcb (h @ b)) s = (if range_done t
      then http_post (if buf (http_loc t) \<noteq> 0 \<and> read_size (http_loc t) \<noteq> 0 then http_copy t else t) else t)"
    using assms(4) rp(1) by (simp add: http_msgrecv_def Let_def t_def)
  have same: "arrived file V s u \<longleftrightarrow> arrived file V t u" for u by (simp add: arrived_def t_def)
  have sem: "http_sem t = http_sem s" by (simp add: t_def)
  have "arrived file V s (fold (\<lambda>p. http_event (HSeg pcb p)) ((h @ b) # ps) s) \<and> wakes pcb ((h @ b) # ps) s"
  proof (cases "length b < ?r")
    case True
    then have "length b < range_end t - range_start t" by (simp add: t_def)
    from after_piece(1) [OF rt len(2) g this] ev have e: "http_event (HSeg pcb (h @ b)) s = t" by simp
    have "arrived file V t (fold (\<lambda>p. http_event (HSeg pcb p)) ps t) \<and> wakes pcb ps t"
      using more_pieces [OF rt len(2) _ g] True assms(4,7) bb(2) by (simp add: t_def del: http_event.simps)
    then show ?thesis unfolding same using e sem wakes_more [of pcb _ s ps] by (simp del: http_event.simps)
  next
    case False
    then have "length b = ?r" "length (concat ps) = 0" using len by arith+
    then have "length b = range_end t - range_start t" "concat ps = []" by (simp_all add: t_def)
    moreover from this(2) assms(7) have "ps = []" by (cases ps) auto
    ultimately have a: "arrived file V t (http_event (HSeg pcb (h @ b)) s)" using after_piece(2) [OF rt len(2) g] ev by simp
    then have "http_sem (http_event (HSeg pcb (h @ b)) s) = http_sem s + 1" unfolding arrived_def sem by force
    with a show ?thesis unfolding same using \<open>ps = []\<close> wakes_last by (simp del: http_event.simps)
  qed
  then show "arrived file V s (fold (\<lambda>p. http_event (HSeg pcb p)) ((h @ b) # ps) s)" "wakes pcb ((h @ b) # ps) s"
    by blast+
qed

text \<open>C9: An answer of the server is delivered however TCP cuts it, as long as some of the file comes with
  the header.  From the pieces of a partial answer with the bytes of the requested range, the client
  takes the size of the file, keeps the range, copies exactly the block that is waited for to the
  library's buffer, and wakes the reader once.\<close>

theorem http_range_delivered:
  assumes "partial_head h V" "recv_offset s = 0" "request_ok V s" "pcb \<in> http_conns s"
    and "b \<noteq> []" "length h + length b \<le> buf_size s" "[] \<notin> set ps"
    and "b @ concat ps = map file [range_start s..<range_end s]"
  shows "delivered file V s (fold (\<lambda>p. http_event (HSeg pcb p)) ((h @ b) # ps) s)"
  by (rule arrived_delivered [OF assms(3) range_arrives(1) [OF assms]])

section \<open>Ranges and blocks\<close>

lemma copy_held:
  assumes "got file (recv_offset s) s" "range_start s \<le> seek_addr (http_loc s)"
    and "seek_addr (http_loc s) + read_size (http_loc s) \<le> range_start s + recv_offset s"
    and "range_start s + recv_offset s < 4294967296"
  shows "http_copy s = s\<lparr>http_dest := mcpy_in (http_dest s) (buf (http_loc s))
    (map file [seek_addr (http_loc s)..<seek_addr (http_loc s) + read_size (http_loc s)])\<rparr>"
proof -
  let ?l = "http_loc s" and ?d = "seek_addr (http_loc s) - range_start s"
  have h: "hbuf s (http_buf + (?d + i)) = file (seek_addr ?l + i)" if "i < read_size ?l" for i
  proof -
    have "?d + i < recv_offset s" using assms(2,3) that by arith
    then have "hbuf s (http_buf + (?d + i)) = file (range_start s + (?d + i))"
      using assms(1) unfolding got_def lies_map by simp
    then show ?thesis using assms(2) by simp
  qed
  have "bytes (hbuf s) (http_buf + ?d) (read_size ?l) = map file [seek_addr ?l..<seek_addr ?l + read_size ?l]"
    by (rule nth_equalityI) (use h in \<open>simp_all add: add.assoc\<close>)
  then show ?thesis using assms(2-4) by (simp add: http_copy_def)
qed

text \<open>A block that lies in the range held is served from it at once, with the bytes of the file and
  without a request.  For any other block of the file the next request covers it, fits the buffer
  and, once the size of the file is known, does not reach beyond its end.\<close>

lemma http_block_served:
  assumes "http_ota s" "http_loc_ok s" "got file (recv_offset s) s" "range_start s + recv_offset s < 4294967296"
    and "0 < read_size (http_loc s)" "read_size (http_loc s) \<le> buf_size s" "V + buf_size s < 4294967296"
    and "seek_addr (http_loc s) + read_size (http_loc s) \<le> V" "file_size s = 0 \<or> file_size s = V"
  shows "(http_hit s \<longrightarrow> http_read L reset (s, es) = Some (read_size (http_loc s), s\<lparr>http_dest :=
      mcpy_in (http_dest s) (buf (http_loc s))
        (map file [seek_addr (http_loc s)..<seek_addr (http_loc s) + read_size (http_loc s)])\<rparr>, es)) \<and>
    (let t = set_range 0 (http_window s) in
      range_start t \<le> seek_addr (http_loc s) \<and> seek_addr (http_loc s) + read_size (http_loc s) \<le> range_end t \<and>
      range_end t \<le> range_start t + buf_size s \<and> (file_size s = V \<longrightarrow> range_end t \<le> V))"
proof -
  let ?l = "http_loc s"
  let ?a = "seek_addr ?l" and ?n = "read_size ?l"
  have 1: "http_read L reset (s, es) = Some (?n, s\<lparr>http_dest :=
      mcpy_in (http_dest s) (buf ?l) (map file [?a..<?a + ?n])\<rparr>, es)" if h: "http_hit s"
  proof -
    have "recv_offset s \<noteq> 0" "range_start s \<le> ?a" "?a + ?n \<le> range_start s + recv_offset s"
      using h assms(4,7,8) by (auto simp: http_hit_def not_less)
    then show ?thesis using h assms(1,2) copy_held [OF assms(3) _ _ assms(4)]
      by (simp add: http_read_def Let_def)
  qed
  define rs where "rs = (if ?a > buf_size s - ?n then ?a - (buf_size s - ?n) else ?a)"
  have w: "http_window s = s\<lparr>recv_offset := 0, range_start := rs\<rparr>"
    using assms(6,7,8) by (simp add: http_window_def Let_def rs_def)
  have r: "rs \<le> ?a" "?a + ?n \<le> rs + buf_size s" "rs \<le> V"
    using assms(6,8) by (auto simp: rs_def)
  define re where "re = (if file_size s \<noteq> 0 \<and> rs + buf_size s > file_size s then file_size s else rs + buf_size s)"
  have b: "buf_size s \<noteq> 0" "rs + buf_size s < 4294967296" using assms(5-7) r(3) by simp_all
  have "range_end (set_range 0 (http_window s)) = re"
    using b r assms(7-9) by (auto simp: set_range_def w re_def Let_def)
  moreover have "range_start (set_range 0 (http_window s)) = rs" by (simp add: set_range_def w Let_def)
  moreover have "?a + ?n \<le> re \<and> re \<le> rs + buf_size s \<and> (file_size s = V \<longrightarrow> re \<le> V)"
    using r assms(8,9) assms(5) by (auto simp: re_def)
  ultimately show ?thesis using 1 r(1) by (simp add: Let_def)
qed

section \<open>Where the client fails\<close>

text \<open>A header that comes in a piece of its own leaves the count at zero: the body is then taken for a
  header, which fails.\<close>

lemma header_alone:
  assumes "partial_head h V" "recv_offset s = 0" "length h \<le> buf_size s" "buf_size s < 4294967296" "length b \<le> buf_size s"
    and "\<And>m. lies m http_buf b \<Longrightarrow> find_at (buf_size s) m http_buf (cstr ''HTTP/1.1 206'') = None"
  obtains t where "recv_piece h s = t" "recv_offset t = 0" "net_recv_err (recv_piece b t) = 1"
    "http_sem (recv_piece b t) = http_sem t + 1"
proof -
  obtain m cl where rp: "recv_piece (h @ []) s =
      s\<lparr>hbuf := m, net_recv_err := 0, content_length := cl, file_size := V, recv_offset := length ([] :: byte list)\<rparr>"
    by (rule recv_first_ok [OF assms(1,2), of "[]"]) (use assms(3,4) in simp_all)
  define t where "t = s\<lparr>hbuf := m, net_recv_err := 0, content_length := cl, file_size := V, recv_offset := 0\<rparr>"
  have t: "recv_piece h s = t" using rp by (simp add: t_def)
  have "recv_piece b t = recv_failed (t\<lparr>hbuf := mcpy_in m http_buf b\<rparr>)"
    using assms(5) assms(6) [OF lies_mcpy_in, of m] by (simp add: recv_piece_def recv_first_def t_def)
  then show thesis using that [OF t] by (simp add: recv_failed_def http_post_def t_def)
qed

text \<open>The third failed answer ends the update, but the read that waits for it reports success.\<close>

lemma failed_read_succeeds:
  assumes "http_get L reset 0 (s\<lparr>http_sem := 0\<rparr>, es) = Some (True, t, es1)" "http_pend t es1 = Some (0, u, es2)"
    "http_stopped u" "read_size (http_loc u) \<noteq> 0"
  shows "http_redo L reset cnt (s, es) = Some (read_size (http_loc u), u, es2)"
  using assms by (subst http_redo.simps) simp

text \<open>A colon in the path of a URL without a port ends the host.\<close>

lemma colon_in_path:
  "cut_url 40908 (cstr ''h/a:1'') = Some (Some (cstr ''h/a'', 1, cstr ''/a:1''))"
  by (simp add: cut_url_def strstr.simps atoi_def digits_value_def is_digit_def u32_of_int_def)

section \<open>Concrete runs\<close>

lemma no_match_hd: "c \<notin> set xs \<Longrightarrow> no_match (c # cs) xs"
proof -
  assume c: "c \<notin> set xs"
  have "take (length (c # cs)) (drop k (xs @ c # cs)) \<noteq> c # cs" if k: "k < length xs" for k
  proof -
    have "drop k (xs @ c # cs) = xs ! k # drop (Suc k) (xs @ c # cs)"
      using k by (simp add: Cons_nth_drop_Suc [symmetric] nth_append del: drop_append)
    moreover have "xs ! k \<noteq> c" using c k nth_mem by blast
    ultimately show ?thesis by simp
  qed
  then show ?thesis by (simp add: no_match_def)
qed

definition ex_file :: "nat \<Rightarrow> byte" where "ex_file a = a + 7"

text \<open>The second byte and the third one are asked for; the range is the whole file of four bytes.\<close>

definition ex_http :: http where
  "ex_http = \<lparr>http_ota = True, ip_addr = 1, http_pcb = Some 3, conneted = True, lock = False, file_size = 0,
    content_length = 0, range_start = 0, range_end = 4, recv_offset = 0, host = None, http_file = None,
    send_buf = None, buf_size = 40908, hbuf = (\<lambda>_. 0), http_url_path = Some HTTP_UPDATE_URL, net_recv_err = 0,
    http_stopped = False, http_all_size = 0, http_read_size = 0, http_loc_ok = True,
    http_loc = fresh_local\<lparr>seek_addr := 1, read_size := 2, buf := 64\<rparr>, http_dest = (\<lambda>_. 0), http_sem = 0,
    http_conns = {3}, http_wire = [], http_dials = []\<rparr>"

definition ex_head :: "byte list" where
  "ex_head = head_text [13, 10] (cstr ''bytes 0-3'') (cstr ''4'') head_stop"

lemma ex_head_ok: "partial_head ex_head 4"
proof -
  have "no_match CR_text (cstr ''HTTP/1.1 206'' @ [13, 10])"
  proof -
    have e: "CR_text = asc CHR ''C'' # cstr ''ontent-Range:''" by simp
    show ?thesis unfolding e by (rule no_match_hd) simp
  qed
  moreover have "0 \<notin> set ex_head" by (simp add: ex_head_def head_text_def)
  moreover have "digits_value (cstr ''4'') = 4" "\<forall>c \<in> set (cstr ''4''). is_digit c" "cstr ''4'' \<noteq> []"
    by (simp_all add: digits_value_def is_digit_def)
  moreover have "13 \<notin> set (cstr ''bytes 0-3'')" "asc CHR ''/'' \<notin> set (cstr ''bytes 0-3'')" by simp_all
  moreover have "head_tail head_stop" by (simp add: head_tail_def)
  moreover have "(0 :: nat) < 4" "(4 :: nat) < 2147483648" by simp_all
  ultimately show ?thesis unfolding partial_head_def ex_head_def by blast
qed

theorem http_range_delivered_witness:
  "delivered ex_file 4 ex_http (fold (\<lambda>p. http_event (HSeg 3 p)) ((ex_head @ [7, 8]) # [[9], [10]]) ex_http)"
proof (rule http_range_delivered [OF ex_head_ok])
  show "[7, 8] @ concat [[9], [10]] = map ex_file [range_start ex_http..<range_end ex_http]"
    by (simp add: ex_http_def ex_file_def upt_rec)
qed (simp_all add: ex_http_def request_ok_def Let_def ex_head_def head_text_def)

definition ex_httplib :: httplib where
  "ex_httplib = \<lparr>new_pcb = (\<lambda>_. Some 4), connect_ok = (\<lambda>_ _ _. True), gethostbyname = (\<lambda>_. Some 1),
    inet_addr = (\<lambda>_. 1), write_ok = (\<lambda>_ _. True)\<rparr>"

lemma http_block_served_witness:
  "let s = ex_http\<lparr>recv_offset := 4, file_size := 4, hbuf := mcpy_in (\<lambda>_. 0) http_buf [7, 8, 9, 10]\<rparr> in
    http_read ex_httplib False (s, []) = Some (2, s\<lparr>http_dest := mcpy_in (\<lambda>_. 0) 64 [8, 9]\<rparr>, [])"
proof -
  let ?s = "ex_http\<lparr>recv_offset := 4, file_size := 4, hbuf := mcpy_in (\<lambda>_. 0) http_buf [7, 8, 9, 10]\<rparr>"
  have f: "map ex_file [0..<4] = [7, 8, 9, 10]" "map ex_file [Suc 0..<3] = [8, 9]" by (simp_all add: ex_file_def upt_rec)
  have "got ex_file (recv_offset ?s) ?s"
    using f(1) lies_mcpy_in [of "\<lambda>_. 0" http_buf "[7, 8, 9, 10]"] by (simp add: got_def ex_http_def)
  moreover have "http_hit ?s" by (simp add: http_hit_def ex_http_def fresh_local_def)
  ultimately show ?thesis
    using http_block_served [of ?s ex_file 4 ex_httplib False "[]"] f(2)
    by (simp add: ex_http_def fresh_local_def Let_def ex_file_def)
qed

end
