(* ===== verification/Vsnprintf_Spec.thy ===== *)
theory Vsnprintf_Spec
  imports Vsnprintf
begin

unbundle bit_operations_syntax

text \<open>
  Correctness of the bounded formatter: the digit generators compute the positional numeral, the
  number printer lays a number out as C99 says, the padding loops end, and the whole formatter
  has the truncation contract of \<open>snprintf\<close>: text and result do not depend on the room.
\<close>

section \<open>Decimal digits without division\<close>

lemma and_15: "(x::nat) AND 15 = x mod 16"
proof -
  have "(15::nat) = mask 4" by (simp add: mask_eq_exp_minus_1)
  then show ?thesis by (simp only: take_bit_eq_mask [symmetric] take_bit_eq_mod) simp
qed

lemma and_7: "(x::nat) AND 7 = x mod 8"
proof -
  have "(7::nat) = mask 3" by (simp add: mask_eq_exp_minus_1)
  then show ?thesis by (simp only: take_bit_eq_mask [symmetric] take_bit_eq_mod) simp
qed

lemma drop_bit_eqI: "(x::nat) = r + 2 ^ k * e \<Longrightarrow> r < 2 ^ k \<Longrightarrow> drop_bit k x = e"
  by (simp add: drop_bit_eq_div)

lemma div_mod_10: "(n::nat) = r + 10 * m \<Longrightarrow> r < 10 \<Longrightarrow> n div 10 = m \<and> n mod 10 = r"
  by simp

lemma mod_10_less: "(n::nat) mod 10 < 10" by simp

lemma dd: "(q::nat) div 10 div 10 = q div 100" "q div 100 div 10 = q div 1000"
    "q div 1000 div 10 = q div 10000" "q div 10000 div 10 = q div 100000"
  by (simp_all flip: div_mult2_eq)

lemma div_205: "d < 400 \<Longrightarrow> drop_bit 11 (d * 205) = (d::nat) div 10"
proof -
  assume d: "d < 400"
  obtain e r where er: "e = d div 10" "r = d mod 10" by blast
  have de: "d = 10 * e + r" "r < 10" unfolding er by simp_all
  have "e < 40" using d unfolding er by simp
  show ?thesis unfolding er(1) [symmetric]
    by (rule drop_bit_eqI [of _ "2 * e + 205 * r"]) (use de \<open>e < 40\<close> in simp_all)
qed

lemma div_13: "d < 69 \<Longrightarrow> drop_bit 7 (d * 13) = (d::nat) div 10"
proof -
  assume d: "d < 69"
  obtain e r where er: "e = d div 10" "r = d mod 10" by blast
  have de: "d = 10 * e + r" "r < 10" unfolding er by simp_all
  have "2 * e + 13 * r < 128"
  proof (cases "e < 6")
    case True
    with de(2) show ?thesis by linarith
  next
    case False
    then have "e = 6" "r < 9" using d de by linarith+
    then show ?thesis by simp
  qed
  then show ?thesis unfolding er(1) [symmetric]
    by (intro drop_bit_eqI [of _ "2 * e + 13 * r"]) (use de in simp_all)
qed

lemma sub_10: "(d::nat) < 400 \<Longrightarrow> u32_sub d (10 * (d div 10)) = d mod 10"
  and sub64_10: "(d::nat) < 400 \<Longrightarrow> u64_sub d (10 * (d div 10)) = d mod 10"
proof -
  assume d: "d < 400"
  have e: "10 * (d div 10) + d mod 10 = d" by simp
  have "u32_sub d (10 * (d div 10)) = d - 10 * (d div 10)" using d e by (intro u32_sub_id) arith+
  then show "u32_sub d (10 * (d div 10)) = d mod 10" using e by arith
  let ?x = "10 * (d div 10)"
  have "u64 ?x = ?x" using d e by (intro u64_id) arith
  moreover have "d + 18446744073709551616 - ?x = d mod 10 + 18446744073709551616" using e by arith
  ultimately have "u64_sub d ?x = (d mod 10 + 18446744073709551616) mod 18446744073709551616"
    by (simp only: u64_sub_def u64_def)
  also have "\<dots> = d mod 10" by simp
  finally show "u64_sub d ?x = d mod 10" .
qed

text \<open>Jones' decomposition: with the hexadecimal digits of \<open>q\<close>, each sum is the rest of the
  number in units of ten.\<close>

lemma jones:
  fixes q d0 d1 d2 d3 a0 a1 a2 a3 :: nat
  assumes q: "q < 100000"
    and d: "d0 = q mod 16" "d1 = q div 16 mod 16" "d2 = q div 256 mod 16" "d3 = q div 4096"
    and a: "a0 = 6 * (d3 + d2 + d1) + d0" "a1 = a0 div 10 + 9 * d3 + 5 * d2 + d1"
      "a2 = a1 div 10 + 2 * d2" "a3 = a2 div 10 + 4 * d3"
  shows "a0 < 400" "a1 < 400" "a2 < 69" "a3 < 400"
    and "a0 mod 10 = q mod 10" "a1 mod 10 = q div 10 mod 10" "a2 mod 10 = q div 100 mod 10"
    and "a3 mod 10 = q div 1000 mod 10" "a3 div 10 = q div 10000"
    and "a1 = 0 \<longleftrightarrow> q div 10 = 0" "a2 = 0 \<and> d3 = 0 \<longleftrightarrow> q div 100 = 0" "a3 = 0 \<longleftrightarrow> q div 1000 = 0"
proof -
  have "q = d0 + 16 * (q div 16)" "q div 16 = d1 + 16 * (q div 256)" "q div 256 = d2 + 16 * d3"
    using d div_mult2_eq [of q 16 16] div_mult2_eq [of q 256 16] by simp_all
  then have hex: "q = d0 + 16 * d1 + 256 * d2 + 4096 * d3" by linarith
  have b: "d0 < 16" "d1 < 16" "d2 < 16" "d3 < 25" using q d by (simp_all add: less_mult_imp_div_less)
  then have b: "d0 \<le> 15" "d1 \<le> 15" "d2 \<le> 15" "d3 \<le> 24" by simp_all
  have a0: "a0 \<le> 339" unfolding a(1) distrib_left using b by linarith
  then show "a0 < 400" by linarith
  from a0 have "a0 div 10 \<le> 33" by simp
  then have a1: "a1 \<le> 339" unfolding a(2) using b by linarith
  then show "a1 < 400" by linarith
  from a1 have "a1 div 10 \<le> 33" by simp
  then show a2: "a2 < 69" unfolding a(3) using b by linarith
  then have "a2 div 10 \<le> 6" by simp
  then show "a3 < 400" unfolding a(4) using b by linarith
  have e: "a0 = 10 * (a0 div 10) + a0 mod 10" by simp
  have a': "a0 = 6 * d3 + 6 * d2 + 6 * d1 + d0" using a(1) by simp
  have "q = a0 mod 10 + (10 * a1 + 200 * d2 + 4000 * d3)" using hex a' a(2) e by linarith
  then have "q = a0 mod 10 + 10 * (a1 + 20 * d2 + 400 * d3)" by simp
  note m0 = div_mod_10 [OF this mod_10_less]
  note q1 = m0 [THEN conjunct1]
  show "a0 mod 10 = q mod 10" using m0 [THEN conjunct2] by (rule sym)
  show "a1 = 0 \<longleftrightarrow> q div 10 = 0" unfolding q1 a(2) by auto
  have e1: "a1 = 10 * (a1 div 10) + a1 mod 10" by simp
  have "q div 10 = a1 mod 10 + (10 * a2 + 400 * d3)" using q1 a(3) e1 by linarith
  then have "q div 10 = a1 mod 10 + 10 * (a2 + 40 * d3)" by simp
  note m1 = div_mod_10 [OF this mod_10_less]
  show "a1 mod 10 = q div 10 mod 10" using m1 [THEN conjunct2] by (rule sym)
  have q2: "q div 100 = a2 + 40 * d3" using m1 [THEN conjunct1] by (simp only: dd)
  show "a2 = 0 \<and> d3 = 0 \<longleftrightarrow> q div 100 = 0" unfolding q2 by auto
  have e2: "a2 = 10 * (a2 div 10) + a2 mod 10" by simp
  have "q div 100 = a2 mod 10 + 10 * a3" using q2 a(4) e2 by linarith
  note m2 = div_mod_10 [OF this mod_10_less]
  show "a2 mod 10 = q div 100 mod 10" using m2 [THEN conjunct2] by (rule sym)
  have q3: "q div 1000 = a3" using m2 [THEN conjunct1] by (simp only: dd)
  show "a3 mod 10 = q div 1000 mod 10" "a3 = 0 \<longleftrightarrow> q div 1000 = 0" unfolding q3 by (rule refl)+
  show "a3 div 10 = q div 10000" unfolding q3 [symmetric] by (simp only: dd)
qed

definition dec_chars :: "nat \<Rightarrow> byte list" where
  "dec_chars n = (if n = 0 then [48] else map (\<lambda>d. d + 48) (digits_lsb 10 n))"

lemma u8_digit: "u8 (x mod 10 + 48) = x mod 10 + 48"
proof -
  have "x mod 10 < 10" by simp
  then show ?thesis by (intro u8_id) arith
qed

lemma put_dec_full_eq:
  assumes "q < 100000"
  shows "put_dec_full q = map (\<lambda>d. d + 48)
    [q mod 10, q div 10 mod 10, q div 100 mod 10, q div 1000 mod 10, q div 10000]"
proof -
  define d1 d2 d3 where ds: "d1 = q div 16 mod 16" "d2 = q div 256 mod 16" "d3 = q div 4096"
  define a0 where a0: "a0 = 6 * (d3 + d2 + d1) + q mod 16"
  define a1 where a1: "a1 = a0 div 10 + 9 * d3 + 5 * d2 + d1"
  define a2 where a2: "a2 = a1 div 10 + 2 * d2"
  define a3 where a3: "a3 = a2 div 10 + 4 * d3"
  note j = jones [OF assms refl ds a0 a1 a2 a3]
  have q: "drop_bit 4 q AND 15 = d1" "drop_bit 8 q AND 15 = d2" "drop_bit 12 q = d3" "q AND 15 = q mod 16"
    by (simp_all add: and_15 drop_bit_eq_div ds)
  have "q div 10000 < 10" using assms by simp
  then have "u8 (a3 div 10 + 48) = q div 10000 + 48" using j(9) by simp
  then show ?thesis
    using j(3) unfolding put_dec_full_def Let_def q
    by (simp only: a0 [symmetric] div_205 [OF j(1)] a1 [symmetric] div_205 [OF j(2)] a2 [symmetric]
        div_13 [OF j(3)] a3 [symmetric] div_205 [OF j(4)] sub64_10 [OF j(1)] sub64_10 [OF j(2)]
        sub64_10 [OF less_trans [OF j(3)]] sub64_10 [OF j(4)] u8_digit j(5-8)) simp
qed

lemma put_dec_trunc_eq:
  assumes "q < 100000"
  shows "put_dec_trunc q = dec_chars q"
proof -
  define d1 d2 d3 where ds: "d1 = q div 16 mod 16" "d2 = q div 256 mod 16" "d3 = q div 4096"
  define a0 where a0: "a0 = 6 * (d3 + d2 + d1) + q mod 16"
  define a1 where a1: "a1 = a0 div 10 + 9 * d3 + 5 * d2 + d1"
  define a2 where a2: "a2 = a1 div 10 + 2 * d2"
  define a3 where a3: "a3 = a2 div 10 + 4 * d3"
  note j = jones [OF assms refl ds a0 a1 a2 a3]
  have q: "drop_bit 4 q AND 15 = d1" "drop_bit 8 q AND 15 = d2" "drop_bit 12 q = d3" "q AND 15 = q mod 16"
    by (simp_all add: and_15 drop_bit_eq_div ds)
  have a2': "a2 < 400" using j(3) by simp
  have b: "q div 10000 < 10" using assms by simp
  then have u: "u8 (q div 10000 + 48) = q div 10000 + 48" by simp
  have "put_dec_trunc q = u8 (a0 mod 10 + 48) # (if a1 \<noteq> 0 then u8 (a1 mod 10 + 48) #
      (if a2 \<noteq> 0 \<or> d3 \<noteq> 0 then u8 (a2 mod 10 + 48) # (if a3 \<noteq> 0 then u8 (a3 mod 10 + 48) #
      (if a3 div 10 \<noteq> 0 then [u8 (a3 div 10 + 48)] else []) else []) else []) else [])"
    unfolding put_dec_trunc_def Let_def q
    by (simp only: a0 [symmetric] div_205 [OF j(1)] a1 [symmetric] div_205 [OF j(2)] a2 [symmetric]
        div_13 [OF j(3)] a3 [symmetric] div_205 [OF j(4)] sub_10 [OF j(1)] sub_10 [OF j(2)]
        sub_10 [OF a2'] sub_10 [OF j(4)])
  also have "\<dots> = (q mod 10 + 48) # (if q div 10 \<noteq> 0 then (q div 10 mod 10 + 48) #
      (if q div 100 \<noteq> 0 then (q div 100 mod 10 + 48) # (if q div 1000 \<noteq> 0 then (q div 1000 mod 10 + 48) #
      (if q div 10000 \<noteq> 0 then [q div 10000 + 48] else []) else []) else []) else [])"
    using j(10-12) u by (simp only: j(5-9) u8_digit) auto
  also have "\<dots> = dec_chars q"
  proof -
    have m: "q div 10000 mod 10 = q div 10000" "q div 100000 = 0" using b assms by simp_all
    have ds: "digits_lsb 10 n = (if n = 0 then [] else n mod 10 # digits_lsb 10 (n div 10))" for n
      by (subst digits_lsb.simps) simp
    show ?thesis
      by (simp add: dec_chars_def ds [of q] ds [of "q div 10"] ds [of "q div 100"] ds [of "q div 1000"]
          ds [of "q div 10000"] dd m)
  qed
  finally show ?thesis .
qed


lemma digits_lsb_5:
  assumes "100000 \<le> n"
  shows "digits_lsb 10 n = [n mod 10, n div 10 mod 10, n div 100 mod 10, n div 1000 mod 10,
    n div 10000 mod 10] @ digits_lsb 10 (n div 100000)"
proof -
  have nz: "0 < n" "0 < n div 10" "0 < n div 100" "0 < n div 1000" "0 < n div 10000"
    using assms by (simp_all add: div_greater_zero_iff)
  have st: "0 < m \<Longrightarrow> digits_lsb 10 m = m mod 10 # digits_lsb 10 (m div 10)" for m
    by (rule digits_lsb_step) simp_all
  show ?thesis by (simp only: st [OF nz(1)] st [OF nz(2)] st [OF nz(3)] st [OF nz(4)] st [OF nz(5)] dd
      append.simps)
qed

lemma mod_100000: "(n::nat) mod 100000 mod 10 = n mod 10" "n mod 100000 div 10 mod 10 = n div 10 mod 10"
  "n mod 100000 div 100 mod 10 = n div 100 mod 10" "n mod 100000 div 1000 mod 10 = n div 1000 mod 10"
  "n mod 100000 div 10000 = n div 10000 mod 10"
proof -
  have k: "n mod (k * c) div k = n div k mod c" if "0 < k" for k c
    using that by (simp add: mod_mult2_eq)
  show "n mod 100000 mod 10 = n mod 10" by (simp add: mod_mod_cancel)
  show "n mod 100000 div 10 mod 10 = n div 10 mod 10" using k [of 10 10000] by (simp add: mod_mod_cancel)
  show "n mod 100000 div 100 mod 10 = n div 100 mod 10" using k [of 100 1000] by (simp add: mod_mod_cancel)
  show "n mod 100000 div 1000 mod 10 = n div 1000 mod 10" using k [of 1000 100] by (simp add: mod_mod_cancel)
  show "n mod 100000 div 10000 = n div 10000 mod 10" using k [of 10000 10] by simp
qed

lemma put_dec_eq: "put_dec n = dec_chars n"
proof (induction n rule: put_dec.induct)
  case (1 n)
  show ?case
  proof (cases "n < 100000")
    case True
    then show ?thesis by (subst put_dec.simps) (simp add: put_dec_trunc_eq)
  next
    case False
    then have IH: "put_dec (n div 100000) = map (\<lambda>d. d + 48) (digits_lsb 10 (n div 100000))"
      using 1 by (simp add: dec_chars_def)
    have "put_dec n = put_dec_full (n mod 100000) @ put_dec (n div 100000)"
      using False by (subst put_dec.simps) simp
    also have "put_dec_full (n mod 100000) = map (\<lambda>d. d + 48)
        [n mod 10, n div 10 mod 10, n div 100 mod 10, n div 1000 mod 10, n div 10000 mod 10]"
      using put_dec_full_eq [of "n mod 100000"] by (simp only: mod_100000)
    finally show ?thesis using False IH digits_lsb_5 [of n] by (simp add: dec_chars_def)
  qed
qed

section \<open>Digits of bases eight and sixteen\<close>

definition hex_char :: "nat \<Rightarrow> nat \<Rightarrow> byte" where
  "hex_char locase d = (cstr ''0123456789ABCDEF'' ! d) OR locase"

lemma pow2_digits_eq:
  assumes k: "k = 3 \<or> k = 4" and n: "0 < n"
  shows "pow2_digits (2 ^ k - 1) k locase n = map (hex_char locase) (digits_lsb (2 ^ k) n)"
  using n
proof (induction n rule: less_induct)
  case (less n)
  have b: "(2::nat) \<le> 2 ^ k" "(1::nat) < 2 ^ k" "k \<noteq> 0" using k by auto
  have dig: "u8 n AND (2 ^ k - 1) = n mod 2 ^ k"
  proof -
    have "u8 n mod 2 ^ k = n mod 2 ^ k" using k by (auto simp: u8_def mod_mod_cancel)
    then show ?thesis using k by (auto simp: and_15 and_7)
  qed
  have "digits_lsb (2 ^ k) n = n mod 2 ^ k # digits_lsb (2 ^ k) (n div 2 ^ k)"
    using digits_lsb_step [OF less.prems b(1)] .
  moreover have "pow2_digits (2 ^ k - 1) k locase (n div 2 ^ k) =
      map (hex_char locase) (digits_lsb (2 ^ k) (n div 2 ^ k))" if "n div 2 ^ k \<noteq> 0"
    using less.IH [of "n div 2 ^ k"] that less.prems b(2) by simp
  ultimately show ?case
    using b(3) by (subst pow2_digits.simps) (auto simp: dig [unfolded One_nat_def] hex_char_def drop_bit_eq_div)
qed

text \<open>The digits of a number, most significant first: the reference for \<open>number_digits\<close>.\<close>

definition numeral_text :: "nat \<Rightarrow> nat \<Rightarrow> nat \<Rightarrow> byte list" where
  "numeral_text base locase n =
    (if n = 0 then [asc CHR ''0'']
     else rev (map (if base = 10 then (\<lambda>d. d + 48) else hex_char locase) (digits_lsb base n)))"

lemma number_digits_eq:
  "base \<in> {8, 10, 16} \<Longrightarrow> rev (number_digits base locase n) = numeral_text base locase n"
  using pow2_digits_eq [of 3 n locase] pow2_digits_eq [of 4 n locase] put_dec_eq [of n]
  by (auto simp: number_digits_def numeral_text_def dec_chars_def)

lemma numeral_text_length: "base \<in> {8, 10, 16} \<Longrightarrow> n < 18446744073709551616 \<Longrightarrow>
    0 < length (numeral_text base locase n) \<and> length (numeral_text base locase n) \<le> 22"
proof -
  assume b: "base \<in> {8, 10, 16}" and n: "n < 18446744073709551616"
  have "n < base ^ 22"
  proof -
    have "(18446744073709551616::nat) \<le> 8 ^ 22" by simp
    also have "(8::nat) ^ 22 \<le> base ^ 22" using b by (intro power_mono) auto
    finally show ?thesis using n by simp
  qed
  then have "length (digits_lsb base n) \<le> 22" using b by (intro digits_lsb_length) auto
  moreover have "n \<noteq> 0 \<Longrightarrow> 0 < length (digits_lsb base n)" using b digits_lsb_step [of n base] by auto
  ultimately show ?thesis by (simp add: numeral_text_def)
qed

section \<open>The padding loops\<close>

lemma pad_ge_eq:
  "-32768 < w \<Longrightarrow> w < 32768 \<Longrightarrow>
   pad_ge o' c w = (emits o' (replicate (nat w) c), if 0 < w then -1 else w - 1)"
proof (induction o' c w rule: pad_ge.induct)
  case (1 o' c w)
  then have s: "s16 (w - 1) = w - 1" by simp
  show ?case
  proof (cases "0 < w")
    case True
    then have "nat w = Suc (nat (w - 1))" by simp
    with 1 True s show ?thesis by (subst pad_ge.simps) (auto simp: Let_def)
  next
    case False
    with s show ?thesis by (subst pad_ge.simps) simp
  qed
qed

lemma pad_prec_eq:
  "0 \<le> i \<Longrightarrow> i \<le> p \<Longrightarrow> p < 32768 \<Longrightarrow>
   pad_prec o' i p = emits o' (replicate (nat (p - i)) (asc CHR ''0''))"
proof (induction o' i p rule: pad_prec.induct)
  case (1 o' i p)
  then have s: "s16 (p - 1) = p - 1" by simp
  show ?case
  proof (cases "i < p")
    case True
    then have "nat (p - i) = Suc (nat (p - 1 - i))" using 1 by simp
    with 1 True s show ?thesis by (subst pad_prec.simps) (simp add: Let_def)
  next
    case False
    with 1 s show ?thesis by (subst pad_prec.simps) simp
  qed
qed

text \<open>Whatever the width, each loop emits some number of pads that only depends on the width.\<close>

lemma s16_rel_induct:
  fixes w :: int
  assumes "\<And>w. (0 \<le> s16 (w - 1) \<Longrightarrow> P (s16 (w - 1))) \<Longrightarrow> P w"
  shows "P w"
proof (induction "nat (s16 (w - 1) + 1)" arbitrary: w rule: less_induct)
  case less
  show ?case
  proof (rule assms)
    assume a: "0 \<le> s16 (w - 1)"
    from s16_pred_less [OF this] a show "P (s16 (w - 1))" by (intro less) linarith
  qed
qed

definition textual :: "(out \<Rightarrow> out \<times> int) \<Rightarrow> bool" where
  "textual f \<longleftrightarrow> (\<exists>t w. \<forall>o'. f o' = (emits o' t, w))"

lemma textual_none: "textual (\<lambda>o'. (o', w))"
  unfolding textual_def by (rule exI [of _ "[]"]) simp

lemma textual_emit: "textual f \<Longrightarrow> textual (\<lambda>o'. f (emit o' c))"
  unfolding textual_def
proof (elim exE)
  fix t w assume "\<forall>o'. f o' = (emits o' t, w)"
  then have "\<forall>o'. f (emit o' c) = (emits o' (c # t), w)" by simp
  then show "\<exists>t w. \<forall>o'. f (emit o' c) = (emits o' t, w)" by blast
qed

lemma pad_ge_textual: "textual (\<lambda>o'. pad_ge o' c w)"
proof (induction w rule: s16_rel_induct)
  case (1 w)
  show ?case
  proof (cases "0 \<le> s16 (w - 1)")
    case True
    from textual_emit [OF 1 [OF this]] True show ?thesis by (subst pad_ge.simps) (simp add: Let_def)
  next
    case False
    with textual_none show ?thesis by (subst pad_ge.simps) (simp add: Let_def)
  qed
qed

lemma pad_gt_textual: "textual (\<lambda>o'. pad_gt o' c w)"
proof (induction w rule: s16_rel_induct)
  case (1 w)
  show ?case
  proof (cases "0 < s16 (w - 1)")
    case True
    from textual_emit [OF 1] True show ?thesis by (subst pad_gt.simps) (simp add: Let_def)
  next
    case False
    with textual_none show ?thesis by (subst pad_gt.simps) (simp add: Let_def)
  qed
qed

lemma pad_prec_textual: "textual (\<lambda>o'. (pad_prec o' i w, 0))"
proof (induction w rule: s16_rel_induct)
  case (1 w)
  show ?case
  proof (cases "i \<le> s16 (w - 1) \<and> 0 \<le> i")
    case True
    with 1 have "textual (\<lambda>o'. (pad_prec o' i (s16 (w - 1)), 0))" by simp
    from textual_emit [OF this] True show ?thesis by (subst pad_prec.simps) (simp add: Let_def)
  next
    case False
    then show ?thesis by (subst pad_prec.simps) (simp only: Let_def False if_False textual_none)
  qed
qed

lemma pad_lt_textual: "textual (\<lambda>o'. pad_lt o' c len w)"
proof (induction "if w < 32768 then nat w else nat (w + 65536)" arbitrary: w rule: less_induct)
  case less
  show ?case
  proof (cases "len < w \<and> 0 \<le> len")
    case True
    then have "0 < w" by simp
    then have "(if s16 (w - 1) < 32768 then nat (s16 (w - 1)) else nat (s16 (w - 1) + 65536)) <
        (if w < 32768 then nat w else nat (w + 65536))"
      using s16_bounds(2) [of "w - 1"] by (cases "w < 32768") auto
    from textual_emit [OF less [OF this]] True show ?thesis by (subst pad_lt.simps) simp
  next
    case False
    then show ?thesis by (subst pad_lt.simps) (simp only: False if_False textual_none)
  qed
qed


section \<open>The layout of a number\<close>

text \<open>The pieces \<open>number\<close> emits, once its four padding loops are known.\<close>

lemma number_skeleton:
  assumes sg: "number_sign num spec = (sc, n, w0)"
    and pfx: "pfx = (if flag spec SPECIAL \<and> sp_base spec \<noteq> 10
      then asc CHR ''0'' # (if sp_base spec = 16 then [asc CHR ''X'' OR (sp_flags spec AND SMALL)] else []) else [])"
    and w: "w = (if flag spec SPECIAL \<and> sp_base spec \<noteq> 10
      then (if sp_base spec = 16 then s16 (s16 (w0 - 1) - 1) else s16 (w0 - 1)) else w0)"
    and ds: "ds = rev (number_digits (sp_base spec) (sp_flags spec AND SMALL) n)"
    and pr: "pr = (if int (length ds) > sp_precision spec then s16 (int (length ds)) else sp_precision spec)"
    and p1: "\<And>o'. (if \<not> (flag spec ZEROPAD \<and> \<not> flag spec LEFT) \<and> \<not> flag spec LEFT
      then pad_ge o' (asc CHR '' '') (s16 (w - pr)) else (o', s16 (w - pr))) = (emits o' t1, w1)"
    and p2: "\<And>o'. (if \<not> flag spec LEFT
      then pad_ge o' (if flag spec ZEROPAD \<and> \<not> flag spec LEFT then asc CHR ''0'' else asc CHR '' '') w1
      else (o', w1)) = (emits o' t2, w2)"
    and p3: "\<And>o'. pad_prec o' (int (length ds)) pr = emits o' t3"
    and p4: "\<And>o'. fst (pad_ge o' (asc CHR '' '') w2) = emits o' t4"
  shows "number o' num spec =
    emits o' (t1 @ (if sc = 0 then [] else [sc]) @ pfx @ t2 @ t3 @ ds @ t4)"
proof -
  have len: "length (number_digits (sp_base spec) (sp_flags spec AND SMALL) n) = length ds"
    and rv: "rev (number_digits (sp_base spec) (sp_flags spec AND SMALL) n) = ds"
    using ds by simp_all
  have sc: "(if sc \<noteq> 0 then emit o' sc else o') = emits o' (if sc = 0 then [] else [sc])" for o'
    by simp
  have px: "(if flag spec SPECIAL \<and> sp_base spec \<noteq> 10 then
      let o' = emit o' (asc CHR ''0'') in if sp_base spec = 16
        then emit o' (asc CHR ''X'' OR (sp_flags spec AND SMALL)) else o' else o') = emits o' pfx" for o'
    by (simp add: pfx Let_def del: asc_Char)
  show ?thesis
    unfolding number_def Let_def sg prod.case len rv w [symmetric] pr [symmetric] p1 sc
      px [unfolded Let_def] p2 p3 p4
    by (simp only: emits_append)
qed

lemma emits_textual: "\<exists>t. \<forall>o'. number o' num spec = emits o' t"
proof -
  obtain sc n w0 where sg: "number_sign num spec = (sc, n, w0)" by (cases "number_sign num spec")
  define w where "w = (if flag spec SPECIAL \<and> sp_base spec \<noteq> 10
      then (if sp_base spec = 16 then s16 (s16 (w0 - 1) - 1) else s16 (w0 - 1)) else w0)"
  define ds where "ds = rev (number_digits (sp_base spec) (sp_flags spec AND SMALL) n)"
  define pr where "pr = (if int (length ds) > sp_precision spec then s16 (int (length ds)) else sp_precision spec)"
  let ?f = "\<lambda>o'. if \<not> (flag spec ZEROPAD \<and> \<not> flag spec LEFT) \<and> \<not> flag spec LEFT
      then pad_ge o' (asc CHR '' '') (s16 (w - pr)) else (o', s16 (w - pr))"
  have "textual ?f"
    by (cases "flag spec LEFT"; cases "flag spec ZEROPAD") (simp_all add: textual_none pad_ge_textual del: asc_Char)
  then obtain t1 w1 where p1: "\<And>o'. ?f o' = (emits o' t1, w1)" unfolding textual_def by blast
  let ?g = "\<lambda>o'. if \<not> flag spec LEFT
      then pad_ge o' (if flag spec ZEROPAD \<and> \<not> flag spec LEFT then asc CHR ''0'' else asc CHR '' '') w1
      else (o', w1)"
  have "textual ?g" by (cases "flag spec LEFT") (simp_all add: textual_none pad_ge_textual del: asc_Char)
  then obtain t2 w2 where p2: "\<And>o'. ?g o' = (emits o' t2, w2)" unfolding textual_def by blast
  obtain t3 where p3: "\<And>o'. pad_prec o' (int (length ds)) pr = emits o' t3"
    using pad_prec_textual [of "int (length ds)" pr] unfolding textual_def by auto
  obtain t4 where p4: "\<And>o'. fst (pad_ge o' (asc CHR '' '') w2) = emits o' t4"
    using pad_ge_textual [of "asc CHR '' ''" w2] unfolding textual_def by (metis fst_conv)
  from number_skeleton [OF sg refl w_def ds_def pr_def p1 p2 p3 p4] show ?thesis by blast
qed

definition number_ref :: "nat \<Rightarrow> printf_spec \<Rightarrow> byte list" where
  "number_ref num spec =
    (let neg = (flag spec SIGN \<and> 9223372036854775808 \<le> num);
         locase = sp_flags spec AND SMALL;
         sc = (if neg then [asc CHR ''-'']
                else if flag spec SIGN \<and> flag spec PLUS then [asc CHR ''+'']
                else if flag spec SIGN \<and> flag spec SPACE then [asc CHR '' ''] else []);
         pfx = (if flag spec SPECIAL \<and> sp_base spec \<noteq> 10
                then asc CHR ''0'' # (if sp_base spec = 16 then [asc CHR ''X'' OR locase] else []) else []);
         ds = numeral_text (sp_base spec) locase (if neg then 18446744073709551616 - num else num);
         body = replicate (nat (sp_precision spec) - length ds) (asc CHR ''0'') @ ds;
         pad = nat (sp_width spec) - (length sc + length pfx + length body)
     in if flag spec LEFT then sc @ pfx @ body @ replicate pad (asc CHR '' '')
        else if flag spec ZEROPAD then sc @ pfx @ replicate pad (asc CHR ''0'') @ body
        else replicate pad (asc CHR '' '') @ sc @ pfx @ body)"

definition spec_ok :: "printf_spec \<Rightarrow> bool" where
  "spec_ok spec \<longleftrightarrow> sp_base spec \<in> {8, 10, 16} \<and> -1 \<le> sp_width spec \<and> sp_width spec < 32768 \<and>
    -1 \<le> sp_precision spec \<and> sp_precision spec < 32000"

lemma u64_sub_0: "0 < n \<Longrightarrow> n < 18446744073709551616 \<Longrightarrow> u64_sub 0 n = 18446744073709551616 - n"
  by (simp add: u64_sub_def)

text \<open>The number printer lays out any 64-bit value as C99 says: sign or plus or space, prefix,
  at least \<open>precision\<close> digits of the value in base 8, 10 or 16, padded to the field width with
  spaces on the left, zeros after the prefix, or spaces on the right.  The reference text is
  defined with the positional numeral; the code builds decimal digits without dividing.\<close>

lemma number_layout_eq:
  assumes "spec_ok spec" "num < 18446744073709551616"
  shows "number o' num spec = emits o' (number_ref num spec)"
proof -
  obtain sc n w0 where sg: "number_sign num spec = (sc, n, w0)" by (cases "number_sign num spec")
  let ?neg = "flag spec SIGN \<and> 9223372036854775808 \<le> num" and ?lo = "sp_flags spec AND SMALL"
  define pfx where pfx: "pfx = (if flag spec SPECIAL \<and> sp_base spec \<noteq> 10
      then asc CHR ''0'' # (if sp_base spec = 16 then [asc CHR ''X'' OR ?lo] else []) else [])"
  define w where w: "w = (if flag spec SPECIAL \<and> sp_base spec \<noteq> 10
      then (if sp_base spec = 16 then s16 (s16 (w0 - 1) - 1) else s16 (w0 - 1)) else w0)"
  define ds where ds: "ds = rev (number_digits (sp_base spec) ?lo n)"
  define pr where pr: "pr = (if int (length ds) > sp_precision spec then s16 (int (length ds)) else sp_precision spec)"
  define sl where sl: "sl = (if sc = 0 then [] else [sc])"
  have ok: "sp_base spec \<in> {8, 10, 16}" "-1 \<le> sp_width spec" "sp_width spec < 32768"
    "-1 \<le> sp_precision spec" "sp_precision spec < 32000" using assms(1) by (auto simp: spec_ok_def)
  have n: "n = (if ?neg then 18446744073709551616 - num else num)"
    and sl_eq: "sl = (if ?neg then [asc CHR ''-''] else if flag spec SIGN \<and> flag spec PLUS then [asc CHR ''+'']
        else if flag spec SIGN \<and> flag spec SPACE then [asc CHR '' ''] else [])"
    and w0: "w0 = sp_width spec - int (length sl)"
    using sg assms(2) ok unfolding sl
    by (auto simp: number_sign_def u64_sub_0 split: if_splits)
  then have n64: "n < 18446744073709551616" using assms(2) by auto
  have ds_eq: "ds = numeral_text (sp_base spec) ?lo n" using number_digits_eq [OF ok(1)] ds by simp
  have dl: "0 < length ds" "length ds \<le> 22" using numeral_text_length [OF ok(1) n64] ds_eq by auto
  have sl1: "length sl \<le> 1" unfolding sl by simp
  have pl: "length pfx \<le> 2" unfolding pfx by simp
  have weq: "w = sp_width spec - int (length sl) - int (length pfx)"
    using ok sl1 unfolding w pfx w0 by auto
  have preq: "pr = int (max (length ds) (nat (sp_precision spec)))"
    using dl ok unfolding pr by auto
  define x where x: "x = w - pr"
  have xb: "-32010 < x" "x < 32768" using weq preq ok sl1 pl dl unfolding x by auto
  then have sx: "s16 (w - pr) = x" unfolding x by simp
  define body where "body = replicate (nat (sp_precision spec) - length ds) (asc CHR ''0'') @ ds"
  have bl: "int (length body) = pr" unfolding body_def preq by simp
  have pad: "nat (sp_width spec) - (length sl + length pfx + length body) = nat x"
    using bl unfolding x weq by auto
  have p3: "pad_prec o' (int (length ds)) pr =
      emits o' (replicate (nat (sp_precision spec) - length ds) (asc CHR ''0''))" for o'
  proof -
    have "nat (pr - int (length ds)) = nat (sp_precision spec) - length ds" unfolding preq by auto
    then show ?thesis
      using pad_prec_eq [of "int (length ds)" pr o'] dl ok unfolding preq by simp
  qed
  define y where "y = (if 0 < x then -1 else x - 1)"
  have yb: "-32768 < y" "y < 0" "-32768 < y - 1" using xb unfolding y_def by auto
  have neg: "v \<le> 0 \<Longrightarrow> -32768 < v \<Longrightarrow> pad_ge o' c v = (emits o' [], v - 1)" for v c o'
    using pad_ge_eq [of v o' c] by simp
  have pos: "pad_ge o' c x = (emits o' (replicate (nat x) c), y)" for o' c
    using pad_ge_eq [of x o' c] xb unfolding y_def by simp
  have p4: "fst (pad_ge o' c v) = emits o' []" if "v \<le> 0" "-32768 < v" for v o' c
    using neg [OF that] by simp
  have p5: "fst (pad_ge o' c x) = emits o' (replicate (nat x) c)" for o' c
    by (subst pos) (rule fst_conv)
  have neg_y: "pad_ge o' c y = (emits o' [], y - 1)" "fst (pad_ge o' c y) = emits o' []"
    "fst (pad_ge o' c (y - 1)) = emits o' []" for o' c
    using neg [of y o' c] p4 [of y o' c] p4 [of "y - 1" o' c] yb by simp_all
  note sk = number_skeleton [OF sg pfx w ds pr _ _ p3]
  consider (L) "flag spec LEFT" | (Z) "\<not> flag spec LEFT" "flag spec ZEROPAD"
    | (S) "\<not> flag spec LEFT" "\<not> flag spec ZEROPAD" by blast
  then have "number o' num spec = emits o'
    (if flag spec LEFT then sl @ pfx @ body @ replicate (nat x) (asc CHR '' '')
     else if flag spec ZEROPAD then sl @ pfx @ replicate (nat x) (asc CHR ''0'') @ body
     else replicate (nat x) (asc CHR '' '') @ sl @ pfx @ body)"
  proof cases
    case L
    have "number o' num spec = emits o' ([] @ (if sc = 0 then [] else [sc]) @ pfx @ [] @
        replicate (nat (sp_precision spec) - length ds) (asc CHR ''0'') @ ds @ replicate (nat x) (asc CHR '' ''))"
      by (rule sk [where ?w1.0 = x and ?w2.0 = x]) (use L in \<open>simp_all add: sx p5 del: asc_Char\<close>)
    then show ?thesis using L by (simp add: sl body_def del: asc_Char)
  next
    case Z
    have "number o' num spec = emits o' ([] @ (if sc = 0 then [] else [sc]) @ pfx @
        replicate (nat x) (asc CHR ''0'') @
        replicate (nat (sp_precision spec) - length ds) (asc CHR ''0'') @ ds @ [])"
      by (rule sk [where ?w1.0 = x and ?w2.0 = y]) (use Z in \<open>simp_all add: sx pos neg_y del: asc_Char\<close>)
    then show ?thesis using Z by (simp add: sl body_def del: asc_Char)
  next
    case S
    have "number o' num spec = emits o' (replicate (nat x) (asc CHR '' '') @
        (if sc = 0 then [] else [sc]) @ pfx @ [] @
        replicate (nat (sp_precision spec) - length ds) (asc CHR ''0'') @ ds @ [])"
      by (rule sk [where ?w1.0 = y and ?w2.0 = "y - 1"])
        (use S in \<open>simp_all add: sx pos neg_y del: asc_Char\<close>)
    then show ?thesis using S by (simp add: sl body_def del: asc_Char)
  qed
  also have "(if flag spec LEFT then sl @ pfx @ body @ replicate (nat x) (asc CHR '' '')
     else if flag spec ZEROPAD then sl @ pfx @ replicate (nat x) (asc CHR ''0'') @ body
     else replicate (nat x) (asc CHR '' '') @ sl @ pfx @ body) = number_ref num spec"
    unfolding number_ref_def Let_def sl_eq [symmetric] pfx [symmetric] n [symmetric] ds_eq [symmetric]
      body_def [symmetric] pad by (rule refl)
  finally show ?thesis .
qed


text \<open>The number printer at work: minus forty-two in a field of six with leading zeros.\<close>

lemma number_layout_example:
  "number \<lparr>ob_buf = replicate 8 88, ob_pos = 0\<rparr> 18446744073709551574
     \<lparr>sp_type = FORMAT_TYPE_INT, sp_flags = 3, sp_base = 10, sp_qualifier = 0, sp_width = 6, sp_precision = -1\<rparr>
   = emits \<lparr>ob_buf = replicate 8 88, ob_pos = 0\<rparr> (cstr ''-00042'')"
proof -
  have z: "replicate 3 (48::nat) = [48, 48, 48]" by (simp add: numeral_3_eq_3)
  show ?thesis
    by (subst number_layout_eq)
      (simp_all add: spec_ok_def number_ref_def numeral_text_def flag_def flag_defs Let_def
        digits_lsb.simps z)
qed

section \<open>The truncation contract\<close>

lemma string_text_textual: "\<exists>t. \<forall>o'. string_text o' s spec = emits o' t"
proof -
  let ?f = "\<lambda>o'. if \<not> flag spec LEFT then pad_lt o' (asc CHR '' '') (int (length s)) (sp_width spec)
                        else (o', sp_width spec)"
  have "textual ?f" by (cases "flag spec LEFT") (simp_all add: textual_none pad_lt_textual del: asc_Char)
  then obtain t1 w where p1: "\<And>o'. ?f o' = (emits o' t1, w)" unfolding textual_def by blast
  obtain t2 w2 where p2: "\<And>o'. pad_lt o' (asc CHR '' '') (int (length s)) w = (emits o' t2, w2)"
    using pad_lt_textual unfolding textual_def by metis
  have "string_text o' s spec = emits o' (t1 @ s @ t2)" for o'
    unfolding string_text_def Let_def p1 prod.case p2 by (simp only: emits_append fst_conv)
  then show ?thesis by blast
qed

lemma char_conv_textual: "\<exists>t. \<forall>o'. char_conv o' c spec = emits o' t"
proof -
  let ?f = "\<lambda>o'. if \<not> flag spec LEFT then pad_gt o' (asc CHR '' '') (sp_width spec) else (o', sp_width spec)"
  have "textual ?f" by (cases "flag spec LEFT") (simp_all add: textual_none pad_gt_textual del: asc_Char)
  then obtain t1 w where p1: "\<And>o'. ?f o' = (emits o' t1, w)" unfolding textual_def by blast
  obtain t2 w2 where p2: "\<And>o'. pad_gt o' (asc CHR '' '') w = (emits o' t2, w2)"
    using pad_gt_textual unfolding textual_def by metis
  have "char_conv o' c spec = emits o' (t1 @ [c] @ t2)" for o'
    unfolding char_conv_def Let_def p1 prod.case p2 by (simp only: emits_append fst_conv emits.simps)
  then show ?thesis by blast
qed

text \<open>
  \<open>at_text b t args sts st\<close>: a state of the loop on a buffer of at most two gigabytes that started as \<open>b\<close>
  and has produced the text \<open>t\<close>.
\<close>

definition small :: "byte list \<Rightarrow> bool" where
  "small b \<longleftrightarrow> length b < 2147483648"

lemma copy_text_holds:
  assumes "holds b t o'" "small b"
  shows "\<exists>o''. copy_text o' s = Inr o'' \<and> holds b (t @ s) o''"
proof -
  have l: "length (ob_buf o') = length b" using holds_length [OF assms(1)] .
  let ?o = "o'\<lparr>ob_buf := (if ob_pos o' < length (ob_buf o')
      then put_mem (ob_buf o') (ob_pos o') (take (length (ob_buf o') - ob_pos o') s)
      else ob_buf o'), ob_pos := ob_pos o' + length s\<rparr>"
  have h: "holds b (t @ s) ?o" by (rule holds_memcpy [OF assms(1)])
  show ?thesis
  proof (cases "ob_pos o' < length b")
    case True
    then have r: "s32 (int (length b) - int (ob_pos o')) = int (length b - ob_pos o')"
      using assms(2) by (simp add: small_def)
    show ?thesis
    proof (cases "length b - ob_pos o' < length s")
      case big: True
      have "copy_text o' s = Inr ?o" using True r big by (simp add: copy_text_def l Let_def del: of_nat_diff)
      with h show ?thesis by blast
    next
      case False
      then have "copy_text o' s = Inr ?o" using True r by (simp add: copy_text_def l Let_def del: of_nat_diff)
      with h show ?thesis by blast
    qed
  next
    case False
    then have "copy_text o' s = Inr ?o" by (simp add: copy_text_def l)
    with h show ?thesis by blast
  qed
qed

definition at_text :: "byte list \<Rightarrow> byte list \<Rightarrow> va list \<Rightarrow> (addr \<times> nat) list \<Rightarrow> vstate \<Rightarrow> bool" where
  "at_text b t args sts st \<longleftrightarrow> holds b t (v_out st) \<and> v_args st = args \<and> v_stores st = sts"

text \<open>What an iteration does to the text, whatever the buffer is.\<close>

definition step_text :: "(addr \<Rightarrow> byte) \<Rightarrow> byte list \<Rightarrow> printf_spec \<Rightarrow> byte list \<Rightarrow> va list \<Rightarrow>
    (addr \<times> nat) list \<Rightarrow> (fmt_error + byte list \<times> printf_spec \<times> byte list \<times> va list \<times> (addr \<times> nat) list) \<Rightarrow> bool" where
  "step_text m fmt spec t args sts r \<longleftrightarrow> (\<forall>b st. small b \<longrightarrow> at_text b t args sts st \<longrightarrow>
    (case r of
       Inl x \<Rightarrow> vsn_step m fmt spec st = Inl x
     | Inr (fmt', spec', t', args', sts') \<Rightarrow>
         \<exists>st'. vsn_step m fmt spec st = Inr (fmt', spec', st') \<and> at_text b t' args' sts' st'))"


lemma pointer_textual: "\<exists>r. \<forall>o'. pointer fmt o' p spec = map_sum id (emits o') r"
proof -
  have a: "\<exists>r. \<forall>o'. Inr (f o') = map_sum id (emits o') r"
    if "\<exists>t. \<forall>o'. f o' = emits o' t" for f
  proof -
    from that obtain t where "\<forall>o'. f o' = emits o' t" by blast
    then have "\<forall>o'. Inr (f o') = map_sum id (emits o') (Inr t)" by simp
    then show ?thesis by blast
  qed
  have b: "\<exists>r. \<forall>o'. Inl x = map_sum id (emits o') r" for x by (rule exI [of _ "Inl x"]) simp
  show ?thesis
    unfolding pointer_def Let_def
    by (cases "p = 0"; cases "pk fmt \<in> set (cstr ''FfSsRrMmU'')";
        cases "pk fmt \<in> set (cstr ''Ii'') \<and> pk (tl fmt) \<in> set (cstr ''64'')")
      (simp_all only: if_True if_False simp_thms a [OF string_text_textual] a [OF emits_textual] b)
qed

lemma string_at_textual: "\<exists>r. \<forall>o'. string_at o' m p spec = map_sum id (emits o') r"
proof (cases "2147483648 \<le> strnlen m p (nat (sp_precision spec mod 4294967296))")
  case True
  then have "\<forall>o'. string_at o' m p spec = map_sum id (emits o') (Inl LongString)"
    by (simp add: string_at_def)
  then show ?thesis by blast
next
  case False
  obtain t where "\<forall>o'. string_text o' (map (\<lambda>i. m (u32_add p i))
      [0..<strnlen m p (nat (sp_precision spec mod 4294967296))]) spec = emits o' t"
    using string_text_textual by blast
  with False have "\<forall>o'. string_at o' m p spec = map_sum id (emits o') (Inr t)"
    by (simp add: string_at_def Let_def)
  then show ?thesis by blast
qed

lemma at_text_put:
  "at_text b t args sts st \<Longrightarrow>
   at_text b (t @ x) args' sts' (st\<lparr>v_out := emits (v_out st) x, v_args := args', v_stores := sts'\<rparr>)"
  by (simp add: at_text_def holds_emits)

lemma at_text_upd:
  assumes "at_text b t args sts st"
  shows "at_text b (t @ x) args sts (st\<lparr>v_out := emits (v_out st) x\<rparr>)"
    and "at_text b (t @ x) args' sts (st\<lparr>v_out := emits (v_out st) x, v_args := args'\<rparr>)"
    and "at_text b t args' sts (st\<lparr>v_args := args'\<rparr>)"
    and "at_text b t args' sts' (st\<lparr>v_args := args', v_stores := sts'\<rparr>)"
  using assms by (simp_all add: at_text_def holds_emits)

lemma vsn_step_textual: "\<exists>r. step_text m fmt spec t args sts r"
proof -
  obtain rest s where d: "format_decode fmt spec = (rest, s)" by force
  let ?ty = "sp_type s"
  let ?s = "\<lambda>st. vsn_step m fmt spec st"
  have start: "\<exists>r. step_text m fmt spec t args sts r"
    if "\<And>b st. small b \<Longrightarrow> at_text b t args sts st \<Longrightarrow>
      (case r of Inl x \<Rightarrow> ?s st = Inl x
       | Inr (fmt', spec', t', args', sts') \<Rightarrow>
           \<exists>st'. ?s st = Inr (fmt', spec', st') \<and> at_text b t' args' sts' st')" for r
    using that unfolding step_text_def by blast
  consider (N) "?ty = FORMAT_TYPE_NONE"
    | (P) "?ty \<in> {FORMAT_TYPE_PERCENT_CHAR, FORMAT_TYPE_INVALID}"
    | (L) "?ty \<in> {FORMAT_TYPE_LONG_LONG, FORMAT_TYPE_ULONG_LONG}"
    | (I) "?ty \<notin> {FORMAT_TYPE_NONE, FORMAT_TYPE_PERCENT_CHAR, FORMAT_TYPE_INVALID,
        FORMAT_TYPE_LONG_LONG, FORMAT_TYPE_ULONG_LONG}" by blast
  then show ?thesis
  proof cases
    case N
    let ?t = "take (length fmt - length rest) fmt"
    show ?thesis
    proof (rule start [of "Inr (rest, s, t @ ?t, args, sts)"])
      fix b st assume "small b" and at: "at_text b t args sts st"
      with copy_text_holds [of b t "v_out st" ?t] obtain o'' where
        "copy_text (v_out st) ?t = Inr o''" "holds b (t @ ?t) o''" by (auto simp: at_text_def)
      with at N d show "case Inr (rest, s, t @ ?t, args, sts) of Inl x \<Rightarrow> ?s st = Inl x
         | Inr (fmt', spec', t', args', sts') \<Rightarrow>
           \<exists>st'. ?s st = Inr (fmt', spec', st') \<and> at_text b t' args' sts' st'"
        by (simp add: vsn_step_def at_text_def)
    qed
  next
    case P
    show ?thesis
    proof (rule start [of "Inr (rest, s, t @ [asc CHR ''%''], args, sts)"])
      fix b st assume at: "at_text b t args sts st"
      from at_text_upd(1) [OF this, of "[asc CHR ''%'']"] P d
      show "case Inr (rest, s, t @ [asc CHR ''%''], args, sts) of Inl x \<Rightarrow> ?s st = Inl x
         | Inr (fmt', spec', t', args', sts') \<Rightarrow>
           \<exists>st'. ?s st = Inr (fmt', spec', st') \<and> at_text b t' args' sts' st'"
        by (auto simp: vsn_step_def Let_def simp del: asc_Char)
    qed
  next
    case L
    show ?thesis
    proof (cases "va_num ?ty args")
      case (Inl x)
      show ?thesis
        by (rule start [of "Inl x"]) (use L d Inl in \<open>auto simp: vsn_step_def Let_def at_text_def\<close>)
    next
      case (Inr nr)
      obtain n r where nr: "nr = (n, r)" by force
      obtain u where u: "\<forall>o'. number o' n s = emits o' u" using emits_textual by blast
      show ?thesis
        by (rule start [of "Inr (rest, s, t @ u, r, sts)"])
          (use L d Inr nr u at_text_upd(2) in \<open>auto simp: vsn_step_def Let_def at_text_def holds_emits\<close>)
    qed
  next
    case I
    show ?thesis
    proof (cases "va_int args")
      case (Inl x)
      show ?thesis
        by (rule start [of "Inl x"]) (use I d Inl in \<open>auto simp: vsn_step_def Let_def at_text_def\<close>)
    next
      case (Inr nr)
      obtain n r where nr: "nr = (n, r)" by force
      obtain u1 where u1: "\<forall>o'. char_conv o' (u8 n) s = emits o' u1" using char_conv_textual by blast
      obtain u2 where u2: "\<forall>o'. string_at o' m n s = map_sum id (emits o') u2" using string_at_textual by blast
      obtain u3 where u3: "\<forall>o'. pointer (tl rest) o' n s = map_sum id (emits o') u3"
        using pointer_textual by blast
      note simps = vsn_step_def Let_def at_text_def holds_emits
      consider (w) "?ty = FORMAT_TYPE_WIDTH" | (p) "?ty = FORMAT_TYPE_PRECISION"
        | (c) "?ty = FORMAT_TYPE_CHAR" | (s) "?ty = FORMAT_TYPE_STR" | (q) "?ty = FORMAT_TYPE_PTR"
        | (n) "?ty = FORMAT_TYPE_NRCHARS"
        | (i) "?ty \<notin> {FORMAT_TYPE_WIDTH, FORMAT_TYPE_PRECISION, FORMAT_TYPE_CHAR, FORMAT_TYPE_STR,
            FORMAT_TYPE_PTR, FORMAT_TYPE_NRCHARS}" by blast
      then show ?thesis
      proof cases
        case w
        show ?thesis
          by (rule start [of "Inr (rest, s\<lparr>sp_width := s16 (int n)\<rparr>, t, r, sts)"])
            (use w d Inr nr in \<open>auto simp: simps\<close>)
      next
        case p
        show ?thesis
          by (rule start [of "Inr (rest, s\<lparr>sp_precision := s16 (int n)\<rparr>, t, r, sts)"])
            (use p d Inr nr in \<open>auto simp: simps\<close>)
      next
        case c
        show ?thesis
          by (rule start [of "Inr (rest, s, t @ u1, r, sts)"]) (use c d Inr nr u1 in \<open>auto simp: simps\<close>)
      next
        case s
        show ?thesis
          by (rule start [of "map_sum id (\<lambda>u. (rest, s, t @ u, r, sts)) u2"])
            (cases u2; use s d Inr nr u2 in \<open>auto simp: simps\<close>)
      next
        case q
        show ?thesis
          by (rule start [of "map_sum id (\<lambda>u. (dropWhile isalnum rest, s, t @ u, r, sts)) u3"])
            (cases u3; use q d Inr nr u3 in \<open>auto simp: simps\<close>)
      next
        case n
        show ?thesis
          by (rule start [of "Inr (rest, s, t, r, sts @ [(n, u32 (length t))])"])
            (use n d Inr nr in \<open>auto simp: simps holds_def\<close>)
      next
        case i
        show ?thesis
        proof (cases "va_num ?ty args")
          case (Inl x)
          show ?thesis
            by (rule start [of "Inl x"]) (use I i d Inr nr Inl in \<open>auto simp: simps\<close>)
        next
          case Inr': (Inr kr)
          obtain k r' where kr: "kr = (k, r')" by force
          obtain u where u: "\<forall>o'. number o' k s = emits o' u" using emits_textual by blast
          show ?thesis
            by (rule start [of "Inr (rest, s, t @ u, r', sts)"])
              (use I i d Inr nr Inr' kr u in \<open>auto simp: simps\<close>)
        qed
      qed
    qed
  qed
qed

text \<open>The whole loop, by induction on the weight of the format.\<close>

lemma vsn_loop_textual:
  "\<exists>r. \<forall>b st. small b \<longrightarrow> at_text b t args sts st \<longrightarrow>
    (case r of Inl x \<Rightarrow> vsn_loop m fmt spec st = Inl x
     | Inr (t', sts') \<Rightarrow> \<exists>st' args'. vsn_loop m fmt spec st = Inr st' \<and> at_text b t' args' sts' st')"
proof (induction "fmt_weight fmt spec" arbitrary: fmt spec t args sts rule: less_induct)
  case less
  show ?case
  proof (cases "fmt = []")
    case True
    show ?thesis
      by (rule exI [of _ "Inr (t, sts)"]) (use True in \<open>auto simp: vsn_loop.simps\<close>)
  next
    case ne: False
    from vsn_step_textual obtain r where r: "step_text m fmt spec t args sts r" by blast
    show ?thesis
    proof (cases r)
      case (Inl x)
      show ?thesis
        by (rule exI [of _ "Inl x"]) (use r Inl ne in \<open>auto simp: step_text_def vsn_loop.simps [of m fmt]\<close>)
    next
      case (Inr z)
      obtain fmt' spec' t' args' sts' where z: "z = (fmt', spec', t', args', sts')" by (cases z) auto
      have step: "\<exists>st'. vsn_step m fmt spec st = Inr (fmt', spec', st') \<and> at_text b t' args' sts' st'"
        if "small b" "at_text b t args sts st" for b st
        using r that Inr z by (auto simp: step_text_def)
      have "at_text [] t args sts \<lparr>v_out = \<lparr>ob_buf = [], ob_pos = length t\<rparr>, v_args = args, v_stores = sts\<rparr>"
        "small []" by (simp_all add: at_text_def holds_def small_def)
      with step vsn_step_weight ne have "fmt_weight fmt' spec' < fmt_weight fmt spec" by blast
      from less [OF this] obtain q where q: "\<forall>b st. small b \<longrightarrow> at_text b t' args' sts' st \<longrightarrow>
        (case q of Inl x \<Rightarrow> vsn_loop m fmt' spec' st = Inl x
         | Inr (t', sts') \<Rightarrow> \<exists>st' args'. vsn_loop m fmt' spec' st = Inr st' \<and> at_text b t' args' sts' st')"
        by blast
      show ?thesis
      proof (rule exI [of _ q], intro allI impI)
        fix b st assume a: "small b" "at_text b t args sts st"
        from step [OF this] obtain st' where st': "vsn_step m fmt spec st = Inr (fmt', spec', st')"
          "at_text b t' args' sts' st'" by blast
        then have eq: "vsn_loop m fmt spec st = vsn_loop m fmt' spec' st'"
          using ne by (simp add: vsn_loop.simps [of m fmt])
        from q a(1) st'(2) have "case q of Inl x \<Rightarrow> vsn_loop m fmt' spec' st' = Inl x
         | Inr (t', sts') \<Rightarrow> \<exists>st'' args'. vsn_loop m fmt' spec' st' = Inr st'' \<and> at_text b t' args' sts' st''"
          by blast
        then show "case q of Inl x \<Rightarrow> vsn_loop m fmt spec st = Inl x
         | Inr (t', sts') \<Rightarrow> \<exists>st' args'. vsn_loop m fmt spec st = Inr st' \<and> at_text b t' args' sts' st'"
          by (simp only: eq)
      qed
    qed
  qed
qed

text \<open>The buffer \<open>snprintf\<close> leaves for a text: all of it and a terminator when it fits, the first
  \<open>size - 1\<close> characters and a terminator otherwise, nothing for size 0.\<close>

definition truncated :: "byte list \<Rightarrow> byte list \<Rightarrow> byte list" where
  "truncated b t =
    (if b = [] then []
     else if length t < length b then t @ 0 # drop (Suc (length t)) b
     else take (length b - 1) t @ [0])"

lemma terminate_holds: "holds b t o' \<Longrightarrow> terminate_buf (ob_buf o') (ob_pos o') = truncated b t"
proof -
  assume h: "holds b t o'"
  show ?thesis
  proof (cases "length t < length b")
    case True
    then have "drop (length t) b = b ! length t # drop (Suc (length t)) b" by (simp add: Cons_nth_drop_Suc)
    with h True show ?thesis by (auto simp: holds_def terminate_buf_def truncated_def list_update_append)
  next
    case False
    show ?thesis
    proof (cases "b = []")
      case ne: False
      then obtain k where k: "length b = Suc k" by (cases "length b") auto
      with False have "take (Suc k) t = take k t @ [t ! k]" by (simp add: take_Suc_conv_app_nth)
      with False h ne k show ?thesis
        by (simp add: holds_def terminate_buf_def truncated_def list_update_append)
    qed (use h False in \<open>simp add: holds_def terminate_buf_def truncated_def\<close>)
  qed
qed

text \<open>C8: The C99 contract of \<open>snprintf\<close>, for every format, all arguments and every buffer below two
  gigabytes: either the call goes wrong in the same way for every buffer (a missing argument, an
  unsupported pointer extension), or there is one text such that every buffer receives the text
  cut to its size and terminated, not a byte is written outside the buffer or behind the
  terminator, and the value returned is the length of the whole text.\<close>

theorem vsnprintf_c99:
  "(\<exists>x. \<forall>b. length b < 2147483648 \<longrightarrow> vsnprintf m b fmt args = Inl x) \<or>
   (\<exists>t sts. \<forall>b. length b < 2147483648 \<longrightarrow>
      vsnprintf m b fmt args = Inr (truncated b t, s32 (int (length t)), sts))"
proof -
  let ?st = "\<lambda>b. \<lparr>v_out = \<lparr>ob_buf = b, ob_pos = 0\<rparr>, v_args = args, v_stores = []\<rparr>"
  obtain r where r: "\<forall>b st. small b \<longrightarrow> at_text b [] args [] st \<longrightarrow>
    (case r of Inl x \<Rightarrow> vsn_loop m fmt spec0 st = Inl x
     | Inr (t', sts') \<Rightarrow> \<exists>st' args'. vsn_loop m fmt spec0 st = Inr st' \<and> at_text b t' args' sts' st')"
    using vsn_loop_textual [of "[]" args "[]" m fmt spec0] by blast
  have at: "at_text b [] args [] (?st b)" for b by (simp add: at_text_def holds_start)
  show ?thesis
  proof (cases r)
    case (Inl x)
    then have "\<forall>b. length b < 2147483648 \<longrightarrow> vsnprintf m b fmt args = Inl x"
      using r at by (auto simp: vsnprintf_def small_def)
    then show ?thesis by blast
  next
    case (Inr z)
    obtain t sts where z: "z = (t, sts)" by force
    have "vsnprintf m b fmt args = Inr (truncated b t, s32 (int (length t)), sts)"
      if "length b < 2147483648" for b
    proof -
      have "small b" using that by (simp add: small_def)
      with r at [of b] have "case r of Inl x \<Rightarrow> vsn_loop m fmt spec0 (?st b) = Inl x
        | Inr (t', sts') \<Rightarrow> \<exists>st' args'. vsn_loop m fmt spec0 (?st b) = Inr st' \<and> at_text b t' args' sts' st'"
        by blast
      with Inr z obtain st' args' where st': "vsn_loop m fmt spec0 (?st b) = Inr st'"
        "at_text b t args' sts st'" by auto
      then have "terminate_buf (ob_buf (v_out st')) (ob_pos (v_out st')) = truncated b t"
        "ob_pos (v_out st') = length t" "v_stores st' = sts"
        using terminate_holds by (auto simp: at_text_def holds_def)
      with st' show ?thesis by (simp add: vsnprintf_def)
    qed
    then show ?thesis by blast
  qed
qed


lemmas vsn_eval = vsnprintf_def vsn_loop.simps vsn_step_def format_decode_def spec0_def fd_precision_def
  fd_qualifier_def fd_conversion_def is_digit_def TOLOWER_def copy_text_def put_mem_def emit_def
  terminate_buf_def Let_def

lemma snprintf_example:
  "vsnprintf (\<lambda>_. 0) [88, 88, 88, 88, 88, 88] (cstr ''ab%%'') [] = Inr ([97, 98, 37, 0, 88, 88], 3, [])"
  by (simp add: vsn_eval)

theorem vsnprintf_c99_witness:
  "\<exists>t sts. vsnprintf (\<lambda>_. 0) [88, 88, 88] (cstr ''ab%%'') [] =
     Inr (truncated [88, 88, 88] t, s32 (int (length t)), sts)"
  using vsnprintf_c99 [of "\<lambda>_. 0" "cstr ''ab%%''" "[]"] snprintf_example by force

text \<open>From two gigabytes on the difference \<open>end - str\<close> is negative as an \<open>int\<close>: the first piece of
  plain text is copied with a negative length.  The check that rejects such sizes is commented out
  in the source.\<close>

lemma vsnprintf_huge_size:
  assumes "2147483648 \<le> length b" "length b < 4294967296"
  shows "vsnprintf m b [120] args = Inl WildCopy"
proof -
  have e: "int (length b) + 2147483648 = (int (length b) - 2147483648) + 4294967296" by simp
  have "s32 (int (length b)) = int (length b) - 2147483648 - 2147483648"
    unfolding s32_def e mod_add_self2 using assms by simp
  with assms have "copy_text \<lparr>ob_buf = b, ob_pos = 0\<rparr> [120] = Inl WildCopy"
    by (auto simp: copy_text_def Let_def)
  then show ?thesis
    by (simp add: vsnprintf_def vsn_loop.simps [of m "[120]"] vsn_step_def format_decode_def spec0_def Let_def)
qed

text \<open>The kernel pointer extensions are advertised in the comments but end with a null cursor.\<close>

lemma vsnprintf_pM: "vsnprintf m b (cstr ''%pM'') [VInt 4096] = Inl WildPointer"
  by (simp add: vsnprintf_def vsn_loop.simps [of m "cstr ''%pM''"] vsn_loop.simps [of m "[37, 112, 77]"]
      vsn_step_def format_decode_def spec0_def fd_precision_def fd_qualifier_def fd_conversion_def
      set_flag_def is_digit_def TOLOWER_def va_int_def pointer_def Let_def)

end
