(* ===== verification/Vsprintf_Spec.thy ===== *)
theory Vsprintf_Spec
  imports Vsprintf Vsnprintf_Spec
begin

unbundle bit_operations_syntax

text \<open>
  Correctness of the parsers and of the unbounded formatter: parsing undoes printing, the two
  formatters of the program agree on integers, and scanning undoes formatting.
\<close>

section \<open>Digits and their values\<close>

lemma hex_digit_cases:
  assumes "(d::nat) < 16"
  shows "d \<in> set [0, 1, 2, 3, 4, 5, 6, 7, 8, 9, 10, 11, 12, 13, 14, 15]"
  using assms by (simp add: less_Suc_eq numeral_eq_Suc)

lemma digit_value_char:
  assumes "base \<in> {8, 10, 16}" "locase = 0 \<or> locase = 32" "d < base"
  shows "isxdigit (if base = 10 then d + 48 else hex_char locase d) \<and>
    digit_value (if base = 10 then d + 48 else hex_char locase d) = d"
proof (cases "base = 10")
  case True
  with assms(3) show ?thesis by (simp add: isxdigit_def is_digit_def digit_value_def)
next
  case False
  with assms have "d < 16" by auto
  from hex_digit_cases [OF this] assms(2) False show ?thesis
    by (auto simp: isxdigit_def is_digit_def digit_value_def hex_char_def TOLOWER_def)
qed

definition stops :: "nat \<Rightarrow> byte list \<Rightarrow> bool" where
  "stops base rest \<longleftrightarrow> \<not> (isxdigit (pk rest) \<and> digit_value (pk rest) < base)"

lemma strtoull_loop_stop: "stops base rest \<Longrightarrow> strtoull_loop base r rest = (r, rest)"
  by (cases rest) (auto simp: stops_def)

lemma strtoull_loop_digits:
  assumes "base \<in> {8, 10, 16}" "locase = 0 \<or> locase = 32" "stops base rest"
    and "\<forall>d \<in> set ds. d < base"
    and "numval base ds + base ^ length ds * r < 18446744073709551616"
  shows "strtoull_loop base r (rev (map (if base = 10 then (\<lambda>d. d + 48) else hex_char locase) ds) @ rest) =
    (numval base ds + base ^ length ds * r, rest)"
  using assms(4,5)
proof (induction ds arbitrary: r rule: rev_induct)
  case Nil
  then show ?case using strtoull_loop_stop [OF assms(3)] by simp
next
  case (snoc d ds)
  let ?c = "if base = 10 then d + 48 else hex_char locase d"
  have c: "isxdigit ?c \<and> digit_value ?c = d" using digit_value_char [OF assms(1,2)] snoc.prems(1) by simp
  have val: "numval base (ds @ [d]) + base ^ length (ds @ [d]) * r =
      numval base ds + base ^ length ds * (r * base + d)"
    by (simp add: numval_append algebra_simps)
  have "1 \<le> base ^ length ds" using assms(1) by auto
  from mult_le_mono1 [OF this, of "r * base + d"]
  have "r * base + d \<le> base ^ length ds * (r * base + d)" by simp
  then have small: "r * base + d < 18446744073709551616" using snoc.prems(2) val by linarith
  have IH: "strtoull_loop base (r * base + d)
      (rev (map (if base = 10 then (\<lambda>d. d + 48) else hex_char locase) ds) @ rest) =
      (numval base ds + base ^ length ds * (r * base + d), rest)"
    using snoc.IH [of "r * base + d"] snoc.prems val by simp
  have "rev (map (if base = 10 then (\<lambda>d. d + 48) else hex_char locase) (ds @ [d])) =
      ?c # rev (map (if base = 10 then (\<lambda>d. d + 48) else hex_char locase) ds)" by simp
  then show ?case using c snoc.prems(1) small IH val by simp
qed

lemma strtoull_loop_numeral:
  assumes "base \<in> {8, 10, 16}" "locase = 0 \<or> locase = 32" "stops base rest" "n < 18446744073709551616"
  shows "strtoull_loop base 0 (numeral_text base locase n @ rest) = (n, rest)"
proof (cases "n = 0")
  case True
  with assms show ?thesis
    by (auto simp: numeral_text_def isxdigit_def is_digit_def digit_value_def strtoull_loop_stop)
next
  case False
  have b: "2 \<le> base" using assms(1) by auto
  have "\<forall>d \<in> set (digits_lsb base n). d < base" by (auto dest: digits_lsb_range)
  from strtoull_loop_digits [OF assms(1-3) this, of 0] numval_digits_lsb [OF b, of n] assms(4) False
  show ?thesis by (simp add: numeral_text_def)
qed

text \<open>A numeral of base 16 never looks like one with a prefix, unless it is a zero before an x.\<close>

lemma numeral_text_no_prefix:
  assumes "base \<in> {8, 10, 16}" "locase = 0 \<or> locase = 32" "TOLOWER (pk rest) \<noteq> asc CHR ''x''"
  shows "\<not> (pk (numeral_text base locase n @ rest) = asc CHR ''0'' \<and>
    TOLOWER (pk (tl (numeral_text base locase n @ rest))) = asc CHR ''x'')"
proof (cases "n = 0")
  case True
  then show ?thesis using assms by (simp add: numeral_text_def)
next
  case False
  let ?f = "if base = 10 then (\<lambda>d. d + 48) else hex_char locase"
  have nx: "TOLOWER (?f d) \<noteq> asc CHR ''x''" if "d < base" for d
  proof (cases "base = 10")
    case True
    with that have "d \<in> set [0, 1, 2, 3, 4, 5, 6, 7, 8, 9]" using hex_digit_cases [of d] by auto
    with True show ?thesis by (auto simp: TOLOWER_def)
  next
    case False
    with that assms(1) have "d < 16" by auto
    from hex_digit_cases [OF this] False assms(2) show ?thesis by (auto simp: TOLOWER_def hex_char_def)
  qed
  have "\<forall>d \<in> set (digits_lsb base n). d < base" by (auto dest: digits_lsb_range)
  then have all: "\<forall>c \<in> set (numeral_text base locase n). TOLOWER c \<noteq> asc CHR ''x''"
    using nx False by (auto simp: numeral_text_def)
  have "digits_lsb base n \<noteq> []" using assms(1) False digits_lsb_step [of n base] by auto
  then have "numeral_text base locase n \<noteq> []" using False by (simp add: numeral_text_def)
  then obtain c t where t: "numeral_text base locase n = c # t" by (meson list.exhaust)
  show ?thesis using all t assms(3) by (cases t) auto
qed

text \<open>Parsing undoes printing: what the bounded formatter's number printer emits for a value
  (any 64-bit value, base 8, 10 or 16, either letter case, no width or precision) is read back by
  \<open>simple_strtoull\<close> as exactly this value, with the end pointer behind the last digit.\<close>

lemma strtoull_number_roundtrip:
  assumes "base \<in> {8, 10, 16}" "locase = 0 \<or> locase = 32" "n < 18446744073709551616"
    and "stops base rest" "TOLOWER (pk rest) \<noteq> asc CHR ''x''"
  shows "\<exists>t. (\<forall>o'. number o' n (spec0\<lparr>sp_base := base, sp_flags := locase, sp_width := -1, sp_precision := -1\<rparr>)
      = emits o' t) \<and> simple_strtoull (t @ rest) base = (n, rest)"
proof -
  let ?s = "spec0\<lparr>sp_base := base, sp_flags := locase, sp_width := -1, sp_precision := -1\<rparr>"
  have "spec_ok ?s" using assms(1) by (auto simp: spec_ok_def)
  moreover have "number_ref n ?s = numeral_text base locase n"
    using assms(2) by (auto simp: number_ref_def flag_def flag_defs Let_def)
  ultimately have "\<forall>o'. number o' n ?s = emits o' (numeral_text base locase n)"
    using number_layout_eq assms(3) by metis
  moreover have "simple_strtoull (numeral_text base locase n @ rest) base = (n, rest)"
    using strtoull_loop_numeral [OF assms(1,2,4,3)] numeral_text_no_prefix [OF assms(1,2,5)] assms(1)
    by (auto simp: simple_strtoull_def)
  ultimately show ?thesis by blast
qed


lemma strtoull_number_roundtrip_witness:
  "\<exists>t. (\<forall>o'. number o' 48879 (spec0\<lparr>sp_base := 16, sp_flags := 32, sp_width := -1, sp_precision := -1\<rparr>)
      = emits o' t) \<and> simple_strtoull (t @ cstr '', rest'') 16 = (48879, cstr '', rest'')"
  by (rule strtoull_number_roundtrip)
    (simp_all add: stops_def isxdigit_def is_digit_def TOLOWER_def)

section \<open>The two formatters agree\<close>

lemma digit_strings:
  assumes "(d::nat) < 16"
  shows "cstr ''0123456789abcdef'' ! d = hex_char 32 d" "cstr ''0123456789ABCDEF'' ! d = hex_char 0 d"
    and "d < 10 \<Longrightarrow> hex_char 32 d = d + 48" "d < 10 \<Longrightarrow> hex_char 0 d = d + 48"
  using hex_digit_cases [OF assms] by (auto simp: hex_char_def)

lemma signed_digits_eq:
  "2 \<le> b \<Longrightarrow> signed_digits digits (int b) (int n) = Some (map (\<lambda>d. digits ! d) (digits_lsb b n))"
proof (induction n rule: less_induct)
  case (less n)
  show ?case
  proof (cases "n = 0")
    case False
    then have "n div b < n" using less.prems by simp
    with less have IH: "signed_digits digits (int b) (int (n div b)) =
        Some (map (\<lambda>d. digits ! d) (digits_lsb b (n div b)))" by simp
    have m: "int n div int b = int (n div b)" "nat (int n mod int b) = n mod b"
      by (simp_all add: zdiv_int [symmetric] nat_mod_distrib)
    show ?thesis
      using False less.prems IH digits_lsb_step [of n b]
      by (subst signed_digits.simps) (simp add: m)
  qed (simp add: signed_digits.simps)
qed

definition lower :: "nat \<Rightarrow> nat" where
  "lower flags = (if has flags N_SMALL then 32 else 0)"

lemma digit_map:
  assumes "base \<in> {8, 10, 16}"
  shows "map (\<lambda>d. (if has flags N_SMALL then cstr ''0123456789abcdef'' else cstr ''0123456789ABCDEF'') ! d)
      (digits_lsb base n) =
    map (if base = 10 then (\<lambda>d. d + 48) else hex_char (lower flags)) (digits_lsb base n)"
proof (rule map_cong [OF refl])
  fix d assume "d \<in> set (digits_lsb base n)"
  then have "d < base" by (rule digits_lsb_range)
  with assms digit_strings [of d]
  show "(if has flags N_SMALL then cstr ''0123456789abcdef'' else cstr ''0123456789ABCDEF'') ! d =
    (if base = 10 then (\<lambda>d. d + 48) else hex_char (lower flags)) d"
    by (auto simp: lower_def simp del: cstr_simps)
qed

text \<open>The specification of \<open>Vsnprintf.c\<close> that stands for flags of \<open>Vsprintf.c\<close>.\<close>

definition nspec :: "nat \<Rightarrow> nat \<Rightarrow> int \<Rightarrow> int \<Rightarrow> printf_spec" where
  "nspec flags base wide precision =
    spec0\<lparr>sp_flags := of_bool (has flags N_ZERO) + 2 * (of_bool (has flags N_SIGN)
            + 2 * (of_bool (has flags N_PLUS) + 2 * (of_bool (has flags N_SPACE)
            + 2 * (of_bool (has flags N_LEFT) + 2 * of_bool (has flags N_SMALL))))),
          sp_base := base, sp_width := wide, sp_precision := precision\<rparr>"

lemma and_power: "(x::nat) AND 2 ^ n = (if bit x n then 2 ^ n else 0)"
  by (rule bit_eqI) (auto simp: bit_simps)

lemma and_powers:
  "(x::nat) AND 1 = (if bit x 0 then 1 else 0)"
  "(x::nat) AND 2 = (if bit x (Suc 0) then 2 else 0)"
  "(x::nat) AND 4 = (if bit x (Suc (Suc 0)) then 4 else 0)"
  "(x::nat) AND 8 = (if bit x (Suc (Suc (Suc 0))) then 8 else 0)"
  "(x::nat) AND 16 = (if bit x (Suc (Suc (Suc (Suc 0)))) then 16 else 0)"
  "(x::nat) AND 32 = (if bit x (Suc (Suc (Suc (Suc (Suc 0))))) then 32 else 0)"
  "(x::nat) AND 64 = (if bit x (Suc (Suc (Suc (Suc (Suc (Suc 0)))))) then 64 else 0)"
  using and_power [of x 0] and_power [of x "Suc 0"] and_power [of x "Suc (Suc 0)"]
    and_power [of x "Suc (Suc (Suc 0))"] and_power [of x "Suc (Suc (Suc (Suc 0)))"]
    and_power [of x "Suc (Suc (Suc (Suc (Suc 0))))"] and_power [of x "Suc (Suc (Suc (Suc (Suc (Suc 0)))))"]
  by simp_all

lemma bit_cons: "bit (of_bool b + 2 * x) 0 = b" "bit (of_bool b + 2 * (x::nat)) (Suc n) = bit x n"
  by (cases b; simp add: bit_0 bit_Suc)+

lemma nspec_flags:
  "flag (nspec f b w p) ZEROPAD = has f N_ZERO" "flag (nspec f b w p) SIGN = has f N_SIGN"
  "flag (nspec f b w p) PLUS = has f N_PLUS" "flag (nspec f b w p) SPACE = has f N_SPACE"
  "flag (nspec f b w p) LEFT = has f N_LEFT" "\<not> flag (nspec f b w p) SPECIAL"
  "sp_flags (nspec f b w p) AND SMALL = lower f"
proof -
  let ?x = "of_bool (has f N_ZERO) + 2 * (of_bool (has f N_SIGN)
            + 2 * (of_bool (has f N_PLUS) + 2 * (of_bool (has f N_SPACE)
            + 2 * (of_bool (has f N_LEFT) + 2 * (of_bool (has f N_SMALL) + 2 * (0::nat))))))"
  have x: "sp_flags (nspec f b w p) = ?x" by (simp add: nspec_def)
  have bits: "bit ?x 0 = has f N_ZERO"
    "bit ?x (Suc 0) = has f N_SIGN"
    "bit ?x (Suc (Suc 0)) = has f N_PLUS"
    "bit ?x (Suc (Suc (Suc 0))) = has f N_SPACE"
    "bit ?x (Suc (Suc (Suc (Suc 0)))) = has f N_LEFT"
    "bit ?x (Suc (Suc (Suc (Suc (Suc 0))))) = has f N_SMALL"
    by (simp_all only: bit_cons)
  have "bit ?x (Suc (Suc (Suc (Suc (Suc (Suc 0)))))) = bit (0::nat) 0" by (simp only: bit_cons)
  then have bit6: "\<not> bit ?x (Suc (Suc (Suc (Suc (Suc (Suc 0))))))" by (simp only: bit_0_eq bot_apply) simp
  show "flag (nspec f b w p) ZEROPAD = has f N_ZERO" "flag (nspec f b w p) SIGN = has f N_SIGN"
    "flag (nspec f b w p) PLUS = has f N_PLUS" "flag (nspec f b w p) SPACE = has f N_SPACE"
    "flag (nspec f b w p) LEFT = has f N_LEFT" "\<not> flag (nspec f b w p) SPECIAL"
    "sp_flags (nspec f b w p) AND SMALL = lower f"
    unfolding flag_def flag_defs lower_def x and_powers bits using bit6 by (simp_all only: if_False) simp_all
qed

text \<open>The bits of the argument: 64 of them with a sign, 32 without.\<close>

definition num_bits :: "nat \<Rightarrow> int \<Rightarrow> nat" where
  "num_bits flags num = nat (num mod (if has flags N_SIGN then 18446744073709551616 else 4294967296))"

lemma number_to_string_eq:
  assumes base: "base \<in> {8, 10, 16}" and sp: "\<not> has flags N_SPECIAL"
    and sg: "has flags N_PLUS \<or> has flags N_SPACE \<longrightarrow> has flags N_SIGN"
    and num: "-2147483648 \<le> num" "num < 2147483648" "has flags N_SIGN \<longrightarrow> num \<noteq> -2147483648"
    and w: "-1 \<le> wide" "wide < 32768" and p: "-1 \<le> precision" "precision < 32000"
  shows "number_to_string num base flags wide precision =
      Some (number_ref (num_bits flags num) (nspec flags base wide precision))"
    and "number o' (num_bits flags num) (nspec flags base wide precision) =
      emits o' (number_ref (num_bits flags num) (nspec flags base wide precision))"
proof -
  let ?s = "nspec flags base wide precision" and ?n = "num_bits flags num"
  have "spec_ok ?s" using base w p by (auto simp: spec_ok_def nspec_def)
  moreover have n64: "?n < 18446744073709551616"
  proof -
    have "num mod 4294967296 < 4294967296" "num mod 18446744073709551616 < 18446744073709551616" by simp_all
    then show ?thesis by (auto simp: num_bits_def)
  qed
  ultimately show "number o' ?n ?s = emits o' (number_ref ?n ?s)" by (rule number_layout_eq)
  let ?neg = "has flags N_SIGN \<and> num < 0"
  define mag where "mag = (if has flags N_SIGN then nat \<bar>num\<bar> else nat (num mod 4294967296))"
  have negn: "has flags N_SIGN \<and> 9223372036854775808 \<le> ?n \<longleftrightarrow> ?neg"
    and magn: "(if ?neg then 18446744073709551616 - ?n else ?n) = mag"
  proof -
    have "num mod 18446744073709551616 = (if num < 0 then num + 18446744073709551616 else num)"
    proof (cases "num < 0")
      case True
      have "num mod 18446744073709551616 = (num + 18446744073709551616) mod 18446744073709551616" by simp
      also have "\<dots> = num + 18446744073709551616" using True num by (intro mod_pos_pos_trivial) auto
      finally show ?thesis using True by simp
    qed (use num in \<open>simp add: mod_pos_pos_trivial\<close>)
    then show "has flags N_SIGN \<and> 9223372036854775808 \<le> ?n \<longleftrightarrow> ?neg"
      and "(if ?neg then 18446744073709551616 - ?n else ?n) = mag"
      using num by (auto simp: num_bits_def mag_def nat_diff_distrib)
  qed
  let ?lo = "lower flags"
  define ds where "ds = numeral_text base ?lo mag"
  define sc where "sc = (if ?neg then asc CHR ''-'' else if has flags N_PLUS then asc CHR ''+''
    else if has flags N_SPACE then asc CHR '' '' else 0)"
  define sl where "sl = (if sc \<noteq> 0 then [sc] else [])"
  define num' where "num' = (if ?neg then - num else num)"
  define body where "body = replicate (nat precision - length ds) (asc CHR ''0'') @ ds"
  define x where "x = wide - int (length sl) - max (int (length ds)) precision"
  have lo: "?lo = 0 \<or> ?lo = 32" by (simp add: lower_def)
  have magb: "mag < 18446744073709551616"
  proof -
    have "num mod 4294967296 < 4294967296" by simp
    then show ?thesis using num by (auto simp: mag_def)
  qed
  have len: "0 < length ds" "length ds \<le> 22"
    using numeral_text_length [OF base magb, of ?lo] by (auto simp: ds_def)
  have sl1: "length sl \<le> 1" by (simp add: sl_def)
  have sl_eq: "sl = (if ?neg then [asc CHR ''-''] else if has flags N_SIGN \<and> has flags N_PLUS then [asc CHR ''+'']
      else if has flags N_SIGN \<and> has flags N_SPACE then [asc CHR '' ''] else [])"
    using sg unfolding sl_def sc_def
    by (cases ?neg; cases "has flags N_PLUS"; cases "has flags N_SPACE") simp_all
  have pad: "nat wide - (length sl + 0 + length body) = nat x"
    using len w p unfolding body_def x_def by auto
  have ref: "number_ref ?n ?s = (if has flags N_LEFT then sl @ body @ replicate (nat x) (asc CHR '' '')
      else if has flags N_ZERO then sl @ replicate (nat x) (asc CHR ''0'') @ body
      else replicate (nat x) (asc CHR '' '') @ sl @ body)"
  proof -
    have f: "sp_width ?s = wide" "sp_precision ?s = precision" "sp_base ?s = base" by (simp_all add: nspec_def)
    show ?thesis
      unfolding number_ref_def Let_def nspec_flags negn magn f ds_def [symmetric] body_def [symmetric]
        sl_eq [symmetric]
      using nspec_flags(6) [of flags base wide precision] pad by (simp del: asc_Char)
  qed
  let ?D = "if has flags N_SMALL then cstr ''0123456789abcdef'' else cstr ''0123456789ABCDEF''"
  have F1: "(if has flags N_SIGN \<and> num < 0 then (asc CHR ''-'', s32 (- num))
      else (if has flags N_PLUS then asc CHR ''+'' else if has flags N_SPACE then asc CHR '' '' else 0, num)) = (sc, num')"
  proof -
    have "?neg \<Longrightarrow> s32 (- num) = - num" using num by (intro s32_id) auto
    then show ?thesis unfolding sc_def num'_def by (simp only: prod.inject split: if_split) blast
  qed
  have F2: "(if num' = 0 then Some [asc CHR ''0''] else if has flags N_SIGN then signed_digits ?D (int base) num'
      else Some (unsigned_digits ?D base (nat (num mod 4294967296)))) = Some (rev ds)"
  proof -
    have b2: "2 \<le> base" using base by auto
    have z: "num' = 0 \<longleftrightarrow> mag = 0"
    proof -
      have "num mod 4294967296 = (if num < 0 then num + 4294967296 else num)"
      proof (cases "num < 0")
        case True
        have "num mod 4294967296 = (num + 4294967296) mod 4294967296" by simp
        also have "\<dots> = num + 4294967296" using True num by (intro mod_pos_pos_trivial) auto
        finally show ?thesis using True by simp
      qed (use num in \<open>simp add: mod_pos_pos_trivial\<close>)
      then show ?thesis using num unfolding num'_def mag_def by (simp split: if_splits)
    qed
    show ?thesis
    proof (cases "mag = 0")
      case True
      then show ?thesis using z by (simp add: ds_def numeral_text_def del: asc_Char)
    next
      case False
      have "has flags N_SIGN \<Longrightarrow> num' = int mag" by (auto simp: num'_def mag_def)
      moreover have "\<not> has flags N_SIGN \<Longrightarrow> nat (num mod 4294967296) = mag" by (simp add: mag_def)
      ultimately show ?thesis
        using False z digit_map [OF base, of flags mag] signed_digits_eq [OF b2]
        by (simp add: ds_def numeral_text_def unsigned_digits_def del: asc_Char cstr_simps)
    qed
  qed
  have wide': "(if sc \<noteq> 0 then s32 (wide - 1) else wide) = wide - int (length sl)" using w by (auto simp: sl_def)
  have prec: "(if int (length ds) > precision then int (length ds) else precision) = max (int (length ds)) precision"
    by auto
  have xs: "s32 (wide - int (length sl) - max (int (length ds)) precision) = x"
    unfolding x_def using w p len sl1 by (intro s32_id) auto
  have xb: "-40000 < x" using w p len sl1 unfolding x_def by auto
  have p1: "pad_wide x c = (replicate (nat x) c, min x 0 - 1)" for c
    unfolding pad_wide_def using xb by (simp add: min_def)
  have p2: "pad_wide (min x 0 - 1) c = ([], min x 0 - 2)" for c
    unfolding pad_wide_def using xb by (simp add: min_def)
  have p3: "fst (pad_wide (min x 0 - 2) c) = []" for c
    unfolding pad_wide_def by simp
  have zeros: "replicate (nat (max (int (length ds)) precision - int (length ds))) c =
      replicate (nat precision - length ds) c" for c :: nat
  proof -
    have "nat (max (int (length ds)) precision - int (length ds)) = nat precision - length ds" by auto
    then show ?thesis by simp
  qed
  have bok: "\<not> (base < 2 \<or> base > 16)" using base by auto
  show "number_to_string num base flags wide precision = Some (number_ref ?n ?s)"
    unfolding ref
    by (cases "has flags N_LEFT"; cases "has flags N_ZERO")
      (simp_all only: number_to_string_def Let_def F1 F2 prod.case option.case length_rev prec wide' sp bok
        xs p1 p2 p3 fst_conv zeros sl_def [symmetric] body_def append_Nil append_assoc append_Nil2
        rev_rev_ident simp_thms if_True if_False)
qed

text \<open>C17: The two formatters of the program lay integers out in the same way: for every flag
  combination a conversion can pass (sign flags only with signed conversions, no \<open>#\<close>), every base
  the conversions use, width, precision and 32-bit value, \<open>number_to_string\<close> writes the text that
  \<open>number\<close> emits for the same value.  The one signed value left out is the least one, whose
  digits \<open>number_to_string\<close> reads out of bounds.\<close>

theorem formatters_agree:
  assumes base: "base \<in> {8, 10, 16}" and sp: "\<not> has flags N_SPECIAL"
    and sg: "has flags N_PLUS \<or> has flags N_SPACE \<longrightarrow> has flags N_SIGN"
    and num: "-2147483648 \<le> num" "num < 2147483648" "has flags N_SIGN \<longrightarrow> num \<noteq> -2147483648"
    and w: "-1 \<le> wide" "wide < 32768" and p: "-1 \<le> precision" "precision < 32000"
  shows "\<exists>t. number_to_string num base flags wide precision = Some t \<and>
    (\<forall>o'. number o' (num_bits flags num) (nspec flags base wide precision) = emits o' t)"
  using number_to_string_eq [OF assms] by blast

theorem formatters_agree_witness:
  "\<exists>t. number_to_string (-42) 10 (N_SIGN OR N_ZERO) 6 (-1) = Some t \<and>
    (\<forall>o'. number o' (num_bits (N_SIGN OR N_ZERO) (-42)) (nspec (N_SIGN OR N_ZERO) 10 6 (-1)) = emits o' t)"
  by (rule formatters_agree) (simp_all add: has_def nflag_defs)

section \<open>Scanning undoes formatting\<close>

definition int_text :: "int \<Rightarrow> byte list" where
  "int_text i = (if i < 0 then [asc CHR ''-''] else []) @ numeral_text 10 0 (nat \<bar>i\<bar>)"

lemma int_mod_32:
  "-2147483648 \<le> i \<Longrightarrow> i < 2147483648 \<Longrightarrow> (i::int) mod 4294967296 = (if i < 0 then i + 4294967296 else i)"
proof (cases "i < 0")
  case True
  assume "-2147483648 \<le> i" "i < 2147483648"
  have "i mod 4294967296 = (i + 4294967296) mod 4294967296" by simp
  also have "\<dots> = i + 4294967296" using True \<open>-2147483648 \<le> i\<close> by (intro mod_pos_pos_trivial) auto
  finally show ?thesis using True by simp
qed (simp add: mod_pos_pos_trivial)

lemma int_mod_64:
  "-2147483648 \<le> i \<Longrightarrow> i < 2147483648 \<Longrightarrow>
   (i::int) mod 18446744073709551616 = (if i < 0 then i + 18446744073709551616 else i)"
proof (cases "i < 0")
  case True
  assume "-2147483648 \<le> i" "i < 2147483648"
  have "i mod 18446744073709551616 = (i + 18446744073709551616) mod 18446744073709551616" by simp
  also have "\<dots> = i + 18446744073709551616" using True \<open>-2147483648 \<le> i\<close> by (intro mod_pos_pos_trivial) auto
  finally show ?thesis using True by simp
qed (simp add: mod_pos_pos_trivial)

lemma has_sign: "has 32 N_SIGN" "\<not> has 32 N_SPECIAL" "\<not> has 32 N_PLUS" "\<not> has 32 N_SPACE" "\<not> has 32 N_LEFT"
  "\<not> has 32 N_ZERO" "\<not> has 32 N_SMALL"
  by (simp_all add: has_def nflag_defs)

lemma number_to_string_d:
  assumes "-2147483648 < i" "i < 2147483648"
  shows "number_to_string i 10 32 (-1) (-1) = Some (int_text i)"
proof -
  have "number_to_string i 10 32 (-1) (-1) = Some (number_ref (num_bits 32 i) (nspec 32 10 (-1) (-1)))"
    by (rule number_to_string_eq(1)) (use assms in \<open>simp_all add: has_sign\<close>)
  also have "number_ref (num_bits 32 i) (nspec 32 10 (-1) (-1)) = int_text i"
  proof -
    have f: "sp_width (nspec 32 10 (-1) (-1)) = -1" "sp_precision (nspec 32 10 (-1) (-1)) = -1"
      "sp_base (nspec 32 10 (-1) (-1)) = 10" by (simp_all add: nspec_def)
    have b: "num_bits 32 i = (if i < 0 then nat (i + 18446744073709551616) else nat i)"
      using int_mod_64 [of i] assms by (simp add: num_bits_def has_sign)
    have m: "9223372036854775808 \<le> num_bits 32 i \<longleftrightarrow> i < 0"
      "(if i < 0 then 18446744073709551616 - num_bits 32 i else num_bits 32 i) = nat \<bar>i\<bar>"
      using assms unfolding b by auto
    show ?thesis
      unfolding number_ref_def Let_def nspec_flags f m int_text_def
      by (simp add: has_sign m lower_def del: asc_Char)
  qed
  finally show ?thesis .
qed

lemma sprintf_d:
  assumes "-2147483648 < i" "i < 2147483648"
  shows "vsprintf m (cstr ''%d'') [VInt (nat (i mod 4294967296))] =
    Inr (int_text i, True, s32 (int (length (int_text i))))"
proof -
  have "0 \<le> i mod 4294967296" "i mod 4294967296 < 4294967296" by simp_all
  then have n: "u32 (nat (i mod 4294967296)) = nat (i mod 4294967296)"
    "int (nat (i mod 4294967296)) = i mod 4294967296" by simp_all
  have "s32 (i mod 4294967296) = i"
    using assms unfolding s32_def mod_add_left_eq by (simp add: mod_pos_pos_trivial)
  with n number_to_string_d [OF assms] show ?thesis
    by (simp add: vsprintf_def vsprintf_loop.simps vs_conv_def vs_field_def is_digit_def va_int_def
        vs_format_def nflag_defs Let_def)
qed

lemma numeral_text_head:
  "\<exists>c t. numeral_text 10 0 n = c # t \<and> is_digit c"
proof (cases "n = 0")
  case False
  then have "digits_lsb 10 n \<noteq> []" "\<forall>d \<in> set (digits_lsb 10 n). d < 10"
    using digits_lsb_step [of n 10] by (auto dest: digits_lsb_range)
  then have "numeral_text 10 0 n \<noteq> []" "\<forall>c \<in> set (numeral_text 10 0 n). is_digit c"
    using False by (auto simp: numeral_text_def is_digit_def)
  then show ?thesis by (cases "numeral_text 10 0 n") auto
qed (simp add: numeral_text_def is_digit_def)

lemma is_digit_not: "is_digit c \<Longrightarrow> \<not> isspace c \<and> c \<noteq> 0 \<and> c \<noteq> asc CHR ''-''"
  by (auto simp: is_digit_def isspace_def)

lemma strtol_int_text:
  assumes "-2147483648 < i" "i < 2147483648"
  shows "simple_strtol (int_text i) 10 = (nat (i mod 4294967296), [])"
proof -
  obtain c t where h: "numeral_text 10 0 (nat \<bar>i\<bar>) = c # t" "is_digit c" using numeral_text_head by blast
  have p: "strtoull_loop 10 0 (numeral_text 10 0 (nat \<bar>i\<bar>)) = (nat \<bar>i\<bar>, [])"
    using strtoull_loop_numeral [of 10 0 "[]" "nat \<bar>i\<bar>"] assms by (simp add: stops_def isxdigit_def is_digit_def)
  have nz: "u32 (nat \<bar>i\<bar>) = nat \<bar>i\<bar>" using assms by simp
  show ?thesis
  proof (cases "i < 0")
    case True
    have "u32_sub 0 (nat \<bar>i\<bar>) = nat (i + 4294967296)"
    proof -
      have "4294967296 - nat \<bar>i\<bar> = nat (i + 4294967296)" using True assms by auto
      then show ?thesis using True assms nz by (simp add: u32_sub_def)
    qed
    with True p nz int_mod_32 [of i] assms show ?thesis
      by (simp add: int_text_def simple_strtol_def simple_strtoul_def simple_strtoull_def)
  next
    case False
    with p nz h is_digit_not [OF h(2)] int_mod_32 [of i] assms show ?thesis
      by (simp add: int_text_def simple_strtol_def simple_strtoul_def simple_strtoull_def)
  qed
qed

text \<open>C18: Scanning undoes formatting: for every \<open>int\<close> but the least one, \<open>sprintf\<close> with \<open>%d\<close> writes
  a terminated text, and \<open>sscanf\<close> with \<open>%d\<close> on this text converts one item and stores exactly the
  four bytes of the value.\<close>

theorem sscanf_sprintf_roundtrip:
  assumes "-2147483648 < i" "i < 2147483648"
  shows "\<exists>t r. vsprintf m (cstr ''%d'') [VInt (nat (i mod 4294967296))] = Inr (t, True, r) \<and>
    sscanf strtod t (cstr ''%d'') [p] = Inr (1, [(p, SNum 4 (nat (i mod 4294967296)))])"
proof -
  obtain c t where h: "numeral_text 10 0 (nat \<bar>i\<bar>) = c # t" "is_digit c" using numeral_text_head by blast
  note d = is_digit_not [OF h(2)]
  have sp: "skip_spaces (int_text i) = Some (int_text i)"
    using h d by (auto simp: int_text_def isspace_def)
  have pk: "pk (int_text i) \<noteq> 0" "pk (int_text i) = asc CHR ''-'' \<longleftrightarrow> i < 0"
    "(if pk (int_text i) = asc CHR ''-'' then pk (tl (int_text i)) else pk (int_text i)) = c"
    using h d by (auto simp: int_text_def)
  have "sscanf strtod (int_text i) (cstr ''%d'') [p] = Inr (1, [(p, SNum 4 (nat (i mod 4294967296)))])"
    using pk(1,3) sp h(2) d strtol_int_text [OF assms]
    by (simp add: sscanf_def vsscanf_def vsscanf_loop.simps vsscanf_step_def scan_blank_def isspace_def
        scan_width_def scan_qualifier_def scan_switch_def scan_conv_def scan_number_def store_at_def
        scan_finish_def is_digit_def TOLOWER_def Let_def map_sum_def)
  with sprintf_d [OF assms] show ?thesis by blast
qed

theorem sscanf_sprintf_roundtrip_witness:
  "\<exists>t r. vsprintf (\<lambda>_. 0) (cstr ''%d'') [VInt 4294967254] = Inr (t, True, r) \<and>
    sscanf (\<lambda>s. ((), s)) t (cstr ''%d'') [4096] = Inr (1, [(4096, SNum 4 4294967254)])"
  using sscanf_sprintf_roundtrip [of "-42"] by simp

section \<open>Sharp edges\<close>

text \<open>Trailing blanks in the input make the scanner run through the terminator.\<close>

lemma sscanf_runaway: "sscanf strtod (cstr ''12 '') (cstr ''%d %d'') [p, q] = Inl Runaway"
  by (simp add: sscanf_def vsscanf_def vsscanf_loop.simps vsscanf_step_def scan_blank_def isspace_def
        scan_width_def scan_qualifier_def scan_switch_def scan_conv_def scan_number_def store_at_def
        scan_finish_def is_digit_def TOLOWER_def Let_def simple_strtol_def simple_strtoul_def
        simple_strtoull_def digit_value_def isxdigit_def)

text \<open>The least \<open>int\<close> is its own negation, so its digits are looked up at negative indices.\<close>

lemma number_to_string_min: "number_to_string (-2147483648) 10 32 (-1) (-1) = None"
  by (simp add: number_to_string_def has_sign s32_def signed_digits.simps)

text \<open>An unknown conversion ends the formatter with -1 and leaves the text without a terminator.\<close>

lemma vsprintf_unknown: "vsprintf m (cstr ''ab%p'') args = Inr ([97, 98], False, -1)"
  by (simp add: vsprintf_def vsprintf_loop.simps vs_conv_def vs_field_def is_digit_def Let_def)

end
