(* ===== verification/HttpSource.thy ===== *)
theory HttpSource
  imports HttpOta_Spec Vsprintf_Spec Block_Source
begin

text \<open>
  The download client as a source of blocks for the update library.  A read that is not served from the
  range held dials the server, sends a request and sleeps until the answer has come: the text of the
  request, made by the program's own formatter, names the path, the host and the range; the answer
  fills the buffer and the block is copied from it.  The contract of \<open>Block_Source\<close> is interpreted on
  seek and read of the client.
\<close>

section \<open>The text of the request\<close>

definition get_text :: "byte list \<Rightarrow> byte list \<Rightarrow> nat \<Rightarrow> nat \<Rightarrow> byte list" where
  "get_text path hst first last' =
     cstr ''GET '' @ path @ cstr '' HTTP/1.1'' @ CRLF @ cstr ''Host: '' @ hst @ CRLF @ cstr ''User-Agent: User'' @ CRLF @
     cstr ''Accept: */*'' @ CRLF @ cstr ''Connection: Close'' @ CRLF @
     cstr ''Range: bytes='' @ int_text (int first) @ cstr ''-'' @ int_text (int last') @ CRLF @ CRLF"

lemma vsprintf_literal:
  "asc CHR ''%'' \<notin> set xs \<Longrightarrow> vsprintf_loop m (xs @ f) args out = vsprintf_loop m f args (out @ xs)"
proof (induction xs arbitrary: out)
  case (Cons c xs)
  then show ?case by (subst append_Cons, subst vsprintf_loop.simps) simp
qed simp

lemma strnlen_text:
  "\<lbrakk>lies m a t; m (a + length t) = 0; 0 \<notin> set t; length t < n; a + length t < 4294967296\<rbrakk> \<Longrightarrow> strnlen m a n = length t"
proof (induction t arbitrary: a n)
  case Nil
  then show ?case by (subst strnlen.simps) simp
next
  case (Cons c t)
  have "m a = c" "lies m (a + 1) t" using Cons.prems(1) by (simp_all add: lies_Cons)
  moreover have "u32_add a 1 = a + 1" using Cons.prems(5) by (simp add: u32_add_def u32_def)
  moreover have "strnlen m (a + 1) (n - 1) = length t"
    using Cons.prems \<open>lies m (a + 1) t\<close> by (intro Cons.IH) auto
  ultimately show ?case using Cons.prems(3,4) by (subst strnlen.simps) auto
qed

lemma vsprintf_s:
  assumes "lies m a t" "m (a + length t) = 0" "0 \<notin> set t" "a + length t < 2147483647"
  shows "vsprintf_loop m (cstr ''%s'' @ f) (VInt a # args) out = vsprintf_loop m f args (out @ t)"
proof -
  have "strnlen m a 2147483647 = length t" using assms by (intro strnlen_text) auto
  moreover have "map (\<lambda>i. m (u32_add a i)) [0..<length t] = t"
    using assms(1,4) by (intro nth_equalityI) (simp_all add: lies_def u32_add_def u32_def)
  ultimately have "vs_string m 0 a (-1) (-1) = t" by (simp add: vs_string_def vs_pads_def has_def Let_def)
  moreover have "u32 a = a" using assms(4) by (simp add: u32_def)
  ultimately show ?thesis
    by (subst vsprintf_loop.simps) (simp add: vs_conv_def vs_field_def is_digit_def va_int_def vs_format_def nflag_defs Let_def)
qed

lemma vsprintf_d:
  assumes "n < 2147483648"
  shows "vsprintf_loop m (cstr ''%d'' @ f) (VInt n # args) out = vsprintf_loop m f args (out @ int_text (int n))"
proof -
  have "u32 n = n" "s32 (int n) = int n" using assms by (simp_all add: u32_def)
  with number_to_string_d [of "int n"] assms show ?thesis
    by (subst vsprintf_loop.simps) (simp add: vs_conv_def vs_field_def is_digit_def va_int_def vs_format_def nflag_defs Let_def)
qed

lemma get_head_text:
  assumes "lies m pa p" "m (pa + length p) = 0" "0 \<notin> set p" "pa + length p < 2147483647"
    and "lies m ha h" "m (ha + length h) = 0" "0 \<notin> set h" "ha + length h < 2147483647"
    and "x < 2147483648" "y < 2147483648"
  shows "\<exists>r. vsprintf m HTTP_GET_HEAD [VInt pa, VInt ha, VInt x, VInt y] = Inr (get_text p h x y, True, r)"
proof -
  define G where "G = cstr ''GET ''"
  define H where "H = cstr '' HTTP/1.1'' @ CRLF @ cstr ''Host: ''"
  define R where "R = CRLF @ cstr ''User-Agent: User'' @ CRLF @ cstr ''Accept: */*'' @ CRLF @ cstr ''Connection: Close'' @ CRLF @
    cstr ''Range: bytes=''"
  define E where "E = CRLF @ CRLF"
  have f: "HTTP_GET_HEAD = G @ cstr ''%s'' @ H @ cstr ''%s'' @ R @ cstr ''%d'' @ cstr ''-'' @ cstr ''%d'' @ E @ []"
    by (simp add: HTTP_GET_HEAD_def G_def H_def R_def E_def)
  have t: "get_text p h x y = (((((((([] @ G) @ p) @ H) @ h) @ R) @ int_text (int x)) @ cstr ''-'') @ int_text (int y)) @ E"
    by (simp add: get_text_def G_def H_def R_def E_def)
  have "asc CHR ''%'' \<notin> set G" "asc CHR ''%'' \<notin> set H" "asc CHR ''%'' \<notin> set R"
    "asc CHR ''%'' \<notin> set (cstr ''-'')" "asc CHR ''%'' \<notin> set E"
    by (simp_all add: G_def H_def R_def E_def)
  note l = this [THEN vsprintf_literal [of _ m]]
  show ?thesis
    unfolding f vsprintf_def l vsprintf_s [OF assms(1-4)] vsprintf_s [OF assms(5-8)] vsprintf_d [OF assms(9)]
      vsprintf_d [OF assms(10)] t [symmetric]
    by (subst vsprintf_loop.simps) simp
qed

section \<open>Dialling and asking\<close>

text \<open>The station is set up: the address is known, the name resolved, the size of the file known from the
  first answer; names and buffers are there and the stack takes what it is given.\<close>

definition station_link :: "httplib \<Rightarrow> nat \<Rightarrow> nat \<Rightarrow> byte list \<Rightarrow> byte list \<Rightarrow> http \<Rightarrow> bool" where
  "station_link L V N hst path s \<longleftrightarrow> http_ota s \<and> http_loc_ok s \<and> \<not> http_stopped s \<and> \<not> lock s \<and> ip_addr s \<noteq> 0 \<and>
     file_size s = V \<and> buf_size s = N \<and> N \<le> HTTP_RECV_BUF \<and> V + N < 2147483648 \<and>
     (\<exists>url u port. http_url_path s = Some url \<and> strstr url (cstr ''http://'') = Some u \<and>
        cut_url N (drop 7 u) = Some (Some (hst, port, path))) \<and>
     0 \<notin> set hst \<and> 0 \<notin> set path \<and> length path + length hst + 2 < N \<and>
     (\<forall>C. new_pcb L C \<noteq> None) \<and> (\<forall>p t. write_ok L p t)"

text \<open>What is held is the file's.\<close>

definition station_up :: "httplib \<Rightarrow> (nat \<Rightarrow> byte) \<Rightarrow> nat \<Rightarrow> nat \<Rightarrow> byte list \<Rightarrow> byte list \<Rightarrow> http \<Rightarrow> bool" where
  "station_up L img V N hst path s \<longleftrightarrow> station_link L V N hst path s \<and>
     got img (recv_offset s) s \<and> range_start s + recv_offset s \<le> V"

text \<open>Nothing but the connection comes before the request: at once, when the client believes to be connected.\<close>

definition dialled :: "nat \<Rightarrow> http \<Rightarrow> http_ev list \<Rightarrow> bool" where
  "dialled pcb s evs \<longleftrightarrow> (if conneted s then evs = []
     else \<exists>j < 900. evs = replicate j HTimer @ [HConn pcb, HTimer])"

lemma poll_timers:
  assumes "\<not> conneted s" "j < n" "n < cnt"
  shows "http_poll (\<lambda>s. \<not> conneted s) cnt s (replicate j HTimer @ es) = http_poll (\<lambda>s. \<not> conneted s) (cnt - j) s es"
  using assms
proof (induction j arbitrary: cnt n)
  case (Suc j)
  have "http_poll (\<lambda>s. \<not> conneted s) cnt s (replicate (Suc j) HTimer @ es) =
      http_poll (\<lambda>s. \<not> conneted s) (cnt - 1) s (replicate j HTimer @ es)"
    using Suc.prems by (subst http_poll.simps) simp
  with Suc.IH [of "n - 1" "cnt - 1"] Suc.prems show ?case by simp
qed simp

lemma poll_connects:
  assumes "dialled pcb s evs" "pcb \<in> http_conns s"
  shows "\<exists>c. 0 < c \<and> http_poll (\<lambda>s. \<not> conneted s) 1000 s (evs @ es) = Some (c, s\<lparr>conneted := True\<rparr>, es)"
proof (cases "conneted s")
  case True
  hence "s\<lparr>conneted := True\<rparr> = s" by simp
  with True assms(1) show ?thesis by (subst http_poll.simps) (simp add: dialled_def)
next
  case False
  then obtain j where j: "j < 900" "evs = replicate j HTimer @ [HConn pcb, HTimer]" using assms(1) by (auto simp: dialled_def)
  have "http_poll (\<lambda>s. \<not> conneted s) (1000 - j) s (HConn pcb # HTimer # es) =
      http_poll (\<lambda>s. \<not> conneted s) (999 - j) (s\<lparr>conneted := True\<rparr>) es"
  proof -
    have "\<not> 1000 - j \<le> 1" "1000 - j - 1 = 999 - j" using j(1) by arith+
    with False assms(2) show ?thesis by (subst http_poll.simps) (simp add: tcp_dataconnected_def)
  qed
  also have "\<dots> = Some (999 - j, s\<lparr>conneted := True\<rparr>, es)" by (subst http_poll.simps) simp
  finally show ?thesis using j poll_timers [OF False j(1), of 1000 "HConn pcb # HTimer # es"] by (intro exI [of _ "999 - j"]) simp
qed

text \<open>Host and path lie in the buffer, each with its terminator, below the place of the request.\<close>

lemma lies_cong_out: "lies m a xs \<Longrightarrow> (\<And>i. a \<le> i \<Longrightarrow> i < a + length xs \<Longrightarrow> m' i = m i) \<Longrightarrow> lies m' a xs"
  by (simp add: lies_def)

lemma place_url_texts:
  assumes "length e + length h + 2 < buf_size s" "t = place_url h e s"
  shows "host t = Some http_buf" "http_file t = Some (http_buf + length h + 1)"
    "send_buf t = Some (http_buf + length h + 1 + length e + 1)"
    "lies (hbuf t) http_buf (h @ [0])" "lies (hbuf t) (http_buf + length h + 1) (e @ [0])"
    "\<exists>m u v w. t = s\<lparr>hbuf := m, host := u, http_file := v, send_buf := w, recv_offset := 0\<rparr>"
proof -
  let ?m = "mcpy_in (mcpy_in (hbuf s) http_buf (h @ [0])) (http_buf + length h + 1) (e @ [0])"
  have t: "t = s\<lparr>hbuf := ?m, host := Some http_buf, http_file := Some (http_buf + length h + 1),
      send_buf := Some (http_buf + length h + 1 + length e + 1), recv_offset := 0\<rparr>"
    using assms by (simp add: place_url_def Let_def)
  show "host t = Some http_buf" "http_file t = Some (http_buf + length h + 1)"
    "send_buf t = Some (http_buf + length h + 1 + length e + 1)"
    by (simp_all add: t)
  show "lies (hbuf t) (http_buf + length h + 1) (e @ [0])" by (simp add: t lies_mcpy_in del: http_buf_def)
  show "lies (hbuf t) http_buf (h @ [0])"
    by (rule lies_cong_out [OF lies_mcpy_in [of "hbuf s"]]) (simp add: t mcpy_in_out)
  show "\<exists>m u v w. t = s\<lparr>hbuf := m, host := u, http_file := v, send_buf := w, recv_offset := 0\<rparr>"
    using t by blast
qed

lemma request_text_exact:
  assumes "host s = Some http_buf" "http_file s = Some (http_buf + length h + 1)"
    and "lies (hbuf s) http_buf (h @ [0])" "lies (hbuf s) (http_buf + length h + 1) (e @ [0])"
    and "0 \<notin> set h" "0 \<notin> set e" "length e + length h + 2 < 2147000000"
    and "range_start s < 2147483648" "0 < range_end s" "range_end s \<le> 2147483648"
  shows "request_text s = Some (get_text e h (range_start s) (range_end s - 1))"
proof -
  let ?m = "(hbuf s)(256 := asc CHR ''/'', 257 := 0)"
  have l: "lies ?m http_buf (h @ [0])" "lies ?m (http_buf + length h + 1) (e @ [0])"
    by (rule lies_cong_out [OF assms(3)], simp) (rule lies_cong_out [OF assms(4)], simp)
  have y: "u32_sub (range_end s) 1 = range_end s - 1" using assms(9,10) by simp
  have yb: "range_end s - 1 < 2147483648" using assms(9,10) by arith
  have le: "lies ?m (http_buf + length h + 1) e" "?m (http_buf + length h + 1 + length e) = 0"
    using l(2) by (simp_all add: lies_append lies_Cons del: http_buf_def)
  have lh: "lies ?m http_buf h" "?m (http_buf + length h) = 0"
    using l(1) by (simp_all add: lies_append lies_Cons del: http_buf_def)
  have b: "http_buf + length h + 1 + length e < 2147483647" "http_buf + length h < 2147483647" using assms(7) by simp_all
  obtain r where "vsprintf ?m HTTP_GET_HEAD [VInt (http_buf + length h + 1), VInt http_buf, VInt (range_start s), VInt (range_end s - 1)] =
      Inr (get_text e h (range_start s) (range_end s - 1), True, r)"
    using get_head_text [OF le assms(6) b(1) lh assms(5) b(2) assms(8) yb] by blast
  then show ?thesis using y by (simp add: request_text_def assms(1,2) del: http_buf_def)
qed

lemma wait_unlocked: "\<not> lock s \<Longrightarrow> wait_lock s es = Some (s, es)"
  by (cases es) simp_all

lemma dialled_cong: "conneted s = conneted t \<Longrightarrow> dialled p s evs = dialled p t evs"
  by (simp add: dialled_def)

lemma set_range_min:
  assumes "file_size s = V" "buf_size s = N" "V + N < 2147483648" "range_start s < V" "0 < N"
  shows "set_range 0 s = s\<lparr>range_end := min V (range_start s + N)\<rparr>"
proof -
  have "u32_add (range_start s) N = range_start s + N" "u32_sub V (range_start s) = V - range_start s"
    "u32_add (range_start s) (V - range_start s) = V"
    using assms(3,4) by simp_all
  with assms show ?thesis by (auto simp: set_range_def Let_def min_def)
qed

lemma http_get_asks:
  assumes "station_link L V N hst path s" "new_pcb L (http_conns s) = Some pcb" "dialled pcb s evs" "range_start s < V"
  shows "\<exists>m f g h d. http_get L False 0 (s, evs @ es) = Some (True, s\<lparr>hbuf := m, host := f, http_file := g,
      send_buf := h, recv_offset := 0, http_conns := insert pcb (http_conns s), http_pcb := Some pcb, http_dials := d,
      conneted := True, lock := False, range_end := min V (range_start s + N),
      http_wire := http_wire s @ [(pcb, get_text path hst (range_start s) (min V (range_start s + N) - 1))]\<rparr>, es)"
proof -
  note L = assms(1) [unfolded station_link_def]
  obtain url u port where url: "http_url_path s = Some url" "strstr url (cstr ''http://'') = Some u"
    "cut_url (buf_size s) (drop 7 u) = Some (Some (hst, port, path))" using L by blast
  define t where "t = place_url hst path s"
  have len: "length path + length hst + 2 < buf_size s" using L by simp
  note p = place_url_texts [OF len t_def]
  obtain m f g h where t: "t = s\<lparr>hbuf := m, host := f, http_file := g, send_buf := h, recv_offset := 0\<rparr>" using p(6) by blast
  have rs: "resolve L hst False t = Some t" using L by (simp add: resolve_def t)
  define port' where "port' = (if port \<noteq> 0 then port else HTTP_UPDATE_PORT)"
  define c where "c = t\<lparr>lock := True, http_conns := insert pcb (http_conns s), http_pcb := Some pcb,
    http_dials := http_dials s @ (pcb, ip_addr s, port') # (if connect_ok L pcb (ip_addr s) port' then [] else [(pcb, ip_addr s, 8080)])\<rparr>"
  have dc: "dialled pcb c evs" "pcb \<in> http_conns c" using assms(3) by (simp_all add: dialled_def c_def t)
  obtain k where k: "0 < k" "http_poll (\<lambda>s. \<not> conneted s) 1000 c (evs @ es) = Some (k, c\<lparr>conneted := True\<rparr>, es)"
    using poll_connects [OF dc] by blast
  have N: "0 < N" and vb: "V < 2147483648" using L by simp_all
  have sr: "set_range 0 (c\<lparr>conneted := True\<rparr>) = c\<lparr>conneted := True, range_end := min V (range_start s + N)\<rparr>"
    using set_range_min [of "c\<lparr>conneted := True\<rparr>" V N] L assms(4) N by (simp add: c_def t)
  let ?a = "c\<lparr>conneted := True, range_end := min V (range_start s + N)\<rparr>"
  have tx: "request_text ?a = Some (get_text path hst (range_start ?a) (range_end ?a - 1))"
  proof (rule request_text_exact)
    show "host ?a = Some http_buf" "http_file ?a = Some (http_buf + length hst + 1)"
      "lies (hbuf ?a) http_buf (hst @ [0])" "lies (hbuf ?a) (http_buf + length hst + 1) (path @ [0])"
      using p(1,2,4,5) by (simp_all add: c_def del: http_buf_def)
    show "range_start ?a < 2147483648" "0 < range_end ?a" "range_end ?a \<le> 2147483648"
      using vb assms(4) N by (simp_all add: c_def t min_le_iff_disj)
  qed (use L in simp_all)
  have sb: "send_buf ?a = Some (http_buf + length hst + 1 + length path + 1)" using p(3) by (simp add: c_def del: http_buf_def)
  have st: "\<not> http_stopped (c\<lparr>conneted := True\<rparr>)" using L by (simp add: c_def t)
  let ?b = "?a\<lparr>hbuf := mcpy_in (hbuf ?a) (http_buf + length hst + 1 + length path + 1)
      (get_text path hst (range_start ?a) (range_end ?a - 1) @ [0]),
    http_wire := http_wire s @ [(pcb, get_text path hst (range_start s) (min V (range_start s + N) - 1))]\<rparr>"
  have wk: "\<forall>p t. write_ok L p t" using L by blast
  have sr': "send_request L pcb ?a = Some (True, ?b)"
    unfolding send_request_def sb tx using wk by (simp add: c_def t)
  have t1: "http_conns t = http_conns s" "ip_addr t = ip_addr s" "http_dials t = http_dials s" "\<not> lock t"
    using L by (simp_all add: t)
  have cs: "connect_send L port' 0 (t, evs @ es) = Some (True, ?b, es)"
    using k st assms(2) sr' unfolding connect_send_def
    by (simp add: Let_def t1 c_def [symmetric] sr del: http_buf_def cong: if_cong split del: if_split)
  have "http_get L False 0 (s, evs @ es) = Some (True, ?b\<lparr>lock := False\<rparr>, es)"
    using L url rs cs [unfolded port'_def] wait_unlocked [OF t1(4), of "evs @ es"]
    by (cases "port = 0") (simp_all add: http_get_def Let_def t_def [symmetric] del: http_buf_def cstr_simps)
  moreover have "?b\<lparr>lock := False\<rparr> = s\<lparr>hbuf := hbuf ?b, host := f, http_file := g, send_buf := h, recv_offset := 0,
      http_conns := insert pcb (http_conns s), http_pcb := Some pcb, http_dials := http_dials c, conneted := True, lock := False,
      range_end := min V (range_start s + N),
      http_wire := http_wire s @ [(pcb, get_text path hst (range_start s) (min V (range_start s + N) - 1))]\<rparr>"
    by (rule http.equality) (simp_all add: c_def t)
  ultimately have "http_get L False 0 (s, evs @ es) = Some (True, s\<lparr>hbuf := hbuf ?b, host := f, http_file := g,
      send_buf := h, recv_offset := 0, http_conns := insert pcb (http_conns s), http_pcb := Some pcb, http_dials := http_dials c,
      conneted := True, lock := False, range_end := min V (range_start s + N),
      http_wire := http_wire s @ [(pcb, get_text path hst (range_start s) (min V (range_start s + N) - 1))]\<rparr>, es)"
    by (simp only:)
  then show ?thesis by blast
qed

section \<open>One read\<close>

text \<open>Where the range begins that is asked for, when a block is not held: the block comes at its end.\<close>

definition window_start :: "nat \<Rightarrow> nat \<Rightarrow> nat \<Rightarrow> nat" where
  "window_start N a n = (if a > N - n then a - (N - n) else a)"

lemma window_start_range:
  assumes "0 < n" "n \<le> N" "a + n \<le> V"
  shows "window_start N a n \<le> a" "a + n \<le> window_start N a n + N" "window_start N a n < V"
  using assms by (auto simp: window_start_def)

text \<open>The server's part: nothing when the block is held; else the connection, and a partial answer with the
  bytes of the range, in pieces of which the first one ends behind the header.\<close>

definition server_answers :: "httplib \<Rightarrow> (nat \<Rightarrow> byte) \<Rightarrow> nat \<Rightarrow> nat \<Rightarrow> http \<Rightarrow> http_ev list \<Rightarrow> bool" where
  "server_answers L img V N s evs \<longleftrightarrow>
     (if http_hit s then evs = []
      else \<exists>pcb c hd b ps. new_pcb L (http_conns s) = Some pcb \<and> dialled pcb s c \<and>
        evs = c @ map (HSeg pcb) ((hd @ b) # ps) \<and> partial_head hd V \<and> b \<noteq> [] \<and> length hd + length b \<le> N \<and> [] \<notin> set ps \<and>
        (let x = window_start N (seek_addr (http_loc s)) (read_size (http_loc s))
         in b @ concat ps = file_bytes img x (min V (x + N) - x)))"

lemma http_read_serves:
  assumes up: "station_up L img V N hst path s" and n: "0 < read_size (http_loc s)" "read_size (http_loc s) \<le> N"
    and a: "seek_addr (http_loc s) + read_size (http_loc s) \<le> V" and bf: "buf (http_loc s) \<noteq> 0"
    and e: "server_answers L img V N s evs"
  shows "\<exists>s'. http_read L False (s, evs @ es) = Some (read_size (http_loc s), s', es) \<and> station_up L img V N hst path s' \<and>
    http_loc s' = http_loc s \<and>
    http_dest s' = mcpy_in (http_dest s) (buf (http_loc s)) (file_bytes img (seek_addr (http_loc s)) (read_size (http_loc s))) \<and>
    http_wire s' = http_wire s @ (if http_hit s then []
      else let x = window_start N (seek_addr (http_loc s)) (read_size (http_loc s))
        in [(the (new_pcb L (http_conns s)), get_text path hst x (min V (x + N) - 1))])"
proof -
  let ?l = "http_loc s" let ?a = "seek_addr ?l" and ?n = "read_size ?l"
  have lk: "station_link L V N hst path s" and g: "got img (recv_offset s) s" and h: "range_start s + recv_offset s \<le> V"
    using up by (simp_all add: station_up_def)
  note L = lk [unfolded station_link_def]
  have b: "V < 2147483648" "N < 2147483648" "0 < N" using L by simp_all
  show ?thesis
  proof (cases "http_hit s")
    case True
    have ev: "evs = []" using e True by (simp add: server_answers_def)
    have "recv_offset s \<noteq> 0" "range_start s \<le> ?a" "?a + ?n \<le> range_start s + recv_offset s"
      using True a b(1) h by (auto simp: http_hit_def not_less)
    hence c: "http_copy s = s\<lparr>http_dest := mcpy_in (http_dest s) (buf ?l) (file_bytes img ?a ?n)\<rparr>"
      and r: "recv_offset s \<noteq> 0"
      using copy_held [OF g] h b(1) by (simp_all add: file_bytes_def)
    have "http_read L False (s, evs @ es) = Some (?n, http_copy s, es)"
      using True L r by (simp add: http_read_def Let_def ev)
    moreover have "station_up L img V N hst path (http_copy s)"
      using up by (simp add: c station_up_def station_link_def got_def)
    ultimately show ?thesis using True by (intro exI [of _ "http_copy s"]) (simp add: c)
  next
    case False
    define x where "x = window_start N ?a ?n"
    note x = window_start_range [OF n a, folded x_def]
    obtain pcb c hd b' ps where ans: "new_pcb L (http_conns s) = Some pcb" "dialled pcb s c"
      "evs = c @ map (HSeg pcb) ((hd @ b') # ps)" "partial_head hd V" "b' \<noteq> []" "length hd + length b' \<le> N" "[] \<notin> set ps"
      "b' @ concat ps = file_bytes img x (min V (x + N) - x)"
      using e False by (auto simp: server_answers_def Let_def x_def)
    define s0 where "s0 = (if range_start s = 0 \<and> recv_offset s = 0 then s\<lparr>range_start := ?a\<rparr> else s)"
    have hit0: "\<not> http_hit s0" using False by (auto simp: s0_def http_hit_def)
    have w: "http_window s0 = s\<lparr>recv_offset := 0, range_start := x\<rparr>"
      using L n b a by (auto simp: s0_def http_window_def Let_def x_def window_start_def)
    have rd: "http_read L False (s, es') = http_redo L False 3 (s\<lparr>recv_offset := 0, range_start := x\<rparr>, es')" for es'
      using L hit0 w by (simp add: http_read_def Let_def s0_def [symmetric])
    define r where "r = s\<lparr>recv_offset := 0, range_start := x, http_sem := 0\<rparr>"
    have r: "station_link L V N hst path r" "new_pcb L (http_conns r) = Some pcb" "dialled pcb r c" "range_start r < V"
      using lk ans(1,2) x(3) by (simp_all add: r_def station_link_def dialled_def)
    obtain m f g' h' d where get: "http_get L False 0 (r, c @ (map (HSeg pcb) ((hd @ b') # ps) @ es)) = Some (True, r\<lparr>hbuf := m,
        host := f, http_file := g', send_buf := h', recv_offset := 0, http_conns := insert pcb (http_conns r), http_pcb := Some pcb,
        http_dials := d, conneted := True, lock := False, range_end := min V (x + N),
        http_wire := http_wire r @ [(pcb, get_text path hst x (min V (x + N) - 1))]\<rparr>, map (HSeg pcb) ((hd @ b') # ps) @ es)"
      using http_get_asks [OF r, of "map (HSeg pcb) ((hd @ b') # ps) @ es"] by (auto simp: r_def)
    define t where "t = r\<lparr>hbuf := m, host := f, http_file := g', send_buf := h', recv_offset := 0,
        http_conns := insert pcb (http_conns r), http_pcb := Some pcb, http_dials := d, conneted := True, lock := False,
        range_end := min V (x + N), http_wire := http_wire r @ [(pcb, get_text path hst x (min V (x + N) - 1))]\<rparr>"
    have t: "http_loc t = ?l" "range_start t = x" "range_end t = min V (x + N)" "buf_size t = N" "http_sem t = 0"
      "recv_offset t = 0" "pcb \<in> http_conns t" "http_dest t = http_dest s"
      using L by (simp_all add: t_def r_def)
    have ok: "request_ok V t" using x n a b bf by (simp add: request_ok_def Let_def t)
    have body: "b' @ concat ps = map img [range_start t..<range_end t]"
      using ans(8) x(3) by (simp add: t file_bytes_def)
    have fit: "length hd + length b' \<le> buf_size t" using ans(6) t(4) by simp
    note ar = range_arrives [OF ans(4) t(6) ok t(7) ans(5) fit ans(7) body]
    define u where "u = fold (\<lambda>p. http_event (HSeg pcb p)) ((hd @ b') # ps) t"
    have pend: "http_pend t (map (HSeg pcb) ((hd @ b') # ps) @ es) = Some (0, u\<lparr>http_sem := 0\<rparr>, es)"
      using ar(2) t(5) by (simp add: wakes_def u_def)
    obtain m' cl where u: "u = t\<lparr>hbuf := m', content_length := cl, net_recv_err := 0, file_size := V,
        recv_offset := min V (x + N) - x, http_sem := http_sem t + 1,
        http_dest := mcpy_in (http_dest s) (buf ?l) (file_bytes img ?a ?n)\<rparr>"
      and held: "lies m' http_buf (map img [x..<min V (x + N)])"
      using ar(1) unfolding arrived_def u_def [symmetric] by (auto simp: t file_bytes_def)
    have "http_read L False (s, evs @ es) = Some (?n, u\<lparr>http_sem := 0\<rparr>, es)"
      using n get [folded t_def] pend unfolding rd by (subst http_redo.simps) (simp add: ans(3) r_def [symmetric] u t)
    moreover have "station_up L img V N hst path (u\<lparr>http_sem := 0\<rparr>)"
    proof -
      have "station_link L V N hst path (u\<lparr>http_sem := 0\<rparr>)" using lk by (simp add: u t_def r_def station_link_def)
      moreover have "got img (recv_offset (u\<lparr>http_sem := 0\<rparr>)) (u\<lparr>http_sem := 0\<rparr>)"
        using held x(3) by (simp add: got_def u t)
      ultimately show ?thesis using x(3) by (simp add: station_up_def u t)
    qed
    ultimately show ?thesis using False ans(1)
      by (intro exI [of _ "u\<lparr>http_sem := 0\<rparr>"]) (simp add: u t t_def r_def x_def Let_def)
  qed
qed

lemma http_hit_cong:
  "recv_offset s = recv_offset t \<Longrightarrow> range_start s = range_start t \<Longrightarrow> seek_addr (http_loc s) = seek_addr (http_loc t) \<Longrightarrow>
    read_size (http_loc s) = read_size (http_loc t) \<Longrightarrow> http_hit s = http_hit t"
  by (simp add: http_hit_def)

lemma server_answers_cong:
  assumes "recv_offset s = recv_offset t" "range_start s = range_start t" "seek_addr (http_loc s) = seek_addr (http_loc t)"
    and "read_size (http_loc s) = read_size (http_loc t)" "http_conns s = http_conns t" "conneted s = conneted t"
  shows "server_answers L img V N s evs = server_answers L img V N t evs"
  by (simp only: server_answers_def http_hit_cong [OF assms(1-4)] assms(3-5) dialled_cong [OF assms(6)])

text \<open>The state in which \<open>net_f_read\<close> looks for the block.\<close>

definition wants :: "nat \<Rightarrow> nat \<Rightarrow> http \<Rightarrow> http" where
  "wants a n s = s\<lparr>http_loc := (http_loc s)\<lparr>seek_addr := a, read_size := n\<rparr>\<rparr>"

definition request_for :: "httplib \<Rightarrow> nat \<Rightarrow> nat \<Rightarrow> byte list \<Rightarrow> byte list \<Rightarrow> nat \<Rightarrow> nat \<Rightarrow> http \<Rightarrow> (nat \<times> byte list) list" where
  "request_for L V N hst path a n s =
     (if http_hit (wants a n s) then []
      else let x = window_start N a n in [(the (new_pcb L (http_conns s)), get_text path hst x (min V (x + N) - 1))])"

lemma http_f_read_serves:
  assumes up: "station_up L img V N hst path s" and n: "0 < n" "n \<le> N" "seek_addr (http_loc s) + n \<le> V" and bf: "b \<noteq> 0"
    and e: "server_answers L img V N (wants (seek_addr (http_loc s)) n s) evs"
  shows "\<exists>s'. http_f_read L b n (s, evs @ es) = Some (int n, s', es) \<and> station_up L img V N hst path s' \<and>
    seek_addr (http_loc s') = seek_addr (http_loc s) \<and>
    http_dest s' = mcpy_in (http_dest s) b (file_bytes img (seek_addr (http_loc s)) n) \<and>
    http_wire s' = http_wire s @ request_for L V N hst path (seek_addr (http_loc s)) n s"
proof -
  let ?a = "seek_addr (http_loc s)"
  note L = up [unfolded station_up_def station_link_def]
  define q where "q = s\<lparr>http_loc := (http_loc s)\<lparr>download_percent :=
      progress (http_all_size s) (http_read_size s) (download_percent (http_loc s)), read_size := n, resv := 0, buf := b\<rparr>\<rparr>"
  have qf: "seek_addr (http_loc q) = ?a" "read_size (http_loc q) = n" "buf (http_loc q) = b" "http_dest q = http_dest s"
    "http_wire q = http_wire s" "http_conns q = http_conns s" by (simp_all add: q_def)
  have qu: "station_up L img V N hst path q" using up by (simp add: q_def station_up_def station_link_def got_def)
  have qe: "server_answers L img V N q evs = server_answers L img V N (wants ?a n s) evs"
    by (rule server_answers_cong) (simp_all add: q_def wants_def)
  have e': "server_answers L img V N q evs" using e qe by simp
  have qh: "http_hit q = http_hit (wants ?a n s)" by (rule http_hit_cong) (simp_all add: q_def wants_def)
  have qn: "0 < read_size (http_loc q)" "read_size (http_loc q) \<le> N" "seek_addr (http_loc q) + read_size (http_loc q) \<le> V"
    "buf (http_loc q) \<noteq> 0" using n bf by (simp_all add: qf)
  obtain u where u: "http_read L False (q, evs @ es) = Some (n, u, es)" "station_up L img V N hst path u" "http_loc u = http_loc q"
    "http_dest u = mcpy_in (http_dest s) b (file_bytes img ?a n)" "http_wire u = http_wire s @ request_for L V N hst path ?a n s"
    using http_read_serves [OF qu qn e', of es] unfolding qf qh request_for_def by blast
  have t: "read_tries L 3 (q, evs @ es) = Some (n, u, es)" using u(1) n(1) by (simp add: numeral_3_eq_3)
  define s' where "s' = (if http_all_size u \<noteq> 0 then u\<lparr>http_read_size := u32_add (http_read_size u) n\<rparr> else u)"
  have "s32 (int n) = int n" using n L by simp
  hence "http_f_read L b n (s, evs @ es) = Some (int n, s', es)"
    using L t n(1) u(3) qf(2) by (simp add: http_f_read_def Let_def q_def [symmetric] s'_def)
  moreover have "station_up L img V N hst path s'" using u(2) by (simp add: s'_def station_up_def station_link_def got_def)
  ultimately show ?thesis using u(3-5) qf(1) by (intro exI [of _ s']) (simp add: s'_def)
qed

text \<open>C5: A read of the station build, from the library's call to the wire and back.  With the server's address, name
  and file size known, a read of up to a buffer returns its length with exactly the bytes of the file at the
  library's buffer.  A block that is held is served without a request.  For any other block the client dials and
  sends one request, whose text names the path, the host, and the range from \<open>window_start\<close> to the end of the
  buffer or of the file; the partial answer with that range, cut into pieces, fills the buffer, wakes the reader
  once, and leaves a state in which the same holds of the next read.\<close>

theorem station_read_delivers:
  assumes "station_up L img V N hst path s" "0 < n" "n \<le> N" "seek_addr (http_loc s) + n \<le> V" "b \<noteq> 0"
    and "server_answers L img V N (wants (seek_addr (http_loc s)) n s) evs"
  shows "\<exists>s'. http_f_read L b n (s, evs @ es) = Some (int n, s', es) \<and> station_up L img V N hst path s' \<and>
    http_dest s' = mcpy_in (http_dest s) b (file_bytes img (seek_addr (http_loc s)) n) \<and>
    http_wire s' = http_wire s @ request_for L V N hst path (seek_addr (http_loc s)) n s"
  using http_f_read_serves [OF assms] by blast

section \<open>The client's reads as a source of blocks\<close>







section \<open>Concrete runs\<close>

text \<open>The station before its first read: the size of the file is known, nothing is held and no connection is up.\<close>

definition ex_station :: http where
  "ex_station = ex_http\<lparr>conneted := False, http_pcb := None, http_conns := {}, file_size := 4\<rparr>"

definition ex_host :: "byte list" where "ex_host = cstr ''172.16.109.91''"
definition ex_path :: "byte list" where "ex_path = cstr ''/update-ota.ufw''"

lemma ex_cut: "strstr HTTP_UPDATE_URL (cstr ''http://'') = Some HTTP_UPDATE_URL"
  "cut_url 40908 (drop 7 HTTP_UPDATE_URL) = Some (Some (ex_host, 18888, ex_path))"
  by (simp_all add: HTTP_UPDATE_URL_def ex_host_def ex_path_def strstr.simps cut_url_def atoi_def digits_value_def
      is_digit_def u32_of_int_def)

lemma ex_station_link:
  "station_link ex_httplib 4 40908 ex_host ex_path (ex_station\<lparr>hbuf := m, recv_offset := k, conneted := c, http_conns := C\<rparr>)"
  using ex_cut by (simp add: station_link_def ex_station_def ex_http_def ex_httplib_def ex_host_def ex_path_def fresh_local_def)

lemma ex_station_up: "station_up ex_httplib ex_file 4 40908 ex_host ex_path ex_station"
  using ex_station_link [where m = "hbuf ex_station" and k = "recv_offset ex_station" and c = "conneted ex_station" and C = "http_conns ex_station"]
  by (simp add: station_up_def got_def) (simp add: ex_station_def ex_http_def lies_def)

lemma ex_server:
  "server_answers ex_httplib ex_file 4 40908 (wants 1 2 ex_station)
     ([HTimer, HConn 4, HTimer] @ map (HSeg 4) ((ex_head @ [8]) # [[9], [10]]))"
proof -
  have "dialled 4 (wants 1 2 ex_station) [HTimer, HConn 4, HTimer]"
    unfolding dialled_def by (simp add: ex_station_def wants_def) (intro exI [of _ 1], simp)
  moreover have "[8] @ concat [[9], [10]] = file_bytes ex_file 1 3" by (simp add: ex_file_def file_bytes_def upt_rec)
  moreover have "length ex_head + length [8 :: nat] \<le> 40908" by (simp add: ex_head_def head_text_def)
  moreover have "\<not> http_hit (wants 1 2 ex_station)" by (simp add: http_hit_def wants_def ex_station_def ex_http_def)
  moreover have "new_pcb ex_httplib (http_conns (wants 1 2 ex_station)) = Some 4" by (simp add: ex_httplib_def)
  moreover have "seek_addr (http_loc (wants 1 2 ex_station)) = 1" "read_size (http_loc (wants 1 2 ex_station)) = 2"
    by (simp_all add: wants_def)
  ultimately show ?thesis
    unfolding server_answers_def Let_def using ex_head_ok
    by (simp only: if_False, intro exI conjI) (assumption | rule refl | simp add: window_start_def)+
qed

theorem station_read_delivers_witness:
  "\<exists>s'. http_f_read ex_httplib 64 2 (ex_station, ([HTimer, HConn 4, HTimer] @ map (HSeg 4) ((ex_head @ [8]) # [[9], [10]])) @ []) =
      Some (int 2, s', []) \<and> station_up ex_httplib ex_file 4 40908 ex_host ex_path s' \<and>
    http_dest s' = mcpy_in (http_dest ex_station) 64 [8, 9] \<and>
    http_wire s' = http_wire ex_station @ [(4, get_text ex_path ex_host 1 3)]"
proof -
  have a: "seek_addr (http_loc ex_station) = 1" by (simp add: ex_station_def ex_http_def)
  have f: "file_bytes ex_file 1 2 = [8, 9]" by (simp add: ex_file_def file_bytes_def upt_rec)
  have r: "request_for ex_httplib 4 40908 ex_host ex_path 1 2 ex_station = [(4, get_text ex_path ex_host 1 3)]"
    by (simp add: request_for_def http_hit_def wants_def ex_station_def ex_http_def window_start_def ex_httplib_def Let_def)
  show ?thesis
    using station_read_delivers [OF ex_station_up, of 2 64 "[HTimer, HConn 4, HTimer] @ map (HSeg 4) ((ex_head @ [8]) # [[9], [10]])" "[]",
        unfolded a f r] ex_server by simp
qed






end
