(* ===== verification/KList.thy ===== *)
theory KList
  imports OTA_Prelude
begin

text \<open>
  The intrusive circular doubly linked lists of \<open>generic/list.h\<close>, on an explicit store of
  \<open>next\<close> and \<open>prev\<close> pointers.  \<open>dll m h xs\<close> says that the nodes \<open>xs\<close> hang, in this order,
  on the list head \<open>h\<close>.  The refinement lemmas say that each macro or inline function is the
  obvious operation on the list \<open>xs\<close>; the allocator \<open>Lbuf\<close> works on these lists.
\<close>

section \<open>The store and the operations of list.h\<close>

record lmem =
  nxt :: "addr \<Rightarrow> addr"
  prv :: "addr \<Rightarrow> addr"

definition INIT_LIST_HEAD :: "addr \<Rightarrow> lmem \<Rightarrow> lmem" where
  "INIT_LIST_HEAD h m = m\<lparr>nxt := (nxt m)(h := h), prv := (prv m)(h := h)\<rparr>"

text \<open>\<open>__list_add(_new, prev, next)\<close>: four stores, in the order of the source.\<close>

definition list_add_between :: "addr \<Rightarrow> addr \<Rightarrow> addr \<Rightarrow> lmem \<Rightarrow> lmem" where
  "list_add_between new prev next m =
    (let m = m\<lparr>prv := (prv m)(next := new)\<rparr>;
         m = m\<lparr>nxt := (nxt m)(new := next)\<rparr>;
         m = m\<lparr>prv := (prv m)(new := prev)\<rparr>
     in m\<lparr>nxt := (nxt m)(prev := new)\<rparr>)"

definition list_add_tail :: "addr \<Rightarrow> addr \<Rightarrow> lmem \<Rightarrow> lmem" where
  "list_add_tail new head m = list_add_between new (prv m head) head m"

text \<open>\<open>__list_del\<close> does nothing when a neighbour pointer is null.\<close>

definition list_del_between :: "addr \<Rightarrow> addr \<Rightarrow> lmem \<Rightarrow> lmem" where
  "list_del_between prev next m =
    (if prev = 0 \<or> next = 0 then m
     else m\<lparr>prv := (prv m)(next := prev), nxt := (nxt m)(prev := next)\<rparr>)"

definition list_del_entry :: "addr \<Rightarrow> lmem \<Rightarrow> lmem" where
  "list_del_entry e m = list_del_between (prv m e) (nxt m e) m"

text \<open>\<open>list_del\<close> and \<open>list_del_init\<close> leave the node a list of its own.\<close>

definition list_del :: "addr \<Rightarrow> lmem \<Rightarrow> lmem" where
  "list_del e m =
    (let m = list_del_between (prv m e) (nxt m e) m;
         m = m\<lparr>nxt := (nxt m)(e := e)\<rparr>
     in m\<lparr>prv := (prv m)(e := e)\<rparr>)"

definition list_del_init :: "addr \<Rightarrow> lmem \<Rightarrow> lmem" where
  "list_del_init e m = INIT_LIST_HEAD e (list_del_entry e m)"

definition list_move_tail :: "addr \<Rightarrow> addr \<Rightarrow> lmem \<Rightarrow> lmem" where
  "list_move_tail e h m = list_add_tail e h (list_del_between (prv m e) (nxt m e) m)"

definition list_add :: "addr \<Rightarrow> addr \<Rightarrow> lmem \<Rightarrow> lmem" where
  "list_add new head m = list_add_between new head (nxt m head) m"

definition list_empty :: "addr \<Rightarrow> lmem \<Rightarrow> bool" where
  "list_empty h m \<longleftrightarrow> nxt m h = h"

text \<open>The nodes \<open>list_for_each_entry\<close> visits, with fuel for a store that is not a list.\<close>

fun list_walk :: "nat \<Rightarrow> addr \<Rightarrow> addr \<Rightarrow> lmem \<Rightarrow> addr list option" where
  "list_walk 0 p h m = None"
| "list_walk (Suc n) p h m =
    (if p = h then Some [] else map_option (Cons p) (list_walk n (nxt m p) h m))"

text \<open>And those \<open>list_for_each_entry_reverse\<close> visits.\<close>

fun list_walk_back :: "nat \<Rightarrow> addr \<Rightarrow> addr \<Rightarrow> lmem \<Rightarrow> addr list option" where
  "list_walk_back 0 p h m = None"
| "list_walk_back (Suc n) p h m =
    (if p = h then Some [] else map_option (Cons p) (list_walk_back n (prv m p) h m))"

section \<open>The abstraction\<close>

fun dseg :: "lmem \<Rightarrow> addr \<Rightarrow> addr list \<Rightarrow> addr \<Rightarrow> bool" where
  "dseg m a [] b = (nxt m a = b \<and> prv m b = a)"
| "dseg m a (x # xs) b = (nxt m a = x \<and> prv m x = a \<and> dseg m x xs b)"

definition dll :: "lmem \<Rightarrow> addr \<Rightarrow> addr list \<Rightarrow> bool" where
  "dll m h xs \<longleftrightarrow> dseg m h xs h \<and> distinct (h # xs) \<and> 0 \<notin> set (h # xs)"

lemma dseg_append [simp]: "dseg m a (xs @ x # ys) b = (dseg m a xs x \<and> dseg m x ys b)"
  by (induction xs arbitrary: a) auto

lemma dseg_snoc: "xs \<noteq> [] \<Longrightarrow> dseg m a xs b = (dseg m a (butlast xs) (last xs) \<and> dseg m (last xs) [] b)"
  using dseg_append [of m a "butlast xs" "last xs" "[]" b] by simp

lemma dseg_frame:
  assumes "\<forall>x \<in> set (a # xs). nxt m' x = nxt m x" "\<forall>x \<in> set (xs @ [b]). prv m' x = prv m x"
  shows "dseg m' a xs b = dseg m a xs b"
  using assms by (induction xs arbitrary: a) auto

text \<open>Redirecting the last node of a segment to a new end.\<close>

lemma dseg_redirect:
  assumes "dseg m a xs b" "distinct (a # xs)" "b' \<notin> set xs"
    and "\<forall>x \<in> set xs. prv m' x = prv m x"
    and "\<forall>x \<in> set (a # xs) - {last (a # xs)}. nxt m' x = nxt m x"
    and "nxt m' (last (a # xs)) = b'" "prv m' b' = last (a # xs)"
  shows "dseg m' a xs b'"
  using assms
proof (induction xs arbitrary: a)
  case (Cons x xs)
  have "dseg m' x xs b'"
  proof (rule Cons.IH)
    show "\<forall>y \<in> set (x # xs) - {last (x # xs)}. nxt m' y = nxt m y"
      using Cons.prems(5) by auto
  qed (use Cons.prems in auto)
  moreover have "a \<noteq> last (x # xs)" using Cons.prems(2) last_in_set [of "x # xs"] by auto
  ultimately show ?case using Cons.prems by auto
qed auto

text \<open>And the first node to a new start.\<close>

lemma dseg_restart:
  assumes "dseg m a xs b" "distinct xs" "b \<notin> set xs"
    and "\<forall>x \<in> set xs. nxt m' x = nxt m x"
    and "\<forall>x \<in> set (xs @ [b]) - {hd (xs @ [b])}. prv m' x = prv m x"
    and "nxt m' a' = hd (xs @ [b])" "prv m' (hd (xs @ [b])) = a'"
  shows "dseg m' a' xs b"
proof (cases xs)
  case (Cons x ys)
  have "dseg m' x ys b = dseg m x ys b"
    using assms Cons by (intro dseg_frame) auto
  with assms Cons show ?thesis by simp
qed (use assms in simp)

lemma dseg_last: "dseg m a xs b \<Longrightarrow> prv m b = last (a # xs)"
  by (induction xs arbitrary: a) auto

lemma dseg_first: "dseg m a xs b \<Longrightarrow> nxt m a = hd (xs @ [b])"
  by (cases xs) auto

section \<open>Refinement\<close>

lemma dll_init: "h \<noteq> 0 \<Longrightarrow> dll (INIT_LIST_HEAD h m) h []"
  by (simp add: dll_def INIT_LIST_HEAD_def)

lemma dll_empty: "dll m h xs \<Longrightarrow> list_empty h m = (xs = [])"
  by (cases xs) (auto simp: dll_def list_empty_def)

text \<open>
  The store after \<open>__list_add\<close>: the four assignments do not interfere because the new node is
  none of its neighbours.
\<close>

lemma list_add_between_store:
  assumes "new \<noteq> prev" "new \<noteq> next"
  shows "nxt (list_add_between new prev next m) = (nxt m)(new := next, prev := new)"
    and "prv (list_add_between new prev next m) = (prv m)(next := new, new := prev)"
  using assms by (auto simp: list_add_between_def Let_def)

text \<open>Linking a fresh node between two consecutive segments.\<close>

lemma list_add_between_dll:
  assumes "dseg m h xs p" "dseg m q ys h" "last (h # xs) = a" "hd (ys @ [h]) = b"
    and "distinct (h # xs @ ys)" "0 \<notin> set (h # xs @ ys)"
    and "new \<notin> set (h # xs @ ys)" "new \<noteq> 0"
  shows "dll (list_add_between new a b m) h (xs @ new # ys)"
proof -
  let ?m = "list_add_between new a b m"
  have ab: "a \<in> set (h # xs)" "b \<in> set (ys @ [h])"
    using assms(3,4) last_in_set [of "h # xs"] hd_in_set [of "ys @ [h]"] by auto
  then have ne: "new \<noteq> a" "new \<noteq> b" using assms(7) by auto
  have "dseg ?m h xs new"
  proof (rule dseg_redirect [OF assms(1)])
    show "\<forall>x \<in> set xs. prv ?m x = prv m x"
      using assms ab by (auto simp: list_add_between_store [OF ne])
    show "\<forall>x \<in> set (h # xs) - {last (h # xs)}. nxt ?m x = nxt m x"
      using assms by (auto simp: list_add_between_store [OF ne])
  qed (use assms ne in \<open>auto simp: list_add_between_store [OF ne]\<close>)
  moreover have "dseg ?m new ys h"
  proof (rule dseg_restart [OF assms(2)])
    show "\<forall>x \<in> set ys. nxt ?m x = nxt m x"
      using assms ab by (auto simp: list_add_between_store [OF ne])
    show "\<forall>x \<in> set (ys @ [h]) - {hd (ys @ [h])}. prv ?m x = prv m x"
      using assms by (auto simp: list_add_between_store [OF ne])
  qed (use assms ne in \<open>auto simp: list_add_between_store [OF ne]\<close>)
  ultimately show ?thesis using assms by (auto simp: dll_def)
qed

lemma list_add_tail_dll:
  assumes "dll m h xs" "new \<notin> set (h # xs)" "new \<noteq> 0"
  shows "dll (list_add_tail new h m) h (xs @ [new])"
proof -
  from assms(1) have seg: "dseg m h xs h" by (simp add: dll_def)
  have d: "dll (list_add_between new (last (h # xs)) h m) h (xs @ new # [])"
  proof (rule list_add_between_dll [OF seg, where q = "last (h # xs)"])
    show "dseg m (last (h # xs)) [] h"
      using seg by (cases "xs = []") (auto simp: dseg_snoc)
  qed (use assms in \<open>auto simp: dll_def\<close>)
  then show ?thesis using dseg_last [OF seg] by (simp add: list_add_tail_def)
qed

text \<open>Replacing a node, and inserting before one: the two uses in the allocator.\<close>

lemma list_replace_dll:
  assumes "dll m h (xs @ p # ys)" "new \<notin> set (h # xs @ ys)" "new \<noteq> 0" "new \<noteq> p"
  shows "dll (list_add_between new (prv m p) (nxt m p) m) h (xs @ new # ys)"
proof -
  from assms(1) have s: "dseg m h xs p" "dseg m p ys h" by (auto simp: dll_def)
  have "dll (list_add_between new (last (h # xs)) (hd (ys @ [h])) m) h (xs @ new # ys)"
    by (rule list_add_between_dll [OF s]) (use assms in \<open>auto simp: dll_def\<close>)
  then show ?thesis using dseg_last [OF s(1)] dseg_first [OF s(2)] by simp
qed

lemma list_insert_before_dll:
  assumes "dll m h (xs @ p # ys)" "new \<notin> set (h # xs @ p # ys)" "new \<noteq> 0"
  shows "dll (list_add_between new (prv m p) p m) h (xs @ new # p # ys)"
proof -
  from assms(1) have s: "dseg m h xs p" "dseg m (prv m p) (p # ys) h"
    using dseg_last [of m h xs p] dseg_append [of m h "butlast xs" "last xs" "p # ys" h]
    by (auto simp: dll_def dseg_snoc split: if_splits)
  have "dll (list_add_between new (last (h # xs)) p m) h (xs @ new # (p # ys))"
    by (rule list_add_between_dll [OF s]) (use assms in \<open>auto simp: dll_def dseg_last [OF s(1)]\<close>)
  then show ?thesis using dseg_last [OF s(1)] by simp
qed

lemma list_del_entry_dll:
  assumes "dll m h (xs @ e # ys)"
  shows "dll (list_del_entry e m) h (xs @ ys)"
    and "nxt (list_del_entry e m) e = nxt m e"
proof -
  from assms have s: "dseg m h xs e" "dseg m e ys h"
    and d: "distinct (h # xs @ e # ys)" "0 \<notin> set (h # xs @ e # ys)" by (auto simp: dll_def)
  have p: "prv m e = last (h # xs)" and n: "nxt m e = hd (ys @ [h])"
    using dseg_last [OF s(1)] dseg_first [OF s(2)] .
  have mem: "last (h # xs) \<in> set (h # xs)" "hd (ys @ [h]) \<in> set (ys @ [h])"
    using last_in_set [of "h # xs"] hd_in_set [of "ys @ [h]"] by auto
  with d have nz: "prv m e \<noteq> 0" "nxt m e \<noteq> 0" and ne: "e \<noteq> prv m e" "e \<noteq> nxt m e"
    unfolding p n by auto
  let ?m = "list_del_entry e m"
  have st: "nxt ?m = (nxt m)(prv m e := nxt m e)" "prv ?m = (prv m)(nxt m e := prv m e)"
    using nz by (simp_all add: list_del_entry_def list_del_between_def)
  show "nxt ?m e = nxt m e" using ne by (simp add: st)
  show "dll ?m h (xs @ ys)"
  proof (cases ys)
    case Nil
    have "dseg ?m h xs h"
      by (rule dseg_redirect [OF s(1)]) (use d mem Nil in \<open>auto simp: st p n\<close>)
    with d Nil show ?thesis by (simp add: dll_def)
  next
    case (Cons y zs)
    have "dseg ?m h xs y"
      by (rule dseg_redirect [OF s(1)]) (use d mem Cons in \<open>auto simp: st p n\<close>)
    moreover have "dseg ?m y zs h = dseg m y zs h"
      by (rule dseg_frame) (use d mem Cons in \<open>auto simp: st p n\<close>)
    ultimately show ?thesis using d s Cons by (simp add: dll_def)
  qed
qed

text \<open>Unlinking a node that was only initialised changes nothing.\<close>

lemma list_del_entry_init:
  assumes "e \<noteq> 0"
  shows "list_del_entry e (INIT_LIST_HEAD e m) = INIT_LIST_HEAD e m"
  using assms by (auto simp: list_del_entry_def list_del_between_def INIT_LIST_HEAD_def)

text \<open>\<open>list_for_each_entry\<close> visits exactly the nodes, in order, and stops.\<close>

lemma list_walk_dseg:
  assumes "dseg m a xs h" "h \<notin> set xs" "length xs < n"
  shows "list_walk n (nxt m a) h m = Some xs"
  using assms
proof (induction xs arbitrary: a n)
  case Nil
  then show ?case by (cases n) auto
next
  case (Cons x xs)
  then obtain k where k: "n = Suc k" by (cases n) auto
  have "list_walk k (nxt m x) h m = Some xs"
    using Cons.prems k by (intro Cons.IH) auto
  with Cons.prems k show ?case by auto
qed

lemma list_walk_dll: "dll m h xs \<Longrightarrow> list_walk (Suc (length xs)) (nxt m h) h m = Some xs"
  by (rule list_walk_dseg) (auto simp: dll_def)

section \<open>Deleting into a list of its own, moving, adding in front\<close>

lemma list_del_store:
  "list_del e m = INIT_LIST_HEAD e (list_del_entry e m)"
  by (simp add: list_del_def list_del_entry_def INIT_LIST_HEAD_def Let_def)

lemma list_del_init_eq: "list_del_init e m = list_del e m"
  by (simp add: list_del_init_def list_del_store)

lemma init_frame:
  assumes "dll m h xs" "e \<notin> set (h # xs)"
  shows "dll (INIT_LIST_HEAD e m) h xs"
proof -
  have "dseg (INIT_LIST_HEAD e m) h xs h = dseg m h xs h"
    by (rule dseg_frame) (use assms(2) in \<open>auto simp: INIT_LIST_HEAD_def\<close>)
  with assms(1) show ?thesis by (simp add: dll_def)
qed

lemma list_del_dll:
  assumes "dll m h (xs @ e # ys)"
  shows "dll (list_del e m) h (xs @ ys) \<and> dll (list_del e m) e []"
proof -
  have e: "e \<notin> set (h # xs @ ys)" "e \<noteq> 0" using assms by (auto simp: dll_def)
  with init_frame [OF list_del_entry_dll(1) [OF assms]] dll_init show ?thesis
    by (simp add: list_del_store)
qed

lemma list_move_tail_dll:
  assumes "dll m h (xs @ e # ys)"
  shows "dll (list_move_tail e h m) h (xs @ ys @ [e])"
proof -
  have e: "e \<notin> set (h # xs @ ys)" "e \<noteq> 0" using assms by (auto simp: dll_def)
  have "list_move_tail e h m = list_add_tail e h (list_del_entry e m)"
    by (simp add: list_move_tail_def list_del_entry_def)
  with list_add_tail_dll [OF list_del_entry_dll(1) [OF assms]] e show ?thesis by simp
qed

lemma list_add_dll:
  assumes "dll m h xs" "new \<notin> set (h # xs)" "new \<noteq> 0"
  shows "dll (list_add new h m) h (new # xs)"
proof -
  from assms(1) have seg: "dseg m h xs h" by (simp add: dll_def)
  have "dll (list_add_between new h (hd (xs @ [h])) m) h ([] @ new # xs)"
  proof (rule list_add_between_dll [where p = "hd (xs @ [h])" and q = h])
    show "dseg m h [] (hd (xs @ [h]))" using seg by (cases xs) auto
  qed (use assms seg in \<open>auto simp: dll_def\<close>)
  then show ?thesis using dseg_first [OF seg] by (simp add: list_add_def)
qed

lemma list_walk_back_dseg:
  assumes "dseg m h xs b" "h \<notin> set xs" "length xs < n"
  shows "list_walk_back n (prv m b) h m = Some (rev xs)"
  using assms
proof (induction xs arbitrary: b n rule: rev_induct)
  case Nil
  then show ?case by (cases n) auto
next
  case (snoc x xs)
  then obtain k where k: "n = Suc k" by (cases n) auto
  have "list_walk_back k (prv m x) h m = Some (rev xs)"
    using snoc.prems k by (intro snoc.IH) auto
  with snoc.prems k show ?case by auto
qed

lemma list_walk_back_dll: "dll m h xs \<Longrightarrow> list_walk_back (Suc (length xs)) (prv m h) h m = Some (rev xs)"
  by (rule list_walk_back_dseg) (auto simp: dll_def)

end
