(* ===== verification/Lbuf.thy ===== *)
theory Lbuf
  imports KList
begin

text \<open>
  The block allocator and message queue of \<open>common/lbuf_new.c\<close>.  A pool is a head structure
  (two list heads) followed by memory cut into blocks.  A free block starts with a
  \<open>struct hfree\<close> and sits in the list \<open>free\<close>, in address order; an allocated block starts with a
  \<open>struct hentry\<close>, whose payload the caller gets, and may be linked in the queue \<open>head\<close>.

  The two intrusive lists are HOL lists here (\<open>KList\<close> shows that the list operations of the source
  implement this); the headers of allocated blocks are a partial map from addresses.  Freeing a
  block turns its header into a \<open>struct hfree\<close>, whose \<open>len\<close> lies on top of \<open>hentry.head\<close>: from then
  on the address is no valid handle, and an operation on it is the error \<open>BadHandle\<close>.
  A failed \<open>ASSERT\<close>, which resets the chip, is the error \<open>AssertReset\<close>.
  Every operation runs with interrupts off, so it is one step.
\<close>

section \<open>State\<close>

text \<open>\<open>sizeof\<close> of the three structures on the 32-bit target.\<close>

definition sz_head :: nat where "sz_head = 16"
definition sz_hentry :: nat where "sz_hentry = 20"
definition sz_hfree :: nat where "sz_hfree = 12"

lemmas sz = sz_head_def sz_hentry_def sz_hfree_def

record hentry =
  he_head :: addr
  he_len :: nat
  he_state :: nat
  he_ref :: nat

record lbuf =
  lb_head :: addr
  lb_queue :: "addr list"
  lb_free :: "block list"
  lb_ents :: "addr \<Rightarrow> hentry option"

datatype lb_error = BadHandle | AssertReset

section \<open>Operations\<close>

definition lbuf_get_chunk_num :: "nat \<Rightarrow> nat \<Rightarrow> nat option" where
  "lbuf_get_chunk_num total_size chunk_size =
    (let d = u32_add (u32_add chunk_size sz_hentry) 3
     in if d = 0 then None else Some (u32_sub total_size sz_hfree div d))"

definition lbuf_init :: "addr \<Rightarrow> nat \<Rightarrow> lbuf" where
  "lbuf_init buf buf_len =
    (let len = (if buf mod 4 \<noteq> 0 then u32_sub buf_len (4 - buf mod 4) else buf_len);
         head = (if buf mod 4 \<noteq> 0 then u32_add buf (4 - buf mod 4) else buf)
     in \<lparr>lb_head = head, lb_queue = [],
         lb_free = [(u32_add head sz_head, u32_sub (u32_sub len sz_head) sz_hfree)],
         lb_ents = Map.empty\<rparr>)"

text \<open>The loop of \<open>lbuf_alloc_btctrler\<close>: block address, block length, new free list.\<close>

fun alloc_scan :: "block list \<Rightarrow> nat \<Rightarrow> (addr \<times> nat \<times> block list) option" where
  "alloc_scan [] len = None"
| "alloc_scan ((p, l) # ps) len =
    (if l < len then map_option (\<lambda>(a, n, fs). (a, n, (p, l) # fs)) (alloc_scan ps len)
     else if l > u32_add len sz_hfree
     then Some (p, len, (u32_add p len, u32_sub l len) # ps)
     else Some (p, l, ps))"

definition alloc_size :: "nat \<Rightarrow> nat" where
  "alloc_size len = align4 (u32_add len sz_hentry)"

definition lbuf_alloc :: "lbuf \<Rightarrow> nat \<Rightarrow> lbuf \<times> addr" where
  "lbuf_alloc s len =
    (case alloc_scan (lb_free s) (alloc_size len) of
       None \<Rightarrow> (s, 0)
     | Some (p, n, fs) \<Rightarrow>
         (s\<lparr>lb_free := fs,
            lb_ents := (lb_ents s)(p \<mapsto>
              \<lparr>he_head = lb_head s, he_len = n, he_state = 0, he_ref = 0\<rparr>)\<rparr>,
          u32_add p sz_hentry))"

definition get_entry :: "addr \<Rightarrow> addr" where
  "get_entry ptr = u32_sub ptr sz_hentry"

text \<open>The two loops of \<open>lbuf_free_btctrler\<close>: find the place (\<open>None\<close> is \<open>goto _exit\<close>), then merge.\<close>

fun free_insert :: "block list \<Rightarrow> block \<Rightarrow> block list option" where
  "free_insert [] new = Some [new]"
| "free_insert ((p, l) # ps) (n, m) =
    (if p \<le> n \<and> u32_add p l > n then None
     else if p > n then Some ((n, m) # (p, l) # ps)
     else map_option (Cons (p, l)) (free_insert ps (n, m)))"

fun free_merge :: "block list \<Rightarrow> block list" where
  "free_merge [] = []"
| "free_merge [b] = [b]"
| "free_merge ((a, l) # (p, m) # ps) =
    (if u32_add a l = p then free_merge ((a, u32_add l m) # ps)
     else (a, l) # free_merge ((p, m) # ps))"

definition lbuf_free :: "lbuf \<Rightarrow> addr \<Rightarrow> lb_error + lbuf" where
  "lbuf_free s ptr =
    (if ptr = 0 then Inr s
     else case lb_ents s (get_entry ptr) of
       None \<Rightarrow> Inl BadHandle
     | Some e \<Rightarrow>
         (let s = s\<lparr>lb_queue := remove1 (get_entry ptr) (lb_queue s),
                    lb_ents := (lb_ents s)(get_entry ptr := None)\<rparr>
          in case free_insert (lb_free s) (get_entry ptr, he_len e) of
               None \<Rightarrow> Inr s
             | Some fs \<Rightarrow> Inr (s\<lparr>lb_free := free_merge fs\<rparr>)))"

definition lbuf_realloc :: "lbuf \<Rightarrow> addr \<Rightarrow> nat \<Rightarrow> lb_error + (lbuf \<times> addr)" where
  "lbuf_realloc s ptr size' =
    (case lb_ents s (get_entry ptr) of
       None \<Rightarrow> Inl BadHandle
     | Some e \<Rightarrow>
         (let size' = align4 size'
          in if \<not> size' < he_len e then Inl AssertReset
             else if size' > u32_sub (he_len e) sz_hentry then Inr (s, 0)
             else if u32_add (u32_add size' sz_hentry) sz_hentry < he_len e
             then (let new = u32_add ptr size';
                       ne = \<lparr>he_head = he_head e,
                             he_len = u32_sub (u32_sub (he_len e) sz_hentry) size',
                             he_state = 0, he_ref = 0\<rparr>;
                       s' = s\<lparr>lb_ents := (lb_ents s)(new \<mapsto> ne,
                                get_entry ptr \<mapsto> e\<lparr>he_len := u32_add sz_hentry size'\<rparr>)\<rparr>
                   in case lbuf_free s' (u32_add new sz_hentry) of
                        Inl x \<Rightarrow> Inl x
                      | Inr s'' \<Rightarrow> Inr (s'', ptr))
             else Inr (s, ptr)))"

definition lbuf_empty :: "lbuf \<Rightarrow> nat" where
  "lbuf_empty s = (if lb_queue s = [] then 1 else 0)"

definition lbuf_push :: "lbuf \<Rightarrow> addr \<Rightarrow> lb_error + lbuf" where
  "lbuf_push s ptr =
    (case lb_ents s (get_entry ptr) of
       None \<Rightarrow> Inl BadHandle
     | Some e \<Rightarrow>
         (let s' = s\<lparr>lb_ents := (lb_ents s)(get_entry ptr \<mapsto>
                      e\<lparr>he_state := 0, he_ref := u8 (he_ref e + 1)\<rparr>)\<rparr>
          in Inr (if he_ref e = 0 then s'\<lparr>lb_queue := lb_queue s @ [get_entry ptr]\<rparr> else s')))"

text \<open>A queued node with \<open>state == 0\<close> has not been taken yet.\<close>

definition fresh :: "lbuf \<Rightarrow> addr \<Rightarrow> bool" where
  "fresh s p = (case lb_ents s p of None \<Rightarrow> False | Some e \<Rightarrow> he_state e = 0)"

definition lbuf_more_data :: "lbuf \<Rightarrow> bool" where
  "lbuf_more_data s = list_ex (fresh s) (lb_queue s)"

definition lbuf_pop :: "lbuf \<Rightarrow> lbuf \<times> addr" where
  "lbuf_pop s =
    (case find (fresh s) (lb_queue s) of
       None \<Rightarrow> (s, 0)
     | Some p \<Rightarrow>
         (s\<lparr>lb_ents := (lb_ents s)(p := map_option (he_state_update (\<lambda>_. 1)) (lb_ents s p))\<rparr>,
          u32_add p sz_hentry))"

text \<open>\<open>list_for_each_entry_safe\<close> fetches the successor before the body frees the node.\<close>

fun clear_loop :: "addr list \<Rightarrow> lbuf \<Rightarrow> lb_error + lbuf" where
  "clear_loop [] s = Inr s"
| "clear_loop (p # ps) s =
    (case lbuf_free s (u32_add p sz_hentry) of Inl x \<Rightarrow> Inl x | Inr s' \<Rightarrow> clear_loop ps s')"

definition lbuf_clear :: "lbuf \<Rightarrow> lb_error + lbuf" where
  "lbuf_clear s = clear_loop (lb_queue s) s"

definition lbuf_remain_len :: "lbuf \<Rightarrow> nat \<Rightarrow> nat" where
  "lbuf_remain_len s len =
    (if list_ex (\<lambda>(p, l). \<not> l < alloc_size len) (lb_free s) then 1 else 0)"

definition lbuf_remain_space :: "lbuf \<Rightarrow> nat" where
  "lbuf_remain_space s = fold (\<lambda>(p, l) n. u32_add n l) (lb_free s) 0"

definition lbuf_real_size :: "lbuf \<Rightarrow> addr \<Rightarrow> lb_error + nat" where
  "lbuf_real_size s ptr =
    (case lb_ents s (get_entry ptr) of None \<Rightarrow> Inl BadHandle | Some e \<Rightarrow> Inr (he_len e))"

definition lbuf_inc_ref :: "lbuf \<Rightarrow> addr \<Rightarrow> lb_error + lbuf" where
  "lbuf_inc_ref s ptr =
    (case lb_ents s (get_entry ptr) of
       None \<Rightarrow> Inl BadHandle
     | Some e \<Rightarrow> Inr (s\<lparr>lb_ents := (lb_ents s)(get_entry ptr \<mapsto>
                          e\<lparr>he_ref := u8 (he_ref e + 1)\<rparr>)\<rparr>))"

section \<open>The invariant\<close>

definition held :: "(addr \<Rightarrow> hentry option) \<Rightarrow> nat" where
  "held m = (\<Sum>a\<in>dom m. he_len (the (m a)))"

text \<open>
  \<open>wf lo hi s\<close>: the pool memory \<open>[lo, hi)\<close> is exactly tiled by the free and the allocated blocks.
  Free blocks are in address order with no two touching (they are always merged), blocks do not
  overlap, and no byte is lost.
\<close>

definition in_pool :: "addr \<Rightarrow> addr \<Rightarrow> block \<Rightarrow> bool" where
  "in_pool lo hi b \<longleftrightarrow> lo \<le> fst b \<and> fst b + snd b \<le> hi \<and> 0 < snd b \<and> fst b mod 4 = 0"

definition wf :: "addr \<Rightarrow> addr \<Rightarrow> lbuf \<Rightarrow> bool" where
  "wf lo hi s \<longleftrightarrow>
    hi + 64 < 4294967296 \<and> lo \<le> hi \<and>
    sorted_wrt gap (lb_free s) \<and> (\<forall>b \<in> set (lb_free s). in_pool lo hi b) \<and>
    finite (dom (lb_ents s)) \<and>
    (\<forall>a e. lb_ents s a = Some e \<longrightarrow>
       in_pool lo hi (a, he_len e) \<and> sz_hentry \<le> he_len e \<and> he_head e = lb_head s \<and>
       (\<forall>b \<in> set (lb_free s). apart (a, he_len e) b) \<and>
       (\<forall>a' e'. lb_ents s a' = Some e' \<longrightarrow> a \<noteq> a' \<longrightarrow> apart (a, he_len e) (a', he_len e'))) \<and>
    total (lb_free s) + held (lb_ents s) = hi - lo"

text \<open>The queue links each block at most once, and only blocks that are allocated and referenced.\<close>

definition wf_queue :: "lbuf \<Rightarrow> bool" where
  "wf_queue s \<longleftrightarrow> distinct (lb_queue s) \<and>
    (\<forall>a \<in> set (lb_queue s). \<exists>e. lb_ents s a = Some e \<and> he_ref e \<noteq> 0)"

end
