(* ===== verification/Alloc_Interface.thy ===== *)
theory Alloc_Interface
  imports OTA_Prelude
begin

text \<open>
  The contract between a block allocator and its clients, as a locale.  A provider has a state
  with an invariant and the map \<open>live\<close> from the handles handed out to the bytes they may use.
  \<open>Lbuf_Correct\<close> interprets it on the pool allocator, \<open>AppMem\<close> on the two-pool heap built from it.
  A second locale is the contract of a message queue; \<open>Lbuf_Spec\<close> interprets it on the queue of
  allocated blocks a pool carries.
\<close>

definition req_ok :: "nat \<Rightarrow> bool" where
  "req_ok n \<longleftrightarrow> n + 64 < 4294967296"

locale block_allocator =
  fixes alloc :: "'s \<Rightarrow> nat \<Rightarrow> 's \<times> addr"
    and free :: "'s \<Rightarrow> addr \<Rightarrow> 's option"
    and live :: "'s \<Rightarrow> addr \<Rightarrow> nat option"
    and inv :: "'s \<Rightarrow> bool"
  assumes alloc_fail: "inv s \<Longrightarrow> alloc s n = (s', 0) \<Longrightarrow> s' = s"
    and alloc_ok: "inv s \<Longrightarrow> req_ok n \<Longrightarrow> alloc s n = (s', p) \<Longrightarrow> p \<noteq> 0 \<Longrightarrow>
      inv s' \<and> live s p = None \<and> (\<exists>k \<ge> n. live s' = (live s)(p \<mapsto> k))"
    and free_ok: "inv s \<Longrightarrow> live s p = Some k \<Longrightarrow>
      \<exists>s'. free s p = Some s' \<and> inv s' \<and> live s' = (live s)(p := None)"
    and live_apart: "inv s \<Longrightarrow> live s p = Some k \<Longrightarrow> live s q = Some m \<Longrightarrow> p \<noteq> q \<Longrightarrow>
      apart (p, k) (q, m)"
    and live_nonnull: "inv s \<Longrightarrow> live s 0 = None"
begin

lemma alloc_inv: "inv s \<Longrightarrow> req_ok n \<Longrightarrow> alloc s n = (s', p) \<Longrightarrow> inv s'"
proof (cases "p = 0")
  case False
  assume "inv s" "req_ok n" "alloc s n = (s', p)"
  from alloc_ok [OF this False] show "inv s'" by blast
qed (auto dest: alloc_fail)

lemma alloc_keeps: "inv s \<Longrightarrow> req_ok n \<Longrightarrow> alloc s n = (s', p) \<Longrightarrow> live s q = Some k \<Longrightarrow>
    live s' q = Some k"
proof (cases "p = 0")
  case False
  assume a: "inv s" "req_ok n" "alloc s n = (s', p)" and q: "live s q = Some k"
  from alloc_ok [OF a False] q show "live s' q = Some k" by auto
qed (auto dest: alloc_fail)

lemma alloc_apart:
  assumes "inv s" "req_ok n" "alloc s n = (s', p)" "p \<noteq> 0" "live s q = Some k"
  shows "apart (p, n) (q, k)"
proof -
  from alloc_ok [OF assms(1-4)] obtain m where m: "inv s'" "live s p = None" "n \<le> m"
    "live s' = (live s)(p \<mapsto> m)" by blast
  with assms(5) have "q \<noteq> p" by auto
  with m assms(5) have "apart (p, m) (q, k)" using live_apart [of s' p m q k] by simp
  with m(3) show ?thesis using apart_sub [of p m "(q, k)" p n] by simp
qed

text \<open>Freeing what was just allocated gives back the same live blocks.\<close>

lemma alloc_free_live:
  assumes "inv s" "req_ok n" "alloc s n = (s', p)" "p \<noteq> 0"
  obtains s'' where "free s' p = Some s''" "inv s''" "live s'' = live s"
proof -
  from alloc_ok [OF assms] obtain m where m: "inv s'" "live s p = None"
    "live s' = (live s)(p \<mapsto> m)" by blast
  then have "live s' p = Some m" by simp
  from free_ok [OF m(1) this] m obtain s'' where
    "free s' p = Some s''" "inv s''" "live s'' = (live s)(p := None)" by auto
  with m(2) that show thesis by (simp add: fun_upd_idem)
qed

lemma free_keeps: "inv s \<Longrightarrow> live s p = Some k \<Longrightarrow> free s p = Some s' \<Longrightarrow> q \<noteq> p \<Longrightarrow>
    live s' q = live s q"
  using free_ok by fastforce

end


text \<open>
  A first-in first-out queue of handles: \<open>msgs\<close> is the abstract queue, \<open>ready\<close> says which handles
  may be enqueued, and dequeueing from an empty queue answers the null handle.
\<close>

fun drain :: "('s \<Rightarrow> 's \<times> addr) \<Rightarrow> nat \<Rightarrow> 's \<Rightarrow> addr list" where
  "drain deq 0 s = []"
| "drain deq (Suc n) s = (case deq s of (s', p) \<Rightarrow> p # drain deq n s')"

locale msg_queue =
  fixes enq :: "'s \<Rightarrow> addr \<Rightarrow> 's option"
    and deq :: "'s \<Rightarrow> 's \<times> addr"
    and msgs :: "'s \<Rightarrow> addr list"
    and ready :: "'s \<Rightarrow> addr \<Rightarrow> bool"
    and inv :: "'s \<Rightarrow> bool"
  assumes deq_empty: "inv s \<Longrightarrow> msgs s = [] \<Longrightarrow> deq s = (s, 0)"
    and deq_msg: "inv s \<Longrightarrow> msgs s = p # ps \<Longrightarrow> \<exists>s'. deq s = (s', p) \<and> inv s' \<and> msgs s' = ps"
    and enq_msg: "inv s \<Longrightarrow> ready s p \<Longrightarrow> \<exists>s'. enq s p = Some s' \<and> inv s' \<and> msgs s' = msgs s @ [p]"
begin

lemma drain_msgs: "inv s \<Longrightarrow> drain deq (length (msgs s)) s = msgs s"
proof (induction "msgs s" arbitrary: s)
  case (Cons p ps)
  from deq_msg [OF Cons.prems Cons.hyps(2) [symmetric]] obtain s' where
    s': "deq s = (s', p)" "inv s'" "msgs s' = ps" by blast
  with Cons.hyps(1) [of s'] have "drain deq (length ps) s' = ps" by simp
  then show ?case using s'(1) Cons.hyps(2) [symmetric] by simp
qed simp

lemma enq_drain: "inv s \<Longrightarrow> ready s p \<Longrightarrow>
    \<exists>s'. enq s p = Some s' \<and> drain deq (Suc (length (msgs s))) s' = msgs s @ [p]"
proof -
  assume "inv s" "ready s p"
  from enq_msg [OF this] obtain s' where s': "enq s p = Some s'" "inv s'" "msgs s' = msgs s @ [p]"
    by blast
  from drain_msgs [OF s'(2)] s'(3) have "drain deq (Suc (length (msgs s))) s' = msgs s @ [p]"
    by (simp del: drain.simps)
  with s'(1) show ?thesis by blast
qed

end

end
