(* ===== verification/Lbuf_Correct.thy ===== *)
theory Lbuf_Correct
  imports Lbuf Alloc_Interface
begin

text \<open>
  Correctness of the allocator: what each loop of \<open>Lbuf\<close> computes, preservation of the invariant
  \<open>wf\<close> by every operation, and the contract of the operations on every branch.
\<close>

section \<open>Held bytes\<close>

lemma held_upd_new:
  "finite (dom m) \<Longrightarrow> m a = None \<Longrightarrow> held (m(a \<mapsto> e)) = held m + he_len e"
proof -
  assume f: "finite (dom m)" and n: "m a = None"
  have "held (m(a \<mapsto> e)) = he_len e + (\<Sum>x\<in>dom m. he_len (the ((m(a \<mapsto> e)) x)))"
    using f n by (simp add: held_def domIff)
  also have "(\<Sum>x\<in>dom m. he_len (the ((m(a \<mapsto> e)) x))) = held m"
    unfolding held_def using n by (intro sum.cong) auto
  finally show ?thesis by (simp only: add.commute)
qed

lemma held_upd_old:
  "finite (dom m) \<Longrightarrow> m a = Some e \<Longrightarrow> held (m(a := None)) + he_len e = held m"
  using held_upd_new [of "m(a := None)" a e] by (simp add: fun_upd_idem)

lemma held_upd_same_len:
  assumes "finite (dom m)" "m a = Some e" "he_len e' = he_len e"
  shows "held (m(a \<mapsto> e')) = held m"
  using held_upd_old [OF assms(1,2)] held_upd_new [of "m(a := None)" a e'] assms by simp

lemma held_empty [simp]: "held Map.empty = 0"
  by (simp add: held_def)

section \<open>The first-fit scan\<close>

definition rest_block :: "addr \<Rightarrow> nat \<Rightarrow> nat \<Rightarrow> block list" where
  "rest_block p l n = (if n < l then [(p + n, l - n)] else [])"

lemma alloc_scan_None: "alloc_scan fs n = None \<longleftrightarrow> (\<forall>(p, l) \<in> set fs. l < n)"
  by (induction fs n rule: alloc_scan.induct) auto

lemma alloc_scan_Some:
  assumes "alloc_scan fs k = Some (p, n, fs')"
    and "\<forall>b \<in> set fs. fst b + snd b + 64 < 4294967296"
  shows "\<exists>xs l ys. fs = xs @ (p, l) # ys \<and> k \<le> n \<and> n \<le> l \<and> (n < l \<longrightarrow> n = k) \<and>
    (\<forall>(q, m) \<in> set xs. m < k) \<and>
    fs' = xs @ rest_block p l n @ ys"
  using assms
proof (induction fs k arbitrary: fs' rule: alloc_scan.induct)
  case (2 a l ps k)
  show ?case
  proof (cases "l < k")
    case True
    with "2.prems" obtain fs2 where s: "alloc_scan ps k = Some (p, n, fs2)" "fs' = (a, l) # fs2"
      by auto
    with "2.IH" [OF True s(1)] "2.prems" obtain xs m ys where
      "ps = xs @ (p, m) # ys" "k \<le> n" "n \<le> m" "n < m \<longrightarrow> n = k" "\<forall>(q, m) \<in> set xs. m < k"
      "fs2 = xs @ rest_block p m n @ ys" by auto
    with True s show ?thesis by (intro exI [of _ "(a, l) # xs"]) auto
  next
    case False
    with "2.prems" show ?thesis
      by (intro exI [of _ "[]"]) (auto simp: sz rest_block_def split: if_splits)
  qed
qed simp

lemma total_rest: "n \<le> l \<Longrightarrow> total (rest_block p l n) = l - n"
  by (simp add: rest_block_def)

section \<open>Insertion in address order and merging\<close>

lemma free_insert_Some:
  assumes "\<forall>b \<in> set fs. apart (n, m) b \<and> 0 < snd b \<and> fst b + snd b < 4294967296" "0 < m"
    and "sorted_wrt gap fs"
  shows "\<exists>xs ys. fs = xs @ ys \<and> free_insert fs (n, m) = Some (xs @ (n, m) # ys) \<and>
    (\<forall>b \<in> set xs. before b (n, m)) \<and> (\<forall>b \<in> set ys. before (n, m) b)"
  using assms
proof (induction fs)
  case (Cons b fs)
  obtain p l where b: "b = (p, l)" by force
  show ?case
  proof (cases "p > n")
    case True
    have "\<forall>c \<in> set (b # fs). before (n, m) c"
    proof
      fix c assume c: "c \<in> set (b # fs)"
      then have "fst c \<ge> p" using Cons.prems(3) b by (auto simp: gap_def)
      moreover have "apart (n, m) c" "0 < snd c" using Cons.prems(1) c by auto
      ultimately show "before (n, m) c" using True by (auto simp: before_def apart_def)
    qed
    moreover have "free_insert (b # fs) (n, m) = Some ((n, m) # b # fs)"
      using True b by simp
    ultimately show ?thesis by (intro exI [of _ "[]"] exI [of _ "b # fs"]) simp
  next
    case False
    from Cons.prems b have "apart (n, m) (p, l)" "0 < l" "p + l < 4294967296" by auto
    with False Cons.prems(2) have pl: "p + l \<le> n" by (auto simp: apart_def)
    from Cons obtain xs ys where IH: "fs = xs @ ys" "free_insert fs (n, m) = Some (xs @ (n, m) # ys)"
      "\<forall>b \<in> set xs. before b (n, m)" "\<forall>b \<in> set ys. before (n, m) b" by auto
    have "free_insert (b # fs) (n, m) = Some ((b # xs) @ (n, m) # ys)"
      using False pl IH b \<open>p + l < _\<close> by simp
    with IH b pl show ?thesis
      by (intro exI [of _ "b # xs"] exI [of _ ys]) (auto simp: before_def)
  qed
qed (auto simp: exI [of _ "[]"])

text \<open>
  The lists \<open>lbuf_free\<close> merges, and the induction that follows the merge loop on them: the head
  block either touches its successor, and they become one block, or it does not.
\<close>

definition mergeable :: "block list \<Rightarrow> bool" where
  "mergeable bs \<longleftrightarrow> sorted_wrt before bs \<and> (\<forall>b \<in> set bs. fst b + snd b < 4294967296 \<and> 0 < snd b)"

lemma mergeable_tl: "mergeable (b # bs) \<Longrightarrow> mergeable bs"
  by (simp add: mergeable_def)

lemma mergeable_join: "mergeable ((a, l) # (a + l, m) # ps) \<Longrightarrow> mergeable ((a, l + m) # ps)"
  by (simp add: mergeable_def before_def add.assoc)

lemma free_merge_join:
  "mergeable ((a, l) # (a + l, m) # ps) \<Longrightarrow>
   free_merge ((a, l) # (a + l, m) # ps) = free_merge ((a, l + m) # ps)"
  by (simp add: mergeable_def)

lemma free_merge_skip:
  "mergeable ((a, l) # (p, m) # ps) \<Longrightarrow> a + l < p \<Longrightarrow>
   free_merge ((a, l) # (p, m) # ps) = (a, l) # free_merge ((p, m) # ps)"
  by (simp add: mergeable_def)

declare free_merge.simps(3) [simp del]

lemma merge_induct [consumes 1, case_names Nil One Join Skip]:
  assumes "mergeable bs"
    and "P []" and "\<And>b. P [b]"
    and "\<And>a l m ps. mergeable ((a, l) # (a + l, m) # ps) \<Longrightarrow> mergeable ((a, l + m) # ps) \<Longrightarrow>
      P ((a, l + m) # ps) \<Longrightarrow> P ((a, l) # (a + l, m) # ps)"
    and "\<And>a l p m ps. mergeable ((a, l) # (p, m) # ps) \<Longrightarrow> mergeable ((p, m) # ps) \<Longrightarrow> a + l < p \<Longrightarrow>
      P ((p, m) # ps) \<Longrightarrow> P ((a, l) # (p, m) # ps)"
  shows "P bs"
  using assms(1)
proof (induction "length bs" arbitrary: bs rule: less_induct)
  case less
  show ?case
  proof (cases bs rule: free_merge.cases)
    case (3 a l p m ps)
    have tl: "mergeable ((p, m) # ps)" using less.prems 3 mergeable_tl by blast
    have "a + l \<le> p" using less.prems 3 by (simp add: mergeable_def before_def)
    then consider "p = a + l" | "a + l < p" by linarith
    then show ?thesis
    proof cases
      case 1
      with less.prems 3 have "mergeable ((a, l + m) # ps)" using mergeable_join by simp
      with less 3 1 assms(4) show ?thesis by simp
    next
      case 2
      with less 3 tl assms(5) show ?thesis by simp
    qed
  qed (use assms in simp_all)
qed

lemma free_merge_hd: "mergeable bs \<Longrightarrow> bs \<noteq> [] \<Longrightarrow>
    free_merge bs \<noteq> [] \<and> fst (hd (free_merge bs)) = fst (hd bs)"
  by (induction bs rule: merge_induct) (simp_all add: free_merge_join free_merge_skip)

lemma free_merge_total: "mergeable bs \<Longrightarrow> total (free_merge bs) = total bs"
  by (induction bs rule: merge_induct) (simp_all add: free_merge_join free_merge_skip)

lemma free_merge_gap: "mergeable bs \<Longrightarrow> sorted_wrt gap (free_merge bs)"
proof (induction bs rule: merge_induct)
  case (Skip a l p m ps)
  from free_merge_hd [OF Skip(2)] obtain k bs' where m: "free_merge ((p, m) # ps) = (p, k) # bs'"
    by (cases "free_merge ((p, m) # ps)") auto
  with Skip have "\<forall>c \<in> set bs'. p \<le> fst c" by (auto simp: gap_def)
  with Skip m show ?case by (auto simp: free_merge_skip gap_def)
qed (simp_all add: free_merge_join)

lemma free_merge_in_pool:
  "mergeable bs \<Longrightarrow> \<forall>b \<in> set bs. in_pool lo hi b \<Longrightarrow> \<forall>b \<in> set (free_merge bs). in_pool lo hi b"
proof (induction bs rule: merge_induct)
  case (Join a l m ps)
  from Join.prems have "in_pool lo hi (a, l)" "in_pool lo hi (a + l, m)" by auto
  then have "in_pool lo hi (a, l + m)" by (simp add: in_pool_def)
  with Join show ?case by (simp add: free_merge_join)
qed (simp_all add: free_merge_skip)

lemma free_merge_apart:
  "mergeable bs \<Longrightarrow> 0 < snd x \<Longrightarrow> \<forall>b \<in> set bs. apart x b \<Longrightarrow> \<forall>b \<in> set (free_merge bs). apart x b"
proof (induction bs rule: merge_induct)
  case (Join a l m ps)
  then have "apart x (a, l + m)" by (auto simp: apart_def)
  with Join show ?case by (simp add: free_merge_join)
qed (auto simp: free_merge_skip)

text \<open>A list with no touching blocks is left alone, and so is such a prefix.\<close>

lemma free_merge_id: "sorted_wrt gap bs \<Longrightarrow> \<forall>b \<in> set bs. fst b + snd b < 4294967296 \<Longrightarrow>
    free_merge bs = bs"
  by (induction bs rule: free_merge.induct) (auto simp: gap_def free_merge.simps(3))

lemma free_merge_prefix:
  "sorted_wrt gap (xs @ [(p, l)]) \<Longrightarrow> \<forall>b \<in> set xs. fst b + snd b < 4294967296 \<Longrightarrow>
   free_merge (xs @ (p, k) # ys) = xs @ free_merge ((p, k) # ys)"
proof (induction xs)
  case (Cons x xs)
  obtain a m where x: "x = (a, m)" by force
  from Cons have IH: "free_merge (xs @ (p, k) # ys) = xs @ free_merge ((p, k) # ys)" by simp
  show ?case
  proof (cases xs)
    case Nil
    with x Cons.prems show ?thesis by (auto simp: gap_def free_merge.simps(3))
  next
    case (Cons y zs)
    obtain b n where y: "y = (b, n)" by force
    have "a + m \<noteq> b" "a + m < 4294967296"
      using Cons.prems x y \<open>xs = y # zs\<close> by (auto simp: gap_def)
    with IH x y \<open>xs = y # zs\<close> show ?thesis by (simp add: free_merge.simps(3))
  qed
qed simp

section \<open>The invariant is kept\<close>

lemma in_pool_bound: "in_pool lo hi b \<Longrightarrow> hi + 64 < 4294967296 \<Longrightarrow> fst b + snd b + 64 < 4294967296"
  by (simp add: in_pool_def)

lemma wf_free_bound: "wf lo hi s \<Longrightarrow> b \<in> set (lb_free s) \<Longrightarrow> fst b + snd b + 64 < 4294967296"
  using in_pool_bound by (auto simp: wf_def)

lemma wf_entD:
  assumes "wf lo hi s" "lb_ents s a = Some e"
  shows "in_pool lo hi (a, he_len e)" "sz_hentry \<le> he_len e" "he_head e = lb_head s"
    and "b \<in> set (lb_free s) \<Longrightarrow> apart (a, he_len e) b"
    and "lb_ents s a' = Some e' \<Longrightarrow> a \<noteq> a' \<Longrightarrow> apart (a, he_len e) (a', he_len e')"
    and "a + he_len e + 64 < 4294967296"
proof -
  show p: "in_pool lo hi (a, he_len e)" using assms by (simp add: wf_def)
  from in_pool_bound [OF p] show "a + he_len e + 64 < 4294967296" using assms by (simp add: wf_def)
qed (use assms in \<open>auto simp: wf_def\<close>)

text \<open>
  Allocating: a block \<open>(p, l)\<close> of the free list gives its first \<open>n\<close> bytes to a new entry and
  keeps the rest.
\<close>

lemma wf_carve:
  assumes wf: "wf lo hi s" and fs: "lb_free s = xs @ (p, l) # ys"
    and n: "sz_hentry \<le> n" "n \<le> l" "n < l \<longrightarrow> n mod 4 = 0"
    and e: "he_len e = n" "he_head e = lb_head s"
  shows "lb_ents s p = None"
    and "wf lo hi (s\<lparr>lb_free := xs @ rest_block p l n @ ys, lb_ents := (lb_ents s)(p \<mapsto> e)\<rparr>)"
      (is "wf lo hi ?t")
proof -
  have pl: "in_pool lo hi (p, l)" using wf fs by (auto simp: wf_def)
  show none: "lb_ents s p = None"
  proof (rule ccontr)
    assume "lb_ents s p \<noteq> None"
    then obtain f where f: "lb_ents s p = Some f" by auto
    have "apart (p, he_len f) (p, l)" using wf_entD(4) [OF wf f] fs by simp
    with wf_entD(2) [OF wf f] n show False by (simp add: apart_def sz)
  qed
  have n0: "0 < n" using n by (simp add: sz)
  have srt: "sorted_wrt gap (xs @ (p, l) # ys)" using wf fs by (simp add: wf_def)
  have free': "b \<in> set (lb_free s) \<and> apart (p, n) b \<or> n < l \<and> b = (p + n, l - n)"
    if "b \<in> set (lb_free ?t)" for b
  proof -
    have "b \<in> set xs \<Longrightarrow> apart (p, n) b" "b \<in> set ys \<Longrightarrow> apart (p, n) b"
      using srt n by (auto simp: apart_def gap_def sorted_wrt_append)
    then show ?thesis
      using that fs by (auto simp: rest_block_def split: if_splits)
  qed
  have sub: "apart x (p, l) \<Longrightarrow> n < l \<Longrightarrow> apart x (p + n, l - n)"
    and subn: "apart x (p, l) \<Longrightarrow> apart x (p, n)" for x
    using n by (auto simp: apart_def)
  have "sorted_wrt gap (lb_free ?t)"
    using srt n n0 by (auto simp: sorted_wrt_append rest_block_def gap_def)
  moreover have "\<forall>b \<in> set (lb_free ?t). in_pool lo hi b"
  proof
    fix b assume "b \<in> set (lb_free ?t)"
    from free' [OF this] show "in_pool lo hi b"
    proof
      assume "n < l \<and> b = (p + n, l - n)"
      moreover from this n pl have "(p + n) mod 4 = 0" by (simp add: in_pool_def mod_add_eq [symmetric])
      ultimately show ?thesis using pl n by (simp add: in_pool_def)
    qed (use wf in \<open>simp add: wf_def\<close>)
  qed
  moreover have "\<forall>a f. lb_ents ?t a = Some f \<longrightarrow>
       in_pool lo hi (a, he_len f) \<and> sz_hentry \<le> he_len f \<and> he_head f = lb_head ?t \<and>
       (\<forall>b \<in> set (lb_free ?t). apart (a, he_len f) b) \<and>
       (\<forall>a' e'. lb_ents ?t a' = Some e' \<longrightarrow> a \<noteq> a' \<longrightarrow> apart (a, he_len f) (a', he_len e'))"
  proof (intro allI impI)
    fix a f assume f: "lb_ents ?t a = Some f"
    have old: "lb_ents s c = Some g \<Longrightarrow> apart (c, he_len g) (p, l)" for c g
      using wf_entD(4) [OF wf] fs by simp
    show "in_pool lo hi (a, he_len f) \<and> sz_hentry \<le> he_len f \<and> he_head f = lb_head ?t \<and>
       (\<forall>b \<in> set (lb_free ?t). apart (a, he_len f) b) \<and>
       (\<forall>a' e'. lb_ents ?t a' = Some e' \<longrightarrow> a \<noteq> a' \<longrightarrow> apart (a, he_len f) (a', he_len e'))"
    proof (cases "a = p")
      case True
      have "apart (p, n) b" if "b \<in> set (lb_free ?t)" for b
        using free' [OF that] by (auto simp: apart_def)
      then have "\<forall>b \<in> set (lb_free ?t). apart (a, he_len f) b"
        using True f e by simp
      moreover have "\<forall>a' e'. lb_ents ?t a' = Some e' \<longrightarrow> a \<noteq> a' \<longrightarrow> apart (a, he_len f) (a', he_len e')"
        using old subn True f e by (auto simp: apart_sym)
      ultimately show ?thesis using f e n pl n0 True by (simp add: in_pool_def)
    next
      case False
      with f have f': "lb_ents s a = Some f" by simp
      have "\<forall>b \<in> set (lb_free ?t). apart (a, he_len f) b"
        using free' sub [OF old [OF f']] wf_entD(4) [OF wf f'] by blast
      moreover have "\<forall>a' e'. lb_ents ?t a' = Some e' \<longrightarrow> a \<noteq> a' \<longrightarrow> apart (a, he_len f) (a', he_len e')"
        using wf_entD(5) [OF wf f'] subn [OF old [OF f']] e by (auto split: if_splits)
      ultimately show ?thesis using wf_entD(1,2,3) [OF wf f'] by simp
    qed
  qed
  moreover have "total (lb_free ?t) + held (lb_ents ?t) = hi - lo"
  proof -
    have "held (lb_ents ?t) = held (lb_ents s) + n"
      using held_upd_new [of "lb_ents s" p e] none e wf by (simp add: wf_def)
    moreover have "total (lb_free ?t) + n = total (lb_free s)"
      using n fs by (simp add: total_rest)
    ultimately show ?thesis using wf by (simp add: wf_def)
  qed
  ultimately show "wf lo hi ?t" using wf by (simp add: wf_def)
qed

text \<open>Releasing: the entry's block goes back to the free list and is merged with its neighbours.\<close>

lemma wf_release:
  assumes wf: "wf lo hi s" and a: "lb_ents s a = Some e"
  obtains fs where "free_insert (lb_free s) (a, he_len e) = Some fs" "mergeable fs"
    and "wf lo hi (s\<lparr>lb_queue := q, lb_ents := (lb_ents s)(a := None), lb_free := free_merge fs\<rparr>)"
    and "total (free_merge fs) = total (lb_free s) + he_len e"
proof -
  note ent = wf_entD [OF wf a]
  have pos: "\<forall>b \<in> set (lb_free s). apart (a, he_len e) b \<and> 0 < snd b \<and> fst b + snd b < 4294967296"
    using ent(4) wf_free_bound [OF wf] wf by (fastforce simp: wf_def in_pool_def)
  have srt: "sorted_wrt gap (lb_free s)" using wf by (simp add: wf_def)
  have pe: "0 < he_len e" using ent(2) by (simp add: sz)
  from free_insert_Some [OF pos pe srt] obtain xs ys where
    fs: "lb_free s = xs @ ys" "free_insert (lb_free s) (a, he_len e) = Some (xs @ (a, he_len e) # ys)"
    and ord: "\<forall>b \<in> set xs. before b (a, he_len e)" "\<forall>b \<in> set ys. before (a, he_len e) b" by blast
  let ?fs = "xs @ (a, he_len e) # ys"
  have mg: "mergeable ?fs"
    using sorted_gap_before [OF srt] fs(1) ord pos pe ent(6)
    by (auto simp: mergeable_def sorted_wrt_append)
  have tot: "total (free_merge ?fs) = total (lb_free s) + he_len e"
    using free_merge_total [OF mg] fs(1) by simp
  let ?t = "s\<lparr>lb_queue := q, lb_ents := (lb_ents s)(a := None), lb_free := free_merge ?fs\<rparr>"
  have "\<forall>b \<in> set ?fs. in_pool lo hi b" using wf fs(1) ent(1) by (auto simp: wf_def)
  then have pool: "\<forall>b \<in> set (free_merge ?fs). in_pool lo hi b" by (rule free_merge_in_pool [OF mg])
  have "apart (c, he_len f) b" if c: "lb_ents ?t c = Some f" and b: "b \<in> set (free_merge ?fs)" for c f b
  proof -
    from c have c': "lb_ents s c = Some f" "c \<noteq> a" by (auto split: if_splits)
    have "\<forall>b \<in> set ?fs. apart (c, he_len f) b"
      using wf_entD(4) [OF wf c'(1)] wf_entD(5) [OF wf c'(1) a] c'(2) fs(1) by auto
    moreover have "0 < snd (c, he_len f)" using wf_entD(2) [OF wf c'(1)] by (simp add: sz)
    ultimately show ?thesis using free_merge_apart [OF mg] b by blast
  qed
  moreover have "held ((lb_ents s)(a := None)) + he_len e = held (lb_ents s)"
    using held_upd_old a wf by (auto simp: wf_def)
  ultimately have "wf lo hi ?t"
    using wf free_merge_gap [OF mg] pool tot wf_entD [OF wf]
    by (auto simp: wf_def split: if_splits)
  with that fs(2) mg tot show thesis by blast
qed

lemma get_entry_add [simp]: "a + 20 < 4294967296 \<Longrightarrow> get_entry (u32_add a sz_hentry) = a"
  by (simp add: get_entry_def sz)

lemma lbuf_free_ok:
  assumes "wf lo hi s" "lb_ents s (get_entry ptr) = Some e" "ptr \<noteq> 0"
  obtains s' where "lbuf_free s ptr = Inr s'" "wf lo hi s'"
    and "lb_ents s' = (lb_ents s)(get_entry ptr := None)"
    and "lb_queue s' = remove1 (get_entry ptr) (lb_queue s)" "lb_head s' = lb_head s"
    and "total (lb_free s') = total (lb_free s) + he_len e"
proof -
  obtain fs where fs: "free_insert (lb_free s) (get_entry ptr, he_len e) = Some fs"
    and wf': "wf lo hi (s\<lparr>lb_queue := remove1 (get_entry ptr) (lb_queue s),
                lb_ents := (lb_ents s)(get_entry ptr := None), lb_free := free_merge fs\<rparr>)"
    and tot: "total (free_merge fs) = total (lb_free s) + he_len e"
    using wf_release [OF assms(1,2)] by blast
  show thesis
    by (rule that [OF _ wf']) (use assms fs tot in \<open>simp_all add: lbuf_free_def Let_def\<close>)
qed

text \<open>Cutting an entry in two, as \<open>lbuf_realloc\<close> does before it frees the tail.\<close>

lemma wf_split:
  assumes wf: "wf lo hi s" and a: "lb_ents s a = Some e"
    and n: "he_len e1 + he_len e2 = he_len e" "sz_hentry \<le> he_len e1" "sz_hentry \<le> he_len e2"
      "he_len e1 mod 4 = 0"
    and h: "he_head e1 = lb_head s" "he_head e2 = lb_head s"
  shows "lb_ents s (a + he_len e1) = None"
    and "wf lo hi (s\<lparr>lb_ents := (lb_ents s)(a + he_len e1 \<mapsto> e2, a \<mapsto> e1)\<rparr>)" (is "wf lo hi ?t")
proof -
  let ?b = "a + he_len e1"
  note ent = wf_entD [OF wf a]
  have ne: "?b \<noteq> a" using n by (simp add: sz)
  show none: "lb_ents s ?b = None"
  proof (rule ccontr)
    assume "lb_ents s ?b \<noteq> None"
    then obtain f where f: "lb_ents s ?b = Some f" by auto
    from wf_entD(5) [OF wf a this] ne wf_entD(2) [OF wf f] n show False
      by (auto simp: apart_def sz)
  qed
  have sub: "apart (a, he_len e) x \<Longrightarrow> apart (a, he_len e1) x"
            "apart (a, he_len e) x \<Longrightarrow> apart (?b, he_len e2) x" for x
    using n by (auto simp: apart_def)
  have mod: "?b mod 4 = 0"
    using ent(1) n(4) by (simp add: in_pool_def mod_add_eq [symmetric])
  have cases: "c = a \<and> f = e1 \<or> c = ?b \<and> f = e2 \<or> c \<noteq> a \<and> lb_ents s c = Some f"
    if "lb_ents ?t c = Some f" for c f
    using that ne by (auto split: if_splits)
  have 1: "in_pool lo hi (c, he_len f) \<and> sz_hentry \<le> he_len f \<and> he_head f = lb_head s \<and>
      (\<forall>b \<in> set (lb_free s). apart (c, he_len f) b)" if "lb_ents ?t c = Some f" for c f
    using cases [OF that] ent(1,4) n h mod sub wf_entD [OF wf] by (auto simp: in_pool_def sz)
  have 2: "apart (c, he_len f) (c', he_len f')"
    if "lb_ents ?t c = Some f" "lb_ents ?t c' = Some f'" "c \<noteq> c'" for c f c' f'
  proof -
    have o: "apart (a, he_len e1) (d, he_len g)" "apart (?b, he_len e2) (d, he_len g)"
      if "d \<noteq> a" "lb_ents s d = Some g" for d g
      using wf_entD(5) [OF wf a that(2)] that(1) sub by auto
    have own: "apart (a, he_len e1) (?b, he_len e2)" by (simp add: apart_def)
    note sym = o [THEN apart_sym [THEN iffD1]] own [THEN apart_sym [THEN iffD1]]
    have A: "apart (a, he_len e1) (c', he_len f')" if "c' \<noteq> a" 
      using cases [OF \<open>lb_ents ?t c' = Some f'\<close>] that own o(1) by blast
    have B: "apart (?b, he_len e2) (c', he_len f')" if "c' \<noteq> ?b"
      using cases [OF \<open>lb_ents ?t c' = Some f'\<close>] that sym(3) o(2) by blast
    have C: "apart (c, he_len f) (c', he_len f')" if "c \<noteq> a" "lb_ents s c = Some f"
      using cases [OF \<open>lb_ents ?t c' = Some f'\<close>] that \<open>c \<noteq> c'\<close> sym(1,2)
        wf_entD(5) [OF wf that(2)] by blast
    from cases [OF that(1)] that(3) A B C show ?thesis by metis
  qed
  have ents: "\<forall>c f. lb_ents ?t c = Some f \<longrightarrow>
      in_pool lo hi (c, he_len f) \<and> sz_hentry \<le> he_len f \<and> he_head f = lb_head ?t \<and>
      (\<forall>b \<in> set (lb_free ?t). apart (c, he_len f) b) \<and>
      (\<forall>c' f'. lb_ents ?t c' = Some f' \<longrightarrow> c \<noteq> c' \<longrightarrow> apart (c, he_len f) (c', he_len f'))"
    using 1 2 by (simp del: fun_upd_apply)
  have held: "held (lb_ents ?t) = held (lb_ents s)"
  proof -
    have f: "finite (dom (lb_ents s))" using wf by (simp add: wf_def)
    let ?m = "(lb_ents s)(a := None)"
    have "lb_ents ?t = (?m(?b \<mapsto> e2))(a \<mapsto> e1)" by auto
    moreover have "held (?m(?b \<mapsto> e2)) = held ?m + he_len e2"
      using f none by (intro held_upd_new) auto
    moreover have "held ((?m(?b \<mapsto> e2))(a \<mapsto> e1)) = held (?m(?b \<mapsto> e2)) + he_len e1"
      using f ne by (intro held_upd_new) auto
    ultimately show ?thesis using held_upd_old [OF f a] n(1) by simp
  qed
  have "total (lb_free ?t) + held (lb_ents ?t) = hi - lo"
    using wf unfolding held wf_def by simp
  with ents show "wf lo hi ?t" using wf unfolding wf_def by (simp del: fun_upd_apply)
qed

section \<open>What each operation does\<close>

lemma alloc_size_bounds:
  "req_ok n \<Longrightarrow> n + sz_hentry \<le> alloc_size n \<and> alloc_size n \<le> n + sz_hentry + 3 \<and> alloc_size n mod 4 = 0"
  using align4_ge [of "n + 20"] align4_le [of "n + 20"]
  by (simp add: alloc_size_def req_ok_def sz)

lemma lbuf_alloc_fail: "lbuf_alloc s n = (s', p) \<Longrightarrow> alloc_scan (lb_free s) (alloc_size n) = None \<Longrightarrow>
    s' = s \<and> p = 0"
  by (simp add: lbuf_alloc_def)

text \<open>A successful allocation carves the first free block that is large enough.\<close>

lemma lbuf_alloc_carve:
  assumes wf: "wf lo hi s" and n: "req_ok n"
    and sc: "alloc_scan (lb_free s) (alloc_size n) = Some (p, k, fs)"
  obtains xs l ys e where
    "lb_free s = xs @ (p, l) # ys" "\<forall>(q, m) \<in> set xs. m < alloc_size n"
    "alloc_size n \<le> k" "k \<le> l" "k < l \<longrightarrow> k = alloc_size n" "fs = xs @ rest_block p l k @ ys"
    "e = \<lparr>he_head = lb_head s, he_len = k, he_state = 0, he_ref = 0\<rparr>"
    "lbuf_alloc s n = (s\<lparr>lb_free := fs, lb_ents := (lb_ents s)(p \<mapsto> e)\<rparr>, p + sz_hentry)"
    "lb_ents s p = None" "wf lo hi (s\<lparr>lb_free := fs, lb_ents := (lb_ents s)(p \<mapsto> e)\<rparr>)"
    "p + k + 64 < 4294967296"
proof -
  have bnd: "\<forall>b \<in> set (lb_free s). fst b + snd b + 64 < 4294967296"
    using wf_free_bound [OF wf] by blast
  from alloc_scan_Some [OF sc bnd] obtain xs l ys where
    *: "lb_free s = xs @ (p, l) # ys" "alloc_size n \<le> k" "k \<le> l" "k < l \<longrightarrow> k = alloc_size n"
       "\<forall>(q, m) \<in> set xs. m < alloc_size n" "fs = xs @ rest_block p l k @ ys" by blast
  let ?e = "\<lparr>he_head = lb_head s, he_len = k, he_state = 0, he_ref = 0\<rparr>"
  have size: "sz_hentry \<le> k" "k < l \<longrightarrow> k mod 4 = 0"
    using alloc_size_bounds [OF n] *(2,4) by auto
  have pl: "p + l + 64 < 4294967296" using bnd *(1) by fastforce
  note c = wf_carve [OF wf *(1) size(1) *(3) size(2), of ?e]
  show thesis
    by (rule that [OF *(1,5,2,3,4,6) refl])
      (use c sc pl *(3,6) in \<open>simp_all add: lbuf_alloc_def sz\<close>)
qed

text \<open>The handles in use and the payload bytes behind each.\<close>

definition lb_live :: "lbuf \<Rightarrow> addr \<Rightarrow> nat option" where
  "lb_live s p = (if p < 4294967296
     then map_option (\<lambda>e. he_len e - sz_hentry) (lb_ents s (get_entry p)) else None)"

lemma get_entry_eq:
  "p < 4294967296 \<Longrightarrow> get_entry p = (if 20 \<le> p then p - 20 else p + 4294967276)"
proof (cases "20 \<le> p")
  case False
  then show ?thesis by (simp add: get_entry_def u32_sub_def sz)
qed (simp add: get_entry_def sz)

lemma get_entry_inj: "p < 4294967296 \<Longrightarrow> q < 4294967296 \<Longrightarrow> get_entry p = get_entry q \<Longrightarrow> p = q"
  by (auto simp: get_entry_eq split: if_splits)

lemma get_entry_live:
  assumes "wf lo hi s" "lb_ents s (get_entry p) = Some e" "p < 4294967296"
  shows "p = get_entry p + sz_hentry" "p \<noteq> 0"
proof -
  have "get_entry p + 20 + 64 < 4294967296"
    using wf_entD(2,6) [OF assms(1,2)] by (simp add: sz)
  with assms(3) show *: "p = get_entry p + sz_hentry"
    by (auto simp: get_entry_eq sz split: if_splits)
  then show "p \<noteq> 0" by (simp add: sz)
qed

lemma lb_liveD:
  assumes "wf lo hi s" "lb_live s p = Some k"
  obtains e where "lb_ents s (get_entry p) = Some e" "p = get_entry p + sz_hentry" "p \<noteq> 0"
    and "he_len e = k + sz_hentry"
proof -
  from assms(2) obtain e where e: "lb_ents s (get_entry p) = Some e" "p < 4294967296"
    "k = he_len e - sz_hentry" by (auto simp: lb_live_def split: if_splits)
  with get_entry_live [OF assms(1) e(1,2)] wf_entD(2) [OF assms(1) e(1)] that show thesis by simp
qed

lemma lb_live_update:
  "p < 4294967296 \<Longrightarrow> lb_ents s' = (lb_ents s)(get_entry p := x) \<Longrightarrow>
   lb_live s' = (lb_live s)(p := map_option (\<lambda>e. he_len e - sz_hentry) x)"
  by (rule ext) (auto simp: lb_live_def dest: get_entry_inj)

definition lbuf_free_opt :: "lbuf \<Rightarrow> addr \<Rightarrow> lbuf option" where
  "lbuf_free_opt s p = (case lbuf_free s p of Inl _ \<Rightarrow> None | Inr s' \<Rightarrow> Some s')"

interpretation lb: block_allocator lbuf_alloc lbuf_free_opt lb_live "wf lo hi" for lo hi
proof
  fix s s' n
  assume wf: "wf lo hi s" and al: "lbuf_alloc s n = (s', 0)"
  show "s' = s"
  proof (cases "alloc_scan (lb_free s) (alloc_size n)")
    case (Some r)
    obtain p k fs where r: "r = (p, k, fs)" by (cases r) auto
    have "(p, k) \<in> set (lb_free s) \<or> (\<exists>l. (p, l) \<in> set (lb_free s))"
      using alloc_scan_Some [OF Some [unfolded r]] wf_free_bound [OF wf] by auto
    then have "p + 20 < 4294967296" using wf_free_bound [OF wf] by fastforce
    with al Some r show ?thesis by (simp add: lbuf_alloc_def sz)
  qed (use al in \<open>simp add: lbuf_alloc_def\<close>)
next
  fix s s' n p
  assume wf: "wf lo hi s" and n: "req_ok n" and al: "lbuf_alloc s n = (s', p)" and p: "p \<noteq> 0"
  then obtain q k fs where sc: "alloc_scan (lb_free s) (alloc_size n) = Some (q, k, fs)"
    by (cases "alloc_scan (lb_free s) (alloc_size n)") (auto simp: lbuf_alloc_def)
  obtain e where e: "e = \<lparr>he_head = lb_head s, he_len = k, he_state = 0, he_ref = 0\<rparr>"
    "lbuf_alloc s n = (s\<lparr>lb_free := fs, lb_ents := (lb_ents s)(q \<mapsto> e)\<rparr>, q + sz_hentry)"
    "lb_ents s q = None" "wf lo hi (s\<lparr>lb_free := fs, lb_ents := (lb_ents s)(q \<mapsto> e)\<rparr>)"
    "q + k + 64 < 4294967296" "alloc_size n \<le> k"
    by (rule lbuf_alloc_carve [OF wf n sc])
  have k: "n \<le> k - sz_hentry" "sz_hentry \<le> k" using alloc_size_bounds [OF n] e(6) by auto
  have pq: "p = q + sz_hentry" "s' = s\<lparr>lb_free := fs, lb_ents := (lb_ents s)(q \<mapsto> e)\<rparr>"
    using al e(2) by auto
  have g: "get_entry p = q" "p < 4294967296"
    using get_entry_add [of q] e(5) k pq by (auto simp: sz)
  have "lb_live s' = (lb_live s)(p \<mapsto> k - sz_hentry)"
    using lb_live_update [OF g(2), of s' s "Some e"] pq g e(1) by simp
  moreover have "lb_live s p = None" using e(3) g by (simp add: lb_live_def)
  ultimately show "wf lo hi s' \<and> lb_live s p = None \<and> (\<exists>m \<ge> n. lb_live s' = (lb_live s)(p \<mapsto> m))"
    using e(4) pq k by blast
next
  fix s p k
  assume wf: "wf lo hi s" and l: "lb_live s p = Some k"
  from lb_liveD [OF this] obtain e where e: "lb_ents s (get_entry p) = Some e" "p \<noteq> 0" by blast
  from lbuf_free_ok [OF wf e] obtain s' where s': "lbuf_free s p = Inr s'" "wf lo hi s'"
    "lb_ents s' = (lb_ents s)(get_entry p := None)" by blast
  have "p < 4294967296" using l by (auto simp: lb_live_def split: if_splits)
  from lb_live_update [OF this s'(3)] s' show
    "\<exists>s'. lbuf_free_opt s p = Some s' \<and> wf lo hi s' \<and> lb_live s' = (lb_live s)(p := None)"
    by (simp add: lbuf_free_opt_def)
next
  fix s p k q m
  assume wf: "wf lo hi s" and l: "lb_live s p = Some k" "lb_live s q = Some m" and ne: "p \<noteq> q"
  obtain e f where e: "lb_ents s (get_entry p) = Some e" "p = get_entry p + sz_hentry"
      "he_len e = k + sz_hentry"
    and f: "lb_ents s (get_entry q) = Some f" "q = get_entry q + sz_hentry"
      "he_len f = m + sz_hentry"
    using lb_liveD [OF wf l(1)] lb_liveD [OF wf l(2)] by metis
  have "get_entry p \<noteq> get_entry q" using ne e(2) f(2) by auto
  from wf_entD(5) [OF wf e(1) f(1) this] e(2,3) f(2,3) show "apart (p, k) (q, m)"
    by (auto simp: apart_def)
next
  fix s
  assume wf: "wf lo hi s"
  show "lb_live s 0 = None"
  proof (cases "lb_live s 0")
    case (Some k)
    from lb_liveD [OF wf this] show ?thesis by blast
  qed
qed

section \<open>The state changes of the other operations\<close>

lemma wf_update:
  assumes wf: "wf lo hi s" and a: "lb_ents s a = Some e"
    and e: "he_len e' = he_len e" "he_head e' = he_head e"
  shows "wf lo hi (s\<lparr>lb_ents := (lb_ents s)(a \<mapsto> e'), lb_queue := q\<rparr>)"
proof -
  have "held ((lb_ents s)(a \<mapsto> e')) = held (lb_ents s)"
    using held_upd_same_len [of "lb_ents s" a e e'] a e(1) wf by (simp add: wf_def)
  moreover have "in_pool lo hi (c, he_len f) \<and> sz_hentry \<le> he_len f \<and> he_head f = lb_head s \<and>
      (\<forall>b \<in> set (lb_free s). apart (c, he_len f) b) \<and>
      (\<forall>c' f'. ((lb_ents s)(a \<mapsto> e')) c' = Some f' \<longrightarrow> c \<noteq> c' \<longrightarrow> apart (c, he_len f) (c', he_len f'))"
    if c: "((lb_ents s)(a \<mapsto> e')) c = Some f" for c f
  proof -
    have same: "\<exists>g. lb_ents s d = Some g \<and> he_len h = he_len g \<and> he_head h = he_head g"
      if "((lb_ents s)(a \<mapsto> e')) d = Some h" for d h
      using that a e by (cases "d = a") auto
    from same [OF c] obtain g where g: "lb_ents s c = Some g" "he_len f = he_len g" "he_head f = he_head g"
      by blast
    have "apart (c, he_len f) (c', he_len f')"
      if "((lb_ents s)(a \<mapsto> e')) c' = Some f'" "c \<noteq> c'" for c' f'
      using same [OF that(1)] wf_entD(5) [OF wf g(1) _ that(2)] g(2) by auto
    with wf_entD(1-4) [OF wf g(1)] g(2,3) show ?thesis by auto
  qed
  ultimately show ?thesis using wf unfolding wf_def by (simp del: fun_upd_apply)
qed

lemma wf_queue_cong:
  "wf_queue s \<Longrightarrow> lb_queue s' = lb_queue s \<Longrightarrow>
   (\<And>a e. a \<in> set (lb_queue s) \<Longrightarrow> lb_ents s a = Some e \<Longrightarrow>
      \<exists>e'. lb_ents s' a = Some e' \<and> he_ref e' = he_ref e) \<Longrightarrow> wf_queue s'"
  unfolding wf_queue_def by metis

lemma lbuf_free_wf_queue:
  assumes "wf_queue s" "lb_ents s' = (lb_ents s)(a := None)" "lb_queue s' = remove1 a (lb_queue s)"
  shows "wf_queue s'"
  using assms by (auto simp: wf_queue_def)

lemma lbuf_alloc_queue: "lbuf_alloc s n = (s', p) \<Longrightarrow> lb_queue s' = lb_queue s \<and> lb_head s' = lb_head s"
  by (auto simp: lbuf_alloc_def split: option.splits)

lemma lbuf_alloc_wf_queue:
  assumes wf: "wf lo hi s" and n: "req_ok n" and q: "wf_queue s" and al: "lbuf_alloc s n = (s', p)"
  shows "wf_queue s'"
proof (cases "alloc_scan (lb_free s) (alloc_size n)")
  case None
  with lbuf_alloc_fail [OF al] q show ?thesis by simp
next
  case (Some r)
  obtain a k fs where r: "r = (a, k, fs)" by (cases r) auto
  obtain e where e: "lbuf_alloc s n = (s\<lparr>lb_free := fs, lb_ents := (lb_ents s)(a \<mapsto> e)\<rparr>, a + sz_hentry)"
    "lb_ents s a = None" by (rule lbuf_alloc_carve [OF wf n Some [unfolded r]])
  with al have s': "s' = s\<lparr>lb_free := fs, lb_ents := (lb_ents s)(a \<mapsto> e)\<rparr>" by simp
  show ?thesis by (rule wf_queue_cong [OF q]) (use e(2) in \<open>auto simp: s'\<close>)
qed

lemma lbuf_push_ok:
  assumes wf: "wf lo hi s" and q: "wf_queue s" and e: "lb_ents s (get_entry p) = Some e"
    and r: "he_ref e < 255"
  obtains s' where "lbuf_push s p = Inr s'" "wf lo hi s'" "he_ref e = 0 \<Longrightarrow> get_entry p \<notin> set (lb_queue s) \<and>
      lb_queue s' = lb_queue s @ [get_entry p]" "he_ref e \<noteq> 0 \<Longrightarrow> lb_queue s' = lb_queue s"
    "lb_ents s' = (lb_ents s)(get_entry p \<mapsto> e\<lparr>he_state := 0, he_ref := he_ref e + 1\<rparr>)"
    "wf_queue s'"
proof -
  let ?q = "if he_ref e = 0 then lb_queue s @ [get_entry p] else lb_queue s"
  let ?s = "s\<lparr>lb_ents := (lb_ents s)(get_entry p \<mapsto> e\<lparr>he_state := 0, he_ref := he_ref e + 1\<rparr>),
    lb_queue := ?q\<rparr>"
  have new: "he_ref e = 0 \<Longrightarrow> get_entry p \<notin> set (lb_queue s)"
    using q e by (auto simp: wf_queue_def)
  have "lbuf_push s p = Inr ?s" using e r by (simp add: lbuf_push_def Let_def)
  moreover have "wf lo hi ?s" by (rule wf_update [OF wf e]) simp_all
  moreover have "wf_queue ?s" using q new by (auto simp: wf_queue_def)
  ultimately show thesis using that [of ?s] new by simp
qed

lemma lbuf_pop_cases:
  obtains (None) "find (fresh s) (lb_queue s) = None" "lbuf_pop s = (s, 0)"
  | (Some) p e where "find (fresh s) (lb_queue s) = Some p" "p \<in> set (lb_queue s)"
      "lb_ents s p = Some e" "he_state e = 0"
      "lbuf_pop s = (s\<lparr>lb_ents := (lb_ents s)(p \<mapsto> e\<lparr>he_state := 1\<rparr>)\<rparr>, u32_add p sz_hentry)"
proof (cases "find (fresh s) (lb_queue s)")
  case None
  then show ?thesis using that(1) by (simp add: lbuf_pop_def)
next
  case (Some p)
  then have p: "p \<in> set (lb_queue s)" "fresh s p" by (auto simp: find_Some_iff)
  then obtain e where e: "lb_ents s p = Some e" "he_state e = 0"
    by (auto simp: fresh_def split: option.splits)
  show ?thesis by (rule that(2) [OF Some p(1) e]) (simp add: lbuf_pop_def Some e)
qed

lemma lbuf_pop_wf:
  assumes "wf lo hi s" "wf_queue s" "lbuf_pop s = (s', p)"
  shows "wf lo hi s' \<and> wf_queue s'"
proof (cases s rule: lbuf_pop_cases)
  case None
  with assms show ?thesis by simp
next
  case (Some a e)
  have "wf lo hi (s\<lparr>lb_ents := (lb_ents s)(a \<mapsto> e\<lparr>he_state := 1\<rparr>), lb_queue := lb_queue s\<rparr>)"
    by (rule wf_update [OF assms(1) Some(3)]) simp_all
  moreover have "wf_queue s'"
    by (rule wf_queue_cong [OF assms(2)]) (use assms Some in auto)
  ultimately show ?thesis using assms Some by simp
qed

text \<open>Shrinking a block, branch by branch.\<close>

lemma lbuf_realloc_cut:
  assumes wf: "wf lo hi s" and e: "lb_ents s (get_entry p) = Some e" and p: "p < 4294967296"
    and n: "align4 n + sz_hentry + sz_hentry < he_len e"
  obtains s' where "lbuf_realloc s p n = Inr (s', p)" "wf lo hi s'"
    "lb_ents s' = (lb_ents s)(get_entry p \<mapsto> e\<lparr>he_len := sz_hentry + align4 n\<rparr>)"
    "lb_queue s' = remove1 (p + align4 n) (lb_queue s)" "lb_ents s (p + align4 n) = None"
    "total (lb_free s') = total (lb_free s) + (he_len e - sz_hentry - align4 n)"
proof -
  let ?a = "get_entry p" and ?k = "align4 n"
  let ?e1 = "e\<lparr>he_len := sz_hentry + ?k\<rparr>"
  let ?e2 = "\<lparr>he_head = he_head e, he_len = he_len e - sz_hentry - ?k, he_state = 0, he_ref = 0\<rparr>"
  let ?t = "s\<lparr>lb_ents := (lb_ents s)(?a + he_len ?e1 \<mapsto> ?e2, ?a \<mapsto> ?e1)\<rparr>"
  note ent = wf_entD [OF wf e]
  note pa = get_entry_live [OF wf e p]
  have sums: "he_len ?e1 + he_len ?e2 = he_len e" "sz_hentry \<le> he_len ?e1" "sz_hentry \<le> he_len ?e2"
    using n by (simp_all add: sz)
  have "he_len ?e1 mod 4 = 0" using align4_mod [of n] by (simp add: sz mod_add_eq [symmetric])
  note sp = wf_split [OF wf e sums this]
  have none: "lb_ents s (?a + he_len ?e1) = None" by (rule sp(1)) (use ent(3) in simp_all)
  have wft: "wf lo hi ?t" by (rule sp(2)) (use ent(3) in simp_all)
  have new: "?a + he_len ?e1 = p + ?k" using pa by simp
  have bnd: "p + ?k + he_len ?e2 + 64 < 4294967296" using ent(6) pa n by (simp add: sz)
  let ?np = "p + ?k + sz_hentry"
  have g: "get_entry ?np = p + ?k" using get_entry_add [of "p + ?k"] bnd by (simp add: sz)
  have ne: "p + ?k \<noteq> ?a" using pa by (simp add: sz)
  have t2: "lb_ents ?t (get_entry ?np) = Some ?e2" using g new ne by simp
  obtain s' where s': "lbuf_free ?t ?np = Inr s'" "wf lo hi s'"
    "lb_ents s' = (lb_ents ?t)(get_entry ?np := None)"
    "lb_queue s' = remove1 (get_entry ?np) (lb_queue ?t)"
    "total (lb_free s') = total (lb_free ?t) + he_len ?e2"
    by (rule lbuf_free_ok [OF wft t2]) (simp add: sz)
  have fr: "lbuf_free (s\<lparr>lb_ents := (lb_ents s)(p + ?k \<mapsto> ?e2,
      ?a \<mapsto> e\<lparr>he_len := u32_add sz_hentry ?k\<rparr>)\<rparr>) (u32_add (p + ?k) sz_hentry) = Inr s'"
    using s'(1) [unfolded new] n bnd by (simp add: sz add.commute)
  have sub: "u32_sub (u32_sub (he_len e) sz_hentry) ?k = he_len e - sz_hentry - ?k"
    and guards: "?k < he_len e" "\<not> ?k > u32_sub (he_len e) sz_hentry"
      "u32_add (u32_add ?k sz_hentry) sz_hentry < he_len e" "u32_add p ?k = p + ?k"
    using n bnd by (simp_all add: sz)
  have "lbuf_realloc s p n = Inr (s', p)"
    unfolding lbuf_realloc_def Let_def e option.case sub
    using guards fr by (simp del: fun_upd_apply)
  moreover have "lb_ents s' = (lb_ents s)(?a \<mapsto> ?e1)"
    using s'(3) [unfolded new] g none [unfolded new] ne by (auto simp: fun_eq_iff)
  ultimately show thesis using that s'(2,4,5) none [unfolded new] g by simp
qed

lemma lbuf_realloc_same:
  assumes "lb_ents s (get_entry p) = Some e" "align4 n + sz_hentry \<le> he_len e"
    "he_len e \<le> align4 n + sz_hentry + sz_hentry" "he_len e + 64 < 4294967296"
  shows "lbuf_realloc s p n = Inr (s, p)"
  using assms by (auto simp: lbuf_realloc_def Let_def sz)

lemma lbuf_realloc_refused:
  assumes "lb_ents s (get_entry p) = Some e" "align4 n < he_len e" "he_len e < align4 n + sz_hentry"
    "sz_hentry \<le> he_len e" "he_len e + 64 < 4294967296"
  shows "lbuf_realloc s p n = Inr (s, 0)"
  using assms by (auto simp: lbuf_realloc_def Let_def sz)

lemma lbuf_realloc_reset:
  assumes "lb_ents s (get_entry p) = Some e" "he_len e \<le> align4 n"
  shows "lbuf_realloc s p n = Inl AssertReset"
  using assms by (simp add: lbuf_realloc_def Let_def)

section \<open>Clearing the queue\<close>

lemma clear_loop_ok:
  assumes "wf lo hi s" "lb_queue s = ps @ qs" "distinct ps" "\<forall>a \<in> set ps. lb_ents s a \<noteq> None"
    "wf_queue s"
  shows "\<exists>s'. clear_loop ps s = Inr s' \<and> wf lo hi s' \<and> lb_queue s' = qs \<and>
    lb_ents s' = (lb_ents s) |` (- set ps) \<and> wf_queue s'"
  using assms
proof (induction ps arbitrary: s)
  case Nil
  then show ?case by (auto simp: restrict_map_def)
next
  case (Cons a ps)
  then obtain e where e: "lb_ents s a = Some e" by auto
  have a: "a + 20 < 4294967296" using wf_entD(6) [OF Cons.prems(1) e] wf_entD(2) [OF Cons.prems(1) e]
    by (simp add: sz)
  have g: "get_entry (u32_add a sz_hentry) = a" "u32_add a sz_hentry \<noteq> 0"
    using get_entry_add [of a] a by (simp_all add: sz)
  obtain s' where s': "lbuf_free s (u32_add a sz_hentry) = Inr s'" "wf lo hi s'"
    "lb_ents s' = (lb_ents s)(a := None)" "lb_queue s' = ps @ qs"
    using lbuf_free_ok [OF Cons.prems(1), of "u32_add a sz_hentry" e] e g Cons.prems(2) by auto
  have "\<forall>c \<in> set ps. lb_ents s' c \<noteq> None" using s'(3) Cons.prems by auto
  moreover have "wf_queue s'"
    by (rule lbuf_free_wf_queue [OF Cons.prems(5) s'(3)]) (use s'(4) Cons.prems(2) in simp)
  ultimately obtain s'' where "clear_loop ps s' = Inr s''" "wf lo hi s''" "lb_queue s'' = qs"
    "lb_ents s'' = (lb_ents s') |` (- set ps)" "wf_queue s''"
    using Cons.IH [OF s'(2,4)] Cons.prems by auto
  moreover have "(lb_ents s') |` (- set ps) = (lb_ents s) |` (- set (a # ps))"
    using s'(3) by (auto simp: restrict_map_def fun_eq_iff)
  ultimately show ?case using s'(1) by simp
qed

lemma lbuf_clear_ok:
  assumes "wf lo hi s" "wf_queue s"
  obtains s' where "lbuf_clear s = Inr s'" "wf lo hi s'" "lb_queue s' = []" "wf_queue s'"
    "lb_ents s' = (lb_ents s) |` (- set (lb_queue s))"
  using clear_loop_ok [of lo hi s "lb_queue s" "[]"] assms that
  by (auto simp: lbuf_clear_def wf_queue_def)

section \<open>Freeing undoes allocating\<close>

lemma free_insert_at:
  "\<forall>b \<in> set xs. before b (n, m) \<and> 0 < snd b \<and> fst b + snd b < 4294967296 \<Longrightarrow> \<forall>b \<in> set ys. n < fst b \<Longrightarrow>
   free_insert (xs @ ys) (n, m) = Some (xs @ (n, m) # ys)"
proof (induction xs)
  case Nil
  then show ?case by (cases ys) auto
next
  case (Cons b xs)
  then show ?case by (cases b) (auto simp: before_def)
qed

lemma free_restores:
  assumes wf: "wf lo hi s" and fs: "lb_free s = xs @ (p, l) # ys" and k: "0 < k" "k \<le> l"
  shows "free_insert (xs @ rest_block p l k @ ys) (p, k) = Some (xs @ (p, k) # rest_block p l k @ ys)"
    and "free_merge (xs @ (p, k) # rest_block p l k @ ys) = lb_free s"
proof -
  have srt: "sorted_wrt gap (xs @ (p, l) # ys)" using wf fs by (simp add: wf_def)
  have bnd: "\<forall>b \<in> set (lb_free s). 0 < snd b \<and> fst b + snd b < 4294967296"
    using wf wf_free_bound [OF wf] by (fastforce simp: wf_def in_pool_def)
  then have bxs: "\<forall>b \<in> set xs. 0 < snd b \<and> fst b + snd b < 4294967296"
    and bys: "\<forall>b \<in> set ((p, l) # ys). fst b + snd b < 4294967296" using fs by auto
  have px: "\<forall>b \<in> set xs. before b (p, k)"
    using srt by (auto simp: sorted_wrt_append gap_def before_def)
  have py: "\<forall>b \<in> set (rest_block p l k @ ys). p < fst b"
    using srt k by (auto simp: sorted_wrt_append gap_def rest_block_def)
  show "free_insert (xs @ rest_block p l k @ ys) (p, k) = Some (xs @ (p, k) # rest_block p l k @ ys)"
    using free_insert_at [of xs p k] px py bxs by auto
  have pre: "sorted_wrt gap (xs @ [(p, l)])" using srt by (auto simp: sorted_wrt_append)
  have idp: "free_merge ((p, l) # ys) = (p, l) # ys"
    by (rule free_merge_id) (use srt bys in \<open>auto simp: sorted_wrt_append\<close>)
  have "free_merge ((p, k) # rest_block p l k @ ys) = (p, l) # ys"
  proof (cases "k < l")
    case True
    then have "free_merge ((p, k) # rest_block p l k @ ys) = free_merge ((p, l) # ys)"
      using bys by (simp add: rest_block_def free_merge.simps(3))
    then show ?thesis using idp by simp
  next
    case False
    then show ?thesis using k idp by (simp add: rest_block_def)
  qed
  then show "free_merge (xs @ (p, k) # rest_block p l k @ ys) = lb_free s"
    using free_merge_prefix [OF pre] bxs fs by simp
qed

section \<open>A pool with nothing allocated\<close>

lemma gap_total:
  "sorted_wrt gap bs \<Longrightarrow> \<forall>b \<in> set bs. lo \<le> fst b \<and> fst b + snd b \<le> hi \<Longrightarrow> bs \<noteq> [] \<Longrightarrow>
   fst (hd bs) + total bs + length bs \<le> hi + 1"
proof (induction bs arbitrary: lo)
  case (Cons b bs)
  show ?case
  proof (cases bs)
    case (Cons c cs)
    have "fst (hd bs) + total bs + length bs \<le> hi + 1"
      using Cons.IH [of lo] Cons.prems Cons by auto
    moreover have "fst b + snd b < fst (hd bs)" using Cons.prems Cons by (simp add: gap_def)
    ultimately show ?thesis by simp
  qed (use Cons.prems in auto)
qed simp

lemma wf_all_free:
  assumes wf: "wf lo hi s" and e: "lb_ents s = Map.empty" and lt: "lo < hi"
  shows "lb_free s = [(lo, hi - lo)]"
proof -
  have tot: "total (lb_free s) = hi - lo" and pool: "\<forall>b \<in> set (lb_free s). lo \<le> fst b \<and> fst b + snd b \<le> hi"
    and srt: "sorted_wrt gap (lb_free s)" using wf e by (auto simp: wf_def in_pool_def)
  then have ne: "lb_free s \<noteq> []" using lt by auto
  then obtain a l bs where b: "lb_free s = (a, l) # bs" by (cases "lb_free s") auto
  have "a + (hi - lo) + length (lb_free s) \<le> hi + 1"
    using gap_total [OF srt pool ne] tot b by simp
  moreover have "lo \<le> a" using pool b by auto
  ultimately have "length bs = 0 \<and> a = lo" using lt unfolding b list.size by arith
  then show ?thesis using tot b by simp
qed

end
