(* ===== verification/Lbuf_Spec.thy ===== *)
theory Lbuf_Spec
  imports Lbuf_Correct
begin

text \<open>
  What the pool allocator promises: the contract of allocating, freeing and shrinking, the
  behaviour of the message queue, and the invariant of every reachable pool, by rule induction
  over the step relation \<open>lb_step\<close> of all operations.
\<close>

section \<open>A pool after initialisation\<close>

definition pool_lo :: "addr \<Rightarrow> addr" where
  "pool_lo buf = align4 buf + sz_head"

definition pool_hi :: "addr \<Rightarrow> nat \<Rightarrow> addr" where
  "pool_hi buf len = buf + len - sz_hfree"

definition pool_ok :: "addr \<Rightarrow> nat \<Rightarrow> bool" where
  "pool_ok buf len \<longleftrightarrow> 32 \<le> len \<and> buf + len + 64 < 4294967296"

lemma lbuf_init_eq:
  assumes "pool_ok buf len"
  shows "lbuf_init buf len = \<lparr>lb_head = align4 buf, lb_queue = [],
    lb_free = [(pool_lo buf, pool_hi buf len - pool_lo buf)], lb_ents = Map.empty\<rparr>"
proof -
  from assms have len: "32 \<le> len" "buf + len + 64 < 4294967296" by (auto simp: pool_ok_def)
  show ?thesis
  proof (cases "buf mod 4 = 0")
    case True
    have "u32_sub (len - 16) 12 = len - 16 - 12" using len by (intro u32_sub_id) auto
    then show ?thesis using len True
      by (simp add: lbuf_init_def pool_lo_def pool_hi_def align4_def sz Let_def)
  next
    case False
    let ?d = "4 - buf mod 4"
    have d: "?d \<le> 3" using False by arith
    have "u32_sub (len - ?d - 16) 12 = len - ?d - 16 - 12"
      "u32_sub (len - ?d) 16 = len - ?d - 16" using len d by (intro u32_sub_id; arith)+
    then show ?thesis using len d False
      by (simp add: lbuf_init_def pool_lo_def pool_hi_def align4_def sz Let_def)
  qed
qed

lemma pool_range: "pool_ok buf len \<Longrightarrow> pool_lo buf < pool_hi buf len"
proof -
  assume "pool_ok buf len"
  then have "32 \<le> len" "buf + len + 64 < 4294967296" by (auto simp: pool_ok_def)
  moreover from this have "align4 buf \<le> buf + 3" by (intro align4_le) arith
  ultimately show ?thesis unfolding pool_lo_def pool_hi_def sz by arith
qed

lemma lbuf_init_wf: "pool_ok buf len \<Longrightarrow> wf (pool_lo buf) (pool_hi buf len) (lbuf_init buf len)"
  using pool_range [of buf len] align4_mod [of buf]
  by (auto simp: lbuf_init_eq wf_def in_pool_def pool_ok_def pool_lo_def pool_hi_def sz
      mod_add_eq [symmetric])

section \<open>Every reachable pool\<close>

inductive lb_step :: "lbuf \<Rightarrow> lbuf \<Rightarrow> bool" where
  alloc: "req_ok n \<Longrightarrow> lbuf_alloc s n = (s', p) \<Longrightarrow> lb_step s s'"
| free: "lb_live s p \<noteq> None \<Longrightarrow> lbuf_free s p = Inr s' \<Longrightarrow> lb_step s s'"
| free_null: "lbuf_free s 0 = Inr s' \<Longrightarrow> lb_step s s'"
| realloc: "lb_live s p \<noteq> None \<Longrightarrow> lbuf_realloc s p n = Inr (s', q) \<Longrightarrow> lb_step s s'"
| push: "lb_live s p \<noteq> None \<Longrightarrow> lb_ents s (get_entry p) = Some e \<Longrightarrow> he_ref e < 255 \<Longrightarrow>
    lbuf_push s p = Inr s' \<Longrightarrow> lb_step s s'"
| inc_ref: "lb_live s p \<noteq> None \<Longrightarrow> lb_ents s (get_entry p) = Some e \<Longrightarrow> he_ref e < 255 \<Longrightarrow>
    lbuf_inc_ref s p = Inr s' \<Longrightarrow> lb_step s s'"
| pop: "lbuf_pop s = (s', p) \<Longrightarrow> lb_step s s'"
| clear: "lbuf_clear s = Inr s' \<Longrightarrow> lb_step s s'"

definition lb_inv :: "addr \<Rightarrow> addr \<Rightarrow> lbuf \<Rightarrow> bool" where
  "lb_inv lo hi s \<longleftrightarrow> wf lo hi s \<and> wf_queue s"

lemma lb_inv_free:
  assumes "lb_inv lo hi s" "lb_live s p \<noteq> None" "lbuf_free s p = Inr s'"
  shows "lb_inv lo hi s'"
proof -
  from assms(1) have wf: "wf lo hi s" and q: "wf_queue s" by (auto simp: lb_inv_def)
  from assms(2) obtain k where "lb_live s p = Some k" by auto
  from lb_liveD [OF wf this] obtain e where e: "lb_ents s (get_entry p) = Some e" "p \<noteq> 0" by blast
  obtain t where t: "lbuf_free s p = Inr t" "wf lo hi t"
    "lb_ents t = (lb_ents s)(get_entry p := None)"
    "lb_queue t = remove1 (get_entry p) (lb_queue s)" by (rule lbuf_free_ok [OF wf e])
  from t assms(3) lbuf_free_wf_queue [OF q t(3,4)] show ?thesis by (simp add: lb_inv_def)
qed

lemma lb_inv_realloc:
  assumes "lb_inv lo hi s" "lb_live s p \<noteq> None" "lbuf_realloc s p n = Inr (s', q)"
  shows "lb_inv lo hi s'"
proof -
  from assms(1) have wf: "wf lo hi s" and wq: "wf_queue s" by (auto simp: lb_inv_def)
  from assms(2) obtain k where k: "lb_live s p = Some k" by auto
  from lb_liveD [OF wf this] obtain e where e: "lb_ents s (get_entry p) = Some e" by blast
  have p: "p < 4294967296" using k by (auto simp: lb_live_def split: if_splits)
  have b: "sz_hentry \<le> he_len e" "he_len e + 64 < 4294967296"
    using wf_entD(2,6) [OF wf e] by simp_all
  consider "he_len e \<le> align4 n" | "align4 n < he_len e" "he_len e < align4 n + sz_hentry"
    | "align4 n + sz_hentry \<le> he_len e" "he_len e \<le> align4 n + sz_hentry + sz_hentry"
    | "align4 n + sz_hentry + sz_hentry < he_len e" by linarith
  then show ?thesis
  proof cases
    case 4
    obtain t where t: "lbuf_realloc s p n = Inr (t, p)" "wf lo hi t"
      "lb_ents t = (lb_ents s)(get_entry p \<mapsto> e\<lparr>he_len := sz_hentry + align4 n\<rparr>)"
      "lb_queue t = remove1 (p + align4 n) (lb_queue s)" "lb_ents s (p + align4 n) = None"
      by (rule lbuf_realloc_cut [OF wf e p 4])
    from wq t(5) have "p + align4 n \<notin> set (lb_queue s)" by (auto simp: wf_queue_def)
    with t(4) have "lb_queue t = lb_queue s" by (simp add: remove1_idem)
    then have "wf_queue t" by (rule wf_queue_cong [OF wq]) (use t(3) e in auto)
    with t(1,2) assms(3) show ?thesis by (simp add: lb_inv_def)
  qed (use assms lbuf_realloc_reset [OF e] lbuf_realloc_refused [OF e _ _ b]
      lbuf_realloc_same [OF e _ _ b(2)] in auto)
qed

lemma lb_step_inv: "lb_step s s' \<Longrightarrow> lb_inv lo hi s \<Longrightarrow> lb_inv lo hi s'"
proof (induction rule: lb_step.induct)
  case (alloc n s s' p)
  then have "wf lo hi s" "wf_queue s" by (auto simp: lb_inv_def)
  with lb.alloc_inv [OF this(1) alloc(1,2)] lbuf_alloc_wf_queue [OF this(1) alloc(1) this(2) alloc(2)]
  show ?case by (simp add: lb_inv_def)
next
  case (free s p s')
  then show ?case using lb_inv_free by blast
next
  case (realloc s p n s' q)
  then show ?case using lb_inv_realloc by blast
next
  case (push s p e s')
  then have "wf lo hi s" "wf_queue s" by (auto simp: lb_inv_def)
  from lbuf_push_ok [OF this push(2,3)] obtain t where
    "lbuf_push s p = Inr t" "wf lo hi t" "wf_queue t" by metis
  with push(4) show ?case by (simp add: lb_inv_def)
next
  case (inc_ref s p e s')
  then have wf: "wf lo hi s" and q: "wf_queue s" by (auto simp: lb_inv_def)
  have s': "s' = s\<lparr>lb_ents := (lb_ents s)(get_entry p \<mapsto> e\<lparr>he_ref := he_ref e + 1\<rparr>)\<rparr>"
    using inc_ref by (simp add: lbuf_inc_ref_def)
  have "wf lo hi (s\<lparr>lb_ents := (lb_ents s)(get_entry p \<mapsto> e\<lparr>he_ref := he_ref e + 1\<rparr>),
      lb_queue := lb_queue s\<rparr>)"
    by (rule wf_update [OF wf inc_ref(2)]) simp_all
  moreover have "wf_queue s'" using q s' by (auto simp: wf_queue_def)
  ultimately show ?case using s' by (simp add: lb_inv_def)
next
  case (pop s s' p)
  then have "wf lo hi s" "wf_queue s" by (auto simp: lb_inv_def)
  from lbuf_pop_wf [OF this pop(1)] show ?case by (simp add: lb_inv_def)
next
  case (clear s s')
  then have "wf lo hi s" "wf_queue s" by (auto simp: lb_inv_def)
  from lbuf_clear_ok [OF this] obtain t where "lbuf_clear s = Inr t" "wf lo hi t" "wf_queue t"
    by metis
  with clear(1) show ?case by (simp add: lb_inv_def)
qed (simp add: lbuf_free_def)

text \<open>C1: Whatever sequence of operations on valid handles runs on a freshly initialised pool (at
  most 255 references to a block at a time), the memory between the pool head and the end of the
  buffer stays exactly tiled by free and allocated blocks: they never overlap, no two free blocks
  touch, no byte is lost, and the queue links only allocated blocks, each once.\<close>

theorem lbuf_reachable:
  assumes "pool_ok buf len" and "lb_step\<^sup>*\<^sup>* (lbuf_init buf len) s"
  shows "wf (pool_lo buf) (pool_hi buf len) s \<and> wf_queue s"
proof -
  have "lb_inv (pool_lo buf) (pool_hi buf len) (lbuf_init buf len)"
    using lbuf_init_wf [OF assms(1)] assms(1) by (simp add: lb_inv_def wf_queue_def lbuf_init_eq)
  with assms(2) have "lb_inv (pool_lo buf) (pool_hi buf len) s"
    by (induction rule: rtranclp_induct) (auto intro: lb_step_inv)
  then show ?thesis by (simp add: lb_inv_def)
qed

theorem lbuf_reachable_witness:
  "wf 4112 5108 (fst (lbuf_alloc (lbuf_init 4096 1024) 100)) \<and>
   wf_queue (fst (lbuf_alloc (lbuf_init 4096 1024) 100))"
proof -
  have "lb_step (lbuf_init 4096 1024) (fst (lbuf_alloc (lbuf_init 4096 1024) 100))"
    by (rule lb_step.alloc [of 100 _ _ "snd (lbuf_alloc (lbuf_init 4096 1024) 100)"])
      (simp_all add: req_ok_def)
  then show ?thesis
    using lbuf_reachable [of 4096 1024, OF _ r_into_rtranclp]
    by (simp add: pool_ok_def pool_lo_def pool_hi_def align4_def sz)
qed

section \<open>Allocating\<close>

text \<open>C12: A successful allocation of \<open>n\<close> bytes returns a four-byte aligned address whose payload
  of at least \<open>n\<close> bytes lies inside the pool and overlaps no payload handed out before; every
  block handed out before keeps its size, and the pool stays well formed.\<close>

theorem lbuf_alloc_contract:
  assumes "wf lo hi s" "req_ok n" "lbuf_alloc s n = (s', p)" "p \<noteq> 0"
  shows "wf lo hi s' \<and> lb_live s p = None \<and> p mod 4 = 0 \<and>
    (\<exists>k \<ge> n. lb_live s' = (lb_live s)(p \<mapsto> k) \<and> lo + sz_hentry \<le> p \<and> p + k \<le> hi) \<and>
    (\<forall>q m. lb_live s q = Some m \<longrightarrow> apart (p, n) (q, m))"
proof -
  from lb.alloc_ok [OF assms] obtain k where k: "wf lo hi s'" "lb_live s p = None" "n \<le> k"
    "lb_live s' = (lb_live s)(p \<mapsto> k)" by blast
  then have "lb_live s' p = Some k" by simp
  from lb_liveD [OF k(1) this] obtain e where e: "lb_ents s' (get_entry p) = Some e"
    "p = get_entry p + sz_hentry" "he_len e = k + sz_hentry" by blast
  from wf_entD(1) [OF k(1) e(1)] e(2,3) have "lo + sz_hentry \<le> p" "p + k \<le> hi" "get_entry p mod 4 = 0"
    by (simp_all add: in_pool_def)
  moreover have "p mod 4 = 0"
    using \<open>get_entry p mod 4 = 0\<close> by (subst e(2)) (simp add: sz mod_add_eq [symmetric])
  ultimately show ?thesis using k lb.alloc_apart [OF assms] by blast
qed

theorem lbuf_alloc_contract_witness:
  "lb_live (lbuf_init 4096 1024) 4132 = None \<and>
   wf 4112 5108 (fst (lbuf_alloc (lbuf_init 4096 1024) 100))"
proof -
  have "pool_ok 4096 1024" by (simp add: pool_ok_def)
  from lbuf_init_wf [OF this] have "wf 4112 5108 (lbuf_init 4096 1024)"
    by (simp add: pool_lo_def pool_hi_def align4_def sz)
  from lbuf_alloc_contract [OF this, of 100 "fst (lbuf_alloc (lbuf_init 4096 1024) 100)" 4132]
  show ?thesis
    by (simp add: req_ok_def lbuf_alloc_def lbuf_init_def alloc_size_def align4_def sz)
qed

text \<open>C30: An allocation fails exactly when no free block has room for the request with its header,
  rounded to four bytes; then the pool is unchanged.  \<open>lbuf_remain_len\<close> predicts it.\<close>

theorem lbuf_alloc_fails_iff:
  assumes "wf lo hi s"
  shows "(snd (lbuf_alloc s n) = 0 \<longleftrightarrow> (\<forall>(p, l) \<in> set (lb_free s). l < alloc_size n)) \<and>
    (snd (lbuf_alloc s n) = 0 \<longrightarrow> fst (lbuf_alloc s n) = s) \<and>
    (lbuf_remain_len s n = 1 \<longleftrightarrow> snd (lbuf_alloc s n) \<noteq> 0)"
proof -
  have bnd: "\<forall>b \<in> set (lb_free s). fst b + snd b + 64 < 4294967296" using wf_free_bound [OF assms] by blast
  have nz: "u32_add p sz_hentry \<noteq> 0" if "alloc_scan (lb_free s) (alloc_size n) = Some (p, k, fs)" for p k fs
  proof -
    from alloc_scan_Some [OF that bnd] obtain l where "(p, l) \<in> set (lb_free s)"
      by (metis in_set_conv_decomp)
    with bnd have "p + 20 < 4294967296" by fastforce
    then show ?thesis by (simp add: sz)
  qed
  have iff: "snd (lbuf_alloc s n) = 0 \<longleftrightarrow> alloc_scan (lb_free s) (alloc_size n) = None"
    by (cases "alloc_scan (lb_free s) (alloc_size n)") (use nz in \<open>auto simp: lbuf_alloc_def\<close>)
  have remain: "lbuf_remain_len s n = 1 \<longleftrightarrow> alloc_scan (lb_free s) (alloc_size n) \<noteq> None"
    by (auto simp: lbuf_remain_len_def alloc_scan_None list_ex_iff)
  have "snd (lbuf_alloc s n) = 0 \<longrightarrow> fst (lbuf_alloc s n) = s"
    using iff by (simp add: lbuf_alloc_def)
  with iff remain show ?thesis by (simp only: alloc_scan_None)
qed

theorem lbuf_alloc_fails_iff_witness:
  "snd (lbuf_alloc (lbuf_init 4096 1024) 980) = 0 \<and> snd (lbuf_alloc (lbuf_init 4096 1024) 976) \<noteq> 0"
proof -
  have "pool_ok 4096 1024" by (simp add: pool_ok_def)
  note w = lbuf_alloc_fails_iff [OF lbuf_init_wf [OF this]]
  show ?thesis using w [of 980] w [of 976]
    by (simp add: lbuf_init_def alloc_size_def align4_def sz)
qed

section \<open>Freeing\<close>

text \<open>C27: Freeing the block that was just allocated gives back exactly the pool as it was before,
  whatever the pool looks like: the remainder is merged back into the block it was cut from.\<close>

theorem lbuf_alloc_free_restores:
  assumes "wf lo hi s" "wf_queue s" "req_ok n" "lbuf_alloc s n = (s', p)" "p \<noteq> 0"
  shows "lbuf_free s' p = Inr s"
proof -
  obtain a k fs where sc: "alloc_scan (lb_free s) (alloc_size n) = Some (a, k, fs)"
    using assms(4,5) by (cases "alloc_scan (lb_free s) (alloc_size n)") (auto simp: lbuf_alloc_def)
  obtain xs l ys e where c: "lb_free s = xs @ (a, l) # ys" "alloc_size n \<le> k" "k \<le> l"
    "fs = xs @ rest_block a l k @ ys" "e = \<lparr>he_head = lb_head s, he_len = k, he_state = 0, he_ref = 0\<rparr>"
    "lbuf_alloc s n = (s\<lparr>lb_free := fs, lb_ents := (lb_ents s)(a \<mapsto> e)\<rparr>, a + sz_hentry)"
    "lb_ents s a = None" "a + k + 64 < 4294967296" by (rule lbuf_alloc_carve [OF assms(1,3) sc])
  have k0: "0 < k" "20 \<le> k" using alloc_size_bounds [OF assms(3)] c(2) by (auto simp: sz)
  have p: "p = a + sz_hentry" "s' = s\<lparr>lb_free := fs, lb_ents := (lb_ents s)(a \<mapsto> e)\<rparr>"
    using c(6) assms(4) by auto
  have g: "get_entry p = a" using get_entry_add [of a] c(8) k0 p(1) by (simp add: sz)
  have "a \<notin> set (lb_queue s)" using assms(2) c(7) by (auto simp: wf_queue_def)
  then have "remove1 a (lb_queue s) = lb_queue s" by (simp add: remove1_idem)
  moreover have "(lb_ents s)(a := None) = lb_ents s" using c(7) by auto
  ultimately show ?thesis
    using free_restores [OF assms(1) c(1) k0(1) c(3)] assms(5) g c(4,5)
    by (simp add: p(2) lbuf_free_def Let_def)
qed

theorem lbuf_alloc_free_restores_witness:
  "lbuf_free (fst (lbuf_alloc (lbuf_init 4096 1024) 100)) 4132 = Inr (lbuf_init 4096 1024)"
proof -
  have "pool_ok 4096 1024" by (simp add: pool_ok_def)
  note w = lbuf_alloc_free_restores [OF lbuf_init_wf [OF this], of 100
      "fst (lbuf_alloc (lbuf_init 4096 1024) 100)" 4132]
  show ?thesis
    by (rule w) (simp_all add: wf_queue_def req_ok_def lbuf_alloc_def lbuf_init_def alloc_size_def
        align4_def sz)
qed

text \<open>Freeing one handle after the other.\<close>

fun free_all :: "addr list \<Rightarrow> lbuf \<Rightarrow> lb_error + lbuf" where
  "free_all [] s = Inr s"
| "free_all (p # ps) s = (case lbuf_free s p of Inl x \<Rightarrow> Inl x | Inr s' \<Rightarrow> free_all ps s')"

lemma free_head: "lbuf_free s p = Inr s' \<Longrightarrow> lb_head s' = lb_head s"
  by (auto simp: lbuf_free_def Let_def split: if_splits option.splits)

lemma clear_head: "clear_loop ps s = Inr s' \<Longrightarrow> lb_head s' = lb_head s"
  by (induction ps arbitrary: s) (auto dest: free_head split: sum.splits)

lemma step_head: "lb_step s s' \<Longrightarrow> lb_head s' = lb_head s"
proof (induction rule: lb_step.induct)
  case (realloc s p n s' q)
  then show ?case
    by (auto simp: lbuf_realloc_def Let_def dest: free_head split: if_splits option.splits sum.splits)
qed (auto simp: lbuf_alloc_queue free_head lbuf_push_def lbuf_inc_ref_def lbuf_pop_def lbuf_clear_def Let_def
    dest: clear_head split: option.splits if_splits)

lemma live_empty: "wf lo hi s \<Longrightarrow> (\<And>p. lb_live s p = None) \<Longrightarrow> lb_ents s = Map.empty"
proof (rule ext, rule ccontr)
  fix a
  assume wf: "wf lo hi s" and l: "\<And>p. lb_live s p = None" and a: "lb_ents s a \<noteq> None"
  from a obtain e where e: "lb_ents s a = Some e" by blast
  from wf_entD(1,2) [OF wf e] wf have "a + 20 < 4294967296" by (auto simp: in_pool_def wf_def sz)
  with l [of "a + 20"] e get_entry_add [of a] show False by (simp add: lb_live_def sz)
qed

lemma free_all_ok:
  assumes "wf lo hi s" "wf_queue s" "distinct ps" "set ps = {p. lb_live s p \<noteq> None}"
  shows "\<exists>s'. free_all ps s = Inr s' \<and> wf lo hi s' \<and> wf_queue s' \<and> lb_ents s' = Map.empty \<and> lb_head s' = lb_head s"
  using assms
proof (induction ps arbitrary: s)
  case Nil
  then have "lb_ents s = Map.empty" by (intro live_empty) auto
  with Nil show ?case by simp
next
  case (Cons p ps)
  then obtain k where k: "lb_live s p = Some k" by auto
  then have p: "p < 4294967296" by (auto simp: lb_live_def split: if_splits)
  from lb_liveD [OF Cons.prems(1) k] obtain e where e: "lb_ents s (get_entry p) = Some e" "p \<noteq> 0" by blast
  obtain t where t: "lbuf_free s p = Inr t" "wf lo hi t" "lb_ents t = (lb_ents s)(get_entry p := None)"
    "lb_queue t = remove1 (get_entry p) (lb_queue s)" "lb_head t = lb_head s"
    by (rule lbuf_free_ok [OF Cons.prems(1) e])
  have "set ps = {q. lb_live t q \<noteq> None}"
    using lb_live_update [OF p t(3)] Cons.prems(3,4) by auto
  from Cons.IH [OF t(2) lbuf_free_wf_queue [OF Cons.prems(2) t(3,4)] _ this] Cons.prems(3) t(1,5) show ?case
    by simp
qed

text \<open>C28: A pool never fragments for good: whatever has been allocated, queued, shrunk and freed in a freshly
  initialised pool, freeing the handles that are still live, each once and in any order, succeeds and
  gives back exactly the pool as it was initialised, with its whole memory as one free block.\<close>

theorem lbuf_no_fragmentation:
  assumes "pool_ok buf len" "lb_step\<^sup>*\<^sup>* (lbuf_init buf len) s"
    and "distinct ps" "set ps = {p. lb_live s p \<noteq> None}"
  shows "free_all ps s = Inr (lbuf_init buf len)"
proof -
  have "lb_inv (pool_lo buf) (pool_hi buf len) (lbuf_init buf len)"
    using lbuf_init_wf [OF assms(1)] assms(1) by (simp add: lb_inv_def wf_queue_def lbuf_init_eq)
  with assms(2) have "lb_inv (pool_lo buf) (pool_hi buf len) s \<and> lb_head s = lb_head (lbuf_init buf len)"
    by (induction rule: rtranclp_induct) (auto intro: lb_step_inv simp: step_head)
  then have s: "wf (pool_lo buf) (pool_hi buf len) s" "wf_queue s" "lb_head s = align4 buf"
    using assms(1) by (simp_all add: lb_inv_def lbuf_init_eq)
  from free_all_ok [OF s(1,2) assms(3,4)] obtain s' where s': "free_all ps s = Inr s'"
    "wf (pool_lo buf) (pool_hi buf len) s'" "wf_queue s'" "lb_ents s' = Map.empty" "lb_head s' = align4 buf"
    using s(3) by auto
  have "lb_queue s' = []" using s'(3,4) by (cases "lb_queue s'") (auto simp: wf_queue_def)
  with wf_all_free [OF s'(2,4) pool_range [OF assms(1)]] s'(1,4,5) show ?thesis
    by (simp add: lbuf_init_eq [OF assms(1)])
qed

text \<open>Three blocks, freed from the middle.\<close>

definition ex_pool3 :: lbuf where
  "ex_pool3 = fst (lbuf_alloc (fst (lbuf_alloc (fst (lbuf_alloc (lbuf_init 4096 1024) 100)) 200)) 50)"

lemma ex_pool3_ents: "lb_ents ex_pool3 = [4112 \<mapsto> \<lparr>he_head = 4096, he_len = 120, he_state = 0, he_ref = 0\<rparr>,
    4232 \<mapsto> \<lparr>he_head = 4096, he_len = 220, he_state = 0, he_ref = 0\<rparr>,
    4452 \<mapsto> \<lparr>he_head = 4096, he_len = 72, he_state = 0, he_ref = 0\<rparr>]"
  by (simp add: ex_pool3_def lbuf_alloc_def lbuf_init_def alloc_size_def align4_def sz)

theorem lbuf_no_fragmentation_witness:
  "length (lb_free ex_pool3) = 1 \<and> lb_ents ex_pool3 4232 \<noteq> None \<and>
    free_all [4252, 4472, 4132] ex_pool3 = Inr (lbuf_init 4096 1024)"
proof -
  have st: "lb_step s (fst (lbuf_alloc s n))" if "req_ok n" for s n
    using lb_step.alloc [OF that, of s "fst (lbuf_alloc s n)" "snd (lbuf_alloc s n)"] by simp
  let ?a = "fst (lbuf_alloc (lbuf_init 4096 1024) 100)"
  have "lb_step (lbuf_init 4096 1024) ?a" "lb_step ?a (fst (lbuf_alloc ?a 200))"
    "lb_step (fst (lbuf_alloc ?a 200)) ex_pool3"
    unfolding ex_pool3_def by (rule st, simp add: req_ok_def)+
  then have "lb_step\<^sup>*\<^sup>* (lbuf_init 4096 1024) ex_pool3" by (blast intro: rtranclp.intros)
  moreover have "set [4252, 4472, 4132] = {p. lb_live ex_pool3 p \<noteq> None}"
    by (auto simp: lb_live_def ex_pool3_ents get_entry_eq split: if_splits)
  ultimately have "free_all [4252, 4472, 4132] ex_pool3 = Inr (lbuf_init 4096 1024)"
    by (intro lbuf_no_fragmentation) (simp_all add: pool_ok_def)
  then show ?thesis
    by (simp add: ex_pool3_ents) (simp add: ex_pool3_def lbuf_alloc_def lbuf_init_def alloc_size_def align4_def sz)
qed

section \<open>Shrinking\<close>

text \<open>C29: \<open>lbuf_realloc\<close> on a live block never moves it.  With \<open>k\<close> the size rounded to four: when
  more than a header is left over, the payload becomes exactly \<open>k\<close> and the rest of the block goes
  back to the free list; when less is left over, nothing changes; when the payload is too small
  the answer is the null pointer with the block kept; and from the block's full length on it is a
  failed assertion, never growth.\<close>

theorem lbuf_realloc_contract:
  assumes "wf lo hi s" "lb_live s p = Some m"
  shows "case lbuf_realloc s p n of
      Inl x \<Rightarrow> x = AssertReset \<and> m + sz_hentry \<le> align4 n
    | Inr (s', q) \<Rightarrow> wf lo hi s' \<and>
       (if m < align4 n then q = 0 \<and> s' = s \<and> align4 n < m + sz_hentry
        else if m \<le> align4 n + sz_hentry then q = p \<and> s' = s
        else q = p \<and> lb_live s' = (lb_live s)(p \<mapsto> align4 n) \<and>
             total (lb_free s') = total (lb_free s) + (m - align4 n))"
proof -
  from lb_liveD [OF assms] obtain e where e: "lb_ents s (get_entry p) = Some e"
    "he_len e = m + sz_hentry" by blast
  have p: "p < 4294967296" using assms(2) by (auto simp: lb_live_def split: if_splits)
  have b: "sz_hentry \<le> he_len e" "he_len e + 64 < 4294967296"
    using wf_entD(2,6) [OF assms(1) e(1)] by simp_all
  consider "he_len e \<le> align4 n" | "align4 n < he_len e" "he_len e < align4 n + sz_hentry"
    | "align4 n + sz_hentry \<le> he_len e" "he_len e \<le> align4 n + sz_hentry + sz_hentry"
    | "align4 n + sz_hentry + sz_hentry < he_len e" by linarith
  then show ?thesis
  proof cases
    case 4
    obtain t where t: "lbuf_realloc s p n = Inr (t, p)" "wf lo hi t"
      "lb_ents t = (lb_ents s)(get_entry p \<mapsto> e\<lparr>he_len := sz_hentry + align4 n\<rparr>)"
      "total (lb_free t) = total (lb_free s) + (he_len e - sz_hentry - align4 n)"
      by (rule lbuf_realloc_cut [OF assms(1) e(1) p 4])
    from lb_live_update [OF p t(3)] have "lb_live t = (lb_live s)(p \<mapsto> align4 n)" by simp
    with t 4 e(2) show ?thesis by simp
  qed (use assms(1) e(2) lbuf_realloc_reset [OF e(1)] lbuf_realloc_refused [OF e(1) _ _ b]
      lbuf_realloc_same [OF e(1) _ _ b(2)] in auto)
qed

theorem lbuf_realloc_contract_witness:
  "lb_live (fst (lbuf_alloc (lbuf_init 4096 1024) 100)) 4132 = Some 100 \<and>
   (case lbuf_realloc (fst (lbuf_alloc (lbuf_init 4096 1024) 100)) 4132 40 of
      Inl x \<Rightarrow> False | Inr (s', q) \<Rightarrow> q = 4132 \<and> lb_live s' 4132 = Some 40)"
proof -
  let ?s = "fst (lbuf_alloc (lbuf_init 4096 1024) 100)"
  have "pool_ok 4096 1024" by (simp add: pool_ok_def)
  from lb.alloc_inv [OF lbuf_init_wf [OF this], of 100 ?s "snd (lbuf_alloc (lbuf_init 4096 1024) 100)"]
  have wf: "wf (pool_lo 4096) (pool_hi 4096 1024) ?s" by (simp add: req_ok_def)
  have l: "lb_live ?s 4132 = Some 100"
    by (simp add: lb_live_def lbuf_alloc_def lbuf_init_def alloc_size_def align4_def get_entry_def sz)
  from lbuf_realloc_contract [OF wf l, of 40] l show ?thesis
    by (auto simp: align4_def sz split: sum.splits prod.splits)
qed

section \<open>The message queue\<close>

definition lb_msgs :: "lbuf \<Rightarrow> addr list" where
  "lb_msgs s = map (\<lambda>a. u32_add a sz_hentry) (filter (fresh s) (lb_queue s))"

definition lb_ready :: "lbuf \<Rightarrow> addr \<Rightarrow> bool" where
  "lb_ready s p \<longleftrightarrow> (\<exists>k. lb_live s p = Some k) \<and>
    (case lb_ents s (get_entry p) of None \<Rightarrow> False | Some e \<Rightarrow> he_ref e = 0)"

definition lbuf_push_opt :: "lbuf \<Rightarrow> addr \<Rightarrow> lbuf option" where
  "lbuf_push_opt s p = (case lbuf_push s p of Inl _ \<Rightarrow> None | Inr s' \<Rightarrow> Some s')"

lemma find_filter: "find P xs = (case filter P xs of [] \<Rightarrow> None | x # _ \<Rightarrow> Some x)"
  by (induction xs) auto

lemma filter_drop_first:
  "distinct xs \<Longrightarrow> filter P xs = x # ys \<Longrightarrow> (\<And>y. y \<noteq> x \<Longrightarrow> Q y = P y) \<Longrightarrow> \<not> Q x \<Longrightarrow> filter Q xs = ys"
proof (induction xs)
  case (Cons z zs)
  show ?case
  proof (cases "P z")
    case True
    with Cons.prems have z: "z = x" "filter P zs = ys" "x \<notin> set zs" by auto
    then have "filter Q zs = filter P zs" using Cons.prems(3) by (intro filter_cong) metis+
    with z Cons.prems(4) show ?thesis by simp
  next
    case False
    moreover have "x \<in> set (filter P zs)" using Cons.prems(2) False by simp
    ultimately have "z \<noteq> x" by auto
    with Cons False show ?thesis by auto
  qed
qed simp

lemma lb_pop_msg:
  assumes "lb_inv lo hi s" "lb_msgs s = p # ps"
  shows "\<exists>s'. lbuf_pop s = (s', p) \<and> lb_inv lo hi s' \<and> lb_msgs s' = ps"
proof -
  obtain a as where a: "filter (fresh s) (lb_queue s) = a # as" "p = u32_add a sz_hentry"
    "ps = map (\<lambda>a. u32_add a sz_hentry) as" using assms(2) by (auto simp: lb_msgs_def)
  have f: "find (fresh s) (lb_queue s) = Some a" using a(1) by (simp add: find_filter)
  show ?thesis
  proof (cases s rule: lbuf_pop_cases)
    case (Some b e)
    then have b: "b = a" using f by simp
    let ?t = "s\<lparr>lb_ents := (lb_ents s)(a \<mapsto> e\<lparr>he_state := 1\<rparr>)\<rparr>"
    have "filter (fresh ?t) (lb_queue s) = as"
    proof (rule filter_drop_first [OF _ a(1)])
      show "distinct (lb_queue s)" using assms(1) by (simp add: lb_inv_def wf_queue_def)
    qed (simp_all add: fresh_def)
    then have "lb_msgs ?t = ps" by (simp add: lb_msgs_def a(3))
    moreover have "lb_inv lo hi ?t"
      using lbuf_pop_wf [of lo hi s ?t "u32_add a sz_hentry"] assms(1) Some b by (simp add: lb_inv_def)
    ultimately show ?thesis using Some b a(2) by simp
  qed (use f in simp)
qed

lemma lb_push_msg:
  assumes "lb_inv lo hi s" "lb_ready s p"
  shows "\<exists>s'. lbuf_push_opt s p = Some s' \<and> lb_inv lo hi s' \<and> lb_msgs s' = lb_msgs s @ [p]"
proof -
  from assms have wf: "wf lo hi s" "wf_queue s" by (auto simp: lb_inv_def)
  from assms(2) obtain e k where e: "lb_ents s (get_entry p) = Some e" "he_ref e = 0"
    and k: "lb_live s p = Some k" by (auto simp: lb_ready_def split: option.splits)
  obtain s' where s': "lbuf_push s p = Inr s'" "wf lo hi s'" "wf_queue s'"
    "get_entry p \<notin> set (lb_queue s)" "lb_queue s' = lb_queue s @ [get_entry p]"
    "lb_ents s' = (lb_ents s)(get_entry p \<mapsto> e\<lparr>he_state := 0, he_ref := he_ref e + 1\<rparr>)"
    by (rule lbuf_push_ok [OF wf e(1)]) (use e(2) in auto)
  have "filter (fresh s') (lb_queue s) = filter (fresh s) (lb_queue s)"
    using s'(4,6) by (intro filter_cong) (auto simp: fresh_def)
  moreover have "fresh s' (get_entry p)" using s'(6) by (simp add: fresh_def)
  moreover have "u32_add (get_entry p) sz_hentry = p"
  proof -
    from lb_liveD [OF wf(1) k] have "p = get_entry p + sz_hentry" by blast
    moreover have "p < 4294967296" using k by (auto simp: lb_live_def split: if_splits)
    ultimately show ?thesis by simp
  qed
  ultimately have "lb_msgs s' = lb_msgs s @ [p]" using s'(5) by (simp add: lb_msgs_def)
  with s' show ?thesis by (simp add: lbuf_push_opt_def lb_inv_def)
qed

interpretation lq: msg_queue lbuf_push_opt lbuf_pop lb_msgs lb_ready "lb_inv lo hi" for lo hi
proof
  fix s
  assume "lb_msgs s = []"
  then have "find (fresh s) (lb_queue s) = None" by (simp add: find_filter lb_msgs_def)
  then show "lbuf_pop s = (s, 0)" by (simp add: lbuf_pop_def)
qed (use lb_pop_msg lb_push_msg in blast)+

text \<open>C31: The queue of a pool is first-in first-out: after pushing a live block with no
  reference, popping once for every message that waited and once more returns those messages in
  their order and then the new block.\<close>

theorem lbuf_queue_fifo:
  assumes "wf lo hi s" "wf_queue s" "lb_ready s p"
  shows "\<exists>s'. lbuf_push s p = Inr s' \<and> drain lbuf_pop (Suc (length (lb_msgs s))) s' = lb_msgs s @ [p]"
proof -
  have "lb_inv lo hi s" using assms by (simp add: lb_inv_def)
  from lq.enq_drain [OF this assms(3)] show ?thesis
    by (auto simp: lbuf_push_opt_def split: sum.splits)
qed

theorem lbuf_queue_fifo_witness:
  "\<exists>s'. lbuf_push (fst (lbuf_alloc (lbuf_init 4096 1024) 100)) 4132 = Inr s' \<and>
     drain lbuf_pop 1 s' = [4132]"
proof -
  let ?s = "fst (lbuf_alloc (lbuf_init 4096 1024) 100)"
  have ok: "pool_ok 4096 1024" by (simp add: pool_ok_def)
  from lb.alloc_inv [OF lbuf_init_wf [OF this], of 100 ?s "snd (lbuf_alloc (lbuf_init 4096 1024) 100)"]
  have wf: "wf (pool_lo 4096) (pool_hi 4096 1024) ?s" by (simp add: req_ok_def)
  have q: "wf_queue ?s" "lb_msgs ?s = []"
    by (simp_all add: wf_queue_def lb_msgs_def lbuf_alloc_def lbuf_init_def alloc_size_def align4_def sz)
  have r: "lb_ready ?s 4132"
    by (simp add: lb_ready_def lb_live_def lbuf_alloc_def lbuf_init_def alloc_size_def align4_def
        get_entry_def sz)
  from lbuf_queue_fifo [OF wf q(1) r] q(2) show ?thesis by simp
qed

section \<open>Two sharp edges\<close>

text \<open>A request close to four gigabytes wraps in the size computation and is granted.\<close>

lemma lbuf_alloc_huge: "lbuf_alloc (lbuf_init 4096 1024) 4294967276 =
    (\<lparr>lb_head = 4096, lb_queue = [], lb_free = [(4112, 996)],
      lb_ents = [4112 \<mapsto> \<lparr>he_head = 4096, he_len = 0, he_state = 0, he_ref = 0\<rparr>]\<rparr>, 4132)"
  by (simp add: lbuf_alloc_def lbuf_init_def alloc_size_def align4_def sz u32_add_def u32_def)

text \<open>The reference count is one byte: one push after 255 references counts zero references, and
  the next one links the block a second time.\<close>

lemma lbuf_push_wraps:
  "lb_ents s (get_entry p) = Some e \<Longrightarrow> he_ref e = 255 \<Longrightarrow> get_entry p \<in> set (lb_queue s) \<Longrightarrow>
   \<exists>s1 s2. lbuf_push s p = Inr s1 \<and> lbuf_push s1 p = Inr s2 \<and> \<not> distinct (lb_queue s2)"
  by (simp add: lbuf_push_def Let_def u8_def)

end
