(* ===== verification/AppMem.thy ===== *)
theory AppMem
  imports Lbuf_Spec
begin

text \<open>
  The heap of \<open>demo_wifi/app_main.c\<close>: two pools, one in the memory of disabled cache ways (or in
  SDRAM) and one in the memory the boot loader has left, tried in this order; a block goes back to
  the pool whose address range holds it.  \<open>app_core\<close> watches the download through a counter of
  unchanged progress readings.  The way registers and cache tags are in \<open>HwClock\<close>.
\<close>

section \<open>State and operations\<close>

record heap =
  pcach_mem :: "lbuf option"
  cach_mem_addr :: addr
  cach_mem_size :: nat
  pmem_ptr :: "lbuf option"

definition heap0 :: heap where
  "heap0 = \<lparr>pcach_mem = None, cach_mem_addr = 0, cach_mem_size = 0, pmem_ptr = None\<rparr>"

definition APP_MEM_SIZE :: nat where "APP_MEM_SIZE = 42 * 1024"
definition APP_MEM_ADDR_START :: addr where "APP_MEM_ADDR_START = 29360128"
definition APP_MEM_ADDR_END :: addr where "APP_MEM_ADDR_END = APP_MEM_ADDR_START + APP_MEM_SIZE"

lemmas app_mem_consts = APP_MEM_SIZE_def APP_MEM_ADDR_START_def APP_MEM_ADDR_END_def

text \<open>The memory the configuration chooses: \<open>sdram\<close> is \<open>SDRAM_SIZE\<close>, \<open>ap\<close> is
  \<open>CONFIG_WL_AP_ENABLE\<close>; seven free ways of both caches.\<close>

definition cache_ram_config :: "nat \<Rightarrow> bool \<Rightarrow> heap \<Rightarrow> heap" where
  "cache_ram_config sdram ap h =
    (if sdram \<noteq> 0 then h\<lparr>cach_mem_size := sdram, cach_mem_addr := 67108864\<rparr>
     else if ap then h
     else let free_dcache_way = 7; free_icache_way = 7
          in if free_dcache_way = (0::nat) \<and> free_icache_way = (0::nat) then h
             else h\<lparr>cach_mem_size := free_dcache_way * 4096 + free_icache_way * 4096 - 512,
                    cach_mem_addr := 32636928 + (8 - free_icache_way) * 4096\<rparr>)"

definition cache_ram_init :: "nat \<Rightarrow> bool \<Rightarrow> heap \<Rightarrow> heap" where
  "cache_ram_init sdram ap h =
    (let h = cache_ram_config sdram ap h
     in if cach_mem_addr h \<noteq> 0
        then h\<lparr>pcach_mem := Some (lbuf_init (cach_mem_addr h) (cach_mem_size h))\<rparr> else h)"

definition cach_mem_malloc :: "heap \<Rightarrow> nat \<Rightarrow> heap \<times> addr" where
  "cach_mem_malloc h size' =
    (case pcach_mem h of
       None \<Rightarrow> (h, 0)
     | Some s \<Rightarrow>
         if cach_mem_addr h \<noteq> 0
         then (case lbuf_alloc s size' of (s', p) \<Rightarrow> (h\<lparr>pcach_mem := Some s'\<rparr>, p))
         else (h, 0))"

definition cach_mem_free :: "heap \<Rightarrow> addr \<Rightarrow> lb_error + (heap \<times> nat)" where
  "cach_mem_free h p =
    (case pcach_mem h of
       None \<Rightarrow> Inr (h, 0)
     | Some s \<Rightarrow>
         if cach_mem_addr h \<noteq> 0 \<and>
            cach_mem_addr h \<le> p \<and> p < u32_add (cach_mem_addr h) (cach_mem_size h)
         then (case lbuf_free s p of
                 Inl x \<Rightarrow> Inl x
               | Inr s' \<Rightarrow> Inr (h\<lparr>pcach_mem := Some s'\<rparr>, 1))
         else Inr (h, 0))"

definition cach_mem_free_space :: "heap \<Rightarrow> nat" where
  "cach_mem_free_space h = (case pcach_mem h of None \<Rightarrow> 0 | Some s \<Rightarrow> lbuf_remain_space s)"

definition app_mem_init :: "nat \<Rightarrow> bool \<Rightarrow> heap \<Rightarrow> heap" where
  "app_mem_init sdram ap h =
    (if ap then h
     else cache_ram_init sdram ap
            (h\<lparr>pmem_ptr := Some (lbuf_init APP_MEM_ADDR_START APP_MEM_SIZE)\<rparr>))"

definition app_mem_malloc :: "heap \<Rightarrow> nat \<Rightarrow> heap \<times> addr" where
  "app_mem_malloc h size' =
    (case cach_mem_malloc h size' of (h, p) \<Rightarrow>
       if p \<noteq> 0 then (h, p)
       else case pmem_ptr h of
              None \<Rightarrow> (h, 0)
            | Some s \<Rightarrow> (case lbuf_alloc s size' of (s', p) \<Rightarrow> (h\<lparr>pmem_ptr := Some s'\<rparr>, p)))"

definition app_mem_free :: "heap \<Rightarrow> addr \<Rightarrow> lb_error + (heap \<times> nat)" where
  "app_mem_free h p =
    (case cach_mem_free h p of
       Inl x \<Rightarrow> Inl x
     | Inr (h, r) \<Rightarrow>
         if r \<noteq> 0 then Inr (h, 1)
         else case pmem_ptr h of
                None \<Rightarrow> Inr (h, 0)
              | Some s \<Rightarrow>
                  if APP_MEM_ADDR_START \<le> p \<and> p < APP_MEM_ADDR_END
                  then (case lbuf_free s p of
                          Inl x \<Rightarrow> Inl x
                        | Inr s' \<Rightarrow> Inr (h\<lparr>pmem_ptr := Some s'\<rparr>, 1))
                  else Inr (h, 0))"

definition app_mem_free_space :: "heap \<Rightarrow> nat" where
  "app_mem_free_space h = (case pmem_ptr h of None \<Rightarrow> 0 | Some s \<Rightarrow> lbuf_remain_space s)"

text \<open>The C library functions the loader supplies over a given allocator.\<close>

definition sys_realloc :: "('h \<Rightarrow> nat \<Rightarrow> 'h \<times> addr) \<Rightarrow> ('h \<Rightarrow> addr \<Rightarrow> 'h) \<Rightarrow> 'h \<Rightarrow> addr \<Rightarrow> nat \<Rightarrow> 'h \<times> addr" where
  "sys_realloc malloc free h pv size' = malloc (if pv \<noteq> 0 then free h pv else h) size'"

definition kzalloc :: "('h \<Rightarrow> nat \<Rightarrow> 'h \<times> addr) \<Rightarrow> 'h \<Rightarrow> nat \<Rightarrow> nat \<Rightarrow> 'h \<times> addr" where
  "kzalloc zalloc h len a = zalloc h (u32_mul len a)"

definition sys_calloc :: "('h \<Rightarrow> nat \<Rightarrow> 'h \<times> addr) \<Rightarrow> 'h \<Rightarrow> nat \<Rightarrow> nat \<Rightarrow> 'h \<times> addr" where
  "sys_calloc zalloc h len a = kzalloc zalloc h len a"

text \<open>\<open>bytecmp\<close>: -1 at the first byte that differs.\<close>

fun bytecmp :: "(addr \<Rightarrow> byte) \<Rightarrow> addr \<Rightarrow> byte \<Rightarrow> nat \<Rightarrow> int" where
  "bytecmp m p ch 0 = 0"
| "bytecmp m p ch (Suc num) = (if m p \<noteq> ch then -1 else bytecmp m (u32_add p 1) ch num)"

section \<open>The download watchdog\<close>

record watchdog =
  check_last :: int
  check_err_cnt :: int

definition watchdog0 :: watchdog where
  "watchdog0 = \<lparr>check_last = 0, check_err_cnt = 0\<rparr>"

text \<open>One pass of the loop of \<open>app_core\<close> on a reading \<open>check\<close>; the flag asks for a reset.\<close>

definition app_core_pass :: "watchdog \<Rightarrow> int \<Rightarrow> watchdog \<times> bool" where
  "app_core_pass w check =
    (let w = (if check \<noteq> 0 then
                if check_last w = 0 then w\<lparr>check_last := check, check_err_cnt := 0\<rparr>
                else if check_last w \<noteq> check then w\<lparr>check_last := check, check_err_cnt := 0\<rparr>
                else w\<lparr>check_err_cnt := s32 (check_err_cnt w + 1)\<rparr>
              else w)
     in (w, check_err_cnt w \<noteq> 0 \<and> check_err_cnt w mod 60 = 0))"

text \<open>Passes until the reset, on a list of readings: how many were made, and whether it reset.\<close>

fun app_core_run :: "watchdog \<Rightarrow> int list \<Rightarrow> nat \<times> bool" where
  "app_core_run w [] = (0, False)"
| "app_core_run w (c # cs) =
    (case app_core_pass w c of (w', r) \<Rightarrow>
       if r then (1, True) else case app_core_run w' cs of (n, b) \<Rightarrow> (Suc n, b))"

end
