(* ===== verification/AppMem_Spec.thy ===== *)
theory AppMem_Spec
  imports AppMem
begin

text \<open>
  The two-pool heap keeps the contract of a block allocator: the second interpretation of
  \<open>block_allocator\<close>.  The watchdog resets at the first pass whose last sixty-one
  readings are equal, and only there.
\<close>

section \<open>The heap is an allocator\<close>

definition opt_live :: "lbuf option \<Rightarrow> addr \<Rightarrow> nat option" where
  "opt_live o' p = (case o' of None \<Rightarrow> None | Some s \<Rightarrow> lb_live s p)"

definition heap_live :: "heap \<Rightarrow> addr \<Rightarrow> nat option" where
  "heap_live h p = (case opt_live (pcach_mem h) p of
     None \<Rightarrow> opt_live (pmem_ptr h) p | Some k \<Rightarrow> Some k)"

definition pool_inv :: "addr \<Rightarrow> nat \<Rightarrow> lbuf option \<Rightarrow> bool" where
  "pool_inv a n o' \<longleftrightarrow> pool_ok a n \<and>
    (case o' of None \<Rightarrow> True | Some s \<Rightarrow> wf (pool_lo a) (pool_hi a n) s)"

definition heap_inv :: "heap \<Rightarrow> bool" where
  "heap_inv h \<longleftrightarrow> pool_inv APP_MEM_ADDR_START APP_MEM_SIZE (pmem_ptr h) \<and>
    (pcach_mem h \<noteq> None \<longrightarrow> cach_mem_addr h \<noteq> 0 \<and>
       pool_inv (cach_mem_addr h) (cach_mem_size h) (pcach_mem h) \<and>
       apart (cach_mem_addr h, cach_mem_size h) (APP_MEM_ADDR_START, APP_MEM_SIZE))"

definition app_mem_free_opt :: "heap \<Rightarrow> addr \<Rightarrow> heap option" where
  "app_mem_free_opt h p = (case app_mem_free h p of Inl _ \<Rightarrow> None | Inr (h', _) \<Rightarrow> Some h')"

lemma opt_live_range:
  assumes "pool_inv a n o'" "opt_live o' p = Some k"
  shows "a \<le> p" "p + k \<le> a + n" "p < a + n" "p \<noteq> 0"
proof -
  obtain s where s: "wf (pool_lo a) (pool_hi a n) s" "lb_live s p = Some k"
    using assms by (auto simp: pool_inv_def opt_live_def split: option.splits)
  have ok: "32 \<le> n" "a + n + 64 < 4294967296" using assms(1) by (auto simp: pool_inv_def pool_ok_def)
  from lb_liveD [OF s] obtain e where e: "lb_ents s (get_entry p) = Some e" "p = get_entry p + sz_hentry"
    "p \<noteq> 0" "he_len e = k + sz_hentry" by blast
  have "pool_lo a \<le> get_entry p" "get_entry p + (k + sz_hentry) \<le> pool_hi a n"
    using wf_entD(1) [OF s(1) e(1)] e(4) by (simp_all add: in_pool_def)
  moreover have "a \<le> align4 a" using ok by (intro align4_ge) arith
  ultimately have "a \<le> get_entry p" "p + k \<le> a + n - 12"
    using e(2) unfolding pool_lo_def pool_hi_def sz by arith+
  with e(2,3) ok show "a \<le> p" "p + k \<le> a + n" "p < a + n" "p \<noteq> 0" by arith+
qed

lemma pool_inv_alloc:
  assumes "pool_inv a n (Some s)" "req_ok m" "lbuf_alloc s m = (s', p)"
  shows "pool_inv a n (Some s')"
    and "p = 0 \<Longrightarrow> s' = s"
    and "p \<noteq> 0 \<Longrightarrow> opt_live (Some s) p = None \<and>
      (\<exists>k \<ge> m. opt_live (Some s') = (opt_live (Some s))(p \<mapsto> k))"
proof -
  have wf: "wf (pool_lo a) (pool_hi a n) s" "pool_ok a n" using assms(1) by (auto simp: pool_inv_def)
  from lb.alloc_inv [OF wf(1) assms(2,3)] wf(2) show "pool_inv a n (Some s')" by (simp add: pool_inv_def)
  show "p = 0 \<Longrightarrow> s' = s" using lb.alloc_fail [OF wf(1)] assms(3) by simp
  have "opt_live (Some t) = lb_live t" for t by (rule ext) (simp add: opt_live_def)
  then show "p \<noteq> 0 \<Longrightarrow> opt_live (Some s) p = None \<and>
      (\<exists>k \<ge> m. opt_live (Some s') = (opt_live (Some s))(p \<mapsto> k))"
    using lb.alloc_ok [OF wf(1) assms(2,3)] by metis
qed

lemma pool_inv_free:
  assumes "pool_inv a n (Some s)" "opt_live (Some s) p = Some k"
  obtains s' where "lbuf_free s p = Inr s'" "pool_inv a n (Some s')"
    "opt_live (Some s') = (opt_live (Some s))(p := None)"
proof -
  have wf: "wf (pool_lo a) (pool_hi a n) s" "pool_ok a n" using assms(1) by (auto simp: pool_inv_def)
  have eq: "opt_live (Some t) = lb_live t" for t by (rule ext) (simp add: opt_live_def)
  from assms(2) have "lb_live s p = Some k" by (simp add: eq)
  from lb.free_ok [OF wf(1) this] obtain s' where "lbuf_free_opt s p = Some s'"
    "wf (pool_lo a) (pool_hi a n) s'" "lb_live s' = (lb_live s)(p := None)" by blast
  with that [of s'] wf(2) show thesis
    by (auto simp: lbuf_free_opt_def eq pool_inv_def split: sum.splits)
qed

text \<open>The two live maps have disjoint domains, so the ranges of the pools tell the blocks apart.\<close>

lemma heap_ranges:
  assumes "heap_inv h" "opt_live (pcach_mem h) p = Some k"
  shows "cach_mem_addr h \<noteq> 0" "cach_mem_addr h \<le> p" "p < cach_mem_addr h + cach_mem_size h"
    and "p + k \<le> cach_mem_addr h + cach_mem_size h"
    and "cach_mem_addr h + cach_mem_size h < 4294967296"
    and "opt_live (pmem_ptr h) p = None"
    and "opt_live (pmem_ptr h) q = Some m \<Longrightarrow> apart (p, k) (q, m)"
proof -
  have c: "pcach_mem h \<noteq> None" using assms(2) by (auto simp: opt_live_def split: option.splits)
  with assms(1) have inv: "pool_inv (cach_mem_addr h) (cach_mem_size h) (pcach_mem h)"
    "pool_inv APP_MEM_ADDR_START APP_MEM_SIZE (pmem_ptr h)"
    "apart (cach_mem_addr h, cach_mem_size h) (APP_MEM_ADDR_START, APP_MEM_SIZE)"
    by (auto simp: heap_inv_def)
  show "cach_mem_addr h \<noteq> 0" using c assms(1) by (simp add: heap_inv_def)
  note r = opt_live_range [OF inv(1) assms(2)]
  show "cach_mem_addr h \<le> p" "p < cach_mem_addr h + cach_mem_size h"
    "p + k \<le> cach_mem_addr h + cach_mem_size h" using r by simp_all
  show "cach_mem_addr h + cach_mem_size h < 4294967296"
    using inv(1) by (simp add: pool_inv_def pool_ok_def)
  have range: "APP_MEM_ADDR_START \<le> q \<and> q + m \<le> APP_MEM_ADDR_START + APP_MEM_SIZE \<and>
    q < APP_MEM_ADDR_START + APP_MEM_SIZE" if "opt_live (pmem_ptr h) q = Some m" for q m
    using opt_live_range [OF inv(2) that] by simp
  show "opt_live (pmem_ptr h) p = None"
  proof (cases "opt_live (pmem_ptr h) p")
    case (Some m)
    from range [OF this] r inv(3) show ?thesis by (simp add: apart_def)
  qed
  show "apart (p, k) (q, m)" if "opt_live (pmem_ptr h) q = Some m"
    using range [OF that] r inv(3) by (auto simp: apart_def)
qed

lemma heap_live_cach: "opt_live (pcach_mem h) p = Some k \<Longrightarrow> heap_live h p = Some k"
  by (simp add: heap_live_def)

lemma heap_live_cases:
  assumes "heap_live h p = Some k"
  obtains "opt_live (pcach_mem h) p = Some k"
  | "opt_live (pcach_mem h) p = None" "opt_live (pmem_ptr h) p = Some k"
  using assms by (auto simp: heap_live_def split: option.splits)

lemma cach_mem_malloc_none:
  "heap_inv h \<Longrightarrow> cach_mem_malloc h n = (h', 0) \<Longrightarrow> h' = h"
proof (cases "pcach_mem h")
  case (Some s)
  assume inv: "heap_inv h" and m: "cach_mem_malloc h n = (h', 0)"
  from inv Some have "wf (pool_lo (cach_mem_addr h)) (pool_hi (cach_mem_addr h) (cach_mem_size h)) s"
    "cach_mem_addr h \<noteq> 0" by (auto simp: heap_inv_def pool_inv_def)
  with m Some lb.alloc_fail show "h' = h"
    by (fastforce simp: cach_mem_malloc_def split: prod.splits)
qed (simp add: cach_mem_malloc_def)

lemma heap_alloc_ok:
  assumes inv: "heap_inv h" and n: "req_ok n" and al: "app_mem_malloc h n = (h', p)" and p: "p \<noteq> 0"
  shows "heap_inv h' \<and> heap_live h p = None \<and> (\<exists>k \<ge> n. heap_live h' = (heap_live h)(p \<mapsto> k))"
proof -
  obtain h1 q where c: "cach_mem_malloc h n = (h1, q)" by force
  show ?thesis
  proof (cases "q = 0")
    case True
    with cach_mem_malloc_none [OF inv] c have h1: "h1 = h" by simp
    with al p c True obtain s s' where s: "pmem_ptr h = Some s" "lbuf_alloc s n = (s', p)"
      "h' = h\<lparr>pmem_ptr := Some s'\<rparr>" by (auto simp: app_mem_malloc_def split: option.splits prod.splits)
    have pi: "pool_inv APP_MEM_ADDR_START APP_MEM_SIZE (Some s)" using inv s(1) by (simp add: heap_inv_def)
    note a = pool_inv_alloc [OF pi n s(2)]
    from a(3) [OF p] obtain k where k: "opt_live (Some s) p = None" "n \<le> k"
      "opt_live (Some s') = (opt_live (Some s))(p \<mapsto> k)" by blast
    have inv': "heap_inv h'" using inv a(1) s(3) by (simp add: heap_inv_def)
    have "opt_live (pcach_mem h) p = None"
    proof (cases "opt_live (pcach_mem h) p")
      case (Some m)
      then have "opt_live (pcach_mem h') p = Some m" using s(3) by simp
      from heap_ranges(6) [OF inv' this] k(3) s(3) show ?thesis by simp
    qed
    then have "heap_live h p = None" "heap_live h' = (heap_live h)(p \<mapsto> k)"
      using k s by (auto simp: heap_live_def fun_eq_iff split: option.splits)
    with inv' k(2) show ?thesis by blast
  next
    case False
    with c obtain s s' where s: "pcach_mem h = Some s" "lbuf_alloc s n = (s', q)" "cach_mem_addr h \<noteq> 0"
      "h1 = h\<lparr>pcach_mem := Some s'\<rparr>" by (auto simp: cach_mem_malloc_def split: option.splits prod.splits if_splits)
    have eq: "h' = h1" "p = q" using al c False by (auto simp: app_mem_malloc_def)
    have pi: "pool_inv (cach_mem_addr h) (cach_mem_size h) (Some s)" using inv s(1) by (simp add: heap_inv_def)
    note a = pool_inv_alloc [OF pi n s(2)]
    from a(3) [OF False] obtain k where k: "opt_live (Some s) q = None" "n \<le> k"
      "opt_live (Some s') = (opt_live (Some s))(q \<mapsto> k)" by blast
    have inv': "heap_inv h'" using inv a(1) s eq by (simp add: heap_inv_def)
    have "opt_live (pcach_mem h') p = Some k" using k(3) s eq by simp
    from heap_ranges(6) [OF inv' this] have "opt_live (pmem_ptr h) p = None" using s eq by simp
    then have "heap_live h p = None" "heap_live h' = (heap_live h)(p \<mapsto> k)"
      using k s eq by (auto simp: heap_live_def fun_eq_iff split: option.splits)
    with inv' k(2) show ?thesis by blast
  qed
qed

lemma heap_free_ok:
  assumes inv: "heap_inv h" and l: "heap_live h p = Some k"
  shows "\<exists>h'. app_mem_free h p = Inr (h', 1) \<and> heap_inv h' \<and> heap_live h' = (heap_live h)(p := None)"
  using l
proof (cases rule: heap_live_cases)
  case 1
  then obtain s where s: "pcach_mem h = Some s" by (auto simp: opt_live_def split: option.splits)
  note r = heap_ranges [OF inv 1]
  have pi: "pool_inv (cach_mem_addr h) (cach_mem_size h) (Some s)" using inv s by (simp add: heap_inv_def)
  from pool_inv_free [OF pi, of p k] 1 s obtain s' where s': "lbuf_free s p = Inr s'"
    "pool_inv (cach_mem_addr h) (cach_mem_size h) (Some s')"
    "opt_live (Some s') = (opt_live (Some s))(p := None)" by auto
  let ?h = "h\<lparr>pcach_mem := Some s'\<rparr>"
  have "app_mem_free h p = Inr (?h, 1)" using s s'(1) r(1-5) by (simp add: app_mem_free_def cach_mem_free_def)
  moreover have "heap_inv ?h" using inv s s'(2) by (simp add: heap_inv_def)
  moreover have "heap_live ?h = (heap_live h)(p := None)"
    using s s'(3) r(6) by (auto simp: heap_live_def fun_eq_iff split: option.splits)
  ultimately show ?thesis by blast
next
  case 2
  then obtain s where s: "pmem_ptr h = Some s" by (auto simp: opt_live_def split: option.splits)
  have pi: "pool_inv APP_MEM_ADDR_START APP_MEM_SIZE (Some s)" using inv s by (simp add: heap_inv_def)
  have l: "opt_live (Some s) p = Some k" using 2 s by simp
  note r = opt_live_range [OF pi l]
  from pool_inv_free [OF pi l] obtain s' where s': "lbuf_free s p = Inr s'"
    "pool_inv APP_MEM_ADDR_START APP_MEM_SIZE (Some s')"
    "opt_live (Some s') = (opt_live (Some s))(p := None)" by blast
  let ?h = "h\<lparr>pmem_ptr := Some s'\<rparr>"
  have "cach_mem_free h p = Inr (h, 0)"
  proof (cases "pcach_mem h")
    case (Some c)
    with inv have "cach_mem_addr h + cach_mem_size h < 4294967296"
      "apart (cach_mem_addr h, cach_mem_size h) (APP_MEM_ADDR_START, APP_MEM_SIZE)"
      by (auto simp: heap_inv_def pool_inv_def pool_ok_def)
    with r Some show ?thesis by (auto simp: cach_mem_free_def apart_def)
  qed (simp add: cach_mem_free_def)
  then have "app_mem_free h p = Inr (?h, 1)"
    using s s'(1) r by (simp add: app_mem_free_def APP_MEM_ADDR_END_def)
  moreover have "heap_inv ?h" using inv s s'(2) by (simp add: heap_inv_def)
  moreover have "heap_live ?h = (heap_live h)(p := None)"
    using s s'(3) 2(1) by (auto simp: heap_live_def fun_eq_iff split: option.splits)
  ultimately show ?thesis by blast
qed

lemma heap_alloc_fail:
  assumes inv: "heap_inv h" and al: "app_mem_malloc h n = (h', 0)"
  shows "h' = h"
proof -
  obtain h1 q where c: "cach_mem_malloc h n = (h1, q)" by force
  with al have q: "q = 0" by (auto simp: app_mem_malloc_def split: if_splits)
  with cach_mem_malloc_none [OF inv] c have h1: "h1 = h" by simp
  show ?thesis
  proof (cases "pmem_ptr h")
    case (Some s)
    with inv have "wf (pool_lo APP_MEM_ADDR_START) (pool_hi APP_MEM_ADDR_START APP_MEM_SIZE) s"
      by (simp add: heap_inv_def pool_inv_def)
    with lb.alloc_fail al c q h1 Some show ?thesis
      by (fastforce simp: app_mem_malloc_def split: prod.splits)
  qed (use al c q h1 in \<open>simp add: app_mem_malloc_def\<close>)
qed

lemma heap_live_apart:
  assumes inv: "heap_inv h" and p: "heap_live h p = Some k" and q: "heap_live h q = Some m" and ne: "p \<noteq> q"
  shows "apart (p, k) (q, m)"
proof -
  have same: "apart (p, k) (q, m)"
    if "pool_inv a n o'" "opt_live o' p = Some k" "opt_live o' q = Some m" for a n o'
  proof -
    note t = that
    obtain s where s: "o' = Some s" "wf (pool_lo a) (pool_hi a n) s"
      using t(1,2) by (auto simp: pool_inv_def opt_live_def split: option.splits)
    then show ?thesis using lb.live_apart [OF s(2) _ _ ne] t(2,3) by (simp add: opt_live_def)
  qed
  have ranges: "opt_live (pcach_mem h) x = Some y \<Longrightarrow> pool_inv (cach_mem_addr h) (cach_mem_size h) (pcach_mem h)"
    for x y using inv by (auto simp: heap_inv_def opt_live_def split: option.splits)
  have app: "pool_inv APP_MEM_ADDR_START APP_MEM_SIZE (pmem_ptr h)" using inv by (simp add: heap_inv_def)
  from p show ?thesis
  proof (cases rule: heap_live_cases)
    case 1
    note p1 = 1
    from q show ?thesis
      by (cases rule: heap_live_cases) (use same [OF ranges [OF p1] p1] heap_ranges(7) [OF inv p1] in auto)
  next
    case 2
    note p2 = 2
    from q show ?thesis
    proof (cases rule: heap_live_cases)
      case 1
      from heap_ranges(7) [OF inv this p2(2)] show ?thesis by (simp add: apart_sym)
    qed (use same [OF app p2(2)] in auto)
  qed
qed

interpretation hp: block_allocator app_mem_malloc app_mem_free_opt heap_live heap_inv
proof
  fix h p k
  assume "heap_inv h" "heap_live h p = Some k"
  from heap_free_ok [OF this]
  show "\<exists>h'. app_mem_free_opt h p = Some h' \<and> heap_inv h' \<and> heap_live h' = (heap_live h)(p := None)"
    by (auto simp: app_mem_free_opt_def)
next
  fix h
  assume inv: "heap_inv h"
  show "heap_live h 0 = None"
  proof (cases "heap_live h 0")
    case (Some k)
    then show ?thesis
    proof (cases rule: heap_live_cases)
      case 1
      with heap_ranges(1,2) [OF inv 1] show ?thesis by simp
    next
      case 2
      with inv opt_live_range(4) [of APP_MEM_ADDR_START APP_MEM_SIZE "pmem_ptr h" 0 k] show ?thesis
        by (simp add: heap_inv_def)
    qed
  qed
qed (use heap_alloc_fail heap_alloc_ok heap_live_apart in blast)+

section \<open>Properties\<close>

lemma heap_init_inv: "heap_inv (app_mem_init 0 False heap0)"
proof -
  have "pool_ok APP_MEM_ADDR_START APP_MEM_SIZE" "pool_ok 32641024 56832"
    by (simp_all add: pool_ok_def app_mem_consts)
  from this [THEN lbuf_init_wf] this show ?thesis
    by (simp add: heap_inv_def pool_inv_def app_mem_init_def cache_ram_init_def cache_ram_config_def
        heap0_def apart_def app_mem_consts)
qed

text \<open>C20: The heap set up for the station build is a sound allocator, and stays one: its two pools
  lie apart, an allocation from either hands out memory apart from every block in use, and a
  block in use can always be freed: \<open>app_mem_free\<close> finds the pool it came from, answers 1 and
  releases this block only.\<close>

theorem app_mem_contract:
  "heap_inv (app_mem_init 0 False heap0) \<and>
   (\<forall>h n h' p. heap_inv h \<longrightarrow> req_ok n \<longrightarrow> app_mem_malloc h n = (h', p) \<longrightarrow> heap_inv h' \<and>
      (if p = 0 then h' = h
       else heap_live h p = None \<and> (\<exists>k \<ge> n. heap_live h' = (heap_live h)(p \<mapsto> k)) \<and>
            (\<forall>q m. heap_live h q = Some m \<longrightarrow> apart (p, n) (q, m)))) \<and>
   (\<forall>h p k. heap_inv h \<longrightarrow> heap_live h p = Some k \<longrightarrow>
      (\<exists>h'. app_mem_free h p = Inr (h', 1) \<and> heap_inv h' \<and> heap_live h' = (heap_live h)(p := None)))"
proof (intro conjI allI impI)
  show "heap_inv (app_mem_init 0 False heap0)" by (rule heap_init_inv)
next
  fix h n h' p
  assume a: "heap_inv h" "req_ok n" "app_mem_malloc h n = (h', p)"
  from hp.alloc_inv [OF this] show "heap_inv h'" .
  show "if p = 0 then h' = h
       else heap_live h p = None \<and> (\<exists>k \<ge> n. heap_live h' = (heap_live h)(p \<mapsto> k)) \<and>
            (\<forall>q m. heap_live h q = Some m \<longrightarrow> apart (p, n) (q, m))"
    using a hp.alloc_fail [of h n h'] hp.alloc_ok [OF a] hp.alloc_apart [OF a] by auto
next
  fix h p k
  assume "heap_inv h" "heap_live h p = Some k"
  from heap_free_ok [OF this] show "\<exists>h'. app_mem_free h p = Inr (h', 1) \<and> heap_inv h' \<and>
      heap_live h' = (heap_live h)(p := None)" .
qed

theorem app_mem_contract_witness:
  "snd (app_mem_malloc (app_mem_init 0 False heap0) 40000) = 32641060 \<and>
   heap_inv (fst (app_mem_malloc (app_mem_init 0 False heap0) 40000)) \<and>
   (\<exists>h'. app_mem_free (fst (app_mem_malloc (app_mem_init 0 False heap0) 40000)) 32641060 = Inr (h', 1))"
proof -
  let ?h = "app_mem_init 0 False heap0" and ?m = "app_mem_malloc (app_mem_init 0 False heap0) 40000"
  have p: "snd ?m = 32641060"
    by (simp add: app_mem_malloc_def cach_mem_malloc_def lbuf_alloc_def lbuf_init_def alloc_size_def
        app_mem_init_def cache_ram_init_def cache_ram_config_def heap0_def align4_def app_mem_consts sz)
  note c = app_mem_contract
  from c have inv: "heap_inv ?h" by blast
  have m: "?m = (fst ?m, 32641060)" using p by (metis prod.collapse)
  have "req_ok 40000" by (simp add: req_ok_def)
  with c inv m have i: "heap_inv (fst ?m)" and l: "\<exists>k. heap_live (fst ?m) = (heap_live ?h)(32641060 \<mapsto> k)"
    by (metis zero_neq_numeral)+
  from l obtain k where "heap_live (fst ?m) 32641060 = Some k" by auto
  with c i have "\<exists>h'. app_mem_free (fst ?m) 32641060 = Inr (h', 1)" by blast
  with i p show ?thesis by blast
qed

text \<open>An array of 65536 elements of 65536 bytes is granted zero bytes.\<close>

lemma calloc_wraps: "sys_calloc zalloc h 65536 65536 = zalloc h 0"
  by (simp add: sys_calloc_def kzalloc_def u32_mul_def u32_def)

text \<open>\<open>realloc\<close> gives its block back before it asks for a new one: when the request fails the old
  contents are lost as well, against the contract of the C library.\<close>

lemma realloc_failure_frees:
  assumes "heap_inv h" "heap_live h p = Some k"
    "sys_realloc app_mem_malloc (\<lambda>h p. the (app_mem_free_opt h p)) h p n = (h', 0)"
  shows "heap_live h' p = None"
proof -
  from hp.free_ok [OF assms(1,2)] obtain g where g: "app_mem_free_opt h p = Some g" "heap_inv g"
    "heap_live g = (heap_live h)(p := None)" by blast
  have "p \<noteq> 0" using hp.live_nonnull [OF assms(1)] assms(2) by (metis option.distinct(1))
  with assms(3) g(1) have "app_mem_malloc g n = (h', 0)" by (simp add: sys_realloc_def)
  from hp.alloc_fail [OF g(2) this] g(3) show ?thesis by simp
qed

lemma bytecmp_iff: "p + n < 4294967296 \<Longrightarrow> bytecmp m p ch n = 0 \<longleftrightarrow> (\<forall>i < n. m (p + i) = ch)"
proof (induction n arbitrary: p)
  case (Suc n)
  then show ?case by (auto simp: less_Suc_eq_0_disj)
qed simp

section \<open>The watchdog\<close>

text \<open>A list of readings ends with a standstill when its last sixty-one readings, zeros left aside,
  are equal.\<close>

definition head_run :: "int list \<Rightarrow> nat" where
  "head_run r = (if r = [] then 0 else length (takeWhile (\<lambda>c. c = hd r) r))"

definition ends_stalled :: "int list \<Rightarrow> bool" where
  "ends_stalled cs = (61 \<le> head_run (rev (filter (\<lambda>c. c \<noteq> 0) cs)))"

definition follows :: "watchdog \<Rightarrow> int list \<Rightarrow> bool" where
  "follows w r = (check_last w = (if r = [] then 0 else hd r) \<and>
     check_err_cnt w = int (head_run r - 1) \<and> head_run r \<le> 60 \<and> 0 \<notin> set r)"

lemma head_run_Cons: "head_run (c # r) = (if r \<noteq> [] \<and> hd r = c then Suc (head_run r) else 1)"
  by (cases r) (auto simp: head_run_def)

lemma follows_step:
  assumes "follows w r"
  shows "case app_core_pass w c of (w', b) \<Rightarrow>
    (let r' = (if c = 0 then r else c # r) in b = (61 \<le> head_run r') \<and> (\<not> b \<longrightarrow> follows w' r'))"
proof (cases "r \<noteq> [] \<and> hd r = c")
  case True
  define k where "k = head_run r"
  have k: "1 \<le> k" "k \<le> 60" "head_run (c # r) = Suc k" "c \<noteq> 0"
    using True assms hd_in_set [of r] by (auto simp: k_def follows_def head_run_Cons head_run_def takeWhile_eq_Nil_iff Suc_le_eq)
  have "int k mod 60 = 0 \<longleftrightarrow> k = 60" using k(1,2) by presburger
  with True assms k show ?thesis
    by (auto simp: app_core_pass_def follows_def Let_def k_def [symmetric] of_nat_diff)
next
  case False
  then have h: "c \<noteq> 0 \<Longrightarrow> head_run (c # r) = 1" by (auto simp: head_run_Cons)
  have r: "r \<noteq> [] \<Longrightarrow> hd r \<noteq> 0" using assms hd_in_set [of r] by (metis follows_def)
  have b: "\<not> (int (head_run r - 1) \<noteq> 0 \<and> int (head_run r - 1) mod 60 = 0)" if "head_run r \<le> 60"
    using that by presburger
  from False h r assms b show ?thesis by (cases "c = 0") (auto simp: app_core_pass_def follows_def Let_def)
qed

lemma app_core_run_first:
  "follows w r \<Longrightarrow> case app_core_run w cs of (n, b) \<Rightarrow>
     let run = \<lambda>m. head_run (rev (filter (\<lambda>c. c \<noteq> 0) (take m cs)) @ r)
     in n \<le> length cs \<and> b = (61 \<le> run n) \<and> (\<forall>m<n. run m \<le> 60) \<and> (b \<or> n = length cs)"
proof (induction cs arbitrary: w r)
  case Nil
  then show ?case by (simp add: follows_def)
next
  case (Cons c cs)
  define r' where "r' = (if c = 0 then r else c # r)"
  obtain w' b where p: "app_core_pass w c = (w', b)" by (cases "app_core_pass w c")
  have st: "b = (61 \<le> head_run r')" "\<not> b \<Longrightarrow> follows w' r'"
    using follows_step [OF Cons.prems, of c] p by (simp_all add: r'_def Let_def split: if_splits)
  have r: "head_run r \<le> 60" using Cons.prems by (simp add: follows_def)
  have run: "rev (filter (\<lambda>c. c \<noteq> 0) (take (Suc m) (c # cs))) @ r = rev (filter (\<lambda>c. c \<noteq> 0) (take m cs)) @ r'" for m
    by (simp add: r'_def)
  show ?case
  proof (cases b)
    case True
    with p st(1) r show ?thesis by (simp add: r'_def split: if_splits)
  next
    case False
    obtain n d where q: "app_core_run w' cs = (n, d)" by (cases "app_core_run w' cs")
    from Cons.IH [OF st(2) [OF False]]
    have IH: "n \<le> length cs" "d = (61 \<le> head_run (rev (filter (\<lambda>c. c \<noteq> 0) (take n cs)) @ r'))"
      "\<forall>m<n. head_run (rev (filter (\<lambda>c. c \<noteq> 0) (take m cs)) @ r') \<le> 60" "d \<or> n = length cs"
      unfolding Let_def prod.case q by blast+
    have "\<forall>m<Suc n. head_run (rev (filter (\<lambda>c. c \<noteq> 0) (take m (c # cs))) @ r) \<le> 60"
      using IH(3) r run by (auto simp: less_Suc_eq_0_disj simp del: take_Suc_Cons)
    moreover have "d \<or> Suc n = length (c # cs)" using IH(4) by auto
    ultimately show ?thesis using IH(1) IH(2) [folded run] p q False by (simp add: Let_def del: take_Suc_Cons)
  qed
qed

text \<open>C32: When the progress of the download stands still, the chip is reset, and only then: on any
  sequence of readings the watchdog resets at the first pass at which the last sixty-one readings
  (zeros, the readings before the download starts, left aside) are equal, and never when there is
  none.\<close>

theorem app_core_resets:
  "case app_core_run watchdog0 cs of (n, reset) \<Rightarrow>
     n \<le> length cs \<and> reset = ends_stalled (take n cs) \<and> (\<forall>m<n. \<not> ends_stalled (take m cs)) \<and>
     (reset \<or> n = length cs)"
proof -
  have "follows watchdog0 []" by (simp add: follows_def watchdog0_def head_run_def)
  from app_core_run_first [OF this, of cs] show ?thesis
    by (auto simp: ends_stalled_def Let_def not_le less_Suc_eq_le split: prod.splits)
qed

theorem app_core_resets_witness:
  "app_core_run watchdog0 (replicate 30 4096 @ replicate 100 8192) = (91, True)"
proof -
  have h: "head_run (rev (filter (\<lambda>c. c \<noteq> 0) (take m (replicate 30 4096 @ replicate 100 8192)))) =
      (if m \<le> 30 then m else min (m - 30) 100)" for m
    by (auto simp: head_run_def min_def takeWhile_append intro!: takeWhile_replicate)
  obtain n b where run: "app_core_run watchdog0 (replicate 30 4096 @ replicate 100 8192) = (n, b)" by fastforce
  have st: "ends_stalled (take m (replicate 30 4096 @ replicate 100 8192)) = (91 \<le> m)" for m
    unfolding ends_stalled_def h by auto
  have "n \<le> 130 \<and> b = (91 \<le> n) \<and> (\<forall>m<n. \<not> 91 \<le> m) \<and> (b \<or> n = 130)"
    using app_core_resets [of "replicate 30 4096 @ replicate 100 8192"] unfolding run st prod.case by auto
  moreover from this have "n \<le> 91" by (meson le_refl not_le)
  ultimately have "n = 91 \<and> b" by linarith
  with run show ?thesis by simp
qed

end
