(* ===== verification/NetUpdate.thy ===== *)
theory NetUpdate
  imports NetOta
begin

text \<open>
  The update task of the network builds (\<open>demo_wifi/net_update.c\<close>): the update routine, the attempts it
  is given, and the watch on the connection to the router.

  The routine is the same in both builds; they differ in the file interface, which is the record
  \<open>net_io\<close>, over a world of its own.  \<open>ap_io\<close> is the one of the access-point build, made of the
  functions of \<open>NetOta\<close>.  The record \<open>netlib\<close> has the routines of the prebuilt update library.  The
  library's calls are recorded with their results, in order.
\<close>

section \<open>Interfaces\<close>

record 'w net_io =
  f_open :: "nat \<Rightarrow> 'w \<Rightarrow> (nat \<times> 'w) option"
  f_send_update_len :: "nat \<Rightarrow> 'w \<Rightarrow> (int \<times> 'w) option"
  f_stop :: "nat \<Rightarrow> 'w \<Rightarrow> (nat \<times> 'w) option"
  set_start :: "bool \<Rightarrow> 'w \<Rightarrow> 'w"

text \<open>\<open>fs_update_result_transition\<close> and \<open>fs_update_judge_err_to_exit\<close> are functions of the error code.\<close>

record 'w netlib =
  n_ufw_head_check :: "'w \<Rightarrow> (nat \<times> nat \<times> 'w) option"
  n_flash_bin_head_check :: "'w \<Rightarrow> (nat \<times> 'w) option"
  n_flash_parts_update_check :: "nat \<Rightarrow> 'w \<Rightarrow> (nat \<times> 'w) option"
  n_update_type_check :: "'w \<Rightarrow> (nat \<times> nat \<times> 'w) option"
  n_flash_update_process :: "'w \<Rightarrow> (nat \<times> 'w) option"
  n_flash_all_data_verify :: "'w \<Rightarrow> (nat \<times> 'w) option"
  n_flash_update_reserve_area :: "'w \<Rightarrow> (nat \<times> 'w) option"
  n_vm_data_recover :: "'w \<Rightarrow> 'w option"
  n_clr_update_loader_record :: "'w \<Rightarrow> 'w"
  fs_update_result_transition :: "nat \<Rightarrow> nat"
  fs_update_judge_err_to_exit :: "nat \<Rightarrow> bool"

datatype ncall = NUfw_head | NBin_head | NParts nat | NType_check | NSend_len nat | NUpdate_process
  | NVerify | NReserve_area | NRecover | NStop nat | NClear_record

type_synonym ntrace = "(ncall \<times> nat) list"

abbreviation (input) ERR_NONE :: nat where "ERR_NONE \<equiv> 0"
abbreviation (input) ERR_KEY :: nat where "ERR_KEY \<equiv> 12"
abbreviation (input) ERR_UBOOT_NOT_MATCH :: nat where "ERR_UBOOT_NOT_MATCH \<equiv> 13"
abbreviation (input) RESULT_REMOTE_FILE_NOT_MATCH :: nat where "RESULT_REMOTE_FILE_NOT_MATCH \<equiv> 14"
abbreviation (input) PART_ALL_FLASH :: nat where "PART_ALL_FLASH \<equiv> 4294967295"

section \<open>The update routine\<close>

text \<open>Verification, the reserved area and the configuration memory.\<close>

definition net_commit :: "'w netlib \<Rightarrow> nat \<Rightarrow> 'w \<Rightarrow> ntrace \<Rightarrow> (nat \<times> 'w \<times> ntrace) option" where
  "net_commit L all_flash w t =
    do { (r, w) \<leftarrow> (if all_flash \<noteq> 0 then n_flash_all_data_verify L w else n_flash_all_data_verify L w);
         let t = t @ [(NVerify, u8 r)];
         if u8 r \<noteq> ERR_NONE then Some (u8 r, w, t)
         else do { (r, w) \<leftarrow> n_flash_update_reserve_area L w;
                   w \<leftarrow> n_vm_data_recover L w;
                   Some (u8 r, w, t @ [(NReserve_area, u8 r), (NRecover, 0)]) } }"

definition net_write :: "'w net_io \<Rightarrow> 'w netlib \<Rightarrow> 'w \<Rightarrow> ntrace \<Rightarrow> (nat \<times> 'w \<times> ntrace) option" where
  "net_write io L w t =
    do { (r, n, w) \<leftarrow> n_update_type_check L w;
         let t = t @ [(NType_check, u8 r)];
         if u8 r \<noteq> ERR_NONE \<and> u8 r \<noteq> ERR_UBOOT_NOT_MATCH then Some (u8 r, w, t)
         else do {
           let all_flash = (if u8 r = ERR_UBOOT_NOT_MATCH then 1 else 0);
           (_, w) \<leftarrow> f_send_update_len io n w;
           let t = t @ [(NSend_len n, 0)];
           if n = 0 then Some (RESULT_REMOTE_FILE_NOT_MATCH, w, t)
           else do {
             (r, w) \<leftarrow> n_flash_update_process L w;
             let t = t @ [(NUpdate_process, u8 r)];
             if u8 r = ERR_NONE then net_commit L all_flash w t else Some (u8 r, w, t) } } }"

definition net_stages :: "'w net_io \<Rightarrow> 'w netlib \<Rightarrow> 'w \<Rightarrow> (nat \<times> 'w \<times> ntrace) option" where
  "net_stages io L w =
    do { (r, flag, w) \<leftarrow> n_ufw_head_check L w;
         let t = [(NUfw_head, u8 r)];
         if u8 r \<noteq> ERR_NONE then Some (u8 r, w, t)
         else if flag = PART_ALL_FLASH
         then do { (r, w) \<leftarrow> n_flash_bin_head_check L w;
                   let t = t @ [(NBin_head, u8 r)];
                   if u8 r \<noteq> ERR_NONE then Some (u8 r, w, t) else net_write io L w t }
         else do { (r, w) \<leftarrow> n_flash_parts_update_check L flag w;
                   Some (u8 r, w, t @ [(NParts flag, u8 r)]) } }"

text \<open>The result handed to \<open>net_f_stop\<close> is not set for two of the cases: \<open>garbage\<close> is what the variable
  happens to hold.\<close>

definition net_update_result :: "'w netlib \<Rightarrow> nat \<Rightarrow> nat \<Rightarrow> nat" where
  "net_update_result L garbage err =
    (if err = ERR_NONE then u8 garbage else if err = ERR_KEY then u8 garbage
     else u8 (fs_update_result_transition L err))"

definition net_update_result_handle ::
  "'w net_io \<Rightarrow> 'w netlib \<Rightarrow> nat \<Rightarrow> nat \<Rightarrow> 'w \<Rightarrow> 'w option" where
  "net_update_result_handle io L garbage err w =
    do { (_, w) \<leftarrow> f_stop io (net_update_result L garbage err) w; Some w }"

definition net_update_loop ::
  "'w net_io \<Rightarrow> 'w netlib \<Rightarrow> nat \<Rightarrow> nat \<Rightarrow> 'w \<Rightarrow> (int \<times> 'w \<times> ntrace) option" where
  "net_update_loop io L garbage port w =
    do { (opened, w) \<leftarrow> f_open io port w;
         if opened = 0 then Some (int (u8 255), w, [])
         else do {
           (res, w, t) \<leftarrow> net_stages io L (set_start io True w);
           let w = set_start io False w;
           w \<leftarrow> net_update_result_handle io L garbage res w;
           let t = t @ [(NStop (net_update_result L garbage res), 0)];
           if res = ERR_NONE then Some (0, w, t)
           else if fs_update_judge_err_to_exit L res
           then Some (-1, n_clr_update_loader_record L w, t @ [(NClear_record, 0)])
           else Some (-2, w, t) } }"

section \<open>The access-point build\<close>

definition ap_io :: "tcp \<Rightarrow> bool \<Rightarrow> nworld net_io" where
  "ap_io T pcb_ok = \<lparr>
     f_open = (\<lambda>port w. net_f_open T pcb_ok port w),
     f_send_update_len = (\<lambda>n w. net_f_send_update_len T n w),
     f_stop = (\<lambda>p w. net_f_stop T p w),
     set_start = (\<lambda>b w. ((fst w)\<lparr>net_ota_start := b\<rparr>, snd w))\<rparr>"

section \<open>The task\<close>

text \<open>\<open>while (--cnt)\<close>: the attempts that are made, until one succeeds.  Whichever way the loop ends, the
  chip is reset; the result is the number of attempts and whether the last one succeeded.\<close>

fun attempts :: "('w \<Rightarrow> (int \<times> 'w) option) \<Rightarrow> nat \<Rightarrow> nat \<Rightarrow> 'w \<Rightarrow> (nat \<times> bool \<times> 'w) option" where
  "attempts try cnt n w =
    (if cnt \<le> 1 then Some (n, False, w)
     else do { (ret, w) \<leftarrow> try w;
               if ret = 0 then Some (Suc n, True, w) else attempts try (cnt - 1) (Suc n) w })"

declare attempts.simps [simp del]

text \<open>The connection states of the Wi-Fi library.\<close>

datatype sta_state = WIFI_STA_DISCONNECT | WIFI_STA_CONNECT_SUCC
  | WIFI_STA_CONNECT_TIMEOUT_NOT_FOUND_SSID | WIFI_STA_CONNECT_ASSOCIAT_FAIL
  | WIFI_STA_CONNECT_ASSOCIAT_TIMEOUT | WIFI_STA_NETWORK_STACK_DHCP_SUCC
  | WIFI_STA_NETWORK_STACK_DHCP_TIMEOUT

text \<open>Waiting for the router: the states read one after the other; \<open>cnt = 0\<close> and the limit end it.\<close>

fun wait_sta :: "nat \<Rightarrow> sta_state list \<Rightarrow> (bool \<times> sta_state list) option" where
  "wait_sta cnt [] = None"
| "wait_sta cnt (st # sts) =
    (let cnt = cnt + 1 in
     if st = WIFI_STA_NETWORK_STACK_DHCP_SUCC then Some (True, sts)
     else if st = WIFI_STA_CONNECT_TIMEOUT_NOT_FOUND_SSID \<or> st = WIFI_STA_CONNECT_ASSOCIAT_TIMEOUT
     then Some (False, sts)
     else if cnt < 120 * 100 then wait_sta cnt sts else Some (False, sts))"

text \<open>\<open>net_ota_update\<close> up to its reset: the station build waits for the router and has \<open>cnt = 3\<close>; the
  access-point build opens its two servers and has \<open>cnt = 0xFFFFFFF\<close>.\<close>

definition net_ota_update_sta ::
  "'w net_io \<Rightarrow> 'w netlib \<Rightarrow> nat \<Rightarrow> sta_state list \<Rightarrow> 'w \<Rightarrow> (nat \<times> bool \<times> 'w) option" where
  "net_ota_update_sta io L garbage sts w =
    do { (ret, _) \<leftarrow> wait_sta 0 sts;
         if ret
         then attempts (\<lambda>w. do { (r, w, _) \<leftarrow> net_update_loop io L garbage NET_UPDATE_PORT w; Some (r, w) }) 3 0 w
         else Some (0, False, w) }"

definition net_ota_update_ap ::
  "tcp \<Rightarrow> bool \<Rightarrow> nworld netlib \<Rightarrow> nat \<Rightarrow> nworld \<Rightarrow> (nat \<times> bool \<times> nworld) option" where
  "net_ota_update_ap T pcb_ok L garbage w =
    do { (s, es) \<leftarrow> os_time_dly T (fst w) (snd w);
         (r1, w) \<leftarrow> net_f_open T pcb_ok CTP_CTRL_PORT (s, es);
         (r2, w) \<leftarrow> net_f_open T pcb_ok HTTP_PORT w;
         if r1 \<noteq> 0 \<or> r2 \<noteq> 0
         then attempts (\<lambda>w. do { (r, w, _) \<leftarrow> net_update_loop (ap_io T pcb_ok) L garbage NET_UPDATE_PORT w;
                                 (s, es) \<leftarrow> os_time_dly T (fst w) (snd w);
                                 Some (r, s, es) }) 268435455 0 w
         else Some (0, False, w) }"

text \<open>\<open>net_ota_wifi_scan\<close> on its static counter: the new count, and whether the chip is reset.\<close>

definition net_ota_wifi_scan :: "bool \<Rightarrow> sta_state \<Rightarrow> nat \<Rightarrow> nat \<times> bool" where
  "net_ota_wifi_scan clear st scan_cnt =
    (let scan_cnt = (if clear then 0 else scan_cnt) in
     if st \<noteq> WIFI_STA_NETWORK_STACK_DHCP_SUCC
     then let scan_cnt = u8 (scan_cnt + 1) in (scan_cnt, scan_cnt > 20)
     else (scan_cnt, False))"

fun scans :: "(bool \<times> sta_state) list \<Rightarrow> nat \<Rightarrow> nat \<times> bool" where
  "scans [] n = (n, False)"
| "scans ((clear, st) # es) n =
    (case net_ota_wifi_scan clear st n of (n, reset) \<Rightarrow> if reset then (n, True) else scans es n)"

end
