(* ===== verification/NetUpdate_Spec.thy ===== *)
theory NetUpdate_Spec
  imports NetUpdate NetOta_Spec
begin

text \<open>
  The update task of the network builds: success means a verified image, the file interface is
  closed exactly when it was opened, the loader record goes only on an error that ends the update,
  every attempt ends in a state a next one can start from, and the task ends in a reset.
\<close>

section \<open>The update routine\<close>

text \<open>The traces of a run that gets to a result, by how far it came.\<close>

inductive nresult :: "ntrace \<Rightarrow> nat \<Rightarrow> bool" where
  "r \<noteq> 0 \<Longrightarrow> nresult [(NUfw_head, r)] r"
| "f \<noteq> PART_ALL_FLASH \<Longrightarrow> nresult [(NUfw_head, 0), (NParts f, r)] r"
| "r \<noteq> 0 \<Longrightarrow> nresult [(NUfw_head, 0), (NBin_head, r)] r"
| "r \<noteq> 0 \<Longrightarrow> r \<noteq> ERR_UBOOT_NOT_MATCH \<Longrightarrow> nresult [(NUfw_head, 0), (NBin_head, 0), (NType_check, r)] r"
| "c = 0 \<or> c = ERR_UBOOT_NOT_MATCH \<Longrightarrow>
    nresult [(NUfw_head, 0), (NBin_head, 0), (NType_check, c), (NSend_len 0, 0)] RESULT_REMOTE_FILE_NOT_MATCH"
| "c = 0 \<or> c = ERR_UBOOT_NOT_MATCH \<Longrightarrow> n \<noteq> 0 \<Longrightarrow> r \<noteq> 0 \<Longrightarrow>
    nresult [(NUfw_head, 0), (NBin_head, 0), (NType_check, c), (NSend_len n, 0), (NUpdate_process, r)] r"
| "c = 0 \<or> c = ERR_UBOOT_NOT_MATCH \<Longrightarrow> n \<noteq> 0 \<Longrightarrow> r \<noteq> 0 \<Longrightarrow>
    nresult [(NUfw_head, 0), (NBin_head, 0), (NType_check, c), (NSend_len n, 0), (NUpdate_process, 0),
      (NVerify, r)] r"
| "c = 0 \<or> c = ERR_UBOOT_NOT_MATCH \<Longrightarrow> n \<noteq> 0 \<Longrightarrow>
    nresult [(NUfw_head, 0), (NBin_head, 0), (NType_check, c), (NSend_len n, 0), (NUpdate_process, 0),
      (NVerify, 0), (NReserve_area, r), (NRecover, 0)] r"

inductive_cases nresult_success: "nresult t 0"

lemma nresult_commit:
  assumes "net_commit L f w [(NUfw_head, 0), (NBin_head, 0), (NType_check, c), (NSend_len n, 0), (NUpdate_process, 0)]
      = Some (res, w', t')" "c = 0 \<or> c = ERR_UBOOT_NOT_MATCH" "n \<noteq> 0"
  shows "nresult t' res"
proof -
  obtain r w1 where v: "n_flash_all_data_verify L w = Some (r, w1)"
    using assms(1) by (auto simp: net_commit_def split: bind_splits if_splits)
  show ?thesis
  proof (cases "u8 r = 0")
    case False
    with v assms show ?thesis by (auto simp: net_commit_def split: if_splits intro: nresult.intros(7))
  next
    case True
    with v assms show ?thesis
      by (auto simp: net_commit_def split: if_splits bind_splits intro: nresult.intros(8))
  qed
qed

lemma nresult_write:
  assumes "net_write io L w [(NUfw_head, 0), (NBin_head, 0)] = Some (res, w', t')"
  shows "nresult t' res"
proof -
  obtain c n w1 where ty: "n_update_type_check L w = Some (c, n, w1)"
    using assms by (auto simp: net_write_def split: bind_splits)
  show ?thesis
  proof (cases "u8 c = 0 \<or> u8 c = ERR_UBOOT_NOT_MATCH")
    case False
    with ty assms have "res = u8 c" "t' = [(NUfw_head, 0), (NBin_head, 0), (NType_check, u8 c)]"
      by (auto simp: net_write_def)
    with False show ?thesis by (simp add: nresult.intros(4))
  next
    case ok: True
    let ?t = "[(NUfw_head, 0), (NBin_head, 0), (NType_check, u8 c), (NSend_len n, 0)]"
    obtain q w2 where sl: "f_send_update_len io n w1 = Some (q, w2)"
      using ty ok assms by (auto simp: net_write_def Let_def split: bind_splits)
    define f where "f = (if u8 c = ERR_UBOOT_NOT_MATCH then 1 else 0 :: nat)"
    have k: "(if n = 0 then Some (RESULT_REMOTE_FILE_NOT_MATCH, w2, ?t)
      else n_flash_update_process L w2 \<bind> (\<lambda>(r, w).
        if u8 r = 0 then net_commit L f w (?t @ [(NUpdate_process, u8 r)])
        else Some (u8 r, w, ?t @ [(NUpdate_process, u8 r)]))) = Some (res, w', t')"
      using ty ok sl assms unfolding f_def by (auto simp: net_write_def Let_def cong: if_cong)
    show ?thesis
    proof (cases "n = 0")
      case True
      with k ok show ?thesis by (auto intro!: nresult.intros(5))
    next
      case False
      with k obtain r w3 where pr: "n_flash_update_process L w2 = Some (r, w3)"
        by (auto split: bind_splits)
      show ?thesis
      proof (cases "u8 r = 0")
        case True
        with k pr False have "net_commit L f w3 [(NUfw_head, 0), (NBin_head, 0),
          (NType_check, u8 c), (NSend_len n, 0), (NUpdate_process, 0)] = Some (res, w', t')" by simp
        then show ?thesis using ok False by (rule nresult_commit)
      next
        case bad: False
        with k pr False have "res = u8 r" "t' = ?t @ [(NUpdate_process, u8 r)]" by auto
        with bad ok False show ?thesis by (simp add: nresult.intros(6))
      qed
    qed
  qed
qed

lemma nresult_stages:
  assumes "net_stages io L w = Some (res, w', t)"
  shows "nresult t res"
proof -
  obtain r f w1 where h: "n_ufw_head_check L w = Some (r, f, w1)"
    using assms by (auto simp: net_stages_def split: bind_splits)
  consider "u8 r \<noteq> 0" | "u8 r = 0" "f = PART_ALL_FLASH" | "u8 r = 0" "f \<noteq> PART_ALL_FLASH" by blast
  then show ?thesis
  proof cases
    case 1
    with h assms show ?thesis by (auto simp: net_stages_def intro: nresult.intros(1))
  next
    case 2
    with h assms obtain q w2 where b: "n_flash_bin_head_check L w1 = Some (q, w2)"
      by (auto simp: net_stages_def split: bind_splits)
    show ?thesis
    proof (cases "u8 q = 0")
      case True
      with 2 h b assms have "net_write io L w2 [(NUfw_head, 0), (NBin_head, 0)] = Some (res, w', t)"
        by (simp add: net_stages_def Let_def)
      then show ?thesis by (rule nresult_write)
    next
      case False
      with 2 h b assms show ?thesis by (auto simp: net_stages_def Let_def intro: nresult.intros(3))
    qed
  next
    case 3
    with h assms show ?thesis
      by (auto simp: net_stages_def Let_def split: bind_splits intro: nresult.intros(2))
  qed
qed

lemma loop_cases:
  assumes "net_update_loop io L g port w = Some (ret, w', t)"
  obtains "\<exists>w1. f_open io port w = Some (0, w1)" "t = []" "ret = 255"
    | res t0 where "\<nexists>w1. f_open io port w = Some (0, w1)" "nresult t0 res" "ret = (if res = 0 then 0 else if fs_update_judge_err_to_exit L res then -1 else -2)"
        "t = t0 @ (NStop (net_update_result L g res), 0) #
          (if res \<noteq> 0 \<and> fs_update_judge_err_to_exit L res then [(NClear_record, 0)] else [])"
proof -
  obtain opened w1 where o: "f_open io port w = Some (opened, w1)"
    using assms by (auto simp: net_update_loop_def split: bind_splits)
  show ?thesis
  proof (cases "opened = 0")
    case True
    with o assms that(1) show ?thesis by (simp add: net_update_loop_def)
  next
    case False
    with o assms obtain res w2 t0 where st: "net_stages io L (set_start io True w1) = Some (res, w2, t0)"
      by (auto simp: net_update_loop_def split: bind_splits)
    with o False assms have "ret = (if res = 0 then 0 else if fs_update_judge_err_to_exit L res then -1 else -2)"
      "t = t0 @ (NStop (net_update_result L g res), 0) #
          (if res \<noteq> 0 \<and> fs_update_judge_err_to_exit L res then [(NClear_record, 0)] else [])"
      by (auto simp: net_update_loop_def Let_def split: bind_splits if_splits)
    with nresult_stages [OF st] that(2) o False show ?thesis by simp
  qed
qed

lemma nresult_nostop: "nresult t res \<Longrightarrow> (c, r) \<in> set t \<Longrightarrow> c \<noteq> NStop v \<and> c \<noteq> NClear_record"
  by (induction rule: nresult.induct) auto

text \<open>C16: What the update routine's value means, in both network builds and whatever the library and the
  network do.  255: the file could not be opened and nothing was touched.  Otherwise the stages ran
  as far as \<open>nresult\<close> lists them, up to the first one with an error \<open>res\<close>; then the file is closed,
  exactly once and after its last use.  0: no stage failed, so the flash was verified and the reserved
  area written (or the parts update succeeded).  -1: \<open>res\<close> is an error that the library's
  \<open>fs_update_judge_err_to_exit\<close> says ends the update, and then, and only then, the loader record is
  cleared.  -2: \<open>res\<close> is any other error, and the record is left for the next attempt.\<close>

theorem net_loop_contract:
  assumes "net_update_loop io L g port w = Some (ret, w', t)"
  shows "(ret = 255 \<longleftrightarrow> (\<exists>w1. f_open io port w = Some (0, w1))) \<and> (ret = 255 \<longleftrightarrow> t = []) \<and>
    (ret = 0 \<longrightarrow> (NVerify, 0) \<in> set t \<and> (NReserve_area, 0) \<in> set t \<or> (\<exists>f. (NParts f, 0) \<in> set t)) \<and>
    ((NClear_record, 0) \<in> set t \<longleftrightarrow> ret = -1) \<and>
    (t \<noteq> [] \<longrightarrow> (\<exists>t0 res v t1. nresult t0 res \<and> t = t0 @ (NStop v, 0) # t1 \<and>
      (\<forall>v' r. (NStop v', r) \<notin> set t0) \<and> (\<forall>r. (NClear_record, r) \<notin> set t0) \<and>
      (if res = 0 then ret = 0 \<and> t1 = []
       else if fs_update_judge_err_to_exit L res then ret = -1 \<and> t1 = [(NClear_record, 0)]
       else ret = -2 \<and> t1 = [])))"
proof (cases rule: loop_cases [OF assms])
  case 1
  then show ?thesis by simp
next
  case (2 res t0)
  have ns: "(NStop v', r) \<notin> set t0" "(NClear_record, r) \<notin> set t0" for v' r
    using nresult_nostop [OF 2(2)] by blast+
  have ok: "(NVerify, 0) \<in> set t0 \<and> (NReserve_area, 0) \<in> set t0 \<or> (\<exists>f. (NParts f, 0) \<in> set t0)" if "res = 0"
    using 2(2) that by (auto elim!: nresult_success)
  have "ret = 0 \<longleftrightarrow> res = 0" "ret \<noteq> 255" using 2(3) by (auto split: if_splits)
  moreover have "(NClear_record, 0) \<in> set t \<longleftrightarrow> ret = -1" using 2(3,4) ns by auto
  moreover have "\<exists>t0 res v t1. nresult t0 res \<and> t = t0 @ (NStop v, 0) # t1 \<and>
      (\<forall>v' r. (NStop v', r) \<notin> set t0) \<and> (\<forall>r. (NClear_record, r) \<notin> set t0) \<and>
      (if res = 0 then ret = 0 \<and> t1 = []
       else if fs_update_judge_err_to_exit L res then ret = -1 \<and> t1 = [(NClear_record, 0)]
       else ret = -2 \<and> t1 = [])"
    using 2(2,3,4) ns by (intro exI [of _ t0] exI [of _ res] exI [of _ "net_update_result L g res"]
        exI [of _ "if res \<noteq> 0 \<and> fs_update_judge_err_to_exit L res then [(NClear_record, 0)] else []"]) simp
  ultimately show ?thesis using ok 2(1,4) by auto
qed

section \<open>After an attempt of the access-point build\<close>

text \<open>Closing the file puts the server back to where an update can start: no stop request is pending,
  the byte counts are zero, the request header is clear, and no connection is left on the update
  port, whether or not the phone took the last packets; so nothing of a failed attempt is left for
  the next one.\<close>

lemma stop_resets:
  assumes "one_client s" "net_f_stop T p (s, es) = Some (r, s', rest)"
  shows "\<not> net_ota_stop s' \<and> ota_all_size s' = 0 \<and> ota_read_size s' = 0 \<and> \<not> net_local_addr s' \<and>
    get32 (ram s') F_SEEK = 0 \<and> get32 (ram s') F_READ = 0 \<and> get32 (ram s') F_ALL = 0 \<and>
    client_accept s' = 0 \<and> {p \<in> conns s'. local_port p = NET_UPDATE_PORT} = {}"
proof -
  have z: "get32 (mcpy_in m 0 (replicate 20 0)) a = 0" if "a + 4 \<le> 20" for m a
    using that by (simp add: get32_def mcpy_in_def)
  let ?s = "s\<lparr>loc := fresh_local\<rparr>"
  obtain s1 es1 where 1: "(if client_pcb ?s \<noteq> None then stop_client T p (?s, es) else Some (?s, es)) = Some (s1, es1)"
    using assms(2) by (auto simp: net_f_stop_def Let_def split: bind_splits if_splits)
  obtain s2 es2 where 2: "os_time_dly T s1 es1 = Some (s2, es2)"
    using assms(2) 1 by (auto simp: net_f_stop_def Let_def cong: if_cong split: bind_splits)
  have oc: "one_client s2"
    using assms(1) 1 dly_keeps [OF 2] stop_client_keeps [of T p ?s es s1 es1]
    by (auto simp: keeps_def split: if_splits)
  define s3 where "s3 = (case client_pcb (s2\<lparr>sem_valid := False\<rparr>) of
    Some pcb \<Rightarrow> msgclose pcb (s2\<lparr>sem_valid := False\<rparr>) | None \<Rightarrow> s2\<lparr>sem_valid := False\<rparr>)"
  have s': "s' = s3\<lparr>ram := mcpy_in (ram s3) 0 (replicate 20 0), net_local_addr := False,
      net_ota_stop := False, ota_all_size := 0, ota_read_size := 0\<rparr>"
    using assms(2) 1 2 by (auto simp: net_f_stop_def Let_def s3_def cong: if_cong)
  have "client_accept s3 = 0 \<and> ota (conns s3) = {}"
  proof (cases "client_pcb s2")
    case None
    with oc show ?thesis by (simp add: s3_def one_client_def)
  next
    case (Some q)
    consider "client_accept s2 = 0" "ota (conns s2) = {}" | "client_accept s2 = 1" "ota (conns s2) = {q}"
      using oc Some by (auto simp: one_client_def)
    then show ?thesis
    proof cases
      case 1
      with Some show ?thesis by (simp add: s3_def msgclose_def Let_def)
    next
      case 2
      then have "q \<in> ota (conns s2)" by simp
      then have "local_port q = NET_UPDATE_PORT" by (simp add: ota_def)
      with Some 2 show ?thesis by (simp add: s3_def msgclose_def Let_def)
    qed
  qed
  then show ?thesis by (simp add: s' z ota_def)
qed

section \<open>Attempts\<close>

lemma attempts_bound:
  "attempts try cnt n w = Some (k, ok, w') \<Longrightarrow> k \<le> n + (cnt - 1) \<and> (\<not> ok \<longrightarrow> k = n + (cnt - 1))"
proof (induction cnt arbitrary: n w)
  case (Suc cnt)
  show ?case
  proof (cases "Suc cnt \<le> 1")
    case True
    with Suc.prems show ?thesis by (subst (asm) attempts.simps) simp
  next
    case False
    with Suc.prems obtain ret w1 where t: "try w = Some (ret, w1)"
      by (subst (asm) attempts.simps) (auto split: bind_splits)
    show ?thesis
    proof (cases "ret = 0")
      case True
      with t False Suc.prems have "k = Suc n" "ok" by (subst (asm) attempts.simps, simp)+
      with False show ?thesis by simp
    next
      case bad: False
      with t False Suc.prems have "attempts try cnt (Suc n) w1 = Some (k, ok, w')"
        by (subst (asm) attempts.simps) simp
      from Suc.IH [OF this] False show ?thesis by auto
    qed
  qed
qed (subst (asm) attempts.simps, simp)

text \<open>The station build makes at most two attempts before the chip is reset, and gives up only after
  exactly two (the counter of three is counted down before it is tested); without a router it makes
  none.\<close>

lemma two_attempts:
  assumes "net_ota_update_sta io L g sts w = Some (k, ok, w')"
  shows "k \<le> 2 \<and> (\<not> ok \<longrightarrow> k = 0 \<or> k = 2)"
proof -
  from assms obtain b sts' where "wait_sta 0 sts = Some (b, sts')"
    by (auto simp: net_ota_update_sta_def split: bind_splits)
  with assms show ?thesis
    by (cases b) (auto simp: net_ota_update_sta_def dest!: attempts_bound)
qed

section \<open>Watching the router\<close>

definition failures :: "(bool \<times> sta_state) list \<Rightarrow> nat" where
  "failures es = length (filter (\<lambda>e. snd e \<noteq> WIFI_STA_NETWORK_STACK_DHCP_SUCC) es)"

lemma scans_count:
  assumes "\<forall>e \<in> set es. \<not> fst e" "n \<le> 20"
  shows "snd (scans es n) \<longleftrightarrow> 20 < n + failures es"
  using assms
proof (induction es arbitrary: n)
  case (Cons e es)
  obtain c st where e: "e = (c, st)" by (cases e)
  show ?case
  proof (cases "st = WIFI_STA_NETWORK_STACK_DHCP_SUCC")
    case True
    with Cons e show ?thesis by (simp add: net_ota_wifi_scan_def failures_def)
  next
    case False
    with Cons e show ?thesis by (cases "n = 20") (simp_all add: net_ota_wifi_scan_def failures_def)
  qed
qed (simp add: failures_def)

text \<open>The chip is reset by the twenty-first scan without a connection since the counter was cleared,
  and by no earlier one.  The failures need not be consecutive: a scan that finds the connection up
  does not clear the counter.\<close>

lemma scan_resets:
  assumes "\<forall>e \<in> set es. \<not> fst e"
  shows "snd (scans es 0) \<longleftrightarrow> 20 < failures es"
  using scans_count [OF assms, of 0] by simp

text \<open>The result of a successful update handed to the phone is whatever an unset variable holds, and an
  update with nothing to do is reported with a number of another enumeration, which is the code of a
  read error here.\<close>

lemma success_result_unset: "net_update_result L g 0 = u8 g"
  by (simp add: net_update_result_def)

section \<open>Concrete runs\<close>

definition ex_io :: "unit net_io" where
  "ex_io = \<lparr>f_open = (\<lambda>_ w. Some (1, w)), f_send_update_len = (\<lambda>_ w. Some (0, w)),
    f_stop = (\<lambda>_ w. Some (0, w)), set_start = (\<lambda>_ w. w)\<rparr>"

text \<open>A library whose verification gives \<open>v\<close>.\<close>

definition ex_netlib :: "nat \<Rightarrow> unit netlib" where
  "ex_netlib v = \<lparr>n_ufw_head_check = (\<lambda>w. Some (0, PART_ALL_FLASH, w)),
    n_flash_bin_head_check = (\<lambda>w. Some (0, w)), n_flash_parts_update_check = (\<lambda>_ w. Some (0, w)),
    n_update_type_check = (\<lambda>w. Some (ERR_UBOOT_NOT_MATCH, 4096, w)),
    n_flash_update_process = (\<lambda>w. Some (0, w)), n_flash_all_data_verify = (\<lambda>w. Some (v, w)),
    n_flash_update_reserve_area = (\<lambda>w. Some (0, w)), n_vm_data_recover = (\<lambda>w. Some w),
    n_clr_update_loader_record = (\<lambda>w. w), fs_update_result_transition = (\<lambda>e. e + 1),
    fs_update_judge_err_to_exit = (\<lambda>e. e = 7)\<rparr>"

lemma ex_loop:
  "net_update_loop ex_io (ex_netlib v) 0 NET_UPDATE_PORT () =
    (let t = [(NUfw_head, 0), (NBin_head, 0), (NType_check, 13), (NSend_len 4096, 0),
              (NUpdate_process, 0), (NVerify, u8 v)]
     in if u8 v = 0 then Some (0, (), t @ [(NReserve_area, 0), (NRecover, 0), (NStop 0, 0)])
        else if u8 v = 7 then Some (-1, (), t @ [(NStop 8, 0), (NClear_record, 0)])
        else Some (-2, (), t @ [(NStop (net_update_result (ex_netlib v) 0 (u8 v)), 0)]))"
  by (simp add: net_update_loop_def ex_io_def ex_netlib_def net_stages_def net_write_def net_commit_def
      net_update_result_handle_def net_update_result_def Let_def u8_def)

text \<open>The verification fails, with an error that ends the update and with one that doesn't.\<close>

theorem net_loop_contract_witness:
  "(\<exists>t. net_update_loop ex_io (ex_netlib 7) 0 NET_UPDATE_PORT () = Some (-1, (), t) \<and> (NClear_record, 0) \<in> set t) \<and>
    (\<exists>t. net_update_loop ex_io (ex_netlib 5) 0 NET_UPDATE_PORT () = Some (-2, (), t) \<and> (NClear_record, 0) \<notin> set t)"
  using net_loop_contract [of ex_io "ex_netlib 7" 0 NET_UPDATE_PORT "()"]
    net_loop_contract [of ex_io "ex_netlib 5" 0 NET_UPDATE_PORT "()"]
  by (simp add: ex_loop Let_def u8_def)

lemma stop_resets_witness:
  "\<exists>r s' rest. net_f_stop ex_tcp 0 (ex_net\<lparr>client_pcb := None, client_accept := 0, conns := {}\<rparr>, [Timer]) =
      Some (r, s', rest) \<and> client_accept s' = 0 \<and> {p \<in> conns s'. local_port p = NET_UPDATE_PORT} = {}"
  using stop_resets [of "ex_net\<lparr>client_pcb := None, client_accept := 0, conns := {}\<rparr>" ex_tcp 0 "[Timer]"]
  by (simp add: net_f_stop_def Let_def one_client_def ota_def)

lemma two_attempts_witness:
  "net_ota_update_sta ex_io (ex_netlib 3) 0 [WIFI_STA_DISCONNECT, WIFI_STA_NETWORK_STACK_DHCP_SUCC] () =
     Some (2, False, ()) \<and> (2 :: nat) \<le> 2"
proof -
  have "net_ota_update_sta ex_io (ex_netlib 3) 0 [WIFI_STA_DISCONNECT, WIFI_STA_NETWORK_STACK_DHCP_SUCC] () =
     Some (2, False, ())"
    by (simp add: net_ota_update_sta_def attempts.simps ex_loop Let_def u8_def)
  with two_attempts [OF this] show ?thesis by simp
qed

lemma scan_resets_witness:
  "snd (scans (replicate 10 (False, WIFI_STA_DISCONNECT) @ (False, WIFI_STA_NETWORK_STACK_DHCP_SUCC) #
      replicate 11 (False, WIFI_STA_DISCONNECT)) 0)"
proof -
  let ?es = "replicate 10 (False, WIFI_STA_DISCONNECT) @ (False, WIFI_STA_NETWORK_STACK_DHCP_SUCC) #
      replicate 11 (False, WIFI_STA_DISCONNECT)"
  have "failures ?es = 21" by (simp add: failures_def)
  with scan_resets [of ?es] show ?thesis by simp
qed

end
