(* ===== verification/CustomCfg.thy ===== *)
theory CustomCfg
  imports ByteMem "HOL-Library.Monad_Syntax"
begin

text \<open>
  The configuration area of the flash (\<open>common/custom_cfg.c\<close>) and the length-type-value answers
  (\<open>common/ltv_format.c\<close>).

  The area is the C structure \<open>ex_cfg_t\<close>: one slot per item, a check sum, a length and the data.
  \<open>members\<close> is the declaration, from which sizes and offsets follow.  The flash and the check sum are
  library routines: the record \<open>flashlib\<close>.  The memory \<open>cfg_mem\<close> is addressed from \<open>temp_buf\<close> on;
  behind its 512 bytes lie other variables, which a wrong length makes the code read.
\<close>

section \<open>The structure in the flash\<close>

datatype member = adv_data_cfg | scan_rsp_cfg | ble_name_cfg | bt_name_cfg | pin_code_cfg
  | local_ver_cfg | low_power_vol_cfg | edr_addr_cfg | ble_addr_cfg | gatt_profile_cfg
  | local_reset_io_cfg | local_polit_lamp_io_cfg | local_link_key_cfg | power_io_on_off_cfg
  | last_device_connect_linkkey_cfg | ble_reset_io_info_cfg | ver_info_authkey_cfg
  | ver_info_procode_cfg | pid_vid_cfg | md5_cfg | sdk_type_cfg | hid_param_cfg

text \<open>The length of \<open>data\<close> in each structure.\<close>

fun data_size :: "member \<Rightarrow> nat" where
  "data_size adv_data_cfg = 31" | "data_size scan_rsp_cfg = 31" | "data_size ble_name_cfg = 31 - 2"
| "data_size bt_name_cfg = 31" | "data_size pin_code_cfg = 4" | "data_size local_ver_cfg = 16"
| "data_size low_power_vol_cfg = 2" | "data_size edr_addr_cfg = 6" | "data_size ble_addr_cfg = 6"
| "data_size gatt_profile_cfg = 512 + 256" | "data_size local_reset_io_cfg = 1"
| "data_size local_polit_lamp_io_cfg = 4" | "data_size local_link_key_cfg = 16"
| "data_size power_io_on_off_cfg = 6" | "data_size last_device_connect_linkkey_cfg = 16"
| "data_size ble_reset_io_info_cfg = 4" | "data_size ver_info_authkey_cfg = 24"
| "data_size ver_info_procode_cfg = 24" | "data_size pid_vid_cfg = 4" | "data_size md5_cfg = 32"
| "data_size sdk_type_cfg = 1" | "data_size hid_param_cfg = 64"

text \<open>Every structure starts with two \<open>u16\<close>, so its size is rounded up to an even number.\<close>

definition member_size :: "member \<Rightarrow> nat" where
  "member_size m = (let n = 4 + data_size m in n + n mod 2)"

definition members :: "member list" where
  "members = [adv_data_cfg, scan_rsp_cfg, ble_name_cfg, bt_name_cfg, pin_code_cfg, local_ver_cfg,
    low_power_vol_cfg, edr_addr_cfg, ble_addr_cfg, gatt_profile_cfg, local_reset_io_cfg,
    local_polit_lamp_io_cfg, local_link_key_cfg, power_io_on_off_cfg, last_device_connect_linkkey_cfg,
    ble_reset_io_info_cfg, ver_info_authkey_cfg, ver_info_procode_cfg, pid_vid_cfg, md5_cfg,
    sdk_type_cfg, hid_param_cfg]"

text \<open>\<open>MEMBER_OFFSET_OF_STRUCT\<close>.\<close>

definition member_offset :: "member \<Rightarrow> nat" where
  "member_offset m = sum_list (map member_size (takeWhile (\<lambda>k. k \<noteq> m) members))"

section \<open>Reading an item\<close>

datatype cfg_error = EX_CFG_INDEX_ERR | EX_CFG_LEN_OVER_TEMP_BUF_LEN_ERR | EX_CFG_CRC_ERR | EX_CFG_TMP_BUF_ERR

fun cfg_code :: "cfg_error \<Rightarrow> nat" where
  "cfg_code EX_CFG_INDEX_ERR = 1"
| "cfg_code EX_CFG_LEN_OVER_TEMP_BUF_LEN_ERR = 2"
| "cfg_code EX_CFG_CRC_ERR = 3"
| "cfg_code EX_CFG_TMP_BUF_ERR = 4"

record flashlib =
  norflash_read_dec :: "addr \<Rightarrow> nat \<Rightarrow> byte list"
  Crc16 :: "byte list \<Rightarrow> nat"

record cfg =
  exif_addr :: addr
  cfg_mem :: memory

definition sizeof_temp_buf :: nat where [simp]: "sizeof_temp_buf = 512"

text \<open>\<open>memset(temp_buf, 0x00, sizeof(temp_buf))\<close> and the flash read.\<close>

definition fill_temp :: "flashlib \<Rightarrow> addr \<Rightarrow> nat \<Rightarrow> memory \<Rightarrow> memory" where
  "fill_temp F a n m = mcpy_in (mcpy_in m 0 (replicate sizeof_temp_buf 0)) 0 (norflash_read_dec F a n)"

text \<open>The data is copied to the caller's buffer of \<open>data_len\<close> bytes, the rest of which is cleared; on an
  error the buffer is untouched.\<close>

definition get_ex_cfg_info ::
  "flashlib \<Rightarrow> nat \<Rightarrow> nat \<Rightarrow> nat \<Rightarrow> cfg \<Rightarrow> cfg \<times> (cfg_error + byte list)" where
  "get_ex_cfg_info F offset_addr temp_data_len data_len s =
    (if data_len + 4 > sizeof_temp_buf then (s, Inl EX_CFG_LEN_OVER_TEMP_BUF_LEN_ERR)
     else if sizeof_temp_buf < temp_data_len then (s, Inl EX_CFG_TMP_BUF_ERR)
     else
       let m = fill_temp F (u32_add (exif_addr s) offset_addr) temp_data_len (cfg_mem s);
           s = s\<lparr>cfg_mem := m\<rparr>;
           crc = get16 m 0; n = get16 m 2
       in if 65535 = crc \<or> 0 = crc \<or> crc \<noteq> Crc16 F (bytes m 4 n) then (s, Inl EX_CFG_CRC_ERR)
          else let k = (if data_len > n then n else data_len)
            in (s, Inr (bytes m 4 k @ replicate (data_len - k) 0)))"

text \<open>The items of the interface; 3, 4 and 15 have no case.\<close>

definition cfg_item :: "nat \<Rightarrow> member option" where
  "cfg_item i =
    (if i = 0 then Some adv_data_cfg else if i = 1 then Some scan_rsp_cfg
     else if i = 2 then Some ble_name_cfg else if i = 5 then Some pin_code_cfg
     else if i = 6 then Some local_ver_cfg else if i = 7 then Some low_power_vol_cfg
     else if i = 8 then Some edr_addr_cfg else if i = 9 then Some ble_addr_cfg
     else if i = 11 then Some local_reset_io_cfg else if i = 12 then Some local_polit_lamp_io_cfg
     else if i = 13 then Some local_link_key_cfg else if i = 10 then Some gatt_profile_cfg
     else if i = 14 then Some power_io_on_off_cfg else if i = 17 then Some ver_info_authkey_cfg
     else if i = 18 then Some ver_info_procode_cfg else if i = 16 then Some ble_reset_io_info_cfg
     else if i = 19 then Some pid_vid_cfg else if i = 20 then Some md5_cfg
     else if i = 21 then Some sdk_type_cfg else if i = 22 then Some hid_param_cfg else None)"

text \<open>The slot of \<open>scan_rsp_cfg\<close> is read with the type of \<open>adv_data_cfg\<close>, which it has.\<close>

definition ex_cfg_get_content_api ::
  "flashlib \<Rightarrow> nat \<Rightarrow> nat \<Rightarrow> cfg \<Rightarrow> cfg \<times> (cfg_error + byte list)" where
  "ex_cfg_get_content_api F cfg_index n s =
    (case cfg_item cfg_index of
       None \<Rightarrow> (s, Inl EX_CFG_INDEX_ERR)
     | Some m \<Rightarrow> get_ex_cfg_info F (member_offset m) (member_size m) n s)"

text \<open>The vendor, product or version number; an error comes back as one.\<close>

definition ex_cfg_get_local_version_info :: "flashlib \<Rightarrow> nat \<Rightarrow> cfg \<Rightarrow> cfg \<times> nat" where
  "ex_cfg_get_local_version_info F ty s =
    (case ex_cfg_get_content_api F 6 16 s of
       (s, Inl e) \<Rightarrow> (s, cfg_code e)
     | (s, Inr d) \<Rightarrow>
         (s, if ty = 0 then d ! 0 * 256 + d ! 1
             else if ty = 1 then d ! 2 * 256 + d ! 3
             else if ty = 2 then d ! 4 * 256 + d ! 5
             else 0))"

definition ex_cfg_start_addr_set :: "addr \<Rightarrow> cfg \<Rightarrow> cfg" where
  "ex_cfg_start_addr_set a s = s\<lparr>exif_addr := a\<rparr>"

definition ex_cfg_addr_get :: "cfg \<Rightarrow> addr" where
  "ex_cfg_addr_get s = exif_addr s"

text \<open>\<open>ex_cfg_read_data_from_flash\<close>, the older reader with the offsets of the fields as parameters.\<close>

record flash_cfg_read_param =
  cfg_addr :: addr
  cfg_len :: nat
  cfg_crc_offset :: nat
  cfg_len_offset :: nat
  cfg_data_offset :: nat
  cfg_buf_len :: nat

definition ex_cfg_read_data_from_flash ::
  "flashlib \<Rightarrow> flash_cfg_read_param \<Rightarrow> cfg \<Rightarrow> cfg \<times> (cfg_error + byte list)" where
  "ex_cfg_read_data_from_flash F p s =
    (if cfg_buf_len p + 4 > sizeof_temp_buf then (s, Inl EX_CFG_LEN_OVER_TEMP_BUF_LEN_ERR)
     else
       let s = s\<lparr>cfg_mem := mcpy_in (cfg_mem s) 0 (replicate sizeof_temp_buf 0)\<rparr>
       in if sizeof_temp_buf < cfg_len p then (s, Inl EX_CFG_TMP_BUF_ERR)
          else
            let m = fill_temp F (cfg_addr p) (cfg_len p) (cfg_mem s);
                s = s\<lparr>cfg_mem := m\<rparr>
            in if get16 m (cfg_crc_offset p) \<noteq>
                  Crc16 F (bytes m (cfg_data_offset p) (get16 m (cfg_len_offset p)))
               then (s, Inl EX_CFG_CRC_ERR)
               else (s, Inr (bytes m (cfg_data_offset p) (cfg_buf_len p))))"

section \<open>Length, type, value\<close>

record ltv_attr =
  attr_type :: nat
  get_size :: "nat option"
  get_data :: "byte list option"

text \<open>\<open>get_attr_ptr_by_type\<close>: the first entry of the table with the type.\<close>

definition get_attr_ptr_by_type :: "nat \<Rightarrow> ltv_attr list \<Rightarrow> ltv_attr option" where
  "get_attr_ptr_by_type ty as = find (\<lambda>a. attr_type a = ty) as"

text \<open>The loops over the 32 bits of the mask, from \<open>i\<close> on.\<close>

fun ltv_len_loop :: "nat \<Rightarrow> ltv_attr list \<Rightarrow> nat \<Rightarrow> nat list \<Rightarrow> nat" where
  "ltv_len_loop mask' as n [] = n"
| "ltv_len_loop mask' as n (i # is) =
    ltv_len_loop mask' as
      (if bit mask' i then
         case get_attr_ptr_by_type i as of
           Some a \<Rightarrow> (case get_size a of Some k \<Rightarrow> u32_add n (k + 2) | None \<Rightarrow> n)
         | None \<Rightarrow> n
       else n) is"

definition ltv_attr_total_len_get :: "nat \<Rightarrow> ltv_attr list \<Rightarrow> nat" where
  "ltv_attr_total_len_get mask' as = (if mask' = 0 then 0 else ltv_len_loop mask' as 0 [0..<32])"

text \<open>One attribute at \<open>p\<close>: the length byte is eight bits, and the pointer moves by what was stored.\<close>

definition ltv_put :: "nat \<Rightarrow> nat \<Rightarrow> byte list \<Rightarrow> addr \<times> memory \<Rightarrow> addr \<times> memory" where
  "ltv_put i k d pm =
    (let p = fst pm; m = snd pm;
         m = m(p := u8 (k + 1), p + 1 := i);
         m = mcpy_in m (p + 2) (take k d)
     in (p + m p + 1, m))"

fun ltv_fill_loop :: "nat \<Rightarrow> ltv_attr list \<Rightarrow> addr \<times> memory \<Rightarrow> nat list \<Rightarrow> addr \<times> memory" where
  "ltv_fill_loop mask' as pm [] = pm"
| "ltv_fill_loop mask' as pm (i # is) =
    ltv_fill_loop mask' as
      (if bit mask' i then
         case get_attr_ptr_by_type i as of
           Some a \<Rightarrow> (case (get_size a, get_data a) of
               (Some k, Some d) \<Rightarrow> ltv_put i k d pm | _ \<Rightarrow> pm)
         | None \<Rightarrow> pm
       else pm) is"

definition ltv_attr_fill :: "nat \<Rightarrow> ltv_attr list \<Rightarrow> addr option \<Rightarrow> memory \<Rightarrow> (addr \<times> memory) option" where
  "ltv_attr_fill mask' as fill_buf m =
    (case fill_buf of None \<Rightarrow> None | Some p \<Rightarrow> Some (ltv_fill_loop mask' as (p, m) [0..<32]))"

end
