(* ===== verification/CustomCfg_Spec.thy ===== *)
theory CustomCfg_Spec
  imports CustomCfg
begin

text \<open>
  The configuration area: every item but the GATT profile can be read back from a flash that holds
  valid records, each at its place; and the length-type-value answers: what is written is as long
  as announced and parses to the attributes asked for.
\<close>

section \<open>The area\<close>

text \<open>A record as the configuration tool writes it, in the slot of the item.\<close>

definition slot :: "(byte list \<Rightarrow> nat) \<Rightarrow> member \<Rightarrow> byte list \<Rightarrow> byte list" where
  "slot crc m d = le16 (crc d) @ le16 (length d) @ d @ replicate (member_size m - 4 - length d) 255"

definition cfg_image :: "(byte list \<Rightarrow> nat) \<Rightarrow> (member \<Rightarrow> byte list) \<Rightarrow> byte list" where
  "cfg_image crc c = concat (map (\<lambda>m. slot crc m (c m)) members)"

definition fits :: "(member \<Rightarrow> byte list) \<Rightarrow> bool" where
  "fits c \<longleftrightarrow> (\<forall>m. length (c m) \<le> data_size m)"

lemma member_in_members: "m \<in> set members"
  by (cases m) (simp_all add: members_def)

lemma slot_length: "length d \<le> data_size m \<Longrightarrow> length (slot crc m d) = member_size m"
  by (simp add: slot_def member_size_def Let_def)

text \<open>The slot of a member starts at its offset.\<close>

lemma concat_slot:
  assumes "m \<in> set ms" "\<And>k. length (f k) = g k"
  shows "\<exists>rest. concat (map f ms) = concat (map f (takeWhile (\<lambda>k. k \<noteq> m) ms)) @ f m @ rest \<and>
    length (concat (map f (takeWhile (\<lambda>k. k \<noteq> m) ms))) = sum_list (map g (takeWhile (\<lambda>k. k \<noteq> m) ms))"
  using assms
proof (induction ms)
  case (Cons k ms)
  then show ?case by (cases "k = m") auto
qed simp

lemma image_slot:
  assumes "fits c"
  shows "take (member_size m) (drop (member_offset m) (cfg_image crc c)) = slot crc m (c m)"
    and "member_offset m + member_size m \<le> length (cfg_image crc c)"
proof -
  have l: "length (slot crc k (c k)) = member_size k" for k
    using assms by (simp add: fits_def slot_length)
  obtain rest where r: "cfg_image crc c =
      concat (map (\<lambda>k. slot crc k (c k)) (takeWhile (\<lambda>k. k \<noteq> m) members)) @ slot crc m (c m) @ rest"
    "length (concat (map (\<lambda>k. slot crc k (c k)) (takeWhile (\<lambda>k. k \<noteq> m) members))) = member_offset m"
    using concat_slot [OF member_in_members, of "\<lambda>k. slot crc k (c k)" member_size m] l
    unfolding cfg_image_def member_offset_def by blast
  then show "take (member_size m) (drop (member_offset m) (cfg_image crc c)) = slot crc m (c m)"
    "member_offset m + member_size m \<le> length (cfg_image crc c)"
    using l [of m] by simp_all
qed

text \<open>The GATT profile is the only item that does not fit the buffer.\<close>

lemma member_size_temp: "member_size m \<le> 512 \<longleftrightarrow> m \<noteq> gatt_profile_cfg"
  by (cases m) (simp_all add: member_size_def)

lemma data_size_small: "m \<noteq> gatt_profile_cfg \<Longrightarrow> data_size m \<le> 64"
  by (cases m) simp_all

lemma get16_le16:
  assumes "v < 65536" "m a = v mod 256" "m (a + 1) = v div 256 mod 256"
  shows "get16 m a = v"
  using assms by (simp add: get16_def)

lemma slot_read:
  fixes d :: "byte list"
  assumes "length d \<le> data_size k" "k \<noteq> gatt_profile_cfg" "crc d < 65536"
    and m: "m = mcpy_in m0 0 (slot crc k d)"
  shows "get16 m 0 = crc d" "get16 m 2 = length d" "n \<le> length d \<Longrightarrow> bytes m 4 n = take n d"
proof -
  have l: "length (slot crc k d) = member_size k" "4 + length d \<le> member_size k"
    using assms(1) by (simp_all add: slot_length member_size_def Let_def)
  have nth: "m i = slot crc k d ! i" if "i < 4 + length d" for i
    using that l by (simp add: m mcpy_in_def)
  have dl: "length d < 65536" using assms(1) data_size_small [OF assms(2)] by simp
  show "get16 m 0 = crc d"
    by (rule get16_le16) (simp_all add: nth slot_def le16_def assms(3))
  show "get16 m 2 = length d"
    by (rule get16_le16) (simp_all add: nth slot_def le16_def dl numeral_2_eq_2 numeral_3_eq_3)
  show "bytes m 4 n = take n d" if "n \<le> length d"
    by (rule nth_equalityI) (use that in \<open>simp_all add: nth slot_def nth_append\<close>)
qed

lemma get_item:
  assumes "fits c" "k \<noteq> gatt_profile_cfg" "Crc16 F (c k) < 65535" "Crc16 F (c k) \<noteq> 0" "n \<le> 508"
    and fl: "\<And>off l. off + l \<le> length (cfg_image (Crc16 F) c) \<Longrightarrow>
      norflash_read_dec F (exif_addr s + off) l = take l (drop off (cfg_image (Crc16 F) c))"
    and nw: "exif_addr s + length (cfg_image (Crc16 F) c) < 4294967296"
  shows "\<exists>s'. get_ex_cfg_info F (member_offset k) (member_size k) n s =
    (s', Inr (take n (c k) @ replicate (n - length (c k)) 0))"
proof -
  note sl = image_slot [OF assms(1), where m = k and crc = "Crc16 F"]
  have rd: "norflash_read_dec F (u32_add (exif_addr s) (member_offset k)) (member_size k) = slot (Crc16 F) k (c k)"
    using fl [of "member_offset k" "member_size k"] sl nw by simp
  define m where "m = fill_temp F (u32_add (exif_addr s) (member_offset k)) (member_size k) (cfg_mem s)"
  have m: "m = mcpy_in (mcpy_in (cfg_mem s) 0 (replicate 512 0)) 0 (slot (Crc16 F) k (c k))"
    by (simp add: m_def fill_temp_def rd)
  have dl: "length (c k) \<le> data_size k" using assms(1) by (simp add: fits_def)
  have cr: "Crc16 F (c k) < 65536" using assms(3) by simp
  note f = slot_read [OF dl assms(2) cr m]
  have "member_size k \<le> 512" using assms(2) by (simp add: member_size_temp)
  then show ?thesis using assms(3-5) f f(3) [of "length (c k)"]
    by (simp add: get_ex_cfg_info_def Let_def flip: m_def)
qed

text \<open>A whole area as the tool writes it: each item but the GATT profile comes back with its own data.\<close>

lemma area_read_back:
  assumes "fits c" "\<And>off l. off + l \<le> length (cfg_image (Crc16 F) c) \<Longrightarrow>
      norflash_read_dec F (exif_addr s + off) l = take l (drop off (cfg_image (Crc16 F) c))"
    and "exif_addr s + length (cfg_image (Crc16 F) c) < 4294967296" "n \<le> 508"
    and "\<And>k. 0 < Crc16 F (c k) \<and> Crc16 F (c k) < 65535"
  shows "snd (ex_cfg_get_content_api F i n s) =
    (case cfg_item i of
       None \<Rightarrow> Inl EX_CFG_INDEX_ERR
     | Some k \<Rightarrow> if k = gatt_profile_cfg then Inl EX_CFG_TMP_BUF_ERR
                 else Inr (take n (c k) @ replicate (n - length (c k)) 0))"
proof (cases "cfg_item i")
  case None
  then show ?thesis by (simp add: ex_cfg_get_content_api_def)
next
  case (Some k)
  show ?thesis
  proof (cases "k = gatt_profile_cfg")
    case True
    then show ?thesis using Some assms(4)
      by (simp add: ex_cfg_get_content_api_def get_ex_cfg_info_def member_size_def)
  next
    case False
    from get_item [OF assms(1) False, of F n s] assms(2-5) obtain s' where
      "get_ex_cfg_info F (member_offset k) (member_size k) n s =
        (s', Inr (take n (c k) @ replicate (n - length (c k)) 0))" by auto
    with Some False show ?thesis by (simp add: ex_cfg_get_content_api_def)
  qed
qed

text \<open>The area as a table, from the number of the item to the place and the size of its slot, in bytes:
  the items of \<open>custom_cfg.h\<close> that the reader has, each with its place in \<open>ex_cfg_t\<close>.  The device name
  (at 106) and the link key of the last device (at 1012) have a slot but no number.\<close>

definition cfg_layout :: "(nat \<times> nat \<times> nat) list" where
  "cfg_layout =
    [(0, 0, 36), (1, 36, 36), (2, 72, 34), (5, 142, 8), (6, 150, 20), (7, 170, 6), (8, 176, 10), (9, 186, 10),
     (10, 196, 772), (11, 968, 6), (12, 974, 8), (13, 982, 20), (14, 1002, 10), (16, 1032, 8), (17, 1040, 28),
     (18, 1068, 28), (19, 1096, 8), (20, 1104, 36), (21, 1140, 6), (22, 1146, 68)]"

lemma layout_rows:
  "list_all (\<lambda>(i, off, sz). case cfg_item i of Some k \<Rightarrow> member_offset k = off \<and> member_size k = sz | None \<Rightarrow> False)
    cfg_layout"
  by code_simp

lemma layout_item:
  "(i, off, sz) \<in> set cfg_layout \<Longrightarrow> \<exists>k. cfg_item i = Some k \<and> member_offset k = off \<and> member_size k = sz"
  using layout_rows by (auto simp: list_all_iff split: option.splits)

lemma layout_none: "i \<notin> fst ` set cfg_layout \<Longrightarrow> cfg_item i = None"
  by (simp add: cfg_layout_def cfg_item_def)

text \<open>What one slot gives, whatever it holds.\<close>

lemma slot_result:
  assumes "norflash_read_dec F (u32_add (exif_addr s) off) k = le16 v @ le16 (length d) @ d @ pad"
    and "v < 65536" "length d < 65536" "k \<le> 512" "n \<le> 508"
  shows "snd (get_ex_cfg_info F off k n s) =
    (if v = 0 \<or> v = 65535 \<or> v \<noteq> Crc16 F d then Inl EX_CFG_CRC_ERR
     else Inr (take n d @ replicate (n - length d) 0))"
proof -
  define m where "m = fill_temp F (u32_add (exif_addr s) off) k (cfg_mem s)"
  have nth: "m i = (le16 v @ le16 (length d) @ d) ! i" if "i < 4 + length d" for i
  proof -
    have "m i = ((le16 v @ le16 (length d) @ d) @ pad) ! i"
      using that by (simp add: m_def fill_temp_def assms(1) mcpy_in_def)
    also have "\<dots> = (le16 v @ le16 (length d) @ d) ! i" using that by (simp only: nth_append) simp
    finally show ?thesis .
  qed
  have g: "get16 m 0 = v" "get16 m 2 = length d"
    by (rule get16_le16; use assms(2,3) in \<open>simp add: nth le16_def nth_append numeral_2_eq_2 numeral_3_eq_3\<close>)+
  have b: "bytes m 4 j = take j d" if "j \<le> length d" for j
    by (rule nth_equalityI) (use that in \<open>simp_all add: nth nth_append\<close>)
  show ?thesis using assms(4,5) g b [of "length d"] b [of n]
    by (auto simp add: get_ex_cfg_info_def Let_def simp flip: m_def)
qed

text \<open>C23: The configuration area can be read back, item by item.  For a number of the table and a slot
  that holds a check sum \<open>v\<close>, a length and that many bytes \<open>d\<close>: a caller's buffer of more than 508 bytes
  and a slot larger than the reader's 512 bytes (only that of the GATT profile) are errors; so is a
  check sum that is not the one of \<open>d\<close>, or is 0 or 65535, even where \<open>Crc16\<close> gives that value; in every
  other case the caller gets \<open>d\<close>, cut to its buffer or padded with zeros.  A number that is not in the
  table is an error.\<close>

theorem cfg_read_back:
  "(\<forall>off sz v d pad. (i, off, sz) \<in> set cfg_layout \<and> v < 65536 \<and> length d < 65536 \<and>
      norflash_read_dec F (u32_add (exif_addr s) off) sz = le16 v @ le16 (length d) @ d @ pad \<longrightarrow>
      snd (ex_cfg_get_content_api F i n s) =
       (if 508 < n then Inl EX_CFG_LEN_OVER_TEMP_BUF_LEN_ERR
        else if 512 < sz then Inl EX_CFG_TMP_BUF_ERR
        else if v = 0 \<or> v = 65535 \<or> v \<noteq> Crc16 F d then Inl EX_CFG_CRC_ERR
        else Inr (take n d @ replicate (n - length d) 0))) \<and>
    (i \<notin> fst ` set cfg_layout \<longrightarrow> snd (ex_cfg_get_content_api F i n s) = Inl EX_CFG_INDEX_ERR)"
proof (intro conjI allI impI; (elim conjE)?)
  fix off sz v d pad
  assume a: "(i, off, sz) \<in> set cfg_layout" "v < 65536" "length d < 65536"
    "norflash_read_dec F (u32_add (exif_addr s) off) sz = le16 v @ le16 (length d) @ d @ pad"
  from layout_item [OF a(1)] have "ex_cfg_get_content_api F i n s = get_ex_cfg_info F off sz n s"
    by (auto simp: ex_cfg_get_content_api_def)
  moreover have "snd (get_ex_cfg_info F off sz n s) =
       (if 508 < n then Inl EX_CFG_LEN_OVER_TEMP_BUF_LEN_ERR
        else if 512 < sz then Inl EX_CFG_TMP_BUF_ERR
        else if v = 0 \<or> v = 65535 \<or> v \<noteq> Crc16 F d then Inl EX_CFG_CRC_ERR
        else Inr (take n d @ replicate (n - length d) 0))"
  proof (cases "508 < n \<or> 512 < sz")
    case True
    then show ?thesis by (auto simp: get_ex_cfg_info_def)
  next
    case False
    with slot_result [OF a(4,2,3)] show ?thesis by simp
  qed
  ultimately show "snd (ex_cfg_get_content_api F i n s) =
       (if 508 < n then Inl EX_CFG_LEN_OVER_TEMP_BUF_LEN_ERR
        else if 512 < sz then Inl EX_CFG_TMP_BUF_ERR
        else if v = 0 \<or> v = 65535 \<or> v \<noteq> Crc16 F d then Inl EX_CFG_CRC_ERR
        else Inr (take n d @ replicate (n - length d) 0))" by simp
qed (simp add: ex_cfg_get_content_api_def layout_none)

text \<open>The length in the record is not checked against the buffer: with a longer one the check sum is
  taken over the variables behind it.\<close>

lemma crc_reads_behind:
  assumes "n \<le> 508" "k \<le> 512" "norflash_read_dec F (u32_add (exif_addr s) off) k = le16 v @ le16 l @ r"
    and "l < 65536" "v < 65535" "v \<noteq> 0"
  shows "(\<exists>d. snd (get_ex_cfg_info F off k n s) = Inr d) \<longleftrightarrow>
    v = Crc16 F (bytes (fill_temp F (u32_add (exif_addr s) off) k (cfg_mem s)) 4 l)"
proof -
  define m where "m = fill_temp F (u32_add (exif_addr s) off) k (cfg_mem s)"
  have m: "m = mcpy_in (mcpy_in (cfg_mem s) 0 (replicate 512 0)) 0 (le16 v @ le16 l @ r)"
    by (simp add: m_def fill_temp_def assms(3))
  have "get16 m 0 = v" "get16 m 2 = l"
    by (rule get16_le16; use assms(4-6) in \<open>simp add: m mcpy_in_def le16_def nth_append numeral_2_eq_2 numeral_3_eq_3\<close>)+
  then show ?thesis using assms by (simp add: get_ex_cfg_info_def Let_def flip: m_def)
qed

text \<open>A configuration that cannot be read gives its error code as the version number.\<close>

lemma version_of_error:
  "snd (ex_cfg_get_content_api F 6 16 s) = Inl e \<Longrightarrow> snd (ex_cfg_get_local_version_info F 2 s) = cfg_code e"
  by (cases "ex_cfg_get_content_api F 6 16 s") (auto simp: ex_cfg_get_local_version_info_def)

section \<open>Length, type, value\<close>

text \<open>The attributes asked for, in the order of the mask, and their encoding.\<close>

definition attr_value :: "ltv_attr \<Rightarrow> (nat \<times> byte list) option" where
  "attr_value a = (case (get_size a, get_data a) of (Some k, Some d) \<Rightarrow> Some (attr_type a, take k d) | _ \<Rightarrow> None)"

text \<open>Of the entries with a type the first one counts; one without the functions has nothing to send.\<close>

definition asked :: "nat \<Rightarrow> ltv_attr list \<Rightarrow> nat \<Rightarrow> (nat \<times> byte list) list" where
  "asked req as i =
    (if bit req i then List.map_filter attr_value (take 1 (filter (\<lambda>a. attr_type a = i) as)) else [])"

definition ltv_enc :: "nat \<times> byte list \<Rightarrow> byte list" where
  "ltv_enc x = (length (snd x) + 1) # fst x # snd x"

fun ltv_parse :: "byte list \<Rightarrow> (nat \<times> byte list) list" where
  "ltv_parse (l # t # bs) = (t, take (l - 1) bs) # ltv_parse (drop (l - 1) bs)"
| "ltv_parse _ = []"

text \<open>A table whose attributes can be sent when they are asked for: one with a size has data of that size,
  which leaves room for the type in the length byte.\<close>

definition ltv_table :: "nat \<Rightarrow> ltv_attr list \<Rightarrow> bool" where
  "ltv_table req as \<longleftrightarrow> (\<forall>a \<in> set as. \<forall>k. bit req (attr_type a) \<and> get_size a = Some k \<longrightarrow>
    k \<le> 254 \<and> (\<exists>d. get_data a = Some d \<and> k \<le> length d))"

lemma ltv_parse_enc: "ltv_parse (concat (map ltv_enc xs)) = xs"
  by (induction xs) (simp_all add: ltv_enc_def)

lemma first_found: "get_attr_ptr_by_type i as = (case filter (\<lambda>a. attr_type a = i) as of [] \<Rightarrow> None | a # _ \<Rightarrow> Some a)"
  by (induction as) (auto simp: get_attr_ptr_by_type_def)

text \<open>The step of the two loops for one bit of the mask, and the attribute that is asked for there.\<close>

lemma asked_cases:
  assumes "ltv_table req as"
  obtains "asked req as i = []" "\<And>pm. ltv_fill_loop req as pm (i # is) = ltv_fill_loop req as pm is"
      "\<And>n. ltv_len_loop req as n (i # is) = ltv_len_loop req as n is"
    | k d where "k \<le> length d" "k \<le> 254" "asked req as i = [(i, take k d)]"
      "\<And>pm. ltv_fill_loop req as pm (i # is) = ltv_fill_loop req as (ltv_put i k d pm) is"
      "\<And>n. ltv_len_loop req as n (i # is) = ltv_len_loop req as (u32_add n (k + 2)) is"
proof (cases "bit req i \<and> get_attr_ptr_by_type i as \<noteq> None")
  case False
  then show ?thesis using that(1) by (auto simp: asked_def first_found List.map_filter_simps split: list.splits)
next
  case True
  then obtain a as' where a: "filter (\<lambda>a. attr_type a = i) as = a # as'" and g: "get_attr_ptr_by_type i as = Some a"
    by (auto simp: first_found split: list.splits)
  then have "a \<in> set (filter (\<lambda>a. attr_type a = i) as)" by simp
  then have m: "a \<in> set as" "attr_type a = i" by simp_all
  show ?thesis
  proof (cases "get_size a")
    case None
    then show ?thesis using that(1) True a g by (simp add: asked_def attr_value_def List.map_filter_simps)
  next
    case (Some k)
    then obtain d where d: "k \<le> 254" "get_data a = Some d" "k \<le> length d"
      using assms True m by (auto simp: ltv_table_def)
    then show ?thesis using that(2) [of k d] Some True a g m
      by (simp add: asked_def attr_value_def List.map_filter_simps)
  qed
qed

lemma ltv_put_enc:
  assumes "k \<le> length d" "k \<le> 254"
  shows "ltv_put i k d (p, m) = (p + k + 2, mcpy_in m p (ltv_enc (i, take k d)))"
proof -
  have "mcpy_in (m(p := k + 1, p + 1 := i)) (p + 2) (take k d) = mcpy_in m p (ltv_enc (i, take k d))"
    using assms by (intro ext) (auto simp: mcpy_in_def ltv_enc_def nth_Cons' numeral_2_eq_2)
  moreover have "mcpy_in (m(p := k + 1, p + 1 := i)) (p + 2) (take k d) p = k + 1"
    by (simp add: mcpy_in_def)
  ultimately show ?thesis using assms by (simp add: ltv_put_def Let_def)
qed

lemma fill_loop:
  "ltv_table req as \<Longrightarrow> ltv_fill_loop req as (p, m) is =
    (let e = concat (map ltv_enc (concat (map (asked req as) is))) in (p + length e, mcpy_in m p e))"
proof (induction "is" arbitrary: p m)
  case (Cons i "is")
  show ?case
  proof (cases rule: asked_cases [OF Cons.prems, of i "is"])
    case 1
    then show ?thesis using Cons by simp
  next
    case (2 k d)
    moreover have "length (ltv_enc (i, take k d)) = k + 2" using 2 by (simp add: ltv_enc_def)
    ultimately show ?thesis using Cons.IH [OF Cons.prems]
      by (simp add: ltv_put_enc Let_def add.assoc mcpy_in_append flip: mcpy_in_append del: ltv_fill_loop.simps(2))
  qed
qed simp

lemma len_loop:
  "ltv_table req as \<Longrightarrow> n + 256 * length is < 4294967296 \<Longrightarrow> ltv_len_loop req as n is =
    n + length (concat (map ltv_enc (concat (map (asked req as) is))))"
proof (induction "is" arbitrary: n)
  case (Cons i "is")
  show ?case
  proof (cases rule: asked_cases [OF Cons.prems(1), of i "is"])
    case 1
    then show ?thesis using Cons by simp
  next
    case (2 k d)
    then have "ltv_len_loop req as n (i # is) = ltv_len_loop req as (n + (k + 2)) is"
      using Cons.prems by simp
    then show ?thesis using Cons.IH [OF Cons.prems(1), of "n + (k + 2)"] Cons.prems 2
      by (simp add: ltv_enc_def)
  qed
qed simp

text \<open>C24: An answer holds what was asked for: it is as long as announced, nothing outside it is written,
  and parsing it gives, for each bit of the mask in ascending order, the first entry of the table
  with that type, if there is one, with its data.  This is for a mask whose attributes, where they
  have a size at all, have at most 254 bytes, all there: one of 255 bytes is stored with length 0 and
  overwritten (\<open>ltv_wraps\<close>).\<close>

theorem ltv_roundtrip:
  assumes "\<forall>a \<in> set as. \<forall>k. bit req (attr_type a) \<and> get_size a = Some k \<longrightarrow>
    k \<le> 254 \<and> (\<exists>d. get_data a = Some d \<and> k \<le> length d)"
  shows "\<exists>m'. ltv_attr_fill req as (Some p) m = Some (p + ltv_attr_total_len_get req as, m') \<and>
    ltv_parse (bytes m' p (ltv_attr_total_len_get req as)) =
      concat (map (\<lambda>i. if bit req i then List.map_filter attr_value (take 1 (filter (\<lambda>a. attr_type a = i) as))
        else []) [0..<32]) \<and>
    (\<forall>a. a < p \<or> p + ltv_attr_total_len_get req as \<le> a \<longrightarrow> m' a = m a)"
proof -
  let ?e = "concat (map ltv_enc (concat (map (asked req as) [0..<32])))"
  have tab: "ltv_table req as" using assms by (simp only: ltv_table_def)
  have "ltv_len_loop req as 0 [0..<32] = length ?e" using len_loop [OF tab, of 0 "[0..<32]"] by simp
  moreover have "length ?e = 0" if "req = 0" using that by (simp add: asked_def)
  ultimately have n: "ltv_attr_total_len_get req as = length ?e" unfolding ltv_attr_total_len_get_def by presburger
  have "ltv_attr_fill req as (Some p) m = Some (p + length ?e, mcpy_in m p ?e)"
    unfolding ltv_attr_fill_def by (simp add: fill_loop [OF tab] Let_def del: upt_rec_numeral)
  moreover have "asked req as = (\<lambda>i. if bit req i then List.map_filter attr_value (take 1 (filter (\<lambda>a. attr_type a = i) as))
      else [])" by (rule ext) (simp only: asked_def)
  ultimately show ?thesis unfolding n by (auto simp: bytes_mcpy_in ltv_parse_enc mcpy_in_out simp del: upt_rec_numeral)
qed

text \<open>An attribute of 255 bytes is stored with length 0 and overwritten by the next one.\<close>

lemma ltv_wraps: "length d = 255 \<Longrightarrow> fst (ltv_put i 255 d (p, m)) = p + 1"
  by (simp add: ltv_put_def Let_def mcpy_in_def u8_def)

section \<open>Concrete runs\<close>

definition ex_crc :: "byte list \<Rightarrow> nat" where
  "ex_crc d = 1 + sum_list d mod 1000"

definition ex_items :: "member \<Rightarrow> byte list" where
  "ex_items k = (if k = pin_code_cfg then [48, 48, 49, 50] else [5])"

definition ex_flash :: flashlib where
  "ex_flash = \<lparr>norflash_read_dec = (\<lambda>a l. take l (drop (a - 4096) (cfg_image ex_crc ex_items))), Crc16 = ex_crc\<rparr>"

definition ex_cfg :: cfg where
  "ex_cfg = \<lparr>exif_addr = 4096, cfg_mem = (\<lambda>_. 0)\<rparr>"

lemma ex_cfg_image_length: "length (cfg_image ex_crc ex_items) = 1214"
  by (simp add: cfg_image_def slot_def members_def member_size_def ex_items_def)

text \<open>The pin code, the GATT profile, and a number without an item.\<close>

theorem cfg_read_back_witness:
  "snd (ex_cfg_get_content_api ex_flash 5 6 ex_cfg) = Inr [48, 48, 49, 50, 0, 0] \<and>
   snd (ex_cfg_get_content_api ex_flash 10 6 ex_cfg) = Inl EX_CFG_TMP_BUF_ERR \<and>
   snd (ex_cfg_get_content_api ex_flash 3 6 ex_cfg) = Inl EX_CFG_INDEX_ERR"
proof -
  have f: "fits ex_items"
    unfolding fits_def
  proof
    show "length (ex_items m) \<le> data_size m" for m by (cases m) (simp_all add: ex_items_def)
  qed
  have rd: "norflash_read_dec ex_flash (4096 + member_offset k) (member_size k) = slot ex_crc k (ex_items k)" for k
    using image_slot(1) [OF f] by (simp add: ex_flash_def)
  have off: "member_offset pin_code_cfg = 142" "member_size pin_code_cfg = 8"
    "member_offset gatt_profile_cfg = 196" "member_size gatt_profile_cfg = 772"
    by (simp_all add: member_offset_def members_def member_size_def)
  have p: "norflash_read_dec ex_flash (u32_add (exif_addr ex_cfg) 142) 8 =
      le16 196 @ le16 (length [48, 48, 49, 50 :: nat]) @ [48, 48, 49, 50] @ []"
    using rd [of pin_code_cfg] unfolding off
    by (simp add: ex_cfg_def slot_def ex_items_def off ex_crc_def numeral_2_eq_2)
  have g: "norflash_read_dec ex_flash (u32_add (exif_addr ex_cfg) 196) 772 =
      le16 6 @ le16 (length [5 :: nat]) @ [5] @ replicate 767 255"
    using rd [of gatt_profile_cfg] unfolding off
    by (simp only: ex_cfg_def slot_def ex_items_def off ex_crc_def) simp
  show ?thesis
    using cfg_read_back [of 5 ex_flash ex_cfg 6, THEN conjunct1, rule_format, of 142 8 196 "[48, 48, 49, 50]" "[]"] p
      cfg_read_back [of 10 ex_flash ex_cfg 6, THEN conjunct1, rule_format, of 196 772 6 "[5]" "replicate 767 255"] g
      cfg_read_back [of 3 ex_flash ex_cfg 6, THEN conjunct2]
    by (simp add: cfg_layout_def ex_flash_def ex_crc_def numeral_2_eq_2)
qed

text \<open>Types 5 and 2 are asked for, and type 1, which is not there; the table is in another order and has a
  second entry of type 2 and one of type 5 that cannot be sent.\<close>

theorem ltv_roundtrip_witness:
  "\<exists>m'. ltv_attr_fill 38 [\<lparr>attr_type = 5, get_size = Some 1, get_data = Some [7]\<rparr>,
      \<lparr>attr_type = 2, get_size = Some 2, get_data = Some [8, 9]\<rparr>,
      \<lparr>attr_type = 2, get_size = Some 1, get_data = Some [4]\<rparr>,
      \<lparr>attr_type = 5, get_size = None, get_data = None\<rparr>] (Some 100) (\<lambda>_. 0) =
      Some (107, m') \<and> ltv_parse (bytes m' 100 7) = [(2, [8, 9]), (5, [7])]"
proof -
  let ?as = "[\<lparr>attr_type = 5, get_size = Some 1, get_data = Some [7]\<rparr>,
      \<lparr>attr_type = 2, get_size = Some 2, get_data = Some [8, 9]\<rparr>,
      \<lparr>attr_type = 2, get_size = Some 1, get_data = Some [4]\<rparr>,
      \<lparr>attr_type = 5, get_size = None, get_data = None\<rparr>] :: ltv_attr list"
  have u: "[0..<32] = 0 # 1 # 2 # 3 # 4 # 5 # [6..<32]" by (simp add: upt_conv_Cons)
  have n: "ltv_attr_total_len_get 38 ?as = 7"
    unfolding ltv_attr_total_len_get_def u by (simp add: get_attr_ptr_by_type_def bit_0)
  show ?thesis using ltv_roundtrip [of ?as 38 100 "\<lambda>_. 0"] unfolding n u
    by (auto simp: bit_0 attr_value_def List.map_filter_simps)
qed

end
