(* ===== verification/VmWifi.thy ===== *)
theory VmWifi
  imports ByteMem "HOL-Library.Monad_Syntax"
begin

text \<open>
  The configuration memory of the application (\<open>demo_wifi/vm_wifi.c\<close>): its backup is found in the
  flash, the Wi-Fi settings and the update address are taken out of it, and after an update it is
  written back to the place the new firmware expects it at.

  The flash is a \<^typ>\<open>memory\<close>; the routines of the flash library, of the scrambler (\<open>doe\<close>) and the check
  sum are the record \<open>spiflash\<close>.  Loops whose addresses wrap around may not end; they are partial
  functions.
\<close>

section \<open>Flash routines and state\<close>

record spiflash =
  spi0flash_read :: "memory \<Rightarrow> addr \<Rightarrow> nat \<Rightarrow> int \<times> byte list"   \<comment> \<open>the count read, and the buffer\<close>
  spi0flash_eraser :: "addr \<Rightarrow> memory \<Rightarrow> memory"
  spi0flash_any_write :: "byte list \<Rightarrow> addr \<Rightarrow> memory \<Rightarrow> memory"
  flash_get_vm_area_info :: "addr \<times> nat"
  get_flash_capability :: nat
  BASE_ADR :: addr
  doe :: "nat \<Rightarrow> byte list \<Rightarrow> byte list"
  CRC16 :: "byte list \<Rightarrow> nat"

record vm_info_type =
  vm_addr :: addr
  vm_len :: nat
  vm_data :: "byte list option"

definition FLASH_SECTOR_SIZE :: nat where [simp]: "FLASH_SECTOR_SIZE = 4096"
definition LABEL_INDEX_LEN_CRC_SIZE :: nat where [simp]: "LABEL_INDEX_LEN_CRC_SIZE = 4"
definition VM_MAGIC_USING :: nat where [simp]: "VM_MAGIC_USING = 1437248085"
abbreviation (input) WIFI_INFO_IDX :: nat where "WIFI_INFO_IDX \<equiv> 195"
abbreviation (input) VM_HTTP_SINGLE_UPDATE_URL :: nat where "VM_HTTP_SINGLE_UPDATE_URL \<equiv> 245"

text \<open>\<open>vm_addr_info_save\<close>: the address and the length the first boot stage left.\<close>

definition vm_addr_info_save :: "(addr \<times> nat) option \<Rightarrow> vm_info_type \<Rightarrow> vm_info_type" where
  "vm_addr_info_save boot v =
    (case boot of None \<Rightarrow> v | Some (a, n) \<Rightarrow> v\<lparr>vm_addr := a, vm_len := n\<rparr>)"

definition boot_info_save :: "(addr \<times> nat) option \<Rightarrow> vm_info_type \<Rightarrow> vm_info_type" where
  "boot_info_save info v = vm_addr_info_save info v"

section \<open>Reading the backup\<close>

text \<open>The loop in pieces of 256 bytes; \<open>None\<close> is a short read.  \<open>data\<close> is what has been copied.\<close>

fun read_pieces :: "spiflash \<Rightarrow> memory \<Rightarrow> addr \<Rightarrow> byte list \<Rightarrow> nat \<Rightarrow> byte list option" where
  "read_pieces L fl a data remain =
    (if remain = 0 then Some data
     else let n = min remain 256; (ret, bs) = spi0flash_read L fl (u32_add a (length data)) n
       in if ret \<noteq> int n then None
          else read_pieces L fl a (data @ take n bs) (remain - n))"

declare read_pieces.simps [simp del]

text \<open>\<open>alloc_ok\<close>: \<open>malloc\<close> has the memory.\<close>

definition vm_data_read :: "spiflash \<Rightarrow> bool \<Rightarrow> memory \<Rightarrow> vm_info_type \<Rightarrow> vm_info_type \<times> nat" where
  "vm_data_read L alloc_ok fl v =
    (if vm_addr v \<noteq> 0 \<and> vm_len v \<noteq> 0
     then if vm_data v = None \<and> \<not> alloc_ok then (v, 0)
       else case read_pieces L fl (vm_addr v) [] (vm_len v) of
              None \<Rightarrow> (v\<lparr>vm_data := None\<rparr>, 0)
            | Some d \<Rightarrow> (v\<lparr>vm_data := Some d\<rparr>, length d)
     else (v, 0))"

section \<open>Writing it back\<close>

partial_function (option) erase_loop :: "spiflash \<Rightarrow> addr \<Rightarrow> addr \<Rightarrow> memory \<Rightarrow> memory option" where
  "erase_loop L a e fl =
    (if a < e then erase_loop L (u32_add a FLASH_SECTOR_SIZE) e (spi0flash_eraser L a fl) else Some fl)"

definition erase_area :: "spiflash \<Rightarrow> addr \<Rightarrow> nat \<Rightarrow> memory \<Rightarrow> memory option" where
  "erase_area L a n fl =
    (if a mod FLASH_SECTOR_SIZE = 0 then erase_loop L a (u32_add a n) fl else Some fl)"

fun write_pieces :: "spiflash \<Rightarrow> addr \<Rightarrow> byte list \<Rightarrow> nat \<Rightarrow> nat \<Rightarrow> memory \<Rightarrow> memory" where
  "write_pieces L a data done remain fl =
    (if remain = 0 then fl
     else let n = min remain 256
       in write_pieces L a data (done + n) (remain - n)
            (spi0flash_any_write L (take n (drop done data)) (u32_add a done) fl))"

declare write_pieces.simps [simp del]

definition vm_data_recover :: "spiflash \<Rightarrow> vm_info_type \<Rightarrow> memory \<Rightarrow> (nat \<times> memory) option" where
  "vm_data_recover L v fl =
    (case vm_data v of
       None \<Rightarrow> Some (0, fl)
     | Some data \<Rightarrow>
         if vm_len v = 0 then Some (0, fl)
         else let (addr', size') = flash_get_vm_area_info L
           in if addr' > BASE_ADR L \<and> size' \<ge> vm_len v
              then do {
                fl \<leftarrow> erase_area L addr' (vm_len v) fl;
                let fl = write_pieces L addr' data 0 (vm_len v) fl;
                fl \<leftarrow> erase_area L (vm_addr v) (vm_len v) fl;
                Some (vm_len v, fl) }
              else Some (0, fl))"

section \<open>Finding the items\<close>

text \<open>\<open>vm_find_index_table\<close>: the items looked for and the static variables they are copied to.\<close>

type_synonym vm_table = "(nat \<times> byte list) list"

definition vm_find_index_table :: "nat \<Rightarrow> vm_table" where
  "vm_find_index_table sizeof_wifi_store_info =
    [(WIFI_INFO_IDX, replicate sizeof_wifi_store_info 0),
     (VM_HTTP_SINGLE_UPDATE_URL, replicate 2048 0)]"

definition set_item :: "vm_table \<Rightarrow> nat \<Rightarrow> byte list \<Rightarrow> vm_table" where
  "set_item tab i b = map (\<lambda>(k, c). (k, if k = i then b else c)) tab"

text \<open>The data overwrites the start of the variable; a wrong check sum clears it.\<close>

definition vm_area_info_index_find ::
  "spiflash \<Rightarrow> memory \<Rightarrow> nat \<Rightarrow> nat \<Rightarrow> addr \<Rightarrow> nat \<Rightarrow> nat \<Rightarrow> vm_table \<Rightarrow> vm_table \<times> bool" where
  "vm_area_info_index_find L fl key index a vm_crc vm_size tab =
    (case map_of tab index of
       None \<Rightarrow> (tab, False)
     | Some b \<Rightarrow>
         let n = min (length b) vm_size;
             d = take n (doe L key (snd (spi0flash_read L fl a n)))
         in if vm_crc \<noteq> u8 (CRC16 L d) then (set_item tab index (replicate (length b) 0), False)
            else (set_item tab index (d @ drop n b), True))"

record scan =
  sc_addr :: addr
  end_addr :: addr
  sc_info :: vm_info_type
  sc_tab :: vm_table
  find_vm :: bool
  sc_find :: bool
  redo_cnt :: nat
  last_secter_addr :: addr
  last_vm_addr :: addr
  vm_used_size :: nat
  setp :: nat
  power_off :: bool

text \<open>The label \<open>next_sector\<close>: the flag says whether the loop goes on.\<close>

definition next_sector :: "spiflash \<Rightarrow> scan \<Rightarrow> scan \<times> bool" where
  "next_sector L s =
    (let s = (if find_vm s \<and> \<not> sc_find s \<and> redo_cnt s < 2
              then s\<lparr>find_vm := False, sc_find := False, redo_cnt := redo_cnt s + 1,
                     last_secter_addr := get_flash_capability L\<rparr> else s)
     in if \<not> find_vm s
        then let l = u32_sub (last_secter_addr s) FLASH_SECTOR_SIZE;
                 l = (if last_vm_addr s \<noteq> 0 \<and> last_vm_addr s = l then u32_sub l FLASH_SECTOR_SIZE else l)
          in (s\<lparr>last_secter_addr := l, sc_addr := l, end_addr := u32_add l FLASH_SECTOR_SIZE,
                sc_info := (sc_info s)\<lparr>vm_addr := l, vm_len := vm_used_size s\<rparr>, setp := 0\<rparr>, True)
        else (s, False))"

text \<open>The header of an entry: check sum, 12 bits of index, 12 bits of length.\<close>

definition entry_len :: "byte list \<Rightarrow> nat" where "entry_len h = h ! 3 * 16 + h ! 2 div 16"
definition entry_index :: "byte list \<Rightarrow> nat" where "entry_index h = h ! 1 + h ! 2 mod 16 * 256"

definition scan_entry :: "spiflash \<Rightarrow> memory \<Rightarrow> nat \<Rightarrow> scan \<Rightarrow> scan \<times> bool" where
  "scan_entry L fl key s =
    (let s = s\<lparr>last_vm_addr := (if last_vm_addr s = 0 then vm_addr (sc_info s) else last_vm_addr s),
               find_vm := True\<rparr>;
         h = doe L key (snd (spi0flash_read L fl (sc_addr s) LABEL_INDEX_LEN_CRC_SIZE))
     in if entry_index h > 1024 then next_sector L s
        else let (tab, f) = vm_area_info_index_find L fl key (entry_index h)
                   (u32_add (sc_addr s) LABEL_INDEX_LEN_CRC_SIZE) (h ! 0) (entry_len h) (sc_tab s);
                 used = vm_used_size s + entry_len h + LABEL_INDEX_LEN_CRC_SIZE
          in (s\<lparr>sc_tab := tab, sc_find := (sc_find s \<or> f), setp := entry_len h + LABEL_INDEX_LEN_CRC_SIZE,
                vm_used_size := used,
                sc_info := (if power_off s then (sc_info s)\<lparr>vm_len := used\<rparr> else sc_info s)\<rparr>, True))"

definition scan_body :: "spiflash \<Rightarrow> memory \<Rightarrow> nat \<Rightarrow> scan \<Rightarrow> scan \<times> bool" where
  "scan_body L fl key s =
    (if find_vm s then scan_entry L fl key s
     else let magic = doe L key (snd (spi0flash_read L fl (vm_addr (sc_info s)) 4));
              s = s\<lparr>sc_addr := u32_add (sc_addr s) LABEL_INDEX_LEN_CRC_SIZE\<rparr>
       in if get32 (\<lambda>i. magic ! i) 0 \<noteq> VM_MAGIC_USING then next_sector L s else scan_entry L fl key s)"

partial_function (option) scan_loop :: "spiflash \<Rightarrow> memory \<Rightarrow> nat \<Rightarrow> scan \<Rightarrow> scan option" where
  "scan_loop L fl key s =
    (if sc_addr s \<noteq> 0 \<and> sc_addr s < end_addr s
     then case scan_body L fl key s of
            (s', go) \<Rightarrow> if go then scan_loop L fl key (s'\<lparr>sc_addr := u32_add (sc_addr s') (setp s')\<rparr>)
                       else Some s'
     else Some s)"

definition scan_start :: "spiflash \<Rightarrow> vm_info_type \<Rightarrow> vm_table \<Rightarrow> scan" where
  "scan_start L v tab =
    (let last' = get_flash_capability L;
         po = (vm_addr v \<le> BASE_ADR L);
         v = (if po then v\<lparr>vm_addr := u32_sub last' FLASH_SECTOR_SIZE, vm_len := FLASH_SECTOR_SIZE\<rparr> else v)
     in \<lparr>sc_addr = vm_addr v, end_addr = u32_add (vm_addr v) (vm_len v), sc_info = v, sc_tab = tab,
         find_vm = False, sc_find = False, redo_cnt = 0, last_secter_addr = last', last_vm_addr = 0,
         vm_used_size = LABEL_INDEX_LEN_CRC_SIZE, setp = 0 + LABEL_INDEX_LEN_CRC_SIZE, power_off = po\<rparr>)"

text \<open>The area is not encrypted by default: the key is 0.\<close>

definition vm_area_info_find :: "spiflash \<Rightarrow> memory \<Rightarrow> vm_info_type \<Rightarrow> vm_table \<Rightarrow> (vm_info_type \<times> vm_table) option" where
  "vm_area_info_find L fl v tab =
    (let s = scan_start L v tab
     in if vm_addr (sc_info s) = 0 then Some (sc_info s, tab)
        else do { s \<leftarrow> scan_loop L fl 0 s; Some (sc_info s, sc_tab s) })"

text \<open>The address of the update, when there is one.\<close>

definition vm_http_get :: "vm_table \<Rightarrow> byte list option" where
  "vm_http_get tab =
    (case map_of tab VM_HTTP_SINGLE_UPDATE_URL of
       Some b \<Rightarrow> if b ! 0 \<noteq> 0 then Some b else None | None \<Rightarrow> None)"

definition vm_find :: "spiflash \<Rightarrow> bool \<Rightarrow> memory \<Rightarrow> vm_info_type \<Rightarrow> vm_table \<Rightarrow> (vm_info_type \<times> vm_table) option" where
  "vm_find L alloc_ok fl v tab =
    do { (v, tab) \<leftarrow> vm_area_info_find L fl v tab; Some (fst (vm_data_read L alloc_ok fl v), tab) }"

end
