(* ===== verification/VmWifi_Spec.thy ===== *)
theory VmWifi_Spec
  imports VmWifi
begin

text \<open>
  The configuration memory of the application survives an update: what was read before is written
  back whole; the search for it always ends, and takes the stored items in the order they lie in
  the flash.
\<close>

section \<open>The flash\<close>

text \<open>What the flash library promises: a read gives the contents, an erase sets one sector, a write
  stores its bytes and nothing else.\<close>

definition nor_flash :: "spiflash \<Rightarrow> bool" where
  "nor_flash L \<longleftrightarrow>
    (\<forall>m a n. spi0flash_read L m a n = (int n, bytes m a n)) \<and>
    (\<forall>m a. spi0flash_eraser L a m = (\<lambda>x. if x div 4096 = a div 4096 then 255 else m x)) \<and>
    (\<forall>m a bs. spi0flash_any_write L bs a m = mcpy_in m a bs)"

lemma nor_flash_simps:
  assumes "nor_flash L"
  shows "spi0flash_read L m a n = (int n, bytes m a n)"
    "spi0flash_eraser L a m = (\<lambda>x. if x div 4096 = a div 4096 then 255 else m x)"
    "spi0flash_any_write L bs a m = mcpy_in m a bs"
  using assms by (simp_all add: nor_flash_def)

text \<open>The bytes of an area, and of the sectors it touches.\<close>

definition sectors :: "addr \<Rightarrow> nat \<Rightarrow> addr set" where
  "sectors a n = {x. a div 4096 \<le> x div 4096 \<and> 4096 * (x div 4096) < a + n}"

lemma sectors_mem: "a \<le> x \<Longrightarrow> x < a + n \<Longrightarrow> x \<in> sectors a n"
  by (auto simp: sectors_def div_le_mono intro: le_less_trans [OF times_div_less_eq_dividend])

lemma bytes_append: "bytes m a n @ bytes m (a + n) k = bytes m a (n + k)"
  by (rule nth_equalityI) (auto simp: nth_append)

section \<open>Reading and writing in pieces\<close>

lemma read_pieces_all:
  "nor_flash L \<Longrightarrow> a + length data + remain < 4294967296 \<Longrightarrow>
    read_pieces L fl a data remain = Some (data @ bytes fl (a + length data) remain)"
proof (induction L fl a data remain rule: read_pieces.induct)
  case (1 L fl a data remain)
  show ?case
  proof (cases "remain = 0")
    case True
    then show ?thesis by (subst read_pieces.simps) (simp add: bytes_def)
  next
    case False
    let ?n = "min remain 256"
    have "read_pieces L fl a data remain = read_pieces L fl a (data @ bytes fl (a + length data) ?n) (remain - ?n)"
      using False "1.prems" by (subst read_pieces.simps) (simp add: nor_flash_simps Let_def)
    also have "\<dots> = Some ((data @ bytes fl (a + length data) ?n) @ bytes fl (a + length data + ?n) (remain - ?n))"
      using "1.IH" [OF False refl, of "(int ?n, bytes fl (a + length data) ?n)"] "1.prems" False
      by (simp add: nor_flash_simps add.assoc)
    also have "\<dots> = Some (data @ bytes fl (a + length data) remain)"
      using bytes_append [of fl "a + length data" ?n "remain - ?n"] by simp
    finally show ?thesis .
  qed
qed

lemma write_pieces_all:
  "nor_flash L \<Longrightarrow> a + done + remain < 4294967296 \<Longrightarrow> done + remain \<le> length data \<Longrightarrow>
    write_pieces L a data done remain fl = mcpy_in fl (a + done) (take remain (drop done data))"
proof (induction L a data "done" remain fl rule: write_pieces.induct)
  case (1 L a data "done" remain fl)
  show ?case
  proof (cases "remain = 0")
    case True
    then show ?thesis by (subst write_pieces.simps) simp
  next
    case False
    let ?n = "min remain 256"
    let ?bs = "take ?n (drop done data)"
    have l: "length ?bs = ?n" using "1.prems"(3) by simp
    have "write_pieces L a data done remain fl =
        write_pieces L a data (done + ?n) (remain - ?n) (mcpy_in fl (a + done) ?bs)"
      using False "1.prems" by (subst write_pieces.simps) (simp add: nor_flash_simps Let_def)
    also have "\<dots> = mcpy_in (mcpy_in fl (a + done) ?bs) (a + done + ?n)
        (take (remain - ?n) (drop (done + ?n) data))"
      using "1.IH" [OF False refl] "1.prems" False by (simp add: nor_flash_simps add.assoc)
    also have "\<dots> = mcpy_in fl (a + done) (?bs @ take (remain - ?n) (drop (done + ?n) data))"
      using mcpy_in_append [of fl "a + done" ?bs] unfolding l by simp
    also have "?bs @ take (remain - ?n) (drop (done + ?n) data) = take remain (drop done data)"
      using take_add [of ?n "remain - ?n" "drop done data"] by (simp add: add.commute)
    finally show ?thesis .
  qed
qed

lemma erase_loop_all:
  assumes "nor_flash L"
  shows "e < 4294963200 \<Longrightarrow> erase_loop L (4096 * k) e fl =
    Some (\<lambda>x. if k \<le> x div 4096 \<and> 4096 * (x div 4096) < e then 255 else fl x)"
proof (induction "e - 4096 * k" arbitrary: k fl rule: less_induct)
  case less
  show ?case
  proof (cases "4096 * k < e")
    case False
    then have "\<not> (k \<le> x div 4096 \<and> 4096 * (x div 4096) < e)" for x by auto
    with False show ?thesis by (subst erase_loop.simps) (simp add: fun_eq_iff)
  next
    case True
    let ?m = "\<lambda>x. if x div 4096 = k then 255 else fl x"
    have "erase_loop L (4096 * k) e fl = erase_loop L (4096 * (k + 1)) e ?m"
      using True less.prems by (subst erase_loop.simps) (simp add: nor_flash_simps [OF assms] add.commute)
    also have "\<dots> = Some (\<lambda>x. if k + 1 \<le> x div 4096 \<and> 4096 * (x div 4096) < e then 255 else ?m x)"
      using less.hyps [of "k + 1" ?m] True less.prems by simp
    also have "(\<lambda>x. if k + 1 \<le> x div 4096 \<and> 4096 * (x div 4096) < e then 255 else ?m x) =
        (\<lambda>x. if k \<le> x div 4096 \<and> 4096 * (x div 4096) < e then 255 else fl x)"
      using True by (intro ext) auto
    finally show ?thesis .
  qed
qed

lemma erase_area_all:
  assumes "nor_flash L" "a + n < 4294963200"
  shows "erase_area L a n fl = Some (\<lambda>x. if a mod 4096 = 0 \<and> x \<in> sectors a n then 255 else fl x)"
proof (cases "a mod 4096 = 0")
  case True
  then obtain k where a: "a = 4096 * k" using mod_0_imp_dvd dvdE by blast
  have "erase_area L a n fl = erase_loop L (4096 * k) (a + n) fl"
    using True assms(2) unfolding erase_area_def a by simp
  also have "\<dots> = Some (\<lambda>x. if k \<le> x div 4096 \<and> 4096 * (x div 4096) < a + n then 255 else fl x)"
    by (rule erase_loop_all [OF assms])
  finally show ?thesis using True by (simp add: sectors_def a)
qed (simp add: erase_area_def)

lemma recover_writes:
  assumes "nor_flash L" "vm_data v = Some d" "length d = vm_len v" "vm_len v \<noteq> 0"
    and "flash_get_vm_area_info L = (b, sz)" "BASE_ADR L < b" "vm_len v \<le> sz"
    and "vm_addr v + vm_len v < 4294963200" "b + vm_len v < 4294963200"
    and "sectors (vm_addr v) (vm_len v) \<inter> sectors b (vm_len v) = {}"
  obtains fl' where "vm_data_recover L v fl = Some (vm_len v, fl')" "bytes fl' b (vm_len v) = d"
    "vm_addr v mod 4096 = 0 \<Longrightarrow> bytes fl' (vm_addr v) (vm_len v) = replicate (vm_len v) 255"
    "\<And>x. x \<notin> sectors (vm_addr v) (vm_len v) \<Longrightarrow> x \<notin> sectors b (vm_len v) \<Longrightarrow> fl' x = fl x"
proof -
  let ?n = "vm_len v" and ?a = "vm_addr v"
  define m1 where "m1 = (\<lambda>x. if b mod 4096 = 0 \<and> x \<in> sectors b ?n then 255 else fl x)"
  define m2 where "m2 = mcpy_in m1 b d"
  define m3 where "m3 = (\<lambda>x. if ?a mod 4096 = 0 \<and> x \<in> sectors ?a ?n then 255 else m2 x)"
  have "write_pieces L b d 0 ?n m1 = m2"
    using write_pieces_all [OF assms(1), of b 0 ?n d m1] assms(3,9) by (simp add: m2_def)
  then have r: "vm_data_recover L v fl = Some (?n, m3)"
    using assms(2,4,5,6,7) erase_area_all [OF assms(1,9), of fl] erase_area_all [OF assms(1,8), of m2]
    by (simp add: vm_data_recover_def m1_def m3_def Let_def)
  have ne: "x \<notin> sectors ?a ?n" if "b \<le> x" "x < b + ?n" for x
    using sectors_mem [OF that] assms(10) by blast
  have 1: "bytes m3 b ?n = d"
    by (rule nth_equalityI) (simp_all add: assms(3) m3_def ne m2_def mcpy_in_at)
  have 2: "bytes m3 ?a ?n = replicate ?n 255" if "?a mod 4096 = 0"
    by (rule nth_equalityI) (simp_all add: m3_def sectors_mem that)
  have 3: "m3 x = fl x" if "x \<notin> sectors ?a ?n" "x \<notin> sectors b ?n" for x
  proof -
    have "\<not> (b \<le> x \<and> x < b + ?n)" using that(2) sectors_mem by blast
    then show ?thesis using that assms(3) by (auto simp: m3_def m2_def m1_def mcpy_in_def)
  qed
  from that [OF r 1 2 3] show thesis by blast
qed

lemma data_read_all:
  assumes "nor_flash L" "vm_addr v \<noteq> 0" "vm_len v \<noteq> 0" "vm_addr v + vm_len v < 4294967296"
  shows "vm_data_read L True fl v = (v\<lparr>vm_data := Some (bytes fl (vm_addr v) (vm_len v))\<rparr>, vm_len v)"
  using read_pieces_all [OF assms(1), of "vm_addr v" "[]" "vm_len v" fl] assms
  by (simp add: vm_data_read_def)

text \<open>C10: The configuration memory survives the update.  What the backup holds when the loader starts is
  kept in RAM; whatever the update has made of the flash since (\<open>fl'\<close>), writing it back puts exactly
  these bytes at the place the new firmware gives, clears the backup, and changes no sector but
  those of the two areas, as long as they have no sector in common and the area is large enough.\<close>

theorem vm_survives_update:
  assumes "nor_flash L" "vm_addr v \<noteq> 0" "vm_len v \<noteq> 0"
    and "flash_get_vm_area_info L = (b, sz)" "BASE_ADR L < b" "vm_len v \<le> sz"
    and "vm_addr v + vm_len v < 4294963200" "b + vm_len v < 4294963200"
    and "sectors (vm_addr v) (vm_len v) \<inter> sectors b (vm_len v) = {}"
  shows "\<exists>fl''. vm_data_recover L (fst (vm_data_read L True fl v)) fl' = Some (vm_len v, fl'') \<and>
    bytes fl'' b (vm_len v) = bytes fl (vm_addr v) (vm_len v) \<and>
    (vm_addr v mod 4096 = 0 \<longrightarrow> bytes fl'' (vm_addr v) (vm_len v) = replicate (vm_len v) 255) \<and>
    (\<forall>x. x \<notin> sectors (vm_addr v) (vm_len v) \<longrightarrow> x \<notin> sectors b (vm_len v) \<longrightarrow> fl'' x = fl' x)"
proof -
  let ?v = "v\<lparr>vm_data := Some (bytes fl (vm_addr v) (vm_len v))\<rparr>"
  have "fst (vm_data_read L True fl v) = ?v" using data_read_all [OF assms(1-3)] assms(7) by simp
  moreover from recover_writes [of L ?v "bytes fl (vm_addr v) (vm_len v)" b sz fl'] assms
  obtain fl'' where "vm_data_recover L ?v fl' = Some (vm_len v, fl'')"
    "bytes fl'' b (vm_len v) = bytes fl (vm_addr v) (vm_len v)"
    "vm_addr v mod 4096 = 0 \<Longrightarrow> bytes fl'' (vm_addr v) (vm_len v) = replicate (vm_len v) 255"
    "\<And>x. x \<notin> sectors (vm_addr v) (vm_len v) \<Longrightarrow> x \<notin> sectors b (vm_len v) \<Longrightarrow> fl'' x = fl' x"
    by auto
  ultimately show ?thesis by auto
qed

section \<open>The search ends\<close>

definition decoder :: "spiflash \<Rightarrow> bool" where
  "decoder L \<longleftrightarrow> (\<forall>bs. length (doe L 0 bs) = length bs \<and>
     ((\<forall>c \<in> set bs. c < 256) \<longrightarrow> (\<forall>c \<in> set (doe L 0 bs). c < 256)))"

text \<open>What decreases: the retries left, then the sectors below, then, inside an area, what is left of it.\<close>

definition scan_rank :: "scan \<Rightarrow> nat \<times> nat \<times> nat" where
  "scan_rank s = (2 - redo_cnt s, if find_vm s then 0 else 1,
     if find_vm s then end_addr s - sc_addr s else last_secter_addr s)"

definition scan_less :: "(scan \<times> scan) set" where
  "scan_less = inv_image (less_than <*lex*> less_than <*lex*> less_than) scan_rank"

lemma wf_scan_less: "wf scan_less"
  by (simp add: scan_less_def wf_lex_prod)

definition scan_inv :: "spiflash \<Rightarrow> scan \<Rightarrow> bool" where
  "scan_inv L s \<longleftrightarrow> last_secter_addr s mod 4096 = 0 \<and> last_secter_addr s \<le> get_flash_capability L \<and>
     end_addr s \<le> 4294959104 \<and> (\<not> find_vm s \<longrightarrow> sc_addr s \<noteq> 0 \<longrightarrow> 0 < last_secter_addr s)"

definition advance :: "scan \<Rightarrow> scan" where
  "advance s = s\<lparr>sc_addr := u32_add (sc_addr s) (setp s)\<rparr>"

definition good_chip :: "spiflash \<Rightarrow> bool" where
  "good_chip L \<longleftrightarrow> get_flash_capability L mod 4096 = 0 \<and> 0 < get_flash_capability L \<and>
     get_flash_capability L \<le> 4294959104"

text \<open>One sector further down, or two.\<close>

lemma sector_down:
  assumes "l mod 4096 = 0" "0 < l" "l \<le> 4294959104"
  shows "u32_sub l 4096 < l" "u32_sub l 4096 mod 4096 = 0" "u32_sub l 4096 + 4096 = l"
proof -
  obtain k where l: "l = 4096 * k" using assms(1) mod_0_imp_dvd dvdE by blast
  with assms(2) obtain j where k: "k = Suc j" by (cases k) auto
  have "u32_sub l 4096 = l - 4096" by (rule u32_sub_id) (use assms(3) in \<open>simp_all add: l k\<close>)
  then have "u32_sub l 4096 = 4096 * j" by (simp add: l k)
  then show "u32_sub l 4096 < l" "u32_sub l 4096 mod 4096 = 0" "u32_sub l 4096 + 4096 = l"
    by (simp_all add: l k)
qed

lemma sector_gap: "k < l \<Longrightarrow> k mod 4096 = 0 \<Longrightarrow> l mod 4096 = 0 \<Longrightarrow> k + 4096 \<le> (l::nat)"
proof -
  assume h: "k < l" "k mod 4096 = 0" "l mod 4096 = 0"
  obtain i j where "k = 4096 * i" "l = 4096 * j" using h(2,3) mod_0_imp_dvd dvdE by metis
  with h(1) show ?thesis by simp
qed

lemma next_sector_steps:
  assumes "good_chip L" "next_sector L s = (s', True)"
    and "\<not> find_vm s \<Longrightarrow> last_secter_addr s mod 4096 = 0 \<and> 0 < last_secter_addr s \<and>
      last_secter_addr s \<le> get_flash_capability L"
  shows "scan_inv L (advance s') \<and> \<not> find_vm s' \<and>
    (if find_vm s then redo_cnt s < 2 \<and> redo_cnt s' = redo_cnt s + 1
     else redo_cnt s' = redo_cnt s \<and> last_secter_addr s' < last_secter_addr s)"
proof -
  define t where "t = (if find_vm s \<and> \<not> sc_find s \<and> redo_cnt s < 2
    then s\<lparr>find_vm := False, sc_find := False, redo_cnt := redo_cnt s + 1,
           last_secter_addr := get_flash_capability L\<rparr> else s)"
  let ?old = "last_secter_addr t"
  let ?new = "if last_vm_addr t \<noteq> 0 \<and> last_vm_addr t = u32_sub ?old 4096
    then u32_sub (u32_sub ?old 4096) 4096 else u32_sub ?old 4096"
  have nf: "\<not> find_vm t" and s': "s' = t\<lparr>last_secter_addr := ?new, sc_addr := ?new, end_addr := u32_add ?new 4096,
      sc_info := (sc_info t)\<lparr>vm_addr := ?new, vm_len := vm_used_size t\<rparr>, setp := 0\<rparr>"
    using assms(2) unfolding next_sector_def t_def by (auto simp: Let_def split: if_splits)
  have l0: "?old mod 4096 = 0" "0 < ?old" "?old \<le> 4294959104" "?old \<le> get_flash_capability L"
    using assms(1,3) nf by (auto simp: t_def good_chip_def split: if_splits)
  note d = sector_down [OF l0(1-3)]
  have l: "?new < ?old" "?new mod 4096 = 0"
  proof -
    have "u32_sub (u32_sub ?old 4096) 4096 < ?old \<and> u32_sub (u32_sub ?old 4096) 4096 mod 4096 = 0"
      if "0 < u32_sub ?old 4096"
      using sector_down(1,2) [OF d(2) that] d(1) l0(3) by linarith
    then show "?new < ?old" "?new mod 4096 = 0" using d(1,2) by auto
  qed
  define k where "k = ?new"
  have k: "k < ?old" "k mod 4096 = 0" "u32_add k 4096 = k + 4096" "u32_add k 0 = k" "k + 4096 \<le> ?old"
  proof -
    show a: "k < ?old" "k mod 4096 = 0" using l unfolding k_def by blast+
    show b: "k + 4096 \<le> ?old" by (rule sector_gap [OF a l0(1)])
    show "u32_add k 4096 = k + 4096" "u32_add k 0 = k" using b l0(3) by simp_all
  qed
  have st: "s' = t\<lparr>last_secter_addr := k, sc_addr := k, end_addr := u32_add k 4096,
      sc_info := (sc_info t)\<lparr>vm_addr := k, vm_len := vm_used_size t\<rparr>, setp := 0\<rparr>"
    unfolding s' k_def ..
  have "scan_inv L (advance s') \<and> \<not> find_vm s'"
    using k l0 nf by (simp add: scan_inv_def advance_def st)
  moreover have "if find_vm s then redo_cnt s < 2 \<and> redo_cnt s' = redo_cnt s + 1
     else redo_cnt s' = redo_cnt s \<and> last_secter_addr s' < last_secter_addr s"
    using nf k(1) by (auto simp: st t_def split: if_splits)
  ultimately show ?thesis by blast
qed

lemma scan_entry_steps:
  assumes "good_chip L" "decoder L" "nor_flash L" "\<forall>x. fl x < 256"
    and "scan_entry L fl 0 s = (s', True)" "end_addr s \<le> 4294959104" "sc_addr s < 4294967296"
    and "last_secter_addr s mod 4096 = 0" "last_secter_addr s \<le> get_flash_capability L"
  shows "scan_inv L (advance s') \<and>
    (redo_cnt s < 2 \<and> redo_cnt s' = redo_cnt s + 1 \<or>
     redo_cnt s' = redo_cnt s \<and> find_vm s' \<and> end_addr s' = end_addr s \<and>
       (\<exists>k. 4 \<le> k \<and> k < 4100 \<and> sc_addr (advance s') = u32_add (sc_addr s) k))"
proof -
  define h where "h = doe L 0 (bytes fl (sc_addr s) 4)"
  define t where "t = s\<lparr>last_vm_addr := (if last_vm_addr s = 0 then vm_addr (sc_info s) else last_vm_addr s),
    find_vm := True\<rparr>"
  have hb: "length h = 4" "\<forall>c \<in> set h. c < 256"
  proof -
    have "\<forall>c \<in> set (bytes fl (sc_addr s) 4). c < 256" using assms(4) by (auto simp: bytes_def)
    moreover have "length (bytes fl (sc_addr s) 4) = 4" by simp
    ultimately show "length h = 4" "\<forall>c \<in> set h. c < 256"
      using assms(2) unfolding decoder_def h_def by (metis, blast)
  qed
  have ht: "doe L 0 (bytes fl (sc_addr t) 4) = h" by (simp add: h_def t_def)
  have el: "entry_len h < 4096"
  proof -
    have "h ! 3 < 256" "h ! 2 < 256" using hb by simp_all
    then show ?thesis by (simp add: entry_len_def)
  qed
  show ?thesis
  proof (cases "entry_index h > 1024")
    case True
    then have "next_sector L t = (s', True)"
      using assms(5) by (simp add: scan_entry_def Let_def nor_flash_simps [OF assms(3)] ht flip: t_def)
    from next_sector_steps [OF assms(1) this] show ?thesis by (simp add: t_def)
  next
    case False
    then obtain tab f i where "s' = t\<lparr>sc_tab := tab, sc_find := f, setp := entry_len h + 4,
        vm_used_size := vm_used_size t + entry_len h + 4, sc_info := i\<rparr>"
      using assms(5)
      by (auto simp: scan_entry_def Let_def nor_flash_simps [OF assms(3)] ht simp flip: t_def split: prod.splits)
    then show ?thesis using assms(6-9) el
      by (simp add: scan_inv_def advance_def t_def) (rule exI [of _ "entry_len h + 4"], simp)
  qed
qed

lemma scan_body_steps:
  assumes "good_chip L" "decoder L" "nor_flash L" "\<forall>x. fl x < 256"
    and "scan_inv L s" "sc_addr s \<noteq> 0" "sc_addr s < end_addr s" "scan_body L fl 0 s = (s', True)"
  shows "scan_inv L (advance s') \<and> (advance s', s) \<in> scan_less"
proof -
  have i: "last_secter_addr s mod 4096 = 0" "last_secter_addr s \<le> get_flash_capability L" "end_addr s \<le> 4294959104"
    "\<not> find_vm s \<Longrightarrow> 0 < last_secter_addr s" using assms(5,6) by (simp_all add: scan_inv_def)
  have less: "(t, s) \<in> scan_less" if "redo_cnt t = redo_cnt s + 1 \<and> redo_cnt s < 2 \<or> redo_cnt t = redo_cnt s \<and>
      (find_vm t \<and> (if find_vm s then end_addr t - sc_addr t < end_addr s - sc_addr s else True) \<or>
       \<not> find_vm t \<and> \<not> find_vm s \<and> last_secter_addr t < last_secter_addr s)" for t
    using that by (auto simp: scan_less_def scan_rank_def split: if_splits)
  have adv: "redo_cnt (advance s') = redo_cnt s'" "find_vm (advance s') = find_vm s'"
    "end_addr (advance s') = end_addr s'" "last_secter_addr (advance s') = last_secter_addr s'"
    by (simp_all add: advance_def)
  show ?thesis
  proof (cases "find_vm s")
    case True
    then have e: "scan_entry L fl 0 s = (s', True)" using assms(8) by (simp add: scan_body_def)
    have "sc_addr s < 4294967296" using assms(7) i(3) by simp
    note st = scan_entry_steps [OF assms(1-4) e i(3) this i(1,2)]
    have "end_addr s - u32_add (sc_addr s) k < end_addr s - sc_addr s" if "4 \<le> k" "k < 4100" for k
      using that assms(7) i(3) by simp
    with st True show ?thesis by (intro conjI less) (auto simp: adv)
  next
    case False
    let ?s = "s\<lparr>sc_addr := u32_add (sc_addr s) 4\<rparr>"
    from False assms(8) consider "next_sector L ?s = (s', True)" | "scan_entry L fl 0 ?s = (s', True)"
      by (auto simp: scan_body_def Let_def split: if_splits)
    then show ?thesis
    proof cases
      case 1
      from next_sector_steps [OF assms(1) 1] i False show ?thesis by (intro conjI less) (simp_all add: adv)
    next
      case 2
      from scan_entry_steps [OF assms(1-4) 2] i have
        "scan_inv L (advance s') \<and> (redo_cnt s < 2 \<and> redo_cnt s' = redo_cnt s + 1 \<or> redo_cnt s' = redo_cnt s \<and> find_vm s')"
        by auto
      with False show ?thesis by (intro conjI less) (auto simp: adv)
    qed
  qed
qed

lemma scan_loop_ends:
  assumes "good_chip L" "decoder L" "nor_flash L" "\<forall>x. fl x < 256"
  shows "scan_inv L s \<Longrightarrow> \<exists>r. scan_loop L fl 0 s = Some r"
proof (induction s rule: wf_induct_rule [OF wf_scan_less])
  case (1 s)
  show ?case
  proof (cases "sc_addr s \<noteq> 0 \<and> sc_addr s < end_addr s")
    case False
    then show ?thesis by (subst scan_loop.simps) auto
  next
    case True
    obtain s' go where b: "scan_body L fl 0 s = (s', go)" by fastforce
    show ?thesis
    proof (cases go)
      case False
      with True b show ?thesis by (subst scan_loop.simps) simp
    next
      case go: True
      from scan_body_steps [OF assms "1.prems"] True b go
      have "scan_inv L (advance s')" "(advance s', s) \<in> scan_less" by auto
      with "1.IH" obtain r where "scan_loop L fl 0 (advance s') = Some r" by blast
      with True b go show ?thesis by (subst scan_loop.simps) (simp add: advance_def)
    qed
  qed
qed

text \<open>C22: The search for the configuration memory ends, whatever the flash holds and wherever the first
  boot stage says the backup is, on a chip whose size is a multiple of a sector.\<close>

theorem vm_search_ends:
  assumes "good_chip L" "decoder L" "nor_flash L" "\<forall>x. fl x < 256" "vm_addr v + vm_len v \<le> 4294959104"
  shows "\<exists>r. vm_area_info_find L fl v tab = Some r"
proof -
  have "u32_sub (get_flash_capability L) 4096 + 4096 = get_flash_capability L"
    using assms(1) sector_down(3) by (simp add: good_chip_def)
  then have "scan_inv L (scan_start L v tab)"
    using assms(1,5) by (auto simp: scan_start_def Let_def scan_inv_def good_chip_def)
  from scan_loop_ends [OF assms(1-4) this] show ?thesis by (auto simp: vm_area_info_find_def Let_def)
qed

section \<open>The items\<close>

text \<open>An area as the application writes it: the mark, then the entries one behind the other, each
  with its header, everything scrambled piece by piece with \<open>enc\<close>.\<close>

type_synonym vm_entry = "nat \<times> byte list"

definition entry_header :: "spiflash \<Rightarrow> vm_entry \<Rightarrow> byte list" where
  "entry_header L e = [u8 (CRC16 L (snd e)), fst e mod 256,
     fst e div 256 + 16 * (length (snd e) mod 16), length (snd e) div 16]"

definition entry_image :: "spiflash \<Rightarrow> (byte list \<Rightarrow> byte list) \<Rightarrow> vm_entry \<Rightarrow> byte list" where
  "entry_image L enc e = enc (entry_header L e) @ enc (snd e)"

definition vm_image :: "spiflash \<Rightarrow> (byte list \<Rightarrow> byte list) \<Rightarrow> vm_entry list \<Rightarrow> byte list" where
  "vm_image L enc es = enc (le32 VM_MAGIC_USING) @ concat (map (entry_image L enc) es)"

definition scrambles :: "spiflash \<Rightarrow> (byte list \<Rightarrow> byte list) \<Rightarrow> bool" where
  "scrambles L enc \<longleftrightarrow> (\<forall>bs. doe L 0 (enc bs) = bs \<and> length (enc bs) = length bs)"

text \<open>What an entry does to the table, and which entries it has room for.\<close>

definition load_item :: "vm_entry \<Rightarrow> vm_table \<Rightarrow> vm_table" where
  "load_item e tab = (case map_of tab (fst e) of
     None \<Rightarrow> tab | Some b \<Rightarrow> set_item tab (fst e) (snd e @ drop (length (snd e)) b))"

definition entry_ok :: "vm_table \<Rightarrow> vm_entry \<Rightarrow> bool" where
  "entry_ok tab e \<longleftrightarrow> fst e \<le> 1024 \<and> length (snd e) < 4096 \<and>
     (\<forall>b. map_of tab (fst e) = Some b \<longrightarrow> length (snd e) \<le> length b)"

lemma map_of_set_item: "map_of (set_item tab i b) j = map_option (\<lambda>c. if j = i then b else c) (map_of tab j)"
  by (induction tab) (auto simp: set_item_def)

lemma entry_ok_load:
  assumes "entry_ok tab e" "entry_ok tab e'"
  shows "entry_ok (load_item e tab) e'"
  using assms by (auto simp: entry_ok_def load_item_def map_of_set_item split: option.splits)

lemma load_dom: "map_of (load_item e tab) i = None \<longleftrightarrow> map_of tab i = None"
  by (auto simp: load_item_def map_of_set_item split: option.splits)

lemma header_fields:
  assumes "fst e \<le> 1024" "length (snd e) < 4096"
  shows "entry_index (entry_header L e) = fst e" "entry_len (entry_header L e) = length (snd e)"
proof -
  have d: "fst e div 256 < 16" using assms(1) by simp
  then have "(fst e div 256 + 16 * (length (snd e) mod 16)) mod 16 = fst e div 256"
    "(fst e div 256 + 16 * (length (snd e) mod 16)) div 16 = length (snd e) mod 16" by simp_all
  then show "entry_index (entry_header L e) = fst e" "entry_len (entry_header L e) = length (snd e)"
    by (simp_all add: entry_header_def entry_index_def entry_len_def)
qed

lemma bytes_split:
  "bytes fl a (length (xs @ ys)) = xs @ ys \<longleftrightarrow>
    bytes fl a (length xs) = xs \<and> bytes fl (a + length xs) (length ys) = ys"
  using bytes_append [of fl a "length xs" "length ys"] by (metis append_eq_append_conv bytes_length length_append)

lemma find_item:
  assumes "nor_flash L" "scrambles L enc" "entry_ok tab e" "bytes fl a (length (snd e)) = enc (snd e)"
  shows "vm_area_info_index_find L fl 0 (fst e) a (u8 (CRC16 L (snd e))) (length (snd e)) tab =
    (load_item e tab, map_of tab (fst e) \<noteq> None)"
proof (cases "map_of tab (fst e)")
  case (Some b)
  then have "min (length b) (length (snd e)) = length (snd e)" using assms(3) by (simp add: entry_ok_def)
  then show ?thesis using Some assms(2,4)
    by (simp add: vm_area_info_index_find_def Let_def nor_flash_simps [OF assms(1)] scrambles_def load_item_def)
qed (simp add: vm_area_info_index_find_def load_item_def)

definition entries_image :: "spiflash \<Rightarrow> (byte list \<Rightarrow> byte list) \<Rightarrow> vm_entry list \<Rightarrow> byte list" where
  "entries_image L enc es = concat (map (entry_image L enc) es)"

text \<open>Where the entries end: at the end of the area, or at an index no entry has, when something has been
  found before it.\<close>

definition entries_end :: "spiflash \<Rightarrow> memory \<Rightarrow> addr \<Rightarrow> addr \<Rightarrow> bool \<Rightarrow> bool" where
  "entries_end L fl p e found' \<longleftrightarrow> p = e \<or> (p < e \<and> entry_index (doe L 0 (bytes fl p 4)) > 1024 \<and> found')"

lemma scan_entries:
  assumes "nor_flash L" "scrambles L enc"
  shows "find_vm s \<Longrightarrow> \<not> power_off s \<Longrightarrow> 0 < sc_addr s \<Longrightarrow> end_addr s \<le> 4294959104 \<Longrightarrow>
    bytes fl (sc_addr s) (length (entries_image L enc es)) = entries_image L enc es \<Longrightarrow>
    \<forall>e \<in> set es. entry_ok (sc_tab s) e \<Longrightarrow> sc_addr s + length (entries_image L enc es) \<le> end_addr s \<Longrightarrow>
    entries_end L fl (sc_addr s + length (entries_image L enc es)) (end_addr s)
      (sc_find s \<or> (\<exists>e \<in> set es. map_of (sc_tab s) (fst e) \<noteq> None)) \<Longrightarrow>
    \<exists>s'. scan_loop L fl 0 s = Some s' \<and> sc_tab s' = fold load_item es (sc_tab s) \<and> sc_info s' = sc_info s"
proof (induction es arbitrary: s)
  case Nil
  let ?t = "s\<lparr>last_vm_addr := (if last_vm_addr s = 0 then vm_addr (sc_info s) else last_vm_addr s), find_vm := True\<rparr>"
  show ?case
  proof (cases "sc_addr s < end_addr s")
    case False
    then show ?thesis by (subst scan_loop.simps) simp
  next
    case True
    then have "entry_index (doe L 0 (bytes fl (sc_addr s) 4)) > 1024" "sc_find s"
      using Nil.prems(8) by (simp_all add: entries_end_def entries_image_def)
    then have "scan_entry L fl 0 s = (?t, False)"
      by (simp add: scan_entry_def Let_def nor_flash_simps [OF assms(1)] next_sector_def)
    then show ?thesis using True Nil.prems(1,3) by (subst scan_loop.simps) (simp add: scan_body_def)
  qed
next
  case (Cons e es)
  let ?a = "sc_addr s" and ?n = "length (snd e)"
  have ok: "entry_ok (sc_tab s) e" using Cons.prems(6) by simp
  have le: "length (enc xs) = length xs" "doe L 0 (enc xs) = xs" for xs
    using assms(2) by (simp_all add: scrambles_def)
  have hl: "length (entry_header L e) = 4" by (simp add: entry_header_def)
  have img: "entries_image L enc (e # es) = enc (entry_header L e) @ enc (snd e) @ entries_image L enc es"
    by (simp add: entries_image_def entry_image_def)
  have len: "length (entries_image L enc (e # es)) = 4 + ?n + length (entries_image L enc es)"
    by (simp add: img le hl)
  have fl: "bytes fl ?a 4 = enc (entry_header L e)" "bytes fl (?a + 4) ?n = enc (snd e)"
    "bytes fl (?a + 4 + ?n) (length (entries_image L enc es)) = entries_image L enc es"
    using Cons.prems(5) unfolding img bytes_split by (simp_all add: le hl add.assoc)
  have end': "?a + 4 + ?n + length (entries_image L enc es) \<le> end_addr s" using Cons.prems(7) len by simp
  define t where "t = s\<lparr>last_vm_addr := (if last_vm_addr s = 0 then vm_addr (sc_info s) else last_vm_addr s),
    find_vm := True, sc_tab := load_item e (sc_tab s), sc_find := (sc_find s \<or> map_of (sc_tab s) (fst e) \<noteq> None),
    setp := ?n + 4, vm_used_size := vm_used_size s + ?n + 4\<rparr>"
  have hf: "entry_index (entry_header L e) = fst e" "entry_len (entry_header L e) = ?n" "fst e \<le> 1024"
    using ok header_fields by (simp_all add: entry_ok_def)
  have h0: "entry_header L e ! 0 = u8 (CRC16 L (snd e))" by (simp add: entry_header_def)
  have a4: "u32_add ?a 4 = ?a + 4" using end' Cons.prems(4) by simp
  have "scan_entry L fl 0 s = (t, True)"
    using find_item [OF assms ok fl(2)] Cons.prems(2) hf
    by (simp add: scan_entry_def Let_def nor_flash_simps [OF assms(1)] fl le h0 a4 t_def)
  then have "scan_loop L fl 0 s = scan_loop L fl 0 (t\<lparr>sc_addr := u32_add (sc_addr t) (setp t)\<rparr>)"
    using Cons.prems(1,3) end' by (subst scan_loop.simps) (simp add: scan_body_def)
  also have "u32_add (sc_addr t) (setp t) = ?a + 4 + ?n" using end' Cons.prems(4) by (simp add: t_def)
  finally have lp: "scan_loop L fl 0 s = scan_loop L fl 0 (t\<lparr>sc_addr := ?a + 4 + ?n\<rparr>)" .
  have "\<forall>x \<in> set es. entry_ok (load_item e (sc_tab s)) x" using Cons.prems(6) ok entry_ok_load by auto
  moreover have "entries_end L fl (?a + 4 + ?n + length (entries_image L enc es)) (end_addr s)
      (sc_find t \<or> (\<exists>x \<in> set es. map_of (sc_tab t) (fst x) \<noteq> None))"
  proof -
    have "(sc_find t \<or> (\<exists>x \<in> set es. map_of (sc_tab t) (fst x) \<noteq> None)) =
        (sc_find s \<or> (\<exists>x \<in> set (e # es). map_of (sc_tab s) (fst x) \<noteq> None))"
    proof -
      have st: "sc_find t = (sc_find s \<or> map_of (sc_tab s) (fst e) \<noteq> None)" "sc_tab t = load_item e (sc_tab s)"
        by (simp_all add: t_def)
      show ?thesis unfolding st load_dom list.set by blast
    qed
    then show ?thesis using Cons.prems(8) unfolding len by (simp only: add.assoc)
  qed
  ultimately have "\<exists>s'. scan_loop L fl 0 (t\<lparr>sc_addr := ?a + 4 + ?n\<rparr>) = Some s' \<and>
      sc_tab s' = fold load_item es (load_item e (sc_tab s)) \<and> sc_info s' = sc_info s"
    using Cons.IH [of "t\<lparr>sc_addr := ?a + 4 + ?n\<rparr>"] Cons.prems(2-4) fl(3) end' by (simp add: t_def)
  then show ?case unfolding lp by simp
qed

text \<open>C21: From an area as the application writes it, the loader takes exactly its items: each entry of
  the table, the Wi-Fi settings and the update address, is overwritten by the entries with its
  index in the order they lie in the flash, so the last one counts, and everything else is left
  alone.  The area ends with the entries or with erased flash.\<close>

theorem vm_items_found:
  assumes "nor_flash L" "scrambles L enc" "BASE_ADR L < vm_addr v" "es \<noteq> []"
    and "vm_addr v + vm_len v \<le> 4294959104" "length (vm_image L enc es) \<le> vm_len v"
    and "bytes fl (vm_addr v) (length (vm_image L enc es)) = vm_image L enc es"
    and "\<forall>e \<in> set es. entry_ok tab e"
    and "entries_end L fl (vm_addr v + length (vm_image L enc es)) (vm_addr v + vm_len v)
      (\<exists>e \<in> set es. map_of tab (fst e) \<noteq> None)"
  shows "vm_area_info_find L fl v tab = Some (v, fold load_item es tab)"
proof -
  let ?a = "vm_addr v"
  have le: "length (enc xs) = length xs" "doe L 0 (enc xs) = xs" for xs
    using assms(2) by (simp_all add: scrambles_def)
  have img: "vm_image L enc es = enc (le32 VM_MAGIC_USING) @ entries_image L enc es"
    by (simp add: vm_image_def entries_image_def)
  have len: "length (vm_image L enc es) = 4 + length (entries_image L enc es)" by (simp add: img le)
  have fl: "bytes fl ?a 4 = enc (le32 VM_MAGIC_USING)"
    "bytes fl (?a + 4) (length (entries_image L enc es)) = entries_image L enc es"
    using assms(7) unfolding img bytes_split by (simp_all add: le)
  obtain e es' where es: "es = e # es'" using assms(4) by (cases es) auto
  have pos: "0 < length (entries_image L enc es)"
    by (simp add: es entries_image_def entry_image_def le entry_header_def)
  let ?s = "scan_start L v tab"
  have s: "sc_addr ?s = ?a" "end_addr ?s = ?a + vm_len v" "sc_info ?s = v" "sc_tab ?s = tab" "\<not> find_vm ?s"
    "\<not> power_off ?s" "\<not> sc_find ?s"
    using assms(3,5) by (simp_all add: scan_start_def Let_def)
  let ?t = "?s\<lparr>sc_addr := ?a + 4, find_vm := True\<rparr>"
  have m: "get32 (\<lambda>i. le32 VM_MAGIC_USING ! i) 0 = VM_MAGIC_USING"
    by (simp add: get32_def le32_def)
  have "4 < vm_len v" using assms(6) pos unfolding len by linarith
  then have a4: "u32_add ?a 4 = ?a + 4" "?a + 4 < ?a + vm_len v" using assms(5) by simp_all
  have b: "scan_body L fl 0 ?s = scan_body L fl 0 ?t"
  proof -
    have "scan_body L fl 0 ?s = scan_entry L fl 0 (?s\<lparr>sc_addr := ?a + 4\<rparr>)"
      using s a4 m by (simp add: scan_body_def Let_def nor_flash_simps [OF assms(1)] fl le)
    also have "\<dots> = scan_entry L fl 0 ?t" by (simp add: scan_entry_def)
    finally show ?thesis by (simp add: scan_body_def)
  qed
  have "scan_loop L fl 0 ?s = scan_loop L fl 0 ?t"
    by (subst (1 2) scan_loop.simps) (use b s a4 assms(3) in simp)
  moreover have "\<exists>s'. scan_loop L fl 0 ?t = Some s' \<and> sc_tab s' = fold load_item es (sc_tab ?t) \<and> sc_info s' = sc_info ?t"
    by (rule scan_entries [OF assms(1,2)]) (use s fl assms(3,5,6,8,9) len in \<open>simp_all add: add.assoc\<close>)
  ultimately have "scan_loop L fl 0 ?s \<noteq> None \<and> map_option sc_tab (scan_loop L fl 0 ?s) = Some (fold load_item es tab) \<and>
      map_option sc_info (scan_loop L fl 0 ?s) = Some v" using s by auto
  then show ?thesis using s assms(3) by (auto simp: vm_area_info_find_def Let_def)
qed

text \<open>The last entry with an index decides the start of the variable; a shorter entry leaves the rest of an
  older one behind it.\<close>

lemma load_leaves_tail:
  "map_of tab (fst e) = Some b \<Longrightarrow>
    map_of (load_item e tab) (fst e) = Some (snd e @ drop (length (snd e)) b)"
  by (simp add: load_item_def map_of_set_item)

text \<open>An entry that is longer than the variable is never accepted when the check sum of its start is not
  that of the whole.\<close>

lemma long_entry_cleared:
  assumes "nor_flash L" "map_of tab i = Some b" "length b < n" "c \<noteq> u8 (CRC16 L (take (length b) (doe L 0 (bytes fl a (length b)))))"
  shows "vm_area_info_index_find L fl 0 i a c n tab = (set_item tab i (replicate (length b) 0), False)"
  using assms by (simp add: vm_area_info_index_find_def Let_def nor_flash_simps)

text \<open>When the backup is not where the first boot stage says, the search falls back to other sectors and sets
  the length of the backup to what has been used so far, four bytes; the entries it finds there are
  not added to it, so that only four bytes are kept over the update.\<close>

lemma fallback_length:
  "next_sector L s = (s', True) \<Longrightarrow> vm_len (sc_info s') = vm_used_size s"
  "\<not> power_off s \<Longrightarrow> scan_entry L fl k s = (s', True) \<Longrightarrow> find_vm s' \<Longrightarrow> sc_info s' = sc_info s"
  by (auto simp: next_sector_def scan_entry_def Let_def split: if_splits prod.splits)

section \<open>Concrete runs\<close>

definition ex_spi :: spiflash where
  "ex_spi = \<lparr>spi0flash_read = (\<lambda>m a n. (int n, bytes m a n)),
    spi0flash_eraser = (\<lambda>a m x. if x div 4096 = a div 4096 then 255 else m x),
    spi0flash_any_write = (\<lambda>bs a m. mcpy_in m a bs), flash_get_vm_area_info = (20480, 4096),
    get_flash_capability = 65536, BASE_ADR = 4096, doe = (\<lambda>_ bs. bs), CRC16 = sum_list\<rparr>"

lemma ex_spi_ok: "nor_flash ex_spi" "good_chip ex_spi" "decoder ex_spi" "scrambles ex_spi (\<lambda>bs. bs)"
  by (simp_all add: nor_flash_def good_chip_def decoder_def scrambles_def ex_spi_def)

definition ex_vm :: vm_info_type where
  "ex_vm = \<lparr>vm_addr = 40960, vm_len = 300, vm_data = None\<rparr>"

theorem vm_survives_update_witness:
  "\<exists>fl''. vm_data_recover ex_spi (fst (vm_data_read ex_spi True (\<lambda>x. x mod 251) ex_vm)) (\<lambda>_. 0) = Some (300, fl'') \<and>
    bytes fl'' 20480 300 = bytes (\<lambda>x. x mod 251) 40960 300"
proof -
  have "sectors 40960 300 \<inter> sectors 20480 300 = {}" by (auto simp: sectors_def)
  then show ?thesis
    using vm_survives_update [of ex_spi ex_vm 20480 4096 "\<lambda>x. x mod 251" "\<lambda>_. 0"] ex_spi_ok(1)
    by (auto simp: ex_spi_def ex_vm_def)
qed

theorem vm_search_ends_witness:
  "\<exists>r. vm_area_info_find ex_spi (\<lambda>_. 255) ex_vm [] = Some r"
  by (rule vm_search_ends [OF ex_spi_ok(2,3,1)]) (simp_all add: ex_vm_def)

definition ex_entries :: "vm_entry list" where
  "ex_entries = [(195, [1, 2]), (7, [9]), (245, [104])]"

lemma ex_image_length: "length (vm_image ex_spi (\<lambda>bs. bs) ex_entries) = 20"
  by (simp add: vm_image_def ex_entries_def entry_image_def entry_header_def)

theorem vm_items_found_witness:
  "vm_area_info_find ex_spi (mcpy_in (\<lambda>_. 255) 40960 (vm_image ex_spi (\<lambda>bs. bs) ex_entries)) ex_vm
      [(195, [0, 0, 0]), (245, [5, 6])] = Some (ex_vm, [(195, [1, 2, 0]), (245, [104, 6])])"
proof -
  let ?img = "vm_image ex_spi (\<lambda>bs. bs) ex_entries" and ?tab = "[(195, [0, 0, 0]), (245, [5, 6])] :: vm_table"
  have len: "length ?img = 20" by (rule ex_image_length)
  have at: "mcpy_in (\<lambda>_. 255) 40960 ?img x = 255" if "40980 \<le> x" for x
    using that by (intro mcpy_in_out) (simp add: len)
  have d: "doe ex_spi 0 bs = bs" for bs by (simp add: ex_spi_def)
  have f: "\<exists>e \<in> set ex_entries. map_of ?tab (fst e) \<noteq> None" by (simp add: ex_entries_def)
  have "vm_area_info_find ex_spi (mcpy_in (\<lambda>_. 255) 40960 ?img) ex_vm ?tab = Some (ex_vm, fold load_item ex_entries ?tab)"
  proof (rule vm_items_found [OF ex_spi_ok(1,4)])
    show "bytes (mcpy_in (\<lambda>_. 255) 40960 ?img) (vm_addr ex_vm) (length ?img) = ?img"
      by (simp add: ex_vm_def bytes_mcpy_in)
    show "entries_end ex_spi (mcpy_in (\<lambda>_. 255) 40960 ?img) (vm_addr ex_vm + length ?img) (vm_addr ex_vm + vm_len ex_vm)
        (\<exists>e \<in> set ex_entries. map_of ?tab (fst e) \<noteq> None)"
      using f by (simp add: entries_end_def ex_vm_def len d entry_index_def at)
  qed (simp_all add: ex_vm_def len, simp_all add: ex_spi_def ex_entries_def entry_ok_def)
  then show ?thesis by (simp add: ex_entries_def load_item_def set_item_def)
qed

end
