(* ===== verification/PrintfStdarg.thy ===== *)
theory PrintfStdarg
  imports Vsprintf
begin

unbundle bit_operations_syntax

text \<open>
  The console formatter (\<open>common/printf-stdarg.c\<close>, in the builds with \<open>UART_DEBUG\<close> and \<open>NOFLOAT\<close>):
  hexadecimal dumps, \<open>puts\<close> and the small \<open>print\<close> behind \<open>printf\<close> and \<open>sprintf\<close>.

  Output is the text written: the bytes of the serial line for the console, where a line feed is
  sent with a carriage return, or those of the buffer.  Strings are read from a byte memory.  A format
  that ends inside a conversion makes the loop run over its terminator; that, and a missing
  argument, is \<^const>\<open>None\<close>.
\<close>

section \<open>Bytes of the serial line\<close>

definition con_putchar :: "byte \<Rightarrow> byte list" where
  "con_putchar a = (if a = 10 then [13, 10] else [a])"

definition put_u4hex :: "nat \<Rightarrow> byte list" where
  "put_u4hex dat =
    (let dat = 15 AND dat in [if dat > 9 then dat - 10 + asc CHR ''A'' else dat + asc CHR ''0''])"

definition put_u32hex :: "nat \<Rightarrow> byte list" where
  "put_u32hex dat = [asc CHR ''0'', asc CHR ''x''] @
     put_u4hex (u8 (drop_bit 28 dat)) @ put_u4hex (u8 (drop_bit 24 dat)) @
     put_u4hex (u8 (drop_bit 20 dat)) @ put_u4hex (u8 (drop_bit 16 dat)) @
     put_u4hex (u8 (drop_bit 12 dat)) @ put_u4hex (u8 (drop_bit 8 dat)) @
     put_u4hex (u8 (drop_bit 4 dat)) @ put_u4hex (u8 dat) @ con_putchar 10"

definition put_u16hex :: "nat \<Rightarrow> byte list" where
  "put_u16hex dat = [asc CHR ''0'', asc CHR ''x''] @
     put_u4hex (u8 (drop_bit 12 dat)) @ put_u4hex (u8 (drop_bit 8 dat)) @
     put_u4hex (u8 (drop_bit 4 dat)) @ put_u4hex (u8 dat) @ con_putchar (asc CHR '' '')"

definition put_u8hex :: "nat \<Rightarrow> byte list" where
  "put_u8hex dat = put_u4hex (drop_bit 4 dat) @ put_u4hex dat @ con_putchar (asc CHR '' '')"

text \<open>A dump: the address, then sixteen bytes a line.\<close>

definition printf_buf :: "(addr \<Rightarrow> byte) \<Rightarrow> addr \<Rightarrow> nat \<Rightarrow> byte list" where
  "printf_buf m b len = put_u32hex b @
     concat (map (\<lambda>i. (if i \<noteq> 0 \<and> i mod 16 = 0 then [10] else []) @ put_u8hex (m (u32_add b i))) [0..<len]) @ [10]"

definition put_buf :: "(addr \<Rightarrow> byte) \<Rightarrow> addr \<Rightarrow> nat \<Rightarrow> byte list" where
  "put_buf m b len = printf_buf m b len"

definition con_puts :: "byte list \<Rightarrow> byte list" where
  "con_puts s = concat (map con_putchar s) @ con_putchar 10"

section \<open>Fields\<close>

definition PAD_RIGHT :: nat where "PAD_RIGHT = 1"
definition PAD_ZERO :: nat where "PAD_ZERO = 2"

definition prints :: "byte list \<Rightarrow> int \<Rightarrow> nat \<Rightarrow> byte list" where
  "prints s width pad =
    (let padchar = (if width > 0 \<and> has pad PAD_ZERO then asc CHR ''0'' else asc CHR '' '');
         width = (if width > 0 then if int (length s) \<ge> width then 0 else width - int (length s) else width);
         p = replicate (nat width) padchar
     in if has pad PAD_RIGHT then s @ p else p @ s)"

definition digit_char :: "nat \<Rightarrow> nat \<Rightarrow> byte" where
  "digit_char letbase t = (if t \<ge> 10 then t + (letbase - asc CHR ''0'' - 10) else t) + asc CHR ''0''"

text \<open>The digits are put into \<open>print_buf\<close> from its end.\<close>

definition printi :: "int \<Rightarrow> nat \<Rightarrow> bool \<Rightarrow> int \<Rightarrow> nat \<Rightarrow> nat \<Rightarrow> byte list" where
  "printi i b sg width pad letbase =
    (if i = 0 then prints [asc CHR ''0''] width pad
     else
       let neg = (sg \<and> b = 10 \<and> i < 0);
           u = nat ((if neg then - i else i) mod 4294967296);
           s = rev (map (digit_char letbase) (digits_lsb b u))
       in if neg
          then if width \<noteq> 0 \<and> has pad PAD_ZERO
               then asc CHR ''-'' # prints s (s32 (width - 1)) pad
               else prints (asc CHR ''-'' # s) width pad
          else prints s width pad)"

section \<open>The format\<close>

text \<open>\<open>skip_atoi\<close>: the number and what is behind it.\<close>

definition con_atoi :: "byte list \<Rightarrow> int \<times> byte list" where
  "con_atoi f = (s32 (int (foldl (\<lambda>v c. v * 10 + (c - asc CHR ''0'')) 0 (takeWhile is_digit f))), dropWhile is_digit f)"

text \<open>The part of a conversion before its letter; the precision is read and not used.\<close>

definition con_spec :: "byte list \<Rightarrow> va list \<Rightarrow> (nat \<times> int \<times> byte list \<times> va list) option" where
  "con_spec f args =
    (let (pad, f) = (if pk f = asc CHR ''-'' then (PAD_RIGHT, tl f) else (0, f));
         pad = (if pk f = asc CHR ''0'' then pad OR PAD_ZERO else pad);
         f = dropWhile (\<lambda>c. c = asc CHR ''0'') f;
         (width, f) = (if is_digit (pk f) then con_atoi f else (-1, f))
     in if pk f = asc CHR ''.''
        then let f = tl f
          in if is_digit (pk f) then Some (pad, width, snd (con_atoi f), args)
             else if pk f = asc CHR ''*''
             then (case args of VInt n # args \<Rightarrow> Some (pad, width, tl f, args) | _ \<Rightarrow> None)
             else Some (pad, width, f, args)
        else Some (pad, width, f, args))"

definition con_string :: "(addr \<Rightarrow> byte) \<Rightarrow> addr \<Rightarrow> byte list" where
  "con_string m p =
    (if p = 0 then cstr ''(null)'' else map (\<lambda>i. m (u32_add p i)) [0..<strnlen m p 2147483647])"

text \<open>The letter; an unknown one is skipped.\<close>

definition con_conv :: "(addr \<Rightarrow> byte) \<Rightarrow> byte \<Rightarrow> nat \<Rightarrow> int \<Rightarrow> va list \<Rightarrow> (byte list \<times> va list) option" where
  "con_conv m c pad width args =
    (if c \<in> {asc CHR ''s'', asc CHR ''d'', asc CHR ''p'', asc CHR ''x'', asc CHR ''X'', asc CHR ''u'', asc CHR ''c''}
     then case args of
       VInt n # args \<Rightarrow>
         let i = s32 (int n)
         in Some (if c = asc CHR ''s'' then prints (con_string m n) width pad
                  else if c = asc CHR ''d'' \<or> c = asc CHR ''p'' then printi i 10 True width pad (asc CHR ''a'')
                  else if c = asc CHR ''x'' then printi i 16 False width pad (asc CHR ''a'')
                  else if c = asc CHR ''X'' then printi i 16 False width pad (asc CHR ''A'')
                  else if c = asc CHR ''u'' then printi i 10 False width pad (asc CHR ''a'')
                  else prints (takeWhile (\<lambda>c. c \<noteq> 0) [u8 n]) width pad, args)
     | _ \<Rightarrow> None
     else Some ([], args))"

lemma shorter_intros:
  "length xs \<le> n \<Longrightarrow> length (dropWhile P xs) \<le> n" "length xs \<le> n \<Longrightarrow> length (tl xs) \<le> n"
  by (auto intro: order_trans [OF length_dropWhile_le])

lemma con_spec_shorter: "con_spec f args = Some (pad, width, g, args') \<Longrightarrow> length g \<le> length f"
  by (auto simp: con_spec_def con_atoi_def Let_def simp del: length_tl intro!: shorter_intros
      split: if_splits list.splits va.splits prod.splits)

function con_print :: "(addr \<Rightarrow> byte) \<Rightarrow> byte list \<Rightarrow> va list \<Rightarrow> byte list option" where
  "con_print m [] args = Some []"
| "con_print m (c # f) args =
    (if c \<noteq> asc CHR ''%'' then map_option (Cons c) (con_print m f args)
     else if f = [] then Some []
     else if pk f = asc CHR ''%'' then map_option (Cons (pk f)) (con_print m (tl f) args)
     else case con_spec f args of
       None \<Rightarrow> None
     | Some (pad, width, g, args) \<Rightarrow>
         if g = [] then None
         else (case con_conv m (pk g) pad width args of
                 None \<Rightarrow> None
               | Some (t, args) \<Rightarrow> map_option ((@) t) (con_print m (tl g) args)))"
  by pat_completeness auto
termination
  by (relation "measure (\<lambda>(_, f, _). length f)") (auto dest!: con_spec_shorter simp: less_Suc_eq_le)

text \<open>The text of the serial line and the count returned; the buffer, with its terminator, and the count.\<close>

definition con_printf :: "(addr \<Rightarrow> byte) \<Rightarrow> byte list \<Rightarrow> va list \<Rightarrow> (byte list \<times> nat) option" where
  "con_printf m f args = map_option (\<lambda>t. (concat (map con_putchar t), length t)) (con_print m f args)"

definition con_sprintf :: "(addr \<Rightarrow> byte) \<Rightarrow> byte list \<Rightarrow> va list \<Rightarrow> (byte list \<times> nat) option" where
  "con_sprintf m f args = map_option (\<lambda>t. (t @ [0], length t)) (con_print m f args)"

end
