(* ===== verification/PrintfStdarg_Spec.thy ===== *)
theory PrintfStdarg_Spec
  imports PrintfStdarg Vsprintf_Spec
begin

unbundle bit_operations_syntax

text \<open>
  The console formatter agrees with the bounded one of \<open>Vsnprintf.c\<close> on integers; where it does not
  follow C is stated as lemmas.
\<close>

section \<open>Fields\<close>

lemma prints_ref:
  "prints s width pad =
    (let p = replicate (nat width - length s) (if has pad PAD_ZERO then asc CHR ''0'' else asc CHR '' '')
     in if has pad PAD_RIGHT then s @ p else p @ s)"
proof -
  have "nat (if width > 0 then if int (length s) \<ge> width then 0 else width - int (length s) else width) =
      nat width - length s" by auto
  moreover have "replicate (nat width - length s) (if width > 0 \<and> has pad PAD_ZERO then asc CHR ''0'' else asc CHR '' '') =
      replicate (nat width - length s) (if has pad PAD_ZERO then asc CHR ''0'' else asc CHR '' '')"
    by (cases "width > 0") simp_all
  ultimately show ?thesis unfolding prints_def Let_def by (simp del: asc_Char)
qed

lemma digit_char_eq:
  assumes "b = 10 \<or> b = 16" "d < b" "letbase = asc CHR ''a'' \<or> letbase = asc CHR ''A''"
  shows "digit_char letbase d = (if b = 10 then d + 48 else hex_char (if letbase = asc CHR ''a'' then 32 else 0) d)"
proof (cases "b = 10")
  case True
  with assms show ?thesis by (simp add: digit_char_def)
next
  case False
  with assms have "d < 16" by simp
  from hex_digit_cases [OF this] assms(3) False show ?thesis
    by (auto simp: digit_char_def hex_char_def)
qed

section \<open>Integers\<close>

text \<open>The flags of the bounded formatter that stand for a conversion of the console.\<close>

definition con_flags :: "nat \<Rightarrow> bool \<Rightarrow> nat \<Rightarrow> nat \<Rightarrow> bool" where
  "con_flags flags sg pad letbase \<longleftrightarrow>
     (has flags N_SIGN \<longleftrightarrow> sg) \<and> (has flags N_SMALL \<longleftrightarrow> letbase = asc CHR ''a'') \<and>
     (has flags N_LEFT \<longleftrightarrow> has pad PAD_RIGHT) \<and> (has flags N_ZERO \<longleftrightarrow> has pad PAD_ZERO) \<and>
     \<not> has flags N_PLUS \<and> \<not> has flags N_SPACE"

lemma printi_ref:
  assumes "con_flags flags sg pad letbase" "b = 10 \<or> b = 16" "sg \<longrightarrow> b = 10"
    and "letbase = asc CHR ''a'' \<or> letbase = asc CHR ''A''" "\<not> (has pad PAD_RIGHT \<and> has pad PAD_ZERO)"
    and "-2147483648 \<le> i" "i < 2147483648" "-1 \<le> width" "width < 32768"
  shows "printi i b sg width pad letbase = number_ref (num_bits flags i) (nspec flags b width (-1))"
proof -
  let ?neg = "sg \<and> i < 0"
  define mag where "mag = nat ((if ?neg then - i else i) mod 4294967296)"
  define ds where "ds = numeral_text b (lower flags) mag"
  define sc where "sc = (if ?neg then [asc CHR ''-''] else [])"
  note fl = assms(1) [unfolded con_flags_def]
  have f: "sp_width (nspec flags b width (-1)) = width" "sp_precision (nspec flags b width (-1)) = -1"
    "sp_base (nspec flags b width (-1)) = b" by (simp_all add: nspec_def)
  have nb: "sg \<and> 9223372036854775808 \<le> num_bits flags i \<longleftrightarrow> ?neg"
    "(if ?neg then 18446744073709551616 - num_bits flags i else num_bits flags i) = mag"
  proof -
    have "num_bits flags i = (if sg then (if i < 0 then nat (i + 18446744073709551616) else nat i) else nat (i mod 4294967296))"
      using int_mod_64 [of i] assms(6,7) fl by (simp add: num_bits_def)
    then show "sg \<and> 9223372036854775808 \<le> num_bits flags i \<longleftrightarrow> ?neg"
      "(if ?neg then 18446744073709551616 - num_bits flags i else num_bits flags i) = mag"
      using assms(6,7) by (auto simp: mag_def)
  qed
  have ref: "number_ref (num_bits flags i) (nspec flags b width (-1)) =
    (let p = nat width - (length sc + length ds)
     in if has pad PAD_RIGHT then sc @ ds @ replicate p (asc CHR '' '')
        else if has pad PAD_ZERO then sc @ replicate p (asc CHR ''0'') @ ds
        else replicate p (asc CHR '' '') @ sc @ ds)"
    using fl unfolding number_ref_def Let_def nspec_flags f
    by (simp add: nb ds_def sc_def nspec_flags(6) del: asc_Char)
  show ?thesis
  proof (cases "i = 0")
    case True
    then have "ds = [asc CHR ''0'']" "sc = []" by (simp_all add: ds_def mag_def numeral_text_def sc_def)
    with True ref assms(5) show ?thesis by (auto simp: printi_def prints_ref Let_def simp del: asc_Char)
  next
    case False
    have m: "mag \<noteq> 0"
    proof -
      have "i mod 4294967296 \<noteq> 0" if "\<not> ?neg"
      proof (cases "i < 0")
        case True
        with int_mod_32 [of i] assms(6,7) show ?thesis by simp
      qed (use False assms(7) in simp)
      moreover have "(- i) mod 4294967296 \<noteq> 0" if "?neg" using that assms(6) by simp
      ultimately have "(if ?neg then - i else i) mod 4294967296 \<noteq> 0" by simp
      moreover have "0 \<le> (if ?neg then - i else i) mod 4294967296" by simp
      ultimately show ?thesis unfolding mag_def by linarith
    qed
    have lo: "lower flags = (if letbase = asc CHR ''a'' then 32 else 0)" using fl by (simp add: lower_def del: asc_Char)
    have "map (digit_char letbase) (digits_lsb b mag) =
        map (if b = 10 then (\<lambda>d. d + 48) else hex_char (lower flags)) (digits_lsb b mag)"
    proof (rule map_cong [OF refl])
      fix d assume "d \<in> set (digits_lsb b mag)"
      then have "d < b" by (rule digits_lsb_range)
      from digit_char_eq [OF assms(2) this assms(4)]
      show "digit_char letbase d = (if b = 10 then (\<lambda>d. d + 48) else hex_char (lower flags)) d"
        unfolding lo by simp
    qed
    then have s: "rev (map (digit_char letbase) (digits_lsb b mag)) = ds" using m by (simp add: ds_def numeral_text_def)
    have neg: "(sg \<and> b = 10 \<and> i < 0) = ?neg" using assms(3) by blast
    have w: "s32 (width - 1) = width - 1" using assms(8,9) by simp
    have n: "nat (width - 1) - length ds = nat width - Suc (length ds)" by (simp add: nat_diff_distrib')
    have "printi i b sg width pad letbase = (if ?neg
       then if width \<noteq> 0 \<and> has pad PAD_ZERO then asc CHR ''-'' # prints ds (width - 1) pad
            else prints (asc CHR ''-'' # ds) width pad
       else prints ds width pad)"
      using False unfolding printi_def Let_def neg mag_def [symmetric] s w by simp
    also have "\<dots> = number_ref (num_bits flags i) (nspec flags b width (-1))"
      unfolding ref prints_ref Let_def using assms(5) n by (auto simp: sc_def simp del: asc_Char)
    finally show ?thesis .
  qed
qed

text \<open>C33: The console prints integers like the bounded formatter: for every 32-bit value, in decimal with
  or without a sign and in hexadecimal of either case, with any field width, padded with spaces or
  zeros on the left or spaces on the right, \<open>printi\<close> writes the text that \<open>number\<close> emits for the same
  value and the same flags.\<close>

theorem console_integers_agree:
  assumes "con_flags flags sg pad letbase" "b = 10 \<or> b = 16" "sg \<longrightarrow> b = 10"
    and "letbase = asc CHR ''a'' \<or> letbase = asc CHR ''A''" "\<not> (has pad PAD_RIGHT \<and> has pad PAD_ZERO)"
    and "-2147483648 \<le> i" "i < 2147483648" "-1 \<le> width" "width < 32768"
  shows "number o' (num_bits flags i) (nspec flags b width (-1)) = emits o' (printi i b sg width pad letbase)"
proof -
  have "spec_ok (nspec flags b width (-1))" using assms(2,8,9) by (auto simp: spec_ok_def nspec_def)
  moreover have "num_bits flags i < 18446744073709551616"
  proof -
    have "i mod 4294967296 < 4294967296" "i mod 18446744073709551616 < 18446744073709551616" by simp_all
    then show ?thesis by (auto simp: num_bits_def)
  qed
  ultimately show ?thesis using number_layout_eq printi_ref [OF assms] by simp
qed

theorem console_integers_agree_witness:
  "\<forall>o'. number o' (num_bits (N_SIGN OR N_ZERO OR N_SMALL) (-42)) (nspec (N_SIGN OR N_ZERO OR N_SMALL) 10 6 (-1)) =
    emits o' (printi (-42) 10 True 6 PAD_ZERO (asc CHR ''a''))"
  by (intro allI console_integers_agree) (simp_all add: con_flags_def has_def nflag_defs PAD_ZERO_def PAD_RIGHT_def)

section \<open>Where the console differs from C\<close>

text \<open>Left-justified with zeros, it pads with zeros on the right.\<close>

lemma pads_right_with_zeros:
  "con_print m (cstr ''%-05d'') [VInt 42] = Some (cstr ''42000'')"
proof -
  have b: "has (PAD_RIGHT OR PAD_ZERO) PAD_ZERO" "has (PAD_RIGHT OR PAD_ZERO) PAD_RIGHT"
    by (simp_all add: has_def PAD_ZERO_def PAD_RIGHT_def)
  have "printi 42 10 True 5 (PAD_RIGHT OR PAD_ZERO) 97 = cstr ''42000''"
    using b by (simp add: printi_def prints_ref digits_lsb.simps digit_char_def numeral_3_eq_3 Let_def)
  then show ?thesis
    by (simp add: con_spec_def con_conv_def con_atoi_def is_digit_def Let_def)
qed

text \<open>A format that ends inside a conversion is read beyond its terminator.\<close>

lemma runs_over_format: "con_print m (cstr ''%5'') [VInt 42] = None"
  by (simp add: con_spec_def con_atoi_def is_digit_def Let_def)

end
