(* ===== verification/WifiConf.thy ===== *)
theory WifiConf
  imports ByteMem PrintfStdarg
begin

text \<open>
  The settings of the wireless driver (\<open>demo_wifi/wifi_conf.c\<close>): the two texts the driver is
  configured with, the functions that write the channel, the name and the passphrase into the
  text of the access point, and the two packet filters.

  \<open>WLAP_DAT\<close> is an array that is overwritten in place: a list of bytes of fixed length, its
  terminator included.  A write outside the array, which is what a \<open>memset\<close> with a length below
  zero comes to, and a write through the result of an unsuccessful \<open>strstr\<close> are \<^const>\<open>None\<close>.
\<close>

section \<open>The texts\<close>

definition WLAP_lines :: "string list" where
  "WLAP_lines = [
    ''#The word of \"Default\" must not be removed'', ''Default'',
    ''MacAddress=00:00:00:00:00:00'', ''CountryRegion=1'', ''CountryRegionABand=0'',
    ''CountryCode=CN'', ''BssidNum=1'', ''MaxStaNum=3'', ''IdleTimeout=300'',
    ''SSID=####SSID_LENTH_MUST_LESS_THAN_32'', ''WirelessMode=9'', ''TxRate=0'',
    ''Channel=11#'', ''BasicRate=15'', ''BeaconPeriod=100'', ''DtimPeriod=1'', ''TxPower=100'',
    ''DisableOLBC=0'', ''BGProtection=0'', ''TxAntenna='', ''RxAntenna='', ''TxPreamble=1'',
    ''RTSThreshold=2347'', ''FragThreshold=2346'', ''TxBurst=0'', ''PktAggregate=0'',
    ''TurboRate=0'', ''WmmCapable=0'', ''APSDCapable=0'', ''DLSCapable=0'', ''APAifsn=3;7;1;1'',
    ''APCwmin=4;4;3;2'', ''APCwmax=6;10;4;3'', ''APTxop=0;0;94;47'', ''APACM=0;0;0;0'',
    ''BSSAifsn=3;7;2;2'', ''BSSCwmin=4;4;3;2'', ''BSSCwmax=10;10;4;3'', ''BSSTxop=0;0;94;47'',
    ''BSSACM=0;0;0;0'', ''AckPolicy=0;0;0;0'', ''NoForwarding=0'', ''NoForwardingBTNBSSID=0'',
    ''HideSSID=0'', ''StationKeepAlive=0'', ''ShortSlot=1'', ''AutoChannelSelect=0'',
    ''IEEE8021X=0'', ''IEEE80211H=0'', ''CSPeriod=10'', ''WirelessEvent=0'', ''IdsEnable=0'',
    ''AuthFloodThreshold=32'', ''AssocReqFloodThreshold=32'', ''ReassocReqFloodThreshold=32'',
    ''ProbeReqFloodThreshold=32'', ''DisassocFloodThreshold=32'', ''DeauthFloodThreshold=32'',
    ''EapReqFooldThreshold=32'', ''PreAuth=0'', ''AuthMode=################'',
    ''EncrypType=################'', ''RekeyInterval=0'', ''RekeyMethod=DISABLE'',
    ''PMKCachePeriod=10'',
    ''WPAPSK=#########wpa_passphrase_lenth_must_more_than_7_and_less_than_63'',
    ''DefaultKeyID=1'', ''Key1Type=0'', ''Key1Str='', ''Key2Type=0'', ''Key2Str='',
    ''Key3Type=0'', ''Key3Str='', ''Key4Type=0'', ''Key4Str='', ''HSCounter=0'',
    ''AccessPolicy0=0'', ''AccessControlList0='', ''AccessPolicy1=0'', ''AccessControlList1='',
    ''AccessPolicy2=0'', ''AccessControlList2='', ''AccessPolicy3=0'', ''AccessControlList3='',
    ''WdsEnable=0'', ''WdsEncrypType=NONE'', ''WdsList='', ''WdsKey='',
    ''RADIUS_Server=192.168.2.3'', ''RADIUS_Port=1812'', ''RADIUS_Key=ralink'',
    ''own_ip_addr=192.168.5.234'', ''EAPifname=br0'', ''PreAuthifname=br0'', ''HT_HTC=0'',
    ''HT_RDG=1'', ''HT_EXTCHA=0'', ''HT_LinkAdapt=0'', ''HT_OpMode=0'', ''HT_MpduDensity=4'',
    ''HT_BW=0'', ''HT_BADecline=0'', ''HT_AutoBA=1'', ''HT_AMSDU=0'', ''HT_BAWinSize=64'',
    ''HT_GI=0'', ''HT_MCS=33'', ''MeshId=MESH'', ''MeshAutoLink=1'', ''MeshAuthMode=OPEN'',
    ''MeshEncrypType=NONE'', ''MeshWPAKEY='', ''MeshDefaultkey=1'', ''MeshWEPKEY='',
    ''WscManufacturer='', ''WscModelName='', ''WscDeviceName='', ''WscModelNumber='',
    ''WscSerialNumber='', ''RadioOn=1'', ''PMFMFPC=0'', ''PMFMFPR=0'', ''PMFSHA256=0'']"

definition WL_STA_lines :: "string list" where
  "WL_STA_lines = [
    ''#The word of \"Default\" must not be removed'', ''Default'',
    ''MacAddress=00:00:00:00:00:00'', ''CountryRegion=1'', ''CountryRegionABand=0'',
    ''CountryCode=CN'', ''ChannelGeography=1'', ''SSID=DEFAULT_CONNECT_SSID'',
    ''NetworkType=Infra'', ''WirelessMode=9'', ''Channel=1'', ''BeaconPeriod=100'',
    ''TxPower=100'', ''BGProtection=0'', ''TxPreamble=1'', ''RTSThreshold=2347'',
    ''FragThreshold=2346'', ''TxBurst=0'', ''PktAggregate=0'', ''WmmCapable=1'',
    ''AckPolicy=0;0;0;0'', ''AuthMode=OPEN'', ''EncrypType=NONE'', ''WPAPSK='',
    ''DefaultKeyID=1'', ''Key1Type=0'', ''Key1Str='', ''Key2Type=0'', ''Key2Str='',
    ''Key3Type=0'', ''Key3Str='', ''Key4Type=0'', ''Key4Str='', ''PSMode=CAM'',
    ''AutoRoaming=0'', ''RoamThreshold=70'', ''APSDCapable=1'', ''APSDAC=0;0;0;0'',
    ''HT_RDG=1'', ''HT_EXTCHA=0'', ''HT_OpMode=0'', ''HT_MpduDensity=4'', ''HT_BW=0'',
    ''HT_BADecline=0'', ''HT_AutoBA=1'', ''HT_AMSDU=0'', ''HT_BAWinSize=64'', ''HT_GI=0'',
    ''HT_MCS=33'', ''HT_MIMOPSMode=3'', ''HT_DisallowTKIP=1'', ''HT_STBC=0'',
    ''EthConvertMode='', ''EthCloneMac='', ''IEEE80211H=0'', ''TGnWifiTest=0'',
    ''WirelessEvent=0'', ''MeshId=MESH'', ''MeshAutoLink=1'', ''MeshAuthMode=OPEN'',
    ''MeshEncrypType=NONE'', ''MeshWPAKEY='', ''MeshDefaultkey=1'', ''MeshWEPKEY='',
    ''CarrierDetect=0'', ''AntDiversity=0'', ''BeaconLostTime=16'', ''FtSupport=0'',
    ''Wapiifname=ra0'', ''WapiPsk='', ''WapiPskType='', ''WapiUserCertPath='',
    ''WapiAsCertPath='', ''PSP_XLINK_MODE=0'', ''WscManufacturer='', ''WscModelName='',
    ''WscDeviceName='', ''WscModelNumber='', ''WscSerialNumber='', ''RadioOn=1'',
    ''WIDIEnable=0'', ''P2P_L2SD_SCAN_TOGGLE=8'', ''Wsc4digitPinCode=0'', ''P2P_WIDIEnable=0'',
    ''PMFMFPC=0'', ''PMFMFPR=0'', ''PMFSHA256=0'']"

definition text_lines :: "string list \<Rightarrow> byte list" where
  "text_lines ls = concat (map (\<lambda>l. cstr l @ [10]) ls)"

definition conf_array :: "string list \<Rightarrow> byte list" where
  "conf_array ls = text_lines (butlast ls) @ cstr (last ls) @ [0]"

definition WLAP_DAT :: "byte list" where "WLAP_DAT = conf_array WLAP_lines"
definition WL_STA_DAT :: "byte list" where "WL_STA_DAT = conf_array WL_STA_lines"

text \<open>\<open>strlen\<close>: the text before the terminator.\<close>

definition c_text :: "byte list \<Rightarrow> byte list" where
  "c_text b = takeWhile (\<lambda>c. c \<noteq> 0) b"

definition GET_WL_STA_DAT :: "byte list" where "GET_WL_STA_DAT = WL_STA_DAT"
definition GET_WL_STA_DAT_LEN :: nat where "GET_WL_STA_DAT_LEN = length (c_text WL_STA_DAT)"
definition GET_WL_AP_DAT :: "byte list \<Rightarrow> byte list" where "GET_WL_AP_DAT b = b"
definition GET_WL_AP_DAT_LEN :: "byte list \<Rightarrow> nat" where "GET_WL_AP_DAT_LEN b = length (c_text b)"

section \<open>Writing a setting\<close>

definition poke :: "byte list \<Rightarrow> nat \<Rightarrow> byte list \<Rightarrow> byte list option" where
  "poke b p bs = (if p + length bs \<le> length b then Some (put_mem b p bs) else None)"

definition poke_set :: "byte list \<Rightarrow> nat \<Rightarrow> byte \<Rightarrow> nat \<Rightarrow> byte list option" where
  "poke_set b p c n = (if p + n \<le> length b then Some (put_mem b p (replicate n c)) else None)"

text \<open>The offset behind the first occurrence of a key.\<close>

definition value_at :: "byte list \<Rightarrow> string \<Rightarrow> nat option" where
  "value_at b key = map_option (\<lambda>t. length (c_text b) - length t + length key) (strstr (c_text b) (cstr key))"

text \<open>\<open>strcpy\<close>, the newline and the filler of a setting of \<open>width\<close> characters; \<open>size_t\<close> has 32 bits.\<close>

definition set_value :: "byte list \<Rightarrow> nat option \<Rightarrow> nat \<Rightarrow> byte list \<Rightarrow> byte list option" where
  "set_value b p width v = do {
     p \<leftarrow> p;
     b \<leftarrow> poke b p (v @ [0]);
     b \<leftarrow> poke b (p + length v) [10];
     poke_set b (p + length v + 1) (asc CHR ''#'') (u32_sub (u32_sub width (length v)) 1) }"

definition wl_set_wifi_channel :: "int \<Rightarrow> byte list \<Rightarrow> (byte list \<times> int) option" where
  "wl_set_wifi_channel channel b =
    (if channel < 1 \<or> channel > 14 then Some (b, -1)
     else do {
       (s, n) \<leftarrow> con_sprintf (\<lambda>_. 0) (cstr ''%d'') [VInt (nat channel)];
       b \<leftarrow> set_value b (value_at b ''Channel='') 3 (c_text s);
       Some (b, 0) })"

definition wl_set_ssid :: "byte list option \<Rightarrow> byte list \<Rightarrow> (byte list \<times> int) option" where
  "wl_set_ssid ssid b =
    (case ssid of
       None \<Rightarrow> Some (b, -1)
     | Some s \<Rightarrow>
         let p = value_at b ''SSID=''
         in if length s > 32 then Some (b, -1)
            else do { b \<leftarrow> set_value b p 32 s; Some (b, 0) })"

definition wl_set_passphrase :: "byte list option \<Rightarrow> byte list \<Rightarrow> (byte list \<times> int) option" where
  "wl_set_passphrase passphrase b =
    (case passphrase of
       None \<Rightarrow> Some (b, -1)
     | Some s \<Rightarrow>
         let p = value_at b ''WPAPSK=''; a = value_at b ''AuthMode=''; e = value_at b ''EncrypType=''
         in if s \<noteq> []
            then if length s < 8 \<or> length s > 63 then Some (b, -1)
              else do {
                b \<leftarrow> set_value b p 63 s;
                b \<leftarrow> set_value b a 16 (cstr ''WPA2PSK'');
                b \<leftarrow> set_value b e 16 (cstr ''AES'');
                Some (b, 0) }
            else do {
              b \<leftarrow> set_value b a 16 (cstr ''OPEN'');
              b \<leftarrow> set_value b e 16 (cstr ''NONE'');
              Some (b, 0) })"

text \<open>The results of the two are not looked at.\<close>

definition wl_ap_init :: "byte list option \<Rightarrow> byte list option \<Rightarrow> byte list \<Rightarrow> (byte list \<times> int) option" where
  "wl_ap_init ssid passphrase b = do {
     (b, r) \<leftarrow> wl_set_ssid ssid b;
     (b, r) \<leftarrow> wl_set_passphrase passphrase b;
     Some (b, 0) }"

section \<open>The packet filters\<close>

text \<open>The fields of \<open>struct iphdr_e\<close> at \<open>pkg + 10\<close>: the type in network order, the protocol, and the
  byte behind the header, the type of an ICMP message.\<close>

definition h_proto :: "memory \<Rightarrow> addr \<Rightarrow> nat" where
  "h_proto m iph = 256 * m (iph + 2) + m (iph + 3)"

definition ip_protocol :: "memory \<Rightarrow> addr \<Rightarrow> nat" where
  "ip_protocol m iph = m (iph + 13)"

definition PBUF_RESERVED_FOR_ARP :: nat where "PBUF_RESERVED_FOR_ARP = 1"
definition PBUF_RESERVED_FOR_TCP :: nat where "PBUF_RESERVED_FOR_TCP = PBUF_RESERVED_FOR_ARP + 1"
definition WIFI_TXQ_RESERVED_FOR_ARP :: nat where "WIFI_TXQ_RESERVED_FOR_ARP = 1"
definition WIFI_TXQ_RESERVED_FOR_TCP :: nat where "WIFI_TXQ_RESERVED_FOR_TCP = WIFI_TXQ_RESERVED_FOR_ARP + 1"

definition lwip_low_level_inputput_filter :: "nat \<Rightarrow> memory \<Rightarrow> addr \<Rightarrow> int" where
  "lwip_low_level_inputput_filter remain_pbuf_pool m pkg =
    (let iph = pkg + 10; protoType = h_proto m iph
     in if ip_protocol m iph = 1 \<and> m (iph + 24) \<noteq> 0 \<and> m (iph + 24) \<noteq> 8 then -1
        else if remain_pbuf_pool \<le> PBUF_RESERVED_FOR_TCP
        then if remain_pbuf_pool = 0 then -1
          else if remain_pbuf_pool \<le> PBUF_RESERVED_FOR_ARP \<and> protoType \<noteq> 2054 then -1
          else if \<not> (protoType = 2048 \<and> ip_protocol m iph = 6) then -1
          else 0
        else 0)"

definition lwip_low_level_output_filter :: "nat \<Rightarrow> memory \<Rightarrow> addr \<Rightarrow> int" where
  "lwip_low_level_output_filter remain_wifi_txq m pkg =
    (let iph = pkg + 10; protoType = h_proto m iph
     in if remain_wifi_txq \<le> WIFI_TXQ_RESERVED_FOR_TCP
        then if remain_wifi_txq = 0 then -1
          else if remain_wifi_txq \<le> WIFI_TXQ_RESERVED_FOR_ARP \<and> protoType \<noteq> 2054 then -1
          else if \<not> (protoType = 2048 \<and> ip_protocol m iph = 6) then -1
          else 0
        else 0)"

end
