(* ===== verification/WifiConf_Spec.thy ===== *)
theory WifiConf_Spec
  imports WifiConf
begin

text \<open>
  The text of the access point keeps its shape: five settings of fixed width between fixed lines.
  What is written into a setting is what is found there afterwards, and nothing else changes.  The
  exceptions: a name of 32 or a passphrase of 63 characters, and a name with a key in it.
\<close>

section \<open>Finding a key\<close>

lemma strstr_splits: "strstr s pat = Some t \<Longrightarrow> \<exists>u. s = u @ t \<and> take (length pat) t = pat"
proof (induction s)
  case Nil
  then show ?case by (subst (asm) strstr.simps) (simp split: if_splits)
next
  case (Cons c s)
  show ?case
  proof (cases "take (length pat) (c # s) = pat")
    case True
    with Cons.prems show ?thesis by (subst (asm) strstr.simps) simp
  next
    case False
    with Cons.prems have "strstr s pat = Some t" by (subst (asm) strstr.simps) simp
    from Cons.IH [OF this] show ?thesis by (metis append_Cons)
  qed
qed

lemma strstr_segment:
  "strstr (seg @ [n]) pat = None \<Longrightarrow> n \<notin> set pat \<Longrightarrow> strstr (seg @ n # rest) pat = strstr rest pat"
proof (induction seg)
  case Nil
  have "take (length pat) (n # rest) \<noteq> pat" using Nil by (cases pat) (auto simp: strstr.simps)
  then show ?case by (simp add: strstr_skip)
next
  case (Cons c seg)
  have no: "take (length pat) (c # seg @ [n]) \<noteq> pat" "strstr (seg @ [n]) pat = None"
    using Cons.prems(1) by (simp_all add: strstr.simps [of "c # seg @ [n]"] split: if_splits)
  have "take (length pat) (c # seg @ n # rest) \<noteq> pat"
  proof
    assume t: "take (length pat) (c # seg @ n # rest) = pat"
    show False
    proof (cases "length pat \<le> length seg + 1")
      case True
      then have "take (length pat) (c # seg @ [n]) = pat" using t by (cases "length pat") auto
      with no show False by simp
    next
      case False
      then have "n \<in> set (take (length pat) (c # seg @ n # rest))"
        by (cases "length pat") (auto simp: take_Cons' Suc_diff_le)
      with t Cons.prems(2) show False by simp
    qed
  qed
  then show ?case using Cons.IH [OF no(2) Cons.prems(2)] by (simp add: strstr_skip)
qed

lemma takeWhile_stop: "x \<notin> set a \<Longrightarrow> takeWhile (\<lambda>c. c \<noteq> x) (a @ x # r) = a"
  by (induction a) auto

definition free_of :: "string \<Rightarrow> string list \<Rightarrow> bool" where
  "free_of key ls = list_all (\<lambda>l. strstr (cstr l @ [10]) (cstr key) = None) ls"

lemma strstr_lines:
  "free_of key ls \<Longrightarrow> 10 \<notin> set (cstr key) \<Longrightarrow> strstr (text_lines ls @ rest) (cstr key) = strstr rest (cstr key)"
  by (induction ls) (simp_all add: free_of_def text_lines_def strstr_segment)

text \<open>A setting with another key is passed: its only \<open>=\<close> is at the end of its key.\<close>

lemma strstr_setting:
  assumes "10 \<notin> set k" "61 \<notin> set a" "61 \<notin> set k" "\<nexists>u. a = u @ k" "61 \<notin> set f"
  shows "strstr (a @ 61 # f @ 10 # rest) (k @ [61]) = strstr rest (k @ [61])"
proof -
  have "strstr ((a @ 61 # f) @ [10]) (k @ [61]) = None"
  proof (rule ccontr)
    assume "strstr ((a @ 61 # f) @ [10]) (k @ [61]) \<noteq> None"
    then obtain t where "strstr ((a @ 61 # f) @ [10]) (k @ [61]) = Some t" by auto
    from strstr_splits [OF this] obtain u where
      u: "(a @ 61 # f) @ [10] = u @ t" "take (length (k @ [61])) t = k @ [61]" by auto
    then have "a @ 61 # f @ [10] = u @ (k @ [61]) @ drop (length (k @ [61])) t"
      by (metis append_Cons append_assoc append_take_drop_id)
    then have e: "a @ 61 # f @ [10] = (u @ k) @ 61 # drop (length (k @ [61])) t" by simp
    have "61 \<notin> set u"
    proof
      assume "61 \<in> set u"
      then have "1 < count_list (a @ 61 # f @ [10]) 61" unfolding e
        using count_list_0_iff [of u 61] by (auto simp: count_list_append)
      moreover have "count_list (a @ 61 # f @ [10]) 61 = 1"
        using assms(2,5) by (simp add: count_list_append count_list_0_iff)
      ultimately show False by simp
    qed
    then have "a = u @ k" using arg_cong [OF e, of "takeWhile (\<lambda>c. c \<noteq> 61)"] assms(2,3)
      takeWhile_stop [of 61 "u @ k"] by (simp add: takeWhile_stop)
    with assms(4) show False by blast
  qed
  then show ?thesis using strstr_segment [of "a @ 61 # f" 10 "k @ [61]" rest] assms(1) by simp
qed

section \<open>The shape of the text\<close>

text \<open>A setting of width \<open>w\<close>: its value, a newline and filler, up to the newline it ended with at first.\<close>

definition field :: "nat \<Rightarrow> byte list \<Rightarrow> bool" where
  "field w f \<longleftrightarrow> length f = w \<and> 0 \<notin> set f"

definition filled :: "nat \<Rightarrow> byte list \<Rightarrow> byte list" where
  "filled w v = v @ 10 # replicate (w - length v - 1) (asc CHR ''#'')"

lemma field_filled: "0 \<notin> set v \<Longrightarrow> length v < w \<Longrightarrow> field w (filled w v)"
  by (auto simp: field_def filled_def)

lemma filled_plain: "61 \<notin> set v \<Longrightarrow> 61 \<notin> set (filled w v)"
  by (auto simp: filled_def)

lemma filled_value: "10 \<notin> set v \<Longrightarrow> takeWhile (\<lambda>c. c \<noteq> 10) (filled w v @ rest) = v"
  by (simp add: filled_def takeWhile_stop)

lemma put_mem_at: "length f = length v \<Longrightarrow> put_mem (pre @ f @ post) (length pre) v = pre @ v @ post"
  by (simp add: put_mem_def)

lemma set_value_field:
  assumes "length f = w" "length v < w" "w < 4294967296"
  shows "set_value (pre @ f @ post) (Some (length pre)) w v = Some (pre @ filled w v @ post)"
proof -
  obtain f1 x f2 where f: "f = f1 @ x # f2" "length f1 = length v"
    using assms(1,2) by (metis id_take_nth_drop length_take min.absorb2 less_imp_le)
  have n: "u32_sub (u32_sub w (length v)) 1 = w - length v - 1" using assms by simp
  have l: "length f2 = w - length v - 1" using f assms by simp
  have 1: "poke (pre @ f @ post) (length pre) (v @ [0]) = Some ((pre @ v) @ [0] @ f2 @ post)"
    using put_mem_at [of "f1 @ [x]" "v @ [0]" pre "f2 @ post"] f by (simp add: poke_def)
  have 2: "poke ((pre @ v) @ [0] @ f2 @ post) (length pre + length v) [10] = Some ((pre @ v @ [10]) @ f2 @ post)"
    using put_mem_at [of "[0]" "[10]" "pre @ v" "f2 @ post"] by (simp add: poke_def)
  have 3: "poke_set ((pre @ v @ [10]) @ f2 @ post) (length pre + length v + 1) c (w - length v - 1) =
      Some ((pre @ v @ [10]) @ replicate (w - length v - 1) c @ post)" for c
    using put_mem_at [of f2 "replicate (w - length v - 1) c" "pre @ v @ [10]" post] l by (simp add: poke_set_def)
  show ?thesis unfolding set_value_def n using 1 2 3 by (simp add: filled_def)
qed

text \<open>The text in terms of its five settings.\<close>

definition key_of :: "string \<Rightarrow> byte list" where
  "key_of k = cstr k @ [61]"

definition part :: "nat \<Rightarrow> nat \<Rightarrow> byte list" where
  "part i j = text_lines (take (j - i) (drop i WLAP_lines))"

definition ap_tail :: "byte list" where
  "ap_tail = part 66 122 @ cstr (last WLAP_lines)"

definition ap_layout :: "byte list \<Rightarrow> byte list \<Rightarrow> byte list \<Rightarrow> byte list \<Rightarrow> byte list \<Rightarrow> byte list" where
  "ap_layout s c a e p = part 0 9 @ key_of ''SSID'' @ s @ 10 # part 10 12 @ key_of ''Channel'' @ c @ 10 #
     part 13 60 @ key_of ''AuthMode'' @ a @ 10 # key_of ''EncrypType'' @ e @ 10 #
     part 62 65 @ key_of ''WPAPSK'' @ p @ 10 # ap_tail"

text \<open>The keys that are looked for behind the name, and a name that has none of them in it.\<close>

definition ap_keys :: "string list" where
  "ap_keys = [''Channel'', ''AuthMode'', ''EncrypType'', ''WPAPSK'']"

definition no_key_in :: "byte list \<Rightarrow> bool" where
  "no_key_in f \<longleftrightarrow> (\<forall>k \<in> set ap_keys. strstr (f @ [10]) (key_of k) = None)"

definition fields :: "byte list \<Rightarrow> byte list \<Rightarrow> byte list \<Rightarrow> byte list \<Rightarrow> byte list \<Rightarrow> bool" where
  "fields s c a e p \<longleftrightarrow> field 32 s \<and> no_key_in s \<and> field 3 c \<and> 61 \<notin> set c \<and> field 16 a \<and> 61 \<notin> set a \<and>
     field 16 e \<and> 61 \<notin> set e \<and> field 63 p"

lemma strstr_None: "strstr s pat = None \<longleftrightarrow> (\<nexists>u w. s = u @ pat @ w)"
proof
  assume n: "strstr s pat = None"
  show "\<nexists>u w. s = u @ pat @ w"
  proof
    assume "\<exists>u w. s = u @ pat @ w"
    then obtain u w where "s = u @ pat @ w" by blast
    then have "strstr (u @ pat @ w) pat = None" using n by simp
    then show False
    proof (induction u)
      case Nil
      then show ?case using strstr_here [of pat "pat @ w"] by simp
    next
      case (Cons x u)
      then show ?case using strstr_here [of pat "x # u @ pat @ w"]
        by (cases "take (length pat) (x # u @ pat @ w) = pat") (simp_all add: strstr_skip)
    qed
  qed
next
  assume o: "\<nexists>u w. s = u @ pat @ w"
  show "strstr s pat = None"
  proof (cases "strstr s pat")
    case (Some t)
    from strstr_splits [OF this] obtain u where "s = u @ t" "take (length pat) t = pat" by blast
    then have "s = u @ pat @ drop (length pat) t" by (metis append_take_drop_id)
    with o show ?thesis by blast
  qed simp
qed

lemma key_chars: "k \<in> set ap_keys \<Longrightarrow> 10 \<notin> set (key_of k) \<and> asc CHR ''#'' \<notin> set (key_of k) \<and>
    key_of k \<noteq> [] \<and> hd (key_of k) \<notin> set (key_of ''SSID'')"
  by (auto simp: ap_keys_def key_of_def)

lemma no_key_filled:
  assumes "\<forall>k \<in> set ap_keys. \<nexists>u w. v = u @ key_of k @ w"
  shows "no_key_in (filled n v)"
  unfolding no_key_in_def
proof
  fix k assume k: "k \<in> set ap_keys"
  note kc = key_chars [OF k]
  have "strstr (v @ [10]) (key_of k) = None"
    unfolding strstr_None
  proof
    assume "\<exists>u w. v @ [10] = u @ key_of k @ w"
    then obtain u w where e: "v @ [10] = u @ key_of k @ w" by blast
    show False
    proof (cases w rule: rev_cases)
      case Nil
      then have "10 = last (key_of k)" using arg_cong [OF e, of last] kc by simp
      with kc last_in_set [of "key_of k"] show False by metis
    next
      case (snoc w' x)
      then have "v = u @ key_of k @ w'" using e by simp
      with assms k show False by blast
    qed
  qed
  moreover have "strstr (replicate j (asc CHR ''#'') @ [10]) (key_of k) = None" for j
    unfolding strstr_None
  proof
    assume "\<exists>u w. replicate j (asc CHR ''#'') @ [10] = u @ key_of k @ w"
    then obtain u w where "replicate j (asc CHR ''#'') @ [10] = u @ key_of k @ w" by blast
    then have "set (key_of k) \<subseteq> set (replicate j (asc CHR ''#'') @ [10])" by (metis set_append Un_upper1 Un_upper2 subset_trans)
    then have "set (key_of k) \<subseteq> {asc CHR ''#'', 10}" by (auto split: if_splits)
    with kc show False by (cases "key_of k") auto
  qed
  ultimately show "strstr (filled n v @ [10]) (key_of k) = None"
    using strstr_segment [of v 10 "key_of k"] kc by (simp add: filled_def)
qed

lemma strstr_pass: "pat \<noteq> [] \<Longrightarrow> hd pat \<notin> set pre \<Longrightarrow> strstr (pre @ x) pat = strstr x pat"
proof (induction pre)
  case (Cons a pre)
  then have "take (length pat) (a # pre @ x) \<noteq> pat" by (cases pat) auto
  with Cons show ?case by (simp add: strstr_skip)
qed simp

lemma pass_name:
  assumes "no_key_in s" "k \<in> set ap_keys"
  shows "strstr (key_of ''SSID'' @ s @ 10 # rest) (key_of k) = strstr rest (key_of k)"
  using strstr_pass [of "key_of k" "key_of ''SSID''"] strstr_segment [of s 10 "key_of k" rest]
    key_chars [OF assms(2)] assms by (simp add: no_key_in_def)

lemma WLAP_split:
  "butlast WLAP_lines = take 9 WLAP_lines @ [''SSID=####SSID_LENTH_MUST_LESS_THAN_32''] @
    take 2 (drop 10 WLAP_lines) @ [''Channel=11#''] @ take 47 (drop 13 WLAP_lines) @
    [''AuthMode=################'', ''EncrypType=################''] @ take 3 (drop 62 WLAP_lines) @
    [''WPAPSK=#########wpa_passphrase_lenth_must_more_than_7_and_less_than_63''] @
    take 56 (drop 66 WLAP_lines)"
  by (simp add: WLAP_lines_def)

lemma text_lines_simps [simp]:
  "text_lines [] = []" "text_lines (l # ls) = cstr l @ 10 # text_lines ls"
  "text_lines (ls @ ls') = text_lines ls @ text_lines ls'"
  by (simp_all add: text_lines_def)

lemma WLAP_layout:
  "WLAP_DAT = ap_layout (cstr ''####SSID_LENTH_MUST_LESS_THAN_32'') (cstr ''11#'')
    (cstr ''################'') (cstr ''################'')
    (cstr ''#########wpa_passphrase_lenth_must_more_than_7_and_less_than_63'') @ [0]"
  unfolding WLAP_DAT_def conf_array_def WLAP_split ap_layout_def part_def ap_tail_def key_of_def by simp

text \<open>The keys do not occur in the fixed lines before their settings; checked on the characters.\<close>

fun starts :: "string \<Rightarrow> string \<Rightarrow> bool" where
  "starts [] s = True"
| "starts (a # p) [] = False"
| "starts (a # p) (b # s) = (a = b \<and> starts p s)"

fun inside :: "string \<Rightarrow> string \<Rightarrow> bool" where
  "inside p [] = (p = [])"
| "inside p (b # s) = (starts p (b # s) \<or> inside p s)"

lemma asc_inj: "asc a = asc b \<longleftrightarrow> a = b"
  by (simp add: asc_def)

lemma starts_cstr: "take (length p) (cstr s) = cstr p \<Longrightarrow> starts p s"
  by (induction p s rule: starts.induct) (auto simp: asc_inj simp del: asc_Char)

lemma not_inside: "\<not> inside p s \<Longrightarrow> strstr (cstr s) (cstr p) = None"
proof (induction s)
  case Nil
  then show ?case by (cases p) (auto simp: strstr.simps)
next
  case (Cons b s)
  have "take (length (cstr p)) (cstr (b # s)) \<noteq> cstr p"
    using Cons.prems starts_cstr [of p "b # s"] by (auto simp: cstr_def)
  then show ?case using Cons by (simp add: strstr_skip)
qed

lemma free_ofI: "list_all (\<lambda>l. \<not> inside key (l @ [CHR 0x0A])) ls \<Longrightarrow> free_of key ls"
proof (induction ls)
  case (Cons l ls)
  then have "strstr (cstr (l @ [CHR 0x0A])) (cstr key) = None" by (intro not_inside) simp
  with Cons show ?case by (simp add: free_of_def cstr_def)
qed (simp add: free_of_def)

lemma parts_free:
  "k \<in> {''SSID'', ''Channel'', ''AuthMode'', ''EncrypType'', ''WPAPSK''} \<Longrightarrow>
    free_of (k @ ''='') (take 9 WLAP_lines)"
  "k \<in> {''Channel'', ''AuthMode'', ''EncrypType'', ''WPAPSK''} \<Longrightarrow>
    free_of (k @ ''='') (take 2 (drop 10 WLAP_lines))"
  "k \<in> {''AuthMode'', ''EncrypType'', ''WPAPSK''} \<Longrightarrow> free_of (k @ ''='') (take 47 (drop 13 WLAP_lines))"
  "k = ''WPAPSK'' \<Longrightarrow> free_of (k @ ''='') (take 3 (drop 62 WLAP_lines))"
  by (rule free_ofI, (elim insertE emptyE)?; simp add: WLAP_lines_def)+

lemma lines_nonzero: "list_all (\<lambda>l. \<not> inside [CHR 0x00] l) WLAP_lines"
  by (simp add: WLAP_lines_def)

lemma asc_zero: "asc c = 0 \<longleftrightarrow> c = CHR 0x00"
proof -
  have "asc (CHR 0x00) = 0" by simp
  then show ?thesis using asc_inj [of c "CHR 0x00"] by simp
qed

lemma cstr_nonzero: "\<not> inside [CHR 0x00] l \<Longrightarrow> 0 \<notin> set (cstr l)"
  by (induction l) (auto simp: asc_zero gr0I simp del: asc_Char)

lemma text_nonzero: "set ls \<subseteq> set WLAP_lines \<Longrightarrow> 0 \<notin> set (text_lines ls)"
  using lines_nonzero by (induction ls) (auto simp: list_all_iff dest!: cstr_nonzero)

lemma part_nonzero: "0 \<notin> set (part i j)"
  unfolding part_def by (rule text_nonzero) (auto dest: in_set_takeD in_set_dropD)

lemma key_nonzero: "0 \<notin> set (key_of ''SSID'')" "0 \<notin> set (key_of ''Channel'')"
  "0 \<notin> set (key_of ''AuthMode'')" "0 \<notin> set (key_of ''EncrypType'')" "0 \<notin> set (key_of ''WPAPSK'')"
  by (simp_all add: key_of_def)

lemma layout_nonzero:
  assumes "0 \<notin> set s" "0 \<notin> set c" "0 \<notin> set a" "0 \<notin> set e" "0 \<notin> set p"
  shows "c_text (ap_layout s c a e p @ [0]) = ap_layout s c a e p"
proof -
  have "last WLAP_lines \<in> set WLAP_lines" by (rule last_in_set) (simp add: WLAP_lines_def)
  then have "0 \<notin> set (cstr (last WLAP_lines))" using lines_nonzero by (auto simp: list_all_iff dest!: cstr_nonzero)
  then have "0 \<notin> set (ap_layout s c a e p)"
    using assms part_nonzero key_nonzero by (auto simp: ap_layout_def ap_tail_def)
  then show ?thesis unfolding c_text_def by (rule takeWhile_stop)
qed

lemma layout_text: "fields s c a e p \<Longrightarrow> c_text (ap_layout s c a e p @ [0]) = ap_layout s c a e p"
  by (rule layout_nonzero) (simp_all add: fields_def field_def)

lemma pass_part:
  "free_of (k @ ''='') (take (j - i) (drop i WLAP_lines)) \<Longrightarrow> 10 \<notin> set (cstr k) \<Longrightarrow>
    strstr (part i j @ rest) (key_of k) = strstr rest (key_of k)"
  using strstr_lines [of "k @ ''=''" "take (j - i) (drop i WLAP_lines)" rest]
  by (simp add: part_def key_of_def cstr_def)

lemma pass_setting:
  "61 \<notin> set f \<Longrightarrow> 10 \<notin> set (cstr k) \<Longrightarrow> 61 \<notin> set (cstr k) \<Longrightarrow> 61 \<notin> set (cstr k') \<Longrightarrow>
    \<not> (length k \<le> length k' \<and> drop (length k' - length k) (cstr k') = cstr k) \<Longrightarrow>
    strstr (key_of k' @ f @ 10 # rest) (key_of k) = strstr rest (key_of k)"
proof -
  assume a: "61 \<notin> set f" "10 \<notin> set (cstr k)" "61 \<notin> set (cstr k)" "61 \<notin> set (cstr k')"
    "\<not> (length k \<le> length k' \<and> drop (length k' - length k) (cstr k') = cstr k)"
  have "\<nexists>u. cstr k' = u @ cstr k"
  proof
    assume "\<exists>u. cstr k' = u @ cstr k"
    then obtain u where u: "cstr k' = u @ cstr k" by blast
    then have "length k' = length u + length k" by (metis length_append cstr_def length_map)
    with u a(5) show False by simp
  qed
  with a show ?thesis using strstr_setting [of "cstr k" "cstr k'" f rest] by (simp add: key_of_def)
qed

lemma found_key: "strstr (key_of k @ rest) (key_of k) = Some (key_of k @ rest)"
  by (rule strstr_here) simp

lemma free_parts:
  "free_of ''SSID='' (take 9 WLAP_lines)"
  "free_of ''Channel='' (take 9 WLAP_lines)" "free_of ''Channel='' (take 2 (drop 10 WLAP_lines))"
  "free_of ''AuthMode='' (take 9 WLAP_lines)" "free_of ''AuthMode='' (take 2 (drop 10 WLAP_lines))"
  "free_of ''AuthMode='' (take 47 (drop 13 WLAP_lines))"
  "free_of ''EncrypType='' (take 9 WLAP_lines)" "free_of ''EncrypType='' (take 2 (drop 10 WLAP_lines))"
  "free_of ''EncrypType='' (take 47 (drop 13 WLAP_lines))"
  "free_of ''WPAPSK='' (take 9 WLAP_lines)" "free_of ''WPAPSK='' (take 2 (drop 10 WLAP_lines))"
  "free_of ''WPAPSK='' (take 47 (drop 13 WLAP_lines))" "free_of ''WPAPSK='' (take 3 (drop 62 WLAP_lines))"
  using parts_free(1) [of "''SSID''"] parts_free(1) [of "''Channel''"] parts_free(1) [of "''AuthMode''"]
    parts_free(1) [of "''EncrypType''"] parts_free(1) [of "''WPAPSK''"]
    parts_free(2) [of "''Channel''"] parts_free(2) [of "''AuthMode''"]
    parts_free(2) [of "''EncrypType''"] parts_free(2) [of "''WPAPSK''"]
    parts_free(3) [of "''AuthMode''"] parts_free(3) [of "''EncrypType''"] parts_free(3) [of "''WPAPSK''"]
    parts_free(4) [of "''WPAPSK''"] by simp_all

lemma key_positions:
  assumes "fields s c a e p"
  shows "value_at (ap_layout s c a e p @ [0]) ''SSID='' = Some (length (part 0 9 @ key_of ''SSID''))" (is ?s)
    and "value_at (ap_layout s c a e p @ [0]) ''Channel='' =
      Some (length (part 0 9 @ key_of ''SSID'' @ s @ 10 # part 10 12 @ key_of ''Channel''))" (is ?c)
    and "value_at (ap_layout s c a e p @ [0]) ''AuthMode='' =
      Some (length (part 0 9 @ key_of ''SSID'' @ s @ 10 # part 10 12 @ key_of ''Channel'' @ c @ 10 #
        part 13 60 @ key_of ''AuthMode''))" (is ?a)
    and "value_at (ap_layout s c a e p @ [0]) ''EncrypType='' =
      Some (length (part 0 9 @ key_of ''SSID'' @ s @ 10 # part 10 12 @ key_of ''Channel'' @ c @ 10 #
        part 13 60 @ key_of ''AuthMode'' @ a @ 10 # key_of ''EncrypType''))" (is ?e)
    and "value_at (ap_layout s c a e p @ [0]) ''WPAPSK='' =
      Some (length (part 0 9 @ key_of ''SSID'' @ s @ 10 # part 10 12 @ key_of ''Channel'' @ c @ 10 #
        part 13 60 @ key_of ''AuthMode'' @ a @ 10 # key_of ''EncrypType'' @ e @ 10 #
        part 62 65 @ key_of ''WPAPSK''))" (is ?p)
proof -
  have eq: "61 \<notin> set c" "61 \<notin> set a" "61 \<notin> set e" and "no_key_in s"
    using assms by (auto simp: fields_def)
  then have name: "strstr (key_of ''SSID'' @ s @ 10 # rest) (key_of k) = strstr rest (key_of k)"
    if "k \<in> set ap_keys" for k rest using pass_name that by blast
  have ks: "''Channel'' \<in> set ap_keys" "''AuthMode'' \<in> set ap_keys" "''EncrypType'' \<in> set ap_keys"
    "''WPAPSK'' \<in> set ap_keys" by (simp_all add: ap_keys_def)
  have pos: "value_at (ap_layout s c a e p @ [0]) (k @ ''='') =
      map_option (\<lambda>t. length (ap_layout s c a e p) - length t + length (k @ ''=''))
        (strstr (ap_layout s c a e p) (key_of k))" for k
    by (simp add: value_at_def layout_text [OF assms] key_of_def cstr_def)
  note find = ap_layout_def pass_part pass_setting found_key free_parts eq name ks
  have l: "length (key_of k) = length (k @ ''='')" for k by (simp add: key_of_def cstr_def)
  show ?s using pos [of "''SSID''"] by (simp add: find l)
  show ?c using pos [of "''Channel''"] by (simp add: find l)
  show ?a using pos [of "''AuthMode''"] by (simp add: find l)
  show ?e using pos [of "''EncrypType''"] by (simp add: find l)
  show ?p using pos [of "''WPAPSK''"] by (simp add: find l)
qed

text \<open>Writing one setting, and reading it.\<close>

lemma set_at:
  assumes "length f = w" "length v < w" "w < 4294967296" "b = pre @ f @ post" "n = length pre"
  shows "set_value b (Some n) w v = Some (pre @ filled w v @ post)"
  using set_value_field [OF assms(1-3)] assms(4,5) by simp

lemma set_fields:
  assumes "fields s c a e p"
  shows "length v < 32 \<Longrightarrow> set_value (ap_layout s c a e p @ [0]) (value_at (ap_layout s c a e p @ [0]) ''SSID='') 32 v =
      Some (ap_layout (filled 32 v) c a e p @ [0])"
    and "length v < 3 \<Longrightarrow> set_value (ap_layout s c a e p @ [0]) (value_at (ap_layout s c a e p @ [0]) ''Channel='') 3 v =
      Some (ap_layout s (filled 3 v) a e p @ [0])"
    and "length v < 63 \<Longrightarrow> set_value (ap_layout s c a e p @ [0]) (value_at (ap_layout s c a e p @ [0]) ''WPAPSK='') 63 v =
      Some (ap_layout s c a e (filled 63 v) @ [0])"
    and "length v < 16 \<Longrightarrow> set_value (ap_layout s c a e p' @ [0]) (value_at (ap_layout s c a e p @ [0]) ''AuthMode='') 16 v =
      Some (ap_layout s c (filled 16 v) e p' @ [0])"
    and "length v < 16 \<Longrightarrow> length a' = 16 \<Longrightarrow>
      set_value (ap_layout s c a' e p' @ [0]) (value_at (ap_layout s c a e p @ [0]) ''EncrypType='') 16 v =
      Some (ap_layout s c a' (filled 16 v) p' @ [0])"
proof -
  have l: "length s = 32" "length c = 3" "length a = 16" "length e = 16" "length p = 63"
    using assms by (auto simp: fields_def field_def)
  show "length v < 32 \<Longrightarrow> set_value (ap_layout s c a e p @ [0]) (value_at (ap_layout s c a e p @ [0]) ''SSID='') 32 v =
      Some (ap_layout (filled 32 v) c a e p @ [0])"
    unfolding key_positions [OF assms]
    by (subst set_at [OF l(1), where pre = "part 0 9 @ key_of ''SSID''" and post = "10 # part 10 12 @ key_of ''Channel'' @ c @ 10 # part 13 60 @ key_of ''AuthMode'' @ a @ 10 # key_of ''EncrypType'' @ e @ 10 # part 62 65 @ key_of ''WPAPSK'' @ p @ 10 # ap_tail @ [0]"])
      (simp_all add: ap_layout_def l)
  show "length v < 3 \<Longrightarrow> set_value (ap_layout s c a e p @ [0]) (value_at (ap_layout s c a e p @ [0]) ''Channel='') 3 v =
      Some (ap_layout s (filled 3 v) a e p @ [0])"
    unfolding key_positions [OF assms]
    by (subst set_at [OF l(2), where pre = "part 0 9 @ key_of ''SSID'' @ s @ 10 # part 10 12 @ key_of ''Channel''" and post = "10 # part 13 60 @ key_of ''AuthMode'' @ a @ 10 # key_of ''EncrypType'' @ e @ 10 # part 62 65 @ key_of ''WPAPSK'' @ p @ 10 # ap_tail @ [0]"])
      (simp_all add: ap_layout_def l)
  show "length v < 63 \<Longrightarrow> set_value (ap_layout s c a e p @ [0]) (value_at (ap_layout s c a e p @ [0]) ''WPAPSK='') 63 v =
      Some (ap_layout s c a e (filled 63 v) @ [0])"
    unfolding key_positions [OF assms]
    by (subst set_at [OF l(5), where pre = "part 0 9 @ key_of ''SSID'' @ s @ 10 # part 10 12 @ key_of ''Channel'' @ c @ 10 # part 13 60 @ key_of ''AuthMode'' @ a @ 10 # key_of ''EncrypType'' @ e @ 10 # part 62 65 @ key_of ''WPAPSK''" and post = "10 # ap_tail @ [0]"])
      (simp_all add: ap_layout_def l)
  show "length v < 16 \<Longrightarrow> set_value (ap_layout s c a e p' @ [0]) (value_at (ap_layout s c a e p @ [0]) ''AuthMode='') 16 v =
      Some (ap_layout s c (filled 16 v) e p' @ [0])"
    unfolding key_positions [OF assms]
    by (subst set_at [OF l(3), where pre = "part 0 9 @ key_of ''SSID'' @ s @ 10 # part 10 12 @ key_of ''Channel'' @ c @ 10 # part 13 60 @ key_of ''AuthMode''" and post = "10 # key_of ''EncrypType'' @ e @ 10 # part 62 65 @ key_of ''WPAPSK'' @ p' @ 10 # ap_tail @ [0]"])
      (simp_all add: ap_layout_def l)
  show "length v < 16 \<Longrightarrow> length a' = 16 \<Longrightarrow>
      set_value (ap_layout s c a' e p' @ [0]) (value_at (ap_layout s c a e p @ [0]) ''EncrypType='') 16 v =
      Some (ap_layout s c a' (filled 16 v) p' @ [0])"
    unfolding key_positions [OF assms]
    by (subst set_at [OF l(4), where pre = "part 0 9 @ key_of ''SSID'' @ s @ 10 # part 10 12 @ key_of ''Channel'' @ c @ 10 # part 13 60 @ key_of ''AuthMode'' @ a' @ 10 # key_of ''EncrypType''" and post = "10 # part 62 65 @ key_of ''WPAPSK'' @ p' @ 10 # ap_tail @ [0]"])
      (simp_all add: ap_layout_def l)
qed

definition setting :: "byte list \<Rightarrow> string \<Rightarrow> byte list" where
  "setting b k = (case value_at b k of None \<Rightarrow> [] | Some p \<Rightarrow> takeWhile (\<lambda>c. c \<noteq> 10) (drop p (c_text b)))"

definition value_of :: "byte list \<Rightarrow> byte list" where
  "value_of f = takeWhile (\<lambda>c. c \<noteq> 10) (f @ [10])"

lemma value_of_filled: "10 \<notin> set v \<Longrightarrow> value_of (filled w v) = v"
  unfolding value_of_def by (rule filled_value)

lemma take_line: "takeWhile (\<lambda>c. c \<noteq> 10) (f @ 10 # r) = value_of f"
  by (induction f) (simp_all add: value_of_def)

lemma setting_at:
  "value_at b k = Some n \<Longrightarrow> c_text b = pre @ f @ 10 # post \<Longrightarrow> n = length pre \<Longrightarrow> setting b k = value_of f"
  by (simp add: setting_def take_line)

lemma read_fields:
  assumes "fields s c a e p"
  shows "setting (ap_layout s c a e p @ [0]) ''SSID='' = value_of s"
    and "setting (ap_layout s c a e p @ [0]) ''Channel='' = value_of c"
    and "setting (ap_layout s c a e p @ [0]) ''AuthMode='' = value_of a"
    and "setting (ap_layout s c a e p @ [0]) ''EncrypType='' = value_of e"
    and "setting (ap_layout s c a e p @ [0]) ''WPAPSK='' = value_of p"
proof -
  note t = layout_text [OF assms]
  show "setting (ap_layout s c a e p @ [0]) ''SSID='' = value_of s"
    by (rule setting_at [OF key_positions(1) [OF assms], where post = "part 10 12 @ key_of ''Channel'' @ c @ 10 #
     part 13 60 @ key_of ''AuthMode'' @ a @ 10 # key_of ''EncrypType'' @ e @ 10 #
     part 62 65 @ key_of ''WPAPSK'' @ p @ 10 # ap_tail", OF _ refl], unfold t, simp add: ap_layout_def)
  show "setting (ap_layout s c a e p @ [0]) ''Channel='' = value_of c"
    by (rule setting_at [OF key_positions(2) [OF assms], where post = "part 13 60 @ key_of ''AuthMode'' @ a @ 10 #
     key_of ''EncrypType'' @ e @ 10 # part 62 65 @ key_of ''WPAPSK'' @ p @ 10 # ap_tail", OF _ refl], unfold t, simp add: ap_layout_def)
  show "setting (ap_layout s c a e p @ [0]) ''AuthMode='' = value_of a"
    by (rule setting_at [OF key_positions(3) [OF assms], where post = "key_of ''EncrypType'' @ e @ 10 #
     part 62 65 @ key_of ''WPAPSK'' @ p @ 10 # ap_tail", OF _ refl], unfold t, simp add: ap_layout_def)
  show "setting (ap_layout s c a e p @ [0]) ''EncrypType='' = value_of e"
    by (rule setting_at [OF key_positions(4) [OF assms], where post = "part 62 65 @ key_of ''WPAPSK'' @ p @ 10 # ap_tail",
     OF _ refl], unfold t, simp add: ap_layout_def)
  show "setting (ap_layout s c a e p @ [0]) ''WPAPSK='' = value_of p"
    by (rule setting_at [OF key_positions(5) [OF assms], where post = ap_tail, OF _ refl], unfold t, simp add: ap_layout_def)
qed

section \<open>The settings written\<close>

text \<open>A text for a setting: it has no terminator and no newline.  The settings in the middle are written by
  the program only; they have no \<open>=\<close>.\<close>

definition text_ok :: "byte list \<Rightarrow> bool" where
  "text_ok v \<longleftrightarrow> 0 \<notin> set v \<and> 10 \<notin> set v"

definition key_free :: "byte list \<Rightarrow> bool" where
  "key_free v \<longleftrightarrow> (\<forall>k \<in> set [''Channel='', ''AuthMode='', ''EncrypType='', ''WPAPSK='']. \<nexists>u w. v = u @ cstr k @ w)"

lemma key_free_filled: "key_free v \<Longrightarrow> no_key_in (filled n v)"
  by (rule no_key_filled) (simp add: key_free_def ap_keys_def key_of_def)

lemma fields_simps:
  assumes "fields s c a e p" "text_ok v"
  shows "key_free v \<Longrightarrow> length v < 32 \<Longrightarrow> fields (filled 32 v) c a e p"
    and "61 \<notin> set v \<Longrightarrow> length v < 3 \<Longrightarrow> fields s (filled 3 v) a e p"
    and "61 \<notin> set v \<Longrightarrow> length v < 16 \<Longrightarrow> fields s c (filled 16 v) e p"
    and "61 \<notin> set v \<Longrightarrow> length v < 16 \<Longrightarrow> fields s c a (filled 16 v) p"
    and "length v < 63 \<Longrightarrow> fields s c a e (filled 63 v)"
  using assms by (simp_all add: fields_def field_filled filled_plain text_ok_def key_free_filled)

lemma mode_ok: "text_ok (cstr ''WPA2PSK'')" "text_ok (cstr ''AES'')" "text_ok (cstr ''OPEN'')" "text_ok (cstr ''NONE'')"
  "61 \<notin> set (cstr ''WPA2PSK'')" "61 \<notin> set (cstr ''AES'')" "61 \<notin> set (cstr ''OPEN'')" "61 \<notin> set (cstr ''NONE'')"
  by (simp_all add: text_ok_def)

text \<open>The settings after \<open>wl_ap_init\<close>.\<close>

lemma fields_init:
  assumes "fields s c a e p" "text_ok v" "key_free v" "length v < 32" "text_ok pw" "pw = [] \<or> 8 \<le> length pw \<and> length pw < 63"
  shows "fields (filled 32 v) c (filled 16 (if pw = [] then cstr ''OPEN'' else cstr ''WPA2PSK''))
      (filled 16 (if pw = [] then cstr ''NONE'' else cstr ''AES'')) (if pw = [] then p else filled 63 pw)"
  using fields_simps(1) [OF assms(1-4)] mode_ok assms(5,6)
  by (auto simp: fields_def field_filled filled_plain text_ok_def simp del: asc_Char)

lemma wl_ap_init_layout:
  assumes "fields s c a e p" "text_ok v" "key_free v" "length v < 32" "pw = [] \<or> 8 \<le> length pw \<and> length pw < 63"
  shows "wl_ap_init (Some v) (Some pw) (ap_layout s c a e p @ [0]) =
    Some (ap_layout (filled 32 v) c (filled 16 (if pw = [] then cstr ''OPEN'' else cstr ''WPA2PSK''))
      (filled 16 (if pw = [] then cstr ''NONE'' else cstr ''AES'')) (if pw = [] then p else filled 63 pw) @ [0], 0)"
proof -
  note f = fields_simps(1) [OF assms(1-4)]
  have n: "length (filled 16 x) = 16" if "length x < 16" for x using that by (simp add: filled_def)
  have 1: "wl_set_ssid (Some v) (ap_layout s c a e p @ [0]) = Some (ap_layout (filled 32 v) c a e p @ [0], 0)"
    using set_fields(1) [OF assms(1)] assms(4) by (simp add: wl_set_ssid_def)
  show ?thesis
  proof (cases "pw = []")
    case True
    then have "wl_set_passphrase (Some pw) (ap_layout (filled 32 v) c a e p @ [0]) = Some (ap_layout (filled 32 v) c
        (filled 16 (cstr ''OPEN'')) (filled 16 (cstr ''NONE'')) p @ [0], 0)"
      unfolding wl_set_passphrase_def by (simp add: set_fields(4,5) [OF f] n del: asc_Char)
    with 1 True show ?thesis by (simp add: wl_ap_init_def del: asc_Char cstr_simps)
  next
    case False
    then have "wl_set_passphrase (Some pw) (ap_layout (filled 32 v) c a e p @ [0]) = Some (ap_layout (filled 32 v) c
        (filled 16 (cstr ''WPA2PSK'')) (filled 16 (cstr ''AES'')) (filled 63 pw) @ [0], 0)"
      using assms(5) unfolding wl_set_passphrase_def
      by (simp add: set_fields(3,4,5) [OF f] n del: asc_Char)
    with 1 False show ?thesis by (simp add: wl_ap_init_def del: asc_Char cstr_simps)
  qed
qed

text \<open>The decimal text of a channel.\<close>

definition channel_text :: "int \<Rightarrow> byte list" where
  "channel_text n = rev (map (\<lambda>d. d + 48) (digits_lsb 10 (nat n)))"

lemma channel_text_ok:
  assumes "1 \<le> n" "n \<le> 14"
  shows "con_sprintf (\<lambda>_. 0) (cstr ''%d'') [VInt (nat n)] = Some (channel_text n @ [0], length (channel_text n))"
    and "text_ok (channel_text n)" "61 \<notin> set (channel_text n)" "length (channel_text n) < 3" "c_text (channel_text n @ [0]) = channel_text n"
proof -
  have dc: "d < 10 \<Longrightarrow> digit_char 97 d = d + 48" for d by (simp add: digit_char_def)
  have m: "map (digit_char 97) (digits_lsb 10 (nat n)) = map (\<lambda>d. d + 48) (digits_lsb 10 (nat n))"
    using digits_lsb_range dc by (intro map_cong) auto
  have "printi n 10 True (-1) 0 97 = channel_text n"
    using assms m by (simp add: printi_def prints_def channel_text_def Let_def has_def PAD_RIGHT_def PAD_ZERO_def)
  then show "con_sprintf (\<lambda>_. 0) (cstr ''%d'') [VInt (nat n)] = Some (channel_text n @ [0], length (channel_text n))"
    using assms by (simp add: con_sprintf_def con_spec_def con_conv_def is_digit_def Let_def)
  have "d \<in> set (digits_lsb 10 (nat n)) \<Longrightarrow> d < 10" for d by (rule digits_lsb_range)
  then show ok: "text_ok (channel_text n)" "61 \<notin> set (channel_text n)"
    by (fastforce simp: text_ok_def channel_text_def)+
  from ok(1) have "0 \<notin> set (channel_text n)" by (simp add: text_ok_def)
  then show "c_text (channel_text n @ [0]) = channel_text n" unfolding c_text_def by (rule takeWhile_stop)
  have "nat n < 10 \<or> nat n div 10 < 10 \<and> nat n div 10 \<noteq> 0" using assms by auto
  then show "length (channel_text n) < 3" by (auto simp: channel_text_def digits_lsb.simps)
qed

lemma wl_set_wifi_channel_layout:
  assumes "fields s c a e p" "1 \<le> n" "n \<le> 14"
  shows "wl_set_wifi_channel n (ap_layout s c a e p @ [0]) = Some (ap_layout s (filled 3 (channel_text n)) a e p @ [0], 0)"
  using set_fields(2) [OF assms(1)] channel_text_ok [OF assms(2,3)] assms(2,3)
  by (simp add: wl_set_wifi_channel_def del: cstr_simps)

text \<open>The texts that calls of the two functions lead to.\<close>

inductive ap_reach :: "byte list \<Rightarrow> bool" where
  ap_start: "ap_reach WLAP_DAT"
| ap_init: "ap_reach b \<Longrightarrow> text_ok v \<Longrightarrow> key_free v \<Longrightarrow> length v < 32 \<Longrightarrow> text_ok pw \<Longrightarrow> pw = [] \<or> 8 \<le> length pw \<and> length pw < 63 \<Longrightarrow>
    wl_ap_init (Some v) (Some pw) b = Some (b', r) \<Longrightarrow> ap_reach b'"
| ap_channel: "ap_reach b \<Longrightarrow> wl_set_wifi_channel n b = Some (b', r) \<Longrightarrow> ap_reach b'"

lemma ap_reach_layout: "ap_reach b \<Longrightarrow> \<exists>s c a e p. fields s c a e p \<and> b = ap_layout s c a e p @ [0]"
proof (induction rule: ap_reach.induct)
  case ap_start
  have "strstr (cstr (''####SSID_LENTH_MUST_LESS_THAN_32'' @ [CHR 0x0A])) (cstr (k @ ''='')) = None"
    if "k \<in> set ap_keys" for k
    by (rule not_inside) (use that in \<open>auto simp: ap_keys_def\<close>)
  then have "no_key_in (cstr ''####SSID_LENTH_MUST_LESS_THAN_32'')"
    by (simp add: no_key_in_def key_of_def cstr_def)
  then have "fields (cstr ''####SSID_LENTH_MUST_LESS_THAN_32'') (cstr ''11#'') (cstr ''################'')
    (cstr ''################'') (cstr ''#########wpa_passphrase_lenth_must_more_than_7_and_less_than_63'')"
    by (simp add: fields_def field_def)
  with WLAP_layout show ?case by blast
next
  case (ap_init b v pw b' r)
  then obtain s c a e p where f: "fields s c a e p" "b = ap_layout s c a e p @ [0]" by blast
  have "fields (filled 32 v) c (filled 16 (if pw = [] then cstr ''OPEN'' else cstr ''WPA2PSK''))
      (filled 16 (if pw = [] then cstr ''NONE'' else cstr ''AES'')) (if pw = [] then p else filled 63 pw)"
    by (rule fields_init [OF f(1) ap_init.hyps(2-6)])
  moreover have "b' = ap_layout (filled 32 v) c (filled 16 (if pw = [] then cstr ''OPEN'' else cstr ''WPA2PSK''))
      (filled 16 (if pw = [] then cstr ''NONE'' else cstr ''AES'')) (if pw = [] then p else filled 63 pw) @ [0]"
    using wl_ap_init_layout [OF f(1) ap_init.hyps(2-4,6)] ap_init.hyps(7) f(2) by simp
  ultimately show ?case by blast
next
  case (ap_channel b n b' r)
  then obtain s c a e p where f: "fields s c a e p" "b = ap_layout s c a e p @ [0]" by blast
  show ?case
  proof (cases "1 \<le> n \<and> n \<le> 14")
    case True
    then have "b' = ap_layout s (filled 3 (channel_text n)) a e p @ [0]"
      using wl_set_wifi_channel_layout [OF f(1), of n] ap_channel.hyps(2) f(2) by simp
    with fields_simps(2) [OF f(1), of "channel_text n"] channel_text_ok(2-4) [of n] True show ?thesis by blast
  next
    case False
    then have "b' = b" using ap_channel.hyps(2) by (auto simp: wl_set_wifi_channel_def split: if_splits)
    with f show ?thesis by blast
  qed
qed

text \<open>C34: On every text that such calls of \<open>wl_ap_init\<close> and \<open>wl_set_wifi_channel\<close> lead to, \<open>wl_ap_init\<close> with a
  name of at most 31 and a passphrase of 8 to 62 characters (or none) succeeds, and exactly the
  settings it is asked for are found there afterwards: the name, the passphrase, WPA2 with AES or an
  open network.  The channel stays, and so does every byte outside the five settings;
  \<open>wl_set_wifi_channel\<close> with a channel from 1 to 14 sets the channel and nothing else.  The name and
  the passphrase may be any text without a newline, with one exception: the name must not contain
  \<open>Channel=\<close>, \<open>AuthMode=\<close>, \<open>EncrypType=\<close> or \<open>WPAPSK=\<close>, the keys that are looked for behind it; a name
  that does is overwritten by the next setting (\<open>key_in_name\<close>).\<close>

theorem ap_settings_kept:
  assumes "ap_reach b" "text_ok v" "key_free v" "length v < 32" "text_ok pw" "pw = [] \<or> 8 \<le> length pw \<and> length pw < 63"
    and "1 \<le> n" "n \<le> 14"
  shows "\<exists>s c a e p b1 b2. fields s c a e p \<and> b = ap_layout s c a e p @ [0] \<and>
    wl_ap_init (Some v) (Some pw) b = Some (b1, 0) \<and>
    b1 = ap_layout (filled 32 v) c (filled 16 (if pw = [] then cstr ''OPEN'' else cstr ''WPA2PSK''))
      (filled 16 (if pw = [] then cstr ''NONE'' else cstr ''AES'')) (if pw = [] then p else filled 63 pw) @ [0] \<and>
    setting b1 ''SSID='' = v \<and> setting b1 ''WPAPSK='' = (if pw = [] then setting b ''WPAPSK='' else pw) \<and>
    setting b1 ''AuthMode='' = (if pw = [] then cstr ''OPEN'' else cstr ''WPA2PSK'') \<and>
    setting b1 ''EncrypType='' = (if pw = [] then cstr ''NONE'' else cstr ''AES'') \<and>
    setting b1 ''Channel='' = setting b ''Channel='' \<and>
    wl_set_wifi_channel n b = Some (b2, 0) \<and> b2 = ap_layout s (filled 3 (channel_text n)) a e p @ [0] \<and>
    setting b2 ''Channel='' = channel_text n"
proof -
  obtain s c a e p where f: "fields s c a e p" and b: "b = ap_layout s c a e p @ [0]"
    using ap_reach_layout [OF assms(1)] by blast
  have f1: "fields (filled 32 v) c (filled 16 (if pw = [] then cstr ''OPEN'' else cstr ''WPA2PSK''))
      (filled 16 (if pw = [] then cstr ''NONE'' else cstr ''AES'')) (if pw = [] then p else filled 63 pw)"
    by (rule fields_init [OF f assms(2-6)])
  have f2: "fields s (filled 3 (channel_text n)) a e p"
    using fields_simps(2) [OF f] channel_text_ok(2-4) [OF assms(7,8)] by blast
  have v: "value_of (filled w x) = x" if "text_ok x" for w x
    using that value_of_filled by (simp add: text_ok_def)
  have r: "value_of (filled 16 (if pw = [] then cstr ''OPEN'' else cstr ''WPA2PSK'')) =
      (if pw = [] then cstr ''OPEN'' else cstr ''WPA2PSK'')"
    "value_of (filled 16 (if pw = [] then cstr ''NONE'' else cstr ''AES'')) =
      (if pw = [] then cstr ''NONE'' else cstr ''AES'')"
    "value_of (if pw = [] then p else filled 63 pw) = (if pw = [] then value_of p else pw)"
    using v mode_ok assms(5) by (auto simp del: asc_Char)
  have "wl_set_wifi_channel n b = Some (ap_layout s (filled 3 (channel_text n)) a e p @ [0], 0)"
    unfolding b by (rule wl_set_wifi_channel_layout [OF f assms(7,8)])
  moreover have "setting (ap_layout s (filled 3 (channel_text n)) a e p @ [0]) ''Channel='' = channel_text n"
    using read_fields(2) [OF f2] v channel_text_ok(2) [OF assms(7,8)] by simp
  moreover note wl_ap_init_layout [OF f assms(2-4,6)] read_fields [OF f1] read_fields [OF f] r v [OF assms(2)]
  ultimately show ?thesis using f unfolding b by (intro exI conjI) (assumption | rule refl | simp only:)+
qed

text \<open>A name with an equals sign, and a passphrase that contains a key.\<close>

theorem ap_settings_kept_witness:
  "\<exists>b1. wl_ap_init (Some (cstr ''SSID=a b=c'')) (Some (cstr ''Channel=1'')) WLAP_DAT = Some (b1, 0) \<and>
    setting b1 ''SSID='' = cstr ''SSID=a b=c'' \<and> setting b1 ''WPAPSK='' = cstr ''Channel=1'' \<and>
    setting b1 ''AuthMode='' = cstr ''WPA2PSK''"
proof -
  have ok: "text_ok (cstr ''SSID=a b=c'')" "text_ok (cstr ''Channel=1'')" by (simp_all add: text_ok_def)
  have l: "length (cstr ''SSID=a b=c'') < 32"
    "cstr ''Channel=1'' = [] \<or> 8 \<le> length (cstr ''Channel=1'') \<and> length (cstr ''Channel=1'') < 63"
    "cstr ''Channel=1'' \<noteq> []" by simp_all
  have "strstr (cstr ''SSID=a b=c'') (cstr k) = None"
    if "k \<in> set [''Channel='', ''AuthMode='', ''EncrypType='', ''WPAPSK='']" for k
    by (rule not_inside) (use that in auto)
  then have k: "key_free (cstr ''SSID=a b=c'')" unfolding key_free_def strstr_None [symmetric] by blast
  from ap_settings_kept [OF ap_start ok(1) k l(1) ok(2) l(2), of 1] l(3) show ?thesis
    by (auto simp del: asc_Char cstr_simps)
qed

section \<open>Where it goes wrong\<close>

lemma WLAP_length: "length WLAP_DAT = 1991"
  by code_simp

text \<open>A name of 32 characters passes the check of the length, but the length of the filler is then -1.\<close>

lemma set_value_full:
  assumes "length v = w" "1 \<le> w" "w < 4294967296" "length b < 4294967295"
  shows "set_value b n w v = None"
proof -
  have "u32_sub (u32_sub w (length v)) 1 = 4294967295" using assms by (simp add: u32_sub_def u32_def)
  moreover have "poke_set b' p c 4294967295 = None" if "length b' = length b" for b' p c
    using that assms(4) by (simp add: poke_set_def)
  moreover have "poke b p x = Some b' \<Longrightarrow> length b' = length b" for b p x b'
    by (auto simp: poke_def put_mem_def split: if_splits)
  ultimately show ?thesis by (cases n) (auto simp: set_value_def split: bind_splits)
qed

lemma name_of_32_overruns: "length v = 32 \<Longrightarrow> wl_set_ssid (Some v) WLAP_DAT = None"
  using set_value_full [of v 32 WLAP_DAT] by (simp add: wl_set_ssid_def WLAP_length)

lemma passphrase_of_63_overruns: "length v = 63 \<Longrightarrow> wl_set_passphrase (Some v) WLAP_DAT = None"
  using set_value_full [of v 63 WLAP_DAT] by (auto simp: wl_set_passphrase_def WLAP_length Let_def)

text \<open>A name with a key in it: the next channel is written into the name, and the channel of the driver
  stays.\<close>

lemma key_in_name:
  assumes "fields s c a e p" "text_ok u" "67 \<notin> set u" "text_ok (x @ w)" "length x = 3" "length u + length w < 21"
    and "1 \<le> n" "n \<le> 14"
  shows "\<exists>b1 r. wl_set_ssid (Some (u @ cstr ''Channel='' @ x @ w)) (ap_layout s c a e p @ [0]) = Some (b1, 0) \<and>
    wl_set_wifi_channel n b1 = Some (ap_layout (u @ cstr ''Channel='' @ channel_text n @ 10 # r) c a e p @ [0], 0)"
proof -
  let ?v = "u @ key_of ''Channel'' @ x @ w"
  define t where "t = w @ 10 # replicate (32 - length ?v - 1) (asc CHR ''#'')"
  define rest where "rest = t @ 10 # part 10 12 @ key_of ''Channel'' @ c @ 10 #
     part 13 60 @ key_of ''AuthMode'' @ a @ 10 # key_of ''EncrypType'' @ e @ 10 #
     part 62 65 @ key_of ''WPAPSK'' @ p @ 10 # ap_tail"
  define pre where "pre = part 0 9 @ key_of ''SSID'' @ u @ key_of ''Channel''"
  let ?b = "ap_layout (filled 32 ?v) c a e p @ [0]"
  have k: "key_of ''Channel'' = cstr ''Channel=''" by (simp add: key_of_def)
  have l: "length ?v < 32" using assms(5,6) by (simp add: key_of_def)
  have 1: "wl_set_ssid (Some ?v) (ap_layout s c a e p @ [0]) = Some (?b, 0)"
    using set_fields(1) [OF assms(1) l] l by (simp add: wl_set_ssid_def)
  have b: "ap_layout (filled 32 ?v) c a e p = pre @ x @ rest"
    by (simp add: ap_layout_def filled_def pre_def rest_def t_def)
  have "0 \<notin> set (filled 32 ?v)" using assms(2,4) key_nonzero(2) by (auto simp: filled_def text_ok_def)
  then have c: "c_text ?b = pre @ x @ rest"
    using layout_nonzero [of "filled 32 ?v" c a e p] assms(1) b by (auto simp: fields_def field_def)
  have "strstr (pre @ x @ rest) (key_of ''Channel'') = Some (key_of ''Channel'' @ x @ rest)"
    using strstr_pass [of "key_of ''Channel''" "key_of ''SSID''"] strstr_pass [of "key_of ''Channel''" u] assms(3)
    by (simp add: pre_def pass_part free_parts found_key) (simp add: key_of_def strstr_here)
  then have v: "value_at ?b ''Channel='' = Some (length pre)"
    unfolding value_at_def c by (simp add: pre_def k cstr_def del: cstr_simps)
  note ch = channel_text_ok [OF assms(7,8)]
  have "set_value ?b (Some (length pre)) 3 (channel_text n) = Some (pre @ filled 3 (channel_text n) @ rest @ [0])"
    using set_at [OF assms(5) ch(4), of ?b pre "rest @ [0]"] b by simp
  then have "wl_set_wifi_channel n ?b = Some (pre @ filled 3 (channel_text n) @ rest @ [0], 0)"
    using ch(1,5) assms(7,8) v by (simp add: wl_set_wifi_channel_def del: cstr_simps)
  moreover have "pre @ filled 3 (channel_text n) @ rest @ [0] = ap_layout (u @ cstr ''Channel='' @ channel_text n @
      10 # replicate (3 - length (channel_text n) - 1) (asc CHR ''#'') @ t) c a e p @ [0]"
    by (simp add: ap_layout_def filled_def pre_def rest_def k del: cstr_simps)
  ultimately show ?thesis using 1 unfolding k by (intro exI [of _ "ap_layout (filled 32 (u @ cstr ''Channel='' @ x @ w)) c a e p @ [0]"]
      exI [of _ "replicate (3 - length (channel_text n) - 1) (asc CHR ''#'') @ t"] conjI) simp_all
qed

text \<open>The filters: below three buffers only TCP passes, below two nothing does, so the buffer meant
  for ARP is never used.\<close>

lemma input_filter_iff:
  "lwip_low_level_inputput_filter n m pkg = 0 \<longleftrightarrow>
    (ip_protocol m (pkg + 10) = 1 \<longrightarrow> m (pkg + 10 + 24) \<in> {0, 8}) \<and>
    (2 < n \<or> n = 2 \<and> h_proto m (pkg + 10) = 2048 \<and> ip_protocol m (pkg + 10) = 6)"
  by (auto simp: lwip_low_level_inputput_filter_def Let_def PBUF_RESERVED_FOR_TCP_def PBUF_RESERVED_FOR_ARP_def)

lemma output_filter_iff:
  "lwip_low_level_output_filter n m pkg = 0 \<longleftrightarrow>
    2 < n \<or> n = 2 \<and> h_proto m (pkg + 10) = 2048 \<and> ip_protocol m (pkg + 10) = 6"
  by (auto simp: lwip_low_level_output_filter_def Let_def WIFI_TXQ_RESERVED_FOR_TCP_def WIFI_TXQ_RESERVED_FOR_ARP_def)

lemma arp_reserve_unused:
  "h_proto m (pkg + 10) = 2054 \<Longrightarrow> n \<le> 2 \<Longrightarrow> lwip_low_level_inputput_filter n m pkg = -1"
  by (auto simp: lwip_low_level_inputput_filter_def Let_def PBUF_RESERVED_FOR_TCP_def PBUF_RESERVED_FOR_ARP_def)

end
