(* ===== verification/WifiTask.thy ===== *)
theory WifiTask
  imports ByteMem CText
begin

text \<open>
  The wireless task (\<open>demo_wifi/wifi_demo_task.c\<close>): the table of the stations of the access point,
  the remembered address of the station build, the random hardware address, and the callback of
  the driver with its flags.

  The builds differ: \<open>ap\<close> is CONFIG_WL_AP_ENABLE, \<open>static_ip\<close> CONFIG_STATIC_IPADDR_ENABLE.
  What the callback asks of the driver library is recorded in \<open>wcalls\<close>; what it reads from there is
  the parameter \<open>wlib\<close>.  A read or write outside \<open>store_mac\<close>, and a draw of random numbers that
  never ends, are \<^const>\<open>None\<close>.
\<close>

section \<open>The table of stations\<close>

definition STORE_MAC_SIZE :: nat where "STORE_MAC_SIZE = 6 * 5"

text \<open>The loop of \<open>wifi_connect_sta_mac\<close>: the table, the address buffer of the caller, the result.\<close>

function sta_loop :: "byte list \<Rightarrow> nat \<Rightarrow> byte list \<Rightarrow> nat \<Rightarrow> nat \<Rightarrow> (byte list \<times> byte list \<times> nat) option" where
  "sta_loop store i mac len index =
    (if i \<ge> STORE_MAC_SIZE then Some (store, mac, 0)
     else if i + len > STORE_MAC_SIZE then None
     else if index = 0
     then if store ! i = 0 \<or> take len (drop i store) = take len mac
       then Some (put_mem store i (take len mac), mac, 0)
       else sta_loop store (i + 6) mac len index
     else if index = 1
     then if store ! i \<noteq> 0
       then Some (store, put_mem mac 0 (take len (drop i store)), i + len)
       else sta_loop store (i + 6) mac len index
     else if index = 2
     then if take len (drop i store) = take len mac
       then Some (put_mem store i (replicate len 0), mac, 0)
       else sta_loop store (i + 6) mac len index
     else sta_loop store (i + 6) mac len index)"
  by pat_completeness auto
termination by (relation "measure (\<lambda>(_, i, _). STORE_MAC_SIZE - i)") auto

declare sta_loop.simps [simp del]

definition wifi_connect_sta_mac :: "byte list \<Rightarrow> nat \<Rightarrow> byte list \<Rightarrow> nat \<Rightarrow> nat \<Rightarrow> (byte list \<times> byte list \<times> nat) option" where
  "wifi_connect_sta_mac store offset mac len index =
    sta_loop store (if offset < STORE_MAC_SIZE then offset else STORE_MAC_SIZE) mac len index"

lemma sta_loop_advances:
  "sta_loop store i mac 6 1 = Some (store', mac', r) \<Longrightarrow> r = 0 \<or> i < r \<and> r \<le> STORE_MAC_SIZE"
proof (induction "STORE_MAC_SIZE - i" arbitrary: i rule: less_induct)
  case less
  show ?case
  proof (cases "i \<ge> STORE_MAC_SIZE \<or> i + 6 > STORE_MAC_SIZE \<or> store ! i \<noteq> 0")
    case True
    then show ?thesis using less.prems by (subst (asm) sta_loop.simps) (auto split: if_splits)
  next
    case False
    then have "sta_loop store (i + 6) mac 6 1 = Some (store', mac', r)"
      using less.prems by (subst (asm) sta_loop.simps) simp
    moreover have "STORE_MAC_SIZE - (i + 6) < STORE_MAC_SIZE - i" using False by auto
    ultimately have "r = 0 \<or> i + 6 < r \<and> r \<le> STORE_MAC_SIZE" by (intro less.hyps)
    then show ?thesis by auto
  qed
qed

text \<open>\<open>wifi_all_sta_discon\<close>: the addresses disconnected, in order.\<close>

function discon_loop :: "byte list \<Rightarrow> nat \<Rightarrow> byte list \<Rightarrow> byte list list option" where
  "discon_loop store i mac =
    (case wifi_connect_sta_mac store i mac 6 1 of
       None \<Rightarrow> None
     | Some (_, mac, r) \<Rightarrow> if r = 0 then Some [] else map_option (Cons mac) (discon_loop store r mac))"
  by pat_completeness auto
termination
proof (relation "measure (\<lambda>(_, i, _). STORE_MAC_SIZE - i)")
  fix store i mac x x2 y mac' r
  assume "wifi_connect_sta_mac store i mac 6 1 = Some x" "(x2, y) = x" "(mac', r) = y" "r \<noteq> 0"
  then show "((store, r, mac'), store, i, mac) \<in> measure (\<lambda>(_, i, _). STORE_MAC_SIZE - i)"
    using sta_loop_advances [of store "if i < STORE_MAC_SIZE then i else STORE_MAC_SIZE" mac x2 mac' r]
    by (auto simp: wifi_connect_sta_mac_def split: if_splits)
qed simp

declare discon_loop.simps [simp del]

definition wifi_all_sta_discon :: "byte list \<Rightarrow> byte list list option" where
  "wifi_all_sta_discon store = discon_loop store 0 (replicate 6 0)"

section \<open>Addresses\<close>

text \<open>\<open>init_net_device_mac_addr\<close> on a sequence of draws of the two random registers: the bytes written
  from \<open>macaddr\<close> on.\<close>

fun init_net_device_mac_addr :: "(nat \<times> nat) list \<Rightarrow> byte list option" where
  "init_net_device_mac_addr [] = None"
| "init_net_device_mac_addr ((h, l) # draws) =
    (let macaddr = le32 h @ le32 l
     in if \<forall>b\<in>set (take 6 macaddr). b = 0 then init_net_device_mac_addr draws
        else Some (and (macaddr ! 0) 252 # tl macaddr))"

record sta_ip_info =
  ip_ssid :: "byte list"
  ip_addr :: nat
  ip_gw :: nat
  ip_netmask :: nat
  ip_dns :: nat
  ip_gw_mac :: "byte list"
  ip_local_mac :: "byte list"
  ip_chanel :: nat

record lan_setting =
  WIRELESS_IP_ADDR :: "byte list"
  WIRELESS_NETMASK :: "byte list"
  WIRELESS_GATEWAY :: "byte list"
  SERVER_IPADDR :: "byte list"
  CLIENT_IPADDR :: "byte list"
  SUB_NET_MASK :: "byte list"

definition no_addr :: "byte list" where "no_addr = replicate 4 0"

definition wifi_set_lan_setting_info :: lan_setting where
  "wifi_set_lan_setting_info =
    (let addr3 = 1
     in \<lparr>WIRELESS_IP_ADDR = [192, 168, addr3, 1], WIRELESS_NETMASK = [255, 255, 255, 0],
         WIRELESS_GATEWAY = [192, 168, addr3, 1], SERVER_IPADDR = [192, 168, addr3, 1],
         CLIENT_IPADDR = [192, 168, addr3, 2], SUB_NET_MASK = [255, 255, 255, 0]\<rparr>)"

definition wifi_set_sta_ip_info :: "sta_ip_info \<Rightarrow> lan_setting" where
  "wifi_set_sta_ip_info s =
    \<lparr>WIRELESS_IP_ADDR = le32 (ip_addr s), WIRELESS_NETMASK = le32 (ip_netmask s), WIRELESS_GATEWAY = le32 (ip_gw s),
     SERVER_IPADDR = no_addr, CLIENT_IPADDR = no_addr, SUB_NET_MASK = no_addr\<rparr>"

section \<open>The driver callback\<close>

datatype wifi_mode = STA_MODE | AP_MODE | SMP_CFG_MODE | MP_TEST_MODE | P2P_MODE | NONE_MODE

text \<open>\<open>struct wifi_store_info\<close>: mode 0 is \<^const>\<open>None\<close>; names and passphrases by mode, as the text before
  the terminator.\<close>

record wifi_store_info =
  ws_mode :: "wifi_mode option"
  ws_pwd :: "byte list list"
  ws_ssid :: "byte list list"

definition no_store_info :: wifi_store_info where
  "no_store_info = \<lparr>ws_mode = None, ws_pwd = [[], []], ws_ssid = [[], []]\<rparr>"

text \<open>What is read from the driver library, the name server, the flash and the random registers.\<close>

record wlib =
  cur_ssid :: "byte list"
  cur_pwd :: "byte list"
  cur_mac :: "byte list"
  cur_bssid :: "byte list"
  cur_channel :: nat
  netif_addr :: "nat \<times> nat \<times> nat"      \<comment> \<open>address, netmask, gateway\<close>
  dns_server :: nat
  stored_ip :: "sta_ip_info option"
  wifi_vm_info :: wifi_store_info
  rand_draws :: "(nat \<times> nat) list"

datatype wcall =
  Net_set_lan lan_setting
| Wifi_set_default wifi_store_info
| Wifi_connect_timeout nat
| Wifi_tx_rates nat
| Net_ota_scan nat
| Wifi_store_mode "byte list" "byte list"
| Wifi_best_ssid nat
| Wifi_enter_sta "byte list" "byte list"
| Syscfg_write sta_ip_info
| Wifi_cpu_reset

record wifi_task =
  save_ssid_flag :: nat
  request_connect_flag :: nat
  use_static_ipaddr_flag :: nat
  store_mac :: "byte list"
  wifi_default_mode_parm :: wifi_store_info
  wcalls :: "wcall list"

definition wcall :: "wcall \<Rightarrow> wifi_task \<Rightarrow> wifi_task" where
  "wcall c s = s\<lparr>wcalls := wcalls s @ [c]\<rparr>"

definition wifi_stored_mode_get :: "wlib \<Rightarrow> wifi_store_info \<Rightarrow> wifi_store_info \<times> bool" where
  "wifi_stored_mode_get L info =
    (if ws_mode (wifi_vm_info L) \<noteq> None then (wifi_vm_info L, True) else (info, False))"

definition wifi_sta_save_ssid :: "wlib \<Rightarrow> wifi_task \<Rightarrow> wifi_task" where
  "wifi_sta_save_ssid L s =
    (if save_ssid_flag s \<noteq> 0
     then wcall (Wifi_store_mode (cur_ssid L) (cur_pwd L)) (s\<lparr>save_ssid_flag := 0\<rparr>)
     else s)"

definition wifi_sta_connect :: "byte list \<Rightarrow> byte list \<Rightarrow> nat \<Rightarrow> wifi_task \<Rightarrow> wifi_task" where
  "wifi_sta_connect ssid pwd save s =
    wcall (Wifi_enter_sta ssid pwd) (wcall (Wifi_best_ssid 0) (s\<lparr>save_ssid_flag := save, request_connect_flag := 1\<rparr>))"

definition compare_dhcp_ipaddr :: "wlib \<Rightarrow> wifi_task \<Rightarrow> wifi_task \<times> int" where
  "compare_dhcp_ipaddr L s =
    (let s = s\<lparr>use_static_ipaddr_flag := 0\<rparr>
     in case stored_ip L of
          None \<Rightarrow> (s, -1)
        | Some i \<Rightarrow>
            if cur_ssid L = ip_ssid i \<and> cur_mac L = ip_local_mac i \<and> cur_bssid L = ip_gw_mac i
            then (s\<lparr>use_static_ipaddr_flag := 1\<rparr>, 0) else (s, -1))"

definition store_dhcp_ipaddr :: "wlib \<Rightarrow> wifi_task \<Rightarrow> wifi_task" where
  "store_dhcp_ipaddr L s =
    (if use_static_ipaddr_flag s \<noteq> 0 then s
     else case netif_addr L of (ip, netmask, gw) \<Rightarrow>
       wcall (Syscfg_write \<lparr>ip_ssid = cur_ssid L, ip_addr = ip, ip_gw = gw, ip_netmask = netmask, ip_dns = dns_server L,
         ip_gw_mac = cur_bssid L, ip_local_mac = cur_mac L, ip_chanel = cur_channel L\<rparr>) s)"

definition dns_set_server :: "wlib \<Rightarrow> nat" where
  "dns_set_server L = (case stored_ip L of None \<Rightarrow> 0 | Some i \<Rightarrow> ip_dns i)"

datatype wifi_event =
  EVENT_MODULE_INIT | EVENT_MODULE_START | EVENT_STA_SCAN_COMPLETED | EVENT_STA_CONNECT_SUCC
| EVENT_DHCP_SUCC | EVENT_AP_ON_ASSOC "byte list" | EVENT_AP_ON_DISCONNECTED "byte list" | EVENT_OTHER

definition tx_rate_control_tab :: nat where
  "tx_rate_control_tab = foldl (\<lambda>t i. or t (push_bit i 1)) 0 [0..<20]"

text \<open>\<open>WIFI_EVENT_MODULE_INIT\<close> in the build of the access point and in that of the station.\<close>

definition default_ap :: "wifi_store_info \<Rightarrow> wifi_store_info" where
  "default_ap p = p\<lparr>ws_mode := Some AP_MODE, ws_ssid := (ws_ssid p)[1 := cstr ''WIFI_OTA_XXXXXX''],
     ws_pwd := (ws_pwd p)[1 := []]\<rparr>"

definition module_init :: "bool \<Rightarrow> wlib \<Rightarrow> wifi_task \<Rightarrow> wifi_task option" where
  "module_init ap L s =
    (case wifi_stored_mode_get L no_store_info of (p, found) \<Rightarrow>
       if ap
       then let s = wcall (Net_set_lan wifi_set_lan_setting_info) s
         in if found then Some (wcall (Wifi_set_default p) (s\<lparr>wifi_default_mode_parm := p\<rparr>))
            else map_option (\<lambda>_. wcall (Wifi_set_default (default_ap p)) (s\<lparr>wifi_default_mode_parm := default_ap p\<rparr>))
              (init_net_device_mac_addr (rand_draws L))
       else if \<not> found \<or> ws_mode p \<noteq> Some STA_MODE
       then Some (wcall Wifi_cpu_reset (s\<lparr>wifi_default_mode_parm := p\<rparr>))
       else Some (wcall (Wifi_set_default p) (wcall (Wifi_connect_timeout 30) (s\<lparr>wifi_default_mode_parm := p\<rparr>))))"

definition station_event :: "byte list \<Rightarrow> nat \<Rightarrow> wifi_task \<Rightarrow> wifi_task option" where
  "station_event hwaddr index s =
    map_option (\<lambda>(t, _, _). s\<lparr>store_mac := t\<rparr>) (wifi_connect_sta_mac (store_mac s) 0 hwaddr 6 index)"

definition wifi_event_callback :: "bool \<Rightarrow> bool \<Rightarrow> wlib \<Rightarrow> wifi_event \<Rightarrow> wifi_task \<Rightarrow> (wifi_task \<times> int) option" where
  "wifi_event_callback ap static_ip L e s =
    (case e of
       EVENT_MODULE_INIT \<Rightarrow> map_option (\<lambda>s. (s, if snd (wifi_stored_mode_get L no_store_info) then 1 else 0)) (module_init ap L s)
     | EVENT_MODULE_START \<Rightarrow> Some (wcall (Wifi_tx_rates tx_rate_control_tab) s, 0)
     | EVENT_STA_SCAN_COMPLETED \<Rightarrow> Some (wcall (Net_ota_scan 0) s, 0)
     | EVENT_STA_CONNECT_SUCC \<Rightarrow>
         if \<not> static_ip then Some (s, 0)
         else (case compare_dhcp_ipaddr L s of (s, r) \<Rightarrow>
           if r = 0 then case stored_ip L of
               None \<Rightarrow> Some (s, 0)
             | Some i \<Rightarrow> Some (wcall (Net_set_lan (wifi_set_sta_ip_info i)) s, 1)
           else Some (s, 0))
     | EVENT_DHCP_SUCC \<Rightarrow>
         Some ((wifi_sta_save_ssid L (wcall (Net_ota_scan 1) s))\<lparr>request_connect_flag := 0\<rparr>, 0)
     | EVENT_AP_ON_ASSOC hwaddr \<Rightarrow> map_option (\<lambda>s. (s, 0)) (station_event hwaddr 0 s)
     | EVENT_AP_ON_DISCONNECTED hwaddr \<Rightarrow> map_option (\<lambda>s. (s, 0)) (station_event hwaddr 2 s)
     | EVENT_OTHER \<Rightarrow> Some (s, 0))"

section \<open>Received frames and the scan\<close>

unbundle bit_operations_syntax

definition IEEE80211_FC0_TYPE_MASK :: nat where "IEEE80211_FC0_TYPE_MASK = 0x0c"
definition IEEE80211_FC0_SUBTYPE_MASK :: nat where "IEEE80211_FC0_SUBTYPE_MASK = 0xf0"
definition stype :: "nat \<Rightarrow> nat" where "stype n = n * 2 ^ 4"

text \<open>The name that is printed for a frame, by the first byte of its frame control.\<close>

definition mgt_name :: "nat \<Rightarrow> string" where
  "mgt_name sub =
     (if sub = stype 0x0 then ''association req''
      else if sub = stype 0x1 then ''association resp''
      else if sub = stype 0x2 then ''reassociation req''
      else if sub = stype 0x3 then ''reassociation resp''
      else if sub = stype 0x4 then ''probe req''
      else if sub = stype 0x5 then ''probe resp''
      else if sub = stype 0x8 then ''beacon''
      else if sub = stype 0x9 then ''atim''
      else if sub = stype 0xa then ''disassociation''
      else if sub = stype 0xb then ''authentication''
      else if sub = stype 0xc then ''deauthentication''
      else if sub = stype 0xd then ''action''
      else ''unknown mgmt'')"

definition wifi_rx_cb :: "byte \<Rightarrow> string" where
  "wifi_rx_cb fc0 =
     (let t = fc0 AND IEEE80211_FC0_TYPE_MASK
      in if t = 0x00 then mgt_name (fc0 AND IEEE80211_FC0_SUBTYPE_MASK)
         else if t = 0x04 then ''control''
         else if t = 0x08 then ''data''
         else ''unknown'')"

text \<open>The count of scans (a \<open>u8\<close>) and whether the list of results is cleared after this one.\<close>

definition wifi_scan_test :: "nat \<Rightarrow> nat \<times> bool" where
  "wifi_scan_test scan_cnt = (let c = u8 (scan_cnt + 1) in if c > 4 then (0, True) else (c, False))"

end
