(* ===== verification/WifiTask_Spec.thy ===== *)
theory WifiTask_Spec
  imports WifiTask
begin

text \<open>
  The table of stations holds exactly the stations that are associated, so that disconnecting all of
  them reaches each once; its limits; and when a passphrase is stored.
\<close>

section \<open>Slots\<close>

text \<open>The table as five slots of six bytes; a slot that begins with zero is free.\<close>

definition slots_ok :: "byte list list \<Rightarrow> bool" where
  "slots_ok ss \<longleftrightarrow> (\<forall>s\<in>set ss. length s = 6)"

fun put_slot :: "byte list list \<Rightarrow> byte list \<Rightarrow> byte list list" where
  "put_slot [] mac = []"
| "put_slot (s # ss) mac = (if hd s = 0 \<or> s = mac then mac # ss else s # put_slot ss mac)"

fun clear_slot :: "byte list list \<Rightarrow> byte list \<Rightarrow> byte list list" where
  "clear_slot [] mac = []"
| "clear_slot (s # ss) mac = (if s = mac then replicate 6 0 # ss else s # clear_slot ss mac)"

definition taken :: "byte list list \<Rightarrow> byte list list" where
  "taken ss = filter (\<lambda>s. hd s \<noteq> 0) ss"

lemma concat_length: "slots_ok ss \<Longrightarrow> length (concat ss) = 6 * length ss"
  by (induction ss) (simp_all add: slots_ok_def)

lemma slot_view:
  assumes "slots_ok pre" "slots_ok (s # ss)" "m = concat (pre @ s # ss)" "i = 6 * length pre"
  shows "take 6 (drop i m) = s" "m ! i = hd s"
    "length t = 6 \<Longrightarrow> put_mem m i t = concat (pre @ t # ss)"
    "length (pre @ s # ss) = 5 \<Longrightarrow> \<not> i \<ge> STORE_MAC_SIZE \<and> \<not> i + 6 > STORE_MAC_SIZE"
proof -
  have l: "length (concat pre) = i" "length s = 6" "s \<noteq> []"
    using assms concat_length [of pre] by (auto simp: slots_ok_def)
  then show "take 6 (drop i m) = s" "m ! i = hd s" "length t = 6 \<Longrightarrow> put_mem m i t = concat (pre @ t # ss)"
    by (simp_all add: assms(3) nth_append hd_conv_nth put_mem_def)
  show "length (pre @ s # ss) = 5 \<Longrightarrow> \<not> i \<ge> STORE_MAC_SIZE \<and> \<not> i + 6 > STORE_MAC_SIZE"
    using assms(4) by (simp add: STORE_MAC_SIZE_def)
qed

lemma slots_okD:
  "slots_ok (s # ss) \<Longrightarrow> slots_ok ss" "slots_ok (s # ss) \<Longrightarrow> length s = 6"
  "slots_ok (s # ss) \<Longrightarrow> slots_ok pre \<Longrightarrow> slots_ok (pre @ [s])"
  by (auto simp: slots_ok_def)

text \<open>Past the last slot nothing is found.\<close>

lemma sta_loop_end: "sta_loop m 30 mac 6 index = Some (m, mac, 0)"
  by (subst sta_loop.simps) (simp add: STORE_MAC_SIZE_def)

lemma sta_loop_write:
  "length pre + length ss = 5 \<Longrightarrow> slots_ok pre \<Longrightarrow> slots_ok ss \<Longrightarrow> length mac = 6 \<Longrightarrow> m = concat (pre @ ss) \<Longrightarrow>
    sta_loop m (6 * length pre) mac 6 0 = Some (concat (pre @ put_slot ss mac), mac, 0)"
proof (induction ss arbitrary: pre)
  case (Cons s ss)
  note v = slot_view [OF Cons.prems(2,3,5) refl] and ok = slots_okD [OF Cons.prems(3)]
  have IH: "sta_loop m (6 * length pre + 6) mac 6 0 = Some (concat ((pre @ [s]) @ put_slot ss mac), mac, 0)"
    using Cons.IH [of "pre @ [s]"] Cons.prems ok by (simp add: add.commute)
  show ?case using v(4) Cons.prems(1,4) IH
    by (subst sta_loop.simps) (simp add: v(1,2) v(3) [OF Cons.prems(4)])
qed (simp add: sta_loop_end)

lemma sta_loop_clear:
  "length pre + length ss = 5 \<Longrightarrow> slots_ok pre \<Longrightarrow> slots_ok ss \<Longrightarrow> length mac = 6 \<Longrightarrow> m = concat (pre @ ss) \<Longrightarrow>
    sta_loop m (6 * length pre) mac 6 2 = Some (concat (pre @ clear_slot ss mac), mac, 0)"
proof (induction ss arbitrary: pre)
  case (Cons s ss)
  note v = slot_view [OF Cons.prems(2,3,5) refl] and ok = slots_okD [OF Cons.prems(3)]
  have IH: "sta_loop m (6 * length pre + 6) mac 6 2 = Some (concat ((pre @ [s]) @ clear_slot ss mac), mac, 0)"
    using Cons.IH [of "pre @ [s]"] Cons.prems ok by (simp add: add.commute)
  show ?case using v(4) Cons.prems(1,4) IH
    by (subst sta_loop.simps) (simp add: v(1,2) v(3) [of "replicate 6 0"])
qed (simp add: sta_loop_end)

lemma discon_loop_slots:
  "length pre + length ss = 5 \<Longrightarrow> slots_ok pre \<Longrightarrow> slots_ok ss \<Longrightarrow> length mac = 6 \<Longrightarrow> m = concat (pre @ ss) \<Longrightarrow>
    discon_loop m (6 * length pre) mac = Some (taken ss)"
proof (induction ss arbitrary: pre mac)
  case Nil
  then show ?case
    by (subst discon_loop.simps) (simp add: wifi_connect_sta_mac_def STORE_MAC_SIZE_def sta_loop_end taken_def)
next
  case (Cons s ss)
  note v = slot_view [OF Cons.prems(2,3,5) refl] and ok = slots_okD [OF Cons.prems(3)]
  let ?i = "6 * length pre"
  have i: "?i < STORE_MAC_SIZE" "?i + 6 \<le> STORE_MAC_SIZE" using v(4) Cons.prems(1) by auto
  have IH: "discon_loop m (?i + 6) t = Some (taken ss)" if "length t = 6" for t
    using Cons.IH [of "pre @ [s]" t] Cons.prems ok that by (simp add: add.commute)
  show ?case
  proof (cases "hd s = 0")
    case True
    have step: "sta_loop m ?i mac 6 1 = sta_loop m (?i + 6) mac 6 1"
      using i True by (subst sta_loop.simps) (simp add: v(2))
    have "wifi_connect_sta_mac m ?i mac 6 1 = wifi_connect_sta_mac m (?i + 6) mac 6 1"
      using i step by (auto simp: wifi_connect_sta_mac_def)
    then have "discon_loop m ?i mac = discon_loop m (?i + 6) mac"
      by (subst (1 2) discon_loop.simps) simp
    then show ?thesis using IH [OF Cons.prems(4)] True by (simp add: taken_def)
  next
    case False
    have "sta_loop m ?i mac 6 1 = Some (m, s, ?i + 6)"
      using i False Cons.prems(4) ok(2) by (subst sta_loop.simps) (simp add: v(1,2) put_mem_def)
    then show ?thesis using IH [of s] i False ok(2)
      by (subst discon_loop.simps) (simp add: wifi_connect_sta_mac_def taken_def)
  qed
qed

text \<open>The three uses of the table, on slots.\<close>

lemma station_event_slots:
  assumes "store_mac s = concat ss" "length ss = 5" "slots_ok ss" "length mac = 6"
  shows "station_event mac 0 s = Some (s\<lparr>store_mac := concat (put_slot ss mac)\<rparr>)"
    "station_event mac 2 s = Some (s\<lparr>store_mac := concat (clear_slot ss mac)\<rparr>)"
    "wifi_all_sta_discon (store_mac s) = Some (taken ss)"
  using sta_loop_write [of "[]" ss mac "concat ss"] sta_loop_clear [of "[]" ss mac "concat ss"]
    discon_loop_slots [of "[]" ss "replicate 6 0" "concat ss"] assms
  by (simp_all add: station_event_def wifi_connect_sta_mac_def wifi_all_sta_discon_def STORE_MAC_SIZE_def slots_ok_def)

lemma taken_simps [simp]: "taken [] = []" "taken (s # ss) = (if hd s = 0 then taken ss else s # taken ss)"
  by (simp_all add: taken_def)

lemma put_slot_shape:
  "length (put_slot ss mac) = length ss" "slots_ok ss \<Longrightarrow> length mac = 6 \<Longrightarrow> slots_ok (put_slot ss mac)"
  by (induction ss) (auto simp: slots_ok_def)

lemma clear_slot_shape:
  "length (clear_slot ss mac) = length ss" "slots_ok ss \<Longrightarrow> slots_ok (clear_slot ss mac)"
  by (induction ss) (auto simp: slots_ok_def)

lemma put_slot_set:
  "hd mac \<noteq> 0 \<Longrightarrow> length (taken ss) < length ss \<Longrightarrow> mac \<notin> set (taken ss) \<Longrightarrow>
    set (taken (put_slot ss mac)) = insert mac (set (taken ss)) \<and> (distinct (taken ss) \<longrightarrow> distinct (taken (put_slot ss mac)))"
  by (induction ss) (auto split: if_splits)

lemma taken_le: "length (taken ss) \<le> length ss"
  by (simp add: taken_def)

lemma clear_slot_taken: "taken (clear_slot ss mac) = remove1 mac (taken ss)"
  by (induction ss) (auto simp: remove1_idem taken_def split: if_splits)

section \<open>Traces\<close>

fun run_events :: "bool \<Rightarrow> bool \<Rightarrow> wlib \<Rightarrow> wifi_event list \<Rightarrow> wifi_task \<Rightarrow> wifi_task option" where
  "run_events ap static_ip L [] s = Some s"
| "run_events ap static_ip L (e # es) s =
    (case wifi_event_callback ap static_ip L e s of None \<Rightarrow> None | Some (s, _) \<Rightarrow> run_events ap static_ip L es s)"

text \<open>The stations that are associated after some events; \<^const>\<open>None\<close> when a station associates twice without
  leaving, when there are more than five, or when an address does not have six bytes and a first byte
  other than zero.\<close>

definition mac_ok :: "byte list \<Rightarrow> bool" where "mac_ok m \<longleftrightarrow> length m = 6 \<and> hd m \<noteq> 0"

fun present_after :: "wifi_event list \<Rightarrow> byte list list \<Rightarrow> byte list list option" where
  "present_after [] ps = Some ps"
| "present_after (EVENT_AP_ON_ASSOC m # es) ps =
    (if mac_ok m \<and> m \<notin> set ps \<and> length ps < 5 then present_after es (m # ps) else None)"
| "present_after (EVENT_AP_ON_DISCONNECTED m # es) ps =
    (if mac_ok m then present_after es (remove1 m ps) else None)"
| "present_after (_ # es) ps = present_after es ps"

definition table_for :: "byte list list \<Rightarrow> wifi_task \<Rightarrow> bool" where
  "table_for ps s \<longleftrightarrow> distinct ps \<and> (\<exists>ss. store_mac s = concat ss \<and> length ss = 5 \<and> slots_ok ss \<and>
    distinct (taken ss) \<and> set (taken ss) = set ps)"

lemma table_for_assoc:
  assumes "table_for ps s" "mac_ok m" "m \<notin> set ps" "length ps < 5"
  obtains s' where "station_event m 0 s = Some s'" "table_for (m # ps) s'"
proof -
  obtain ss where ss: "store_mac s = concat ss" "length ss = 5" "slots_ok ss" "distinct (taken ss)" "set (taken ss) = set ps" "distinct ps"
    using assms(1) by (auto simp: table_for_def)
  have "length (taken ss) < length ss" using ss(2,4-6) assms(4) by (metis distinct_card)
  then have p: "set (taken (put_slot ss m)) = insert m (set ps)" "distinct (taken (put_slot ss m))"
    using put_slot_set [of m ss] assms(2,3) ss(4,5) by (auto simp: mac_ok_def)
  have "station_event m 0 s = Some (s\<lparr>store_mac := concat (put_slot ss m)\<rparr>)"
    using station_event_slots(1) [OF ss(1-3)] assms(2) by (simp add: mac_ok_def)
  moreover have "table_for (m # ps) (s\<lparr>store_mac := concat (put_slot ss m)\<rparr>)"
    using p ss(2,3,6) assms(2,3) put_slot_shape [of ss m]
    by (auto simp: table_for_def mac_ok_def intro!: exI [of _ "put_slot ss m"])
  ultimately show thesis by (rule that)
qed

lemma table_for_left:
  assumes "table_for ps s" "mac_ok m"
  obtains s' where "station_event m 2 s = Some s'" "table_for (remove1 m ps) s'"
proof -
  obtain ss where ss: "store_mac s = concat ss" "length ss = 5" "slots_ok ss" "distinct (taken ss)" "set (taken ss) = set ps" "distinct ps"
    using assms(1) by (auto simp: table_for_def)
  have "station_event m 2 s = Some (s\<lparr>store_mac := concat (clear_slot ss m)\<rparr>)"
    using station_event_slots(2) [OF ss(1-3)] assms(2) by (simp add: mac_ok_def)
  moreover have "table_for (remove1 m ps) (s\<lparr>store_mac := concat (clear_slot ss m)\<rparr>)"
    unfolding table_for_def
    using ss(2-6) clear_slot_shape [of ss m] by (intro conjI exI [of _ "clear_slot ss m"]) (simp_all add: clear_slot_taken)
  ultimately show thesis by (rule that)
qed

text \<open>Every other event leaves the table alone.\<close>

lemma other_events:
  assumes "\<And>m. e \<noteq> EVENT_AP_ON_ASSOC m" "\<And>m. e \<noteq> EVENT_AP_ON_DISCONNECTED m" "e \<noteq> EVENT_MODULE_INIT"
  shows "\<exists>s' r. wifi_event_callback ap static_ip L e s = Some (s', r) \<and> store_mac s' = store_mac s"
  using assms by (cases e) (auto simp: wifi_event_callback_def wcall_def compare_dhcp_ipaddr_def wifi_sta_save_ssid_def
      Let_def split: option.splits if_splits prod.splits)

lemma run_events_table:
  "table_for ps s \<Longrightarrow> present_after es ps = Some ps' \<Longrightarrow> EVENT_MODULE_INIT \<notin> set es \<Longrightarrow>
    \<exists>s'. run_events ap static_ip L es s = Some s' \<and> table_for ps' s'"
proof (induction es arbitrary: ps s)
  case (Cons e es)
  have rest: ?case if e: "\<And>m. e \<noteq> EVENT_AP_ON_ASSOC m" "\<And>m. e \<noteq> EVENT_AP_ON_DISCONNECTED m" "e \<noteq> EVENT_MODULE_INIT"
  proof -
    obtain s' r where r: "wifi_event_callback ap static_ip L e s = Some (s', r)" "store_mac s' = store_mac s"
      using other_events [OF e] by blast
    then have "table_for ps s'" using Cons.prems(1) by (simp add: table_for_def)
    moreover have "present_after es ps = Some ps'" using Cons.prems(2) e by (cases e) auto
    ultimately show ?case using Cons.IH Cons.prems(3) r(1) by simp
  qed
  consider (assoc) m where "e = EVENT_AP_ON_ASSOC m" | (left) m where "e = EVENT_AP_ON_DISCONNECTED m"
    | (other) "\<And>m. e \<noteq> EVENT_AP_ON_ASSOC m" "\<And>m. e \<noteq> EVENT_AP_ON_DISCONNECTED m" by blast
  then show ?case
  proof cases
    case assoc
    then have p: "mac_ok m" "m \<notin> set ps" "length ps < 5" "present_after es (m # ps) = Some ps'"
      using Cons.prems(2) by (auto split: if_splits)
    obtain s' where "station_event m 0 s = Some s'" "table_for (m # ps) s'"
      using table_for_assoc [OF Cons.prems(1) p(1-3)] .
    then show ?thesis using Cons.IH [OF _ p(4)] Cons.prems(3) assoc by (simp add: wifi_event_callback_def)
  next
    case left
    then have p: "mac_ok m" "present_after es (remove1 m ps) = Some ps'" using Cons.prems(2) by (auto split: if_splits)
    obtain s' where "station_event m 2 s = Some s'" "table_for (remove1 m ps) s'"
      using table_for_left [OF Cons.prems(1) p(1)] .
    then show ?thesis using Cons.IH [OF _ p(2)] Cons.prems(3) left by (simp add: wifi_event_callback_def)
  next
    case other
    then show ?thesis using rest Cons.prems(3) by auto
  qed
qed simp

text \<open>The table as it is kept, for any events: an association takes the first slot that is free or holds
  the address already, and is lost without one; a leaving station frees the first slot with its
  address.\<close>

definition slot_event :: "wifi_event \<Rightarrow> byte list list \<Rightarrow> byte list list" where
  "slot_event e ss = (case e of EVENT_AP_ON_ASSOC m \<Rightarrow> put_slot ss m
    | EVENT_AP_ON_DISCONNECTED m \<Rightarrow> clear_slot ss m | _ \<Rightarrow> ss)"

definition six_bytes :: "wifi_event \<Rightarrow> bool" where
  "six_bytes e = (case e of EVENT_AP_ON_ASSOC m \<Rightarrow> length m = 6 | EVENT_AP_ON_DISCONNECTED m \<Rightarrow> length m = 6
    | EVENT_MODULE_INIT \<Rightarrow> False | _ \<Rightarrow> True)"

lemma run_events_slots:
  "store_mac s = concat ss \<Longrightarrow> length ss = 5 \<Longrightarrow> slots_ok ss \<Longrightarrow> \<forall>e \<in> set es. six_bytes e \<Longrightarrow>
    \<exists>s'. run_events ap static_ip L es s = Some s' \<and> store_mac s' = concat (fold slot_event es ss) \<and>
      length (fold slot_event es ss) = 5 \<and> slots_ok (fold slot_event es ss)"
proof (induction es arbitrary: s ss)
  case (Cons e es)
  have e6: "six_bytes e" and es6: "\<forall>e \<in> set es. six_bytes e" using Cons.prems(4) by simp_all
  have "\<exists>s' r. wifi_event_callback ap static_ip L e s = Some (s', r) \<and> store_mac s' = concat (slot_event e ss) \<and>
      length (slot_event e ss) = 5 \<and> slots_ok (slot_event e ss)"
  proof -
    consider (assoc) m where "e = EVENT_AP_ON_ASSOC m" | (left) m where "e = EVENT_AP_ON_DISCONNECTED m"
      | (other) "\<And>m. e \<noteq> EVENT_AP_ON_ASSOC m" "\<And>m. e \<noteq> EVENT_AP_ON_DISCONNECTED m" by blast
    then show ?thesis
    proof cases
      case assoc
      with e6 have "length m = 6" by (simp add: six_bytes_def)
      with assoc station_event_slots(1) [OF Cons.prems(1-3)] Cons.prems(2,3) show ?thesis
        by (simp add: wifi_event_callback_def slot_event_def put_slot_shape)
    next
      case left
      with e6 have "length m = 6" by (simp add: six_bytes_def)
      with left station_event_slots(2) [OF Cons.prems(1-3)] Cons.prems(2,3) show ?thesis
        by (simp add: wifi_event_callback_def slot_event_def clear_slot_shape)
    next
      case other
      then have "slot_event e ss = ss" by (cases e) (auto simp: slot_event_def)
      moreover have "e \<noteq> EVENT_MODULE_INIT" using e6 by (auto simp: six_bytes_def)
      ultimately show ?thesis using other_events [OF other] Cons.prems(1-3) by metis
    qed
  qed
  then obtain s1 r where s1: "wifi_event_callback ap static_ip L e s = Some (s1, r)"
    "store_mac s1 = concat (slot_event e ss)" "length (slot_event e ss) = 5" "slots_ok (slot_event e ss)" by blast
  from Cons.IH [OF s1(2-4) es6] s1(1) show ?case by simp
qed simp

text \<open>C35: The station table.  From the empty table, whatever events the driver reports after its
  initialisation, with addresses of six bytes, the callbacks never leave the table's thirty bytes:
  they hold five slots (a comment says six), an association takes the first one that is free or has
  the address already, and is lost when there is none, a station that leaves frees the first slot
  with its address, and \<open>wifi_all_sta_discon\<close> disconnects the addresses of the slots that do not begin
  with zero, in order.  If, moreover, no address begins with zero, no station associates again
  without having left, and at most five are associated at a time, then these are exactly the
  stations that are associated, each once.  Without these conditions they are not: see
  \<open>zero_oui_ignored\<close>, \<open>association_twice\<close> and \<open>sixth_station_lost\<close>.\<close>

theorem stations_exact:
  assumes "\<forall>e \<in> set es. six_bytes e" "store_mac s = replicate STORE_MAC_SIZE 0"
  shows "\<exists>s' ss. run_events ap static_ip L es s = Some s' \<and>
    ss = fold slot_event es (replicate 5 (replicate 6 0)) \<and> store_mac s' = concat ss \<and> length ss = 5 \<and>
    wifi_all_sta_discon (store_mac s') = Some (filter (\<lambda>m. hd m \<noteq> 0) ss) \<and>
    (\<forall>ps. present_after es [] = Some ps \<longrightarrow>
      distinct (filter (\<lambda>m. hd m \<noteq> 0) ss) \<and> set (filter (\<lambda>m. hd m \<noteq> 0) ss) = set ps)"
proof -
  let ?z = "replicate 5 (replicate 6 0) :: byte list list" let ?ss = "fold slot_event es ?z"
  have z: "store_mac s = concat ?z"
    using assms(2) by (simp add: STORE_MAC_SIZE_def numeral_eq_Suc)
  have zs: "length ?z = 5" "slots_ok ?z" by (simp_all add: slots_ok_def)
  obtain s' where s': "run_events ap static_ip L es s = Some s'" "store_mac s' = concat ?ss" "length ?ss = 5" "slots_ok ?ss"
    using run_events_slots [OF z zs assms(1)] by blast
  have d: "wifi_all_sta_discon (store_mac s') = Some (taken ?ss)"
    using station_event_slots(3) [OF s'(2-4), of "replicate 6 0"] by simp
  have "distinct (taken ?ss) \<and> set (taken ?ss) = set ps" if p: "present_after es [] = Some ps" for ps
  proof -
    have "table_for [] s" using z zs by (auto simp: table_for_def numeral_eq_Suc intro!: exI [of _ ?z])
    moreover have "EVENT_MODULE_INIT \<notin> set es" using assms(1) by (auto simp: six_bytes_def)
    ultimately have "table_for ps s'"
      using run_events_table [OF _ p, of s ap static_ip L] s'(1) by auto
    then obtain tt where tt: "store_mac s' = concat tt" "length tt = 5" "slots_ok tt" "distinct (taken tt)"
      "set (taken tt) = set ps" by (auto simp: table_for_def)
    from station_event_slots(3) [OF tt(1-3), of "replicate 6 0"] d have "taken tt = taken ?ss" by simp
    with tt(4,5) show ?thesis by simp
  qed
  with s' d show ?thesis by (auto simp: taken_def)
qed

definition first_station :: "byte list" where "first_station = [0x10, 0, 0, 0, 0, 1]"
definition second_station :: "byte list" where "second_station = [0x10, 0, 0, 0, 0, 2]"

definition no_lib :: wlib where
  "no_lib = \<lparr>cur_ssid = [], cur_pwd = [], cur_mac = [], cur_bssid = [], cur_channel = 0, netif_addr = (0, 0, 0),
    dns_server = 0, stored_ip = None, wifi_vm_info = no_store_info, rand_draws = []\<rparr>"

definition fresh_task :: wifi_task where
  "fresh_task = \<lparr>save_ssid_flag = 0, request_connect_flag = 0, use_static_ipaddr_flag = 0,
    store_mac = replicate STORE_MAC_SIZE 0, wifi_default_mode_parm = no_store_info, wcalls = []\<rparr>"

text \<open>Two stations come, the first one leaves; and a station whose address begins with zero.\<close>

theorem stations_exact_witness:
  "(\<exists>s'. run_events True False no_lib
      [EVENT_AP_ON_ASSOC first_station, EVENT_MODULE_START, EVENT_AP_ON_ASSOC second_station, EVENT_AP_ON_DISCONNECTED first_station]
      fresh_task = Some s' \<and> wifi_all_sta_discon (store_mac s') = Some [second_station]) \<and>
   (\<exists>s'. run_events True False no_lib [EVENT_AP_ON_ASSOC [0, 1, 2, 3, 4, 5]] fresh_task = Some s' \<and>
      store_mac s' = [0, 1, 2, 3, 4, 5] @ replicate 24 0 \<and> wifi_all_sta_discon (store_mac s') = Some [])"
proof -
  let ?es = "[EVENT_AP_ON_ASSOC first_station, EVENT_MODULE_START, EVENT_AP_ON_ASSOC second_station,
    EVENT_AP_ON_DISCONNECTED first_station]"
  have z: "store_mac fresh_task = replicate STORE_MAC_SIZE 0" by (simp add: fresh_task_def)
  have e: "\<forall>e \<in> set ?es. six_bytes e" "\<forall>e \<in> set [EVENT_AP_ON_ASSOC [0, 1, 2, 3, 4, 5]]. six_bytes e"
    by (simp_all add: six_bytes_def first_station_def second_station_def)
  have r5: "replicate 5 x = [x, x, x, x, x]" for x :: "byte list" by (simp add: numeral_eq_Suc)
  have f: "fold slot_event ?es (replicate 5 (replicate 6 0)) =
      [replicate 6 0, second_station, replicate 6 0, replicate 6 0, replicate 6 0]"
    "fold slot_event [EVENT_AP_ON_ASSOC [0, 1, 2, 3, 4, 5]] (replicate 5 (replicate 6 0)) =
      [[0, 1, 2, 3, 4, 5], replicate 6 0, replicate 6 0, replicate 6 0, replicate 6 0]"
    unfolding r5 by (simp_all add: slot_event_def first_station_def second_station_def numeral_eq_Suc)
  show ?thesis
    using stations_exact [OF e(1) z, of True False no_lib] stations_exact [OF e(2) z, of True False no_lib]
    unfolding f by (auto simp: second_station_def numeral_eq_Suc)
qed

section \<open>What the table does not hold\<close>

text \<open>A station whose address begins with zero is written, but its slot still counts as free: it is
  never disconnected, and the next station takes its slot.\<close>

lemma zero_oui_ignored:
  assumes "length m = 6" "hd m = 0"
  shows "map_option (\<lambda>s. wifi_all_sta_discon (store_mac s)) (station_event m 0 fresh_task) = Some (Some [])"
proof -
  have f: "store_mac fresh_task = concat (replicate 5 (replicate 6 0))"
    by (simp add: fresh_task_def STORE_MAC_SIZE_def numeral_eq_Suc)
  let ?ss = "put_slot (replicate 5 (replicate 6 0)) m"
  have e: "station_event m 0 fresh_task = Some (fresh_task\<lparr>store_mac := concat ?ss\<rparr>)"
    using assms(1) by (intro station_event_slots(1) [OF f]) (simp_all add: slots_ok_def)
  have "wifi_all_sta_discon (concat ?ss) = Some (taken ?ss)"
    using station_event_slots(3) [of "fresh_task\<lparr>store_mac := concat ?ss\<rparr>" ?ss m] assms(1)
    by (simp add: put_slot_shape slots_ok_def del: put_slot.simps) (auto simp: numeral_eq_Suc)
  then show ?thesis using e assms(2) by (simp add: numeral_eq_Suc)
qed

text \<open>A sixth station finds no slot and is not recorded.\<close>

lemma sixth_station_lost:
  "length (taken ss) = length ss \<Longrightarrow> mac \<notin> set ss \<Longrightarrow> put_slot ss mac = ss"
proof (induction ss)
  case (Cons s ss)
  then have "hd s \<noteq> 0" using taken_le [of ss] by (auto split: if_splits)
  with Cons show ?case by simp
qed simp

text \<open>Some driver events report an association that was never ended: the station then takes a second
  slot when an earlier slot has become free, and one disconnection clears only one of the two.\<close>

lemma association_twice:
  "map_option (\<lambda>s. wifi_all_sta_discon (store_mac s)) (run_events True False no_lib
      [EVENT_AP_ON_ASSOC first_station, EVENT_AP_ON_ASSOC second_station, EVENT_AP_ON_DISCONNECTED first_station,
       EVENT_AP_ON_ASSOC second_station, EVENT_AP_ON_DISCONNECTED second_station] fresh_task) =
    Some (Some [second_station])"
  by code_simp

section \<open>Addresses and stored settings\<close>

text \<open>The hardware address: a unicast address, globally administered bits cleared, but eight bytes are
  written where the callback holds six.\<close>

lemma init_mac_length: "init_net_device_mac_addr draws = Some bs \<Longrightarrow> length bs = 8 \<and> and (hd bs) 3 = 0"
proof (induction draws rule: init_net_device_mac_addr.induct)
  case (2 h l draws)
  have "and (and b (252 :: byte)) 3 = 0" for b by (simp add: and.assoc)
  with 2 show ?case by (auto simp: Let_def le32_def split: if_splits)
qed simp

text \<open>A passphrase is stored only after an address has been obtained with it, and only when asked for.\<close>

lemma saves_only_after_dhcp:
  assumes "wifi_event_callback ap static_ip L e s = Some (s', r)" "Wifi_store_mode n p \<in> set (wcalls s')"
    "Wifi_store_mode n p \<notin> set (wcalls s)"
  shows "e = EVENT_DHCP_SUCC \<and> save_ssid_flag s \<noteq> 0 \<and> save_ssid_flag s' = 0 \<and> n = cur_ssid L \<and> p = cur_pwd L"
  using assms by (cases e) (auto simp: wifi_event_callback_def wcall_def compare_dhcp_ipaddr_def wifi_sta_save_ssid_def
      module_init_def station_event_def Let_def split: option.splits if_splits prod.splits)

text \<open>The station build resets unless a station configuration is stored.\<close>

lemma station_needs_settings:
  "module_init False L s = Some s' \<Longrightarrow> ws_mode (wifi_vm_info L) \<noteq> Some STA_MODE \<Longrightarrow>
    wcalls s' = wcalls s @ [Wifi_cpu_reset]"
  by (auto simp: module_init_def wifi_stored_mode_get_def wcall_def no_store_info_def split: if_splits)

section \<open>Received frames and the scan\<close>

text \<open>A management frame is named by the upper half of its first byte, whatever its version bits; names
  of different kinds differ, and exactly the subtypes 6, 7, 14 and 15 are unknown.\<close>

lemma below_16:
  assumes "(k::nat) < 16" shows "k \<in> {0, 1, 2, 3, 4, 5, 6, 7, 8, 9, 10, 11, 12, 13, 14, 15}"
proof -
  have "k \<in> set [0..<16]" using assms by simp
  also have "set [0..<16] = {0, 1, 2, 3, 4, 5, 6, 7, 8, 9, 10, 11, 12, 13, 14, 15 :: nat}"
    by (simp add: upt_rec eval_nat_numeral insert_commute)
  finally show ?thesis .
qed

lemma frame_bits:
  assumes "v < 4" "t < 4" "k < 16"
  shows "(v + 4 * t + 16 * k) AND IEEE80211_FC0_TYPE_MASK = 4 * t"
    and "(v + 4 * t + 16 * k) AND IEEE80211_FC0_SUBTYPE_MASK = 16 * k"
proof -
  have v: "v \<in> {0, 1, 2, 3}" "t \<in> {0, 1, 2, 3}"
    "k \<in> {0, 1, 2, 3, 4, 5, 6, 7, 8, 9, 10, 11, 12, 13, 14, 15}"
    using assms(1,2) below_16 [OF assms(3)] by auto
  show "(v + 4 * t + 16 * k) AND IEEE80211_FC0_TYPE_MASK = 4 * t"
    using v by (auto simp: IEEE80211_FC0_TYPE_MASK_def)
  show "(v + 4 * t + 16 * k) AND IEEE80211_FC0_SUBTYPE_MASK = 16 * k"
    using v by (auto simp: IEEE80211_FC0_SUBTYPE_MASK_def)
qed

lemma rx_names:
  assumes "v < 4" "t < 4" "k < 16"
  shows "wifi_rx_cb (v + 4 * t + 16 * k) =
    (if t = 0 then mgt_name (16 * k) else if t = 1 then ''control'' else if t = 2 then ''data'' else ''unknown'')"
  using assms(2) unfolding wifi_rx_cb_def Let_def frame_bits [OF assms] by auto

lemma mgt_unknown:
  "k < 16 \<Longrightarrow> mgt_name (16 * k) = ''unknown mgmt'' \<longleftrightarrow> k \<in> {6, 7, 14, 15}"
  by (drule below_16) (auto simp: mgt_name_def stype_def)

lemma mgt_names_differ:
  assumes "mgt_name (16 * j) = mgt_name (16 * k)" "j < 16" "k < 16" "j \<notin> {6, 7, 14, 15}"
  shows "j = k"
  using assms(1,4) below_16 [OF assms(2)] below_16 [OF assms(3)]
  by (auto simp: mgt_name_def stype_def split: if_splits)

text \<open>The list of results is cleared after every fifth scan.\<close>

lemma scan_clears_fifth:
  assumes "c = n mod 5" shows "wifi_scan_test c = (Suc n mod 5, Suc n mod 5 = 0)"
proof -
  have "c < 5" using assms by simp
  hence "c \<in> {0, 1, 2, 3, 4}" by auto
  thus ?thesis using assms by (auto simp: wifi_scan_test_def u8_def Let_def mod_Suc)
qed

end
