(* ===== verification/BleServer.thy ===== *)
theory BleServer
  imports CustomCfg CText
begin

text \<open>
  The Bluetooth LE server (\<open>bluetooth/ble_rcsp_server.c\<close> and \<open>ble_rcsp_server.h\<close>, in the build with
  the GATT module): advertising, the connection, the connection parameters, attribute writes and the
  operation table the update code uses.

  Commands to the stack (\<open>ble_user_cmd_prepare\<close>) and calls of registered callbacks are recorded in
  \<open>blog\<close>; the answer of the stack to a command is the parameter \<open>cmd_result\<close>, a function of all that
  was recorded so far.  A callback does not call back into the server.  Packets are byte memories, as
  the handler reads them at fixed offsets.  The name that is advertised depends on the chip.
\<close>

section \<open>Constants and tables\<close>

datatype ble_state = BLE_ST_NULL | BLE_ST_INIT_OK | BLE_ST_IDLE | BLE_ST_ADV | BLE_ST_CONNECT | BLE_ST_SEND_DISCONN
  | BLE_ST_NOTIFY_IDICATE | BLE_ST_SCAN | BLE_ST_SEARCH_COMPLETE

datatype ble_error = APP_BLE_NO_ERROR | APP_BLE_BUFF_ERROR | APP_BLE_BUFF_FULL | APP_BLE_OPERATION_ERROR | APP_BLE_IS_DISCONN

fun app_ble_code :: "ble_error \<Rightarrow> int" where
  "app_ble_code APP_BLE_NO_ERROR = 0"
| "app_ble_code APP_BLE_BUFF_ERROR = 1"
| "app_ble_code APP_BLE_BUFF_FULL = 2"
| "app_ble_code APP_BLE_OPERATION_ERROR = 3"
| "app_ble_code APP_BLE_IS_DISCONN = 4"

definition BLE_BUFFER_FULL :: int where "BLE_BUFFER_FULL = -97"
definition ADV_RSP_PACKET_MAX :: nat where "ADV_RSP_PACKET_MAX = 31"
definition ADV_INTERVAL_MIN :: nat where "ADV_INTERVAL_MIN = 32"
definition ATT_LOCAL_PAYLOAD_SIZE :: nat where "ATT_LOCAL_PAYLOAD_SIZE = 200"
definition ATT_RAM_BUFSIZE :: nat where "ATT_RAM_BUFSIZE = 80 + ATT_LOCAL_PAYLOAD_SIZE + 512"

definition VALUE_ae01 :: nat where "VALUE_ae01 = 0x82"
definition VALUE_ae02 :: nat where "VALUE_ae02 = 0x84"
definition CCC_ae02 :: nat where "CCC_ae02 = 0x85"
definition VALUE_2a00 :: nat where "VALUE_2a00 = 3"

type_synonym conn_param = "nat \<times> nat \<times> nat \<times> nat"   \<comment> \<open>interval_min, interval_max, latency, timeout\<close>

definition connection_param_table :: "conn_param list" where
  "connection_param_table = [(16, 24, 0, 600), (12, 28, 0, 600), (8, 20, 0, 600)]"

definition profile_data :: "byte list" where
  "profile_data =
    [0x0a, 0x00, 0x02, 0x00, 0x01, 0x00, 0x00, 0x28, 0x00, 0x18,
     0x0d, 0x00, 0x02, 0x00, 0x02, 0x00, 0x03, 0x28, 0x0a, 0x03, 0x00, 0x00, 0x2a,
     0x08, 0x00, 0x0a, 0x01, 0x03, 0x00, 0x00, 0x2a,
     0x0a, 0x00, 0x02, 0x00, 0x80, 0x00, 0x00, 0x28, 0x00, 0xae,
     0x0d, 0x00, 0x02, 0x00, 0x81, 0x00, 0x03, 0x28, 0x04, 0x82, 0x00, 0x01, 0xae,
     0x08, 0x00, 0x04, 0x01, 0x82, 0x00, 0x01, 0xae,
     0x0d, 0x00, 0x02, 0x00, 0x83, 0x00, 0x03, 0x28, 0x10, 0x84, 0x00, 0x02, 0xae,
     0x08, 0x00, 0x10, 0x00, 0x84, 0x00, 0x02, 0xae,
     0x0a, 0x00, 0x0a, 0x01, 0x85, 0x00, 0x02, 0x29, 0x00, 0x00,
     0x00, 0x00]"

text \<open>The chips that have a name; \<open>BLE_DEV_NAME_LEN\<close> is the length of each.\<close>

datatype chip = BR22 | BR23 | BR26 | BR18 | BR21 | BD29 | BR25 | BR30 | BR34 | BD19 | BR36 | BR28

fun BLE_DEV_NAME :: "chip \<Rightarrow> byte list" where
  "BLE_DEV_NAME BR22 = cstr ''693X_LE_UPDATE''"
| "BLE_DEV_NAME BR23 = cstr ''695X_LE_UPDATE''"
| "BLE_DEV_NAME BR26 = cstr ''694X_LE_UPDATE''"
| "BLE_DEV_NAME BR18 = cstr ''800X_LE_UPDATE''"
| "BLE_DEV_NAME BR21 = cstr ''692X_LE_UPDATE''"
| "BLE_DEV_NAME BD29 = cstr ''630X_LE_UPDATE''"
| "BLE_DEV_NAME BR25 = cstr ''696X_LE_UPDATE''"
| "BLE_DEV_NAME BR30 = cstr ''697X_LE_UPDATE''"
| "BLE_DEV_NAME BR34 = cstr ''698X_LE_UPDATE''"
| "BLE_DEV_NAME BD19 = cstr ''632N_LE_UPDATE''"
| "BLE_DEV_NAME BR36 = cstr ''BR36_LE_UPDATE''"
| "BLE_DEV_NAME BR28 = cstr ''BR28_LE_UPDATE''"

definition BLE_DEV_NAME_LEN :: nat where "BLE_DEV_NAME_LEN = 14"

definition JL_MANUFACTURER_DATA :: "byte list" where
  "JL_MANUFACTURER_DATA = [0x8f, 0x03, 0x08, 0x00] @ cstr ''JLBTSDK''"

definition adv_ind_data :: "chip \<Rightarrow> byte list" where
  "adv_ind_data c =
    [0x02, 0x01, 0x06, 0x03, 0x03, 0x0a, 0x18, BLE_DEV_NAME_LEN + 1, 0x09] @ BLE_DEV_NAME c"

definition scan_rsp_array :: "byte list" where
  "scan_rsp_array = [length JL_MANUFACTURER_DATA + 1, 0xff] @ JL_MANUFACTURER_DATA"

section \<open>State\<close>

datatype bcmd =
  ADV_ENABLE nat
| ADV_PARAM nat nat nat
| ADV_DATA "byte list"
| RSP_DATA "byte list"
| DISCONNECT nat
| ATT_SEND_INIT nat nat nat        \<comment> \<open>handle, size of the buffer (0: none), payload size\<close>
| ATT_MTU_SIZE int
| ATT_VAILD_LEN
| ATT_SEND_DATA nat "byte list" nat nat
| REQ_CONN_PARAM_UPDATE nat conn_param
| Just_works_confirm nat
| Set_ccc nat byte
| Att_server_init "byte list"
| State_callback nat ble_state
| Recieve_callback nat "byte list"
| Wakeup_callback

record blelib =
  cmd_result :: "bcmd list \<Rightarrow> int"
  ble_chip :: chip
  valid_len :: "bcmd list \<Rightarrow> nat"
  ccc_config :: byte
  ble_flash :: flashlib

record ble =
  con_handle :: nat
  connection_update_cnt :: nat
  ble_work_state :: ble_state
  app_recieve_callback :: bool
  app_ble_state_callback :: bool
  ble_resume_send_wakeup :: bool
  channel_priv :: nat
  gap_device_name_len :: nat
  att_ram_buffer :: memory
  ble_cfg :: cfg
  blog :: "bcmd list"

definition ble_initial :: "cfg \<Rightarrow> ble" where
  "ble_initial c = \<lparr>con_handle = 0, connection_update_cnt = 0, ble_work_state = BLE_ST_NULL, app_recieve_callback = False,
     app_ble_state_callback = False, ble_resume_send_wakeup = False, channel_priv = 0, gap_device_name_len = 0,
     att_ram_buffer = (\<lambda>_. 0), ble_cfg = c, blog = []\<rparr>"

definition bcmd :: "bcmd \<Rightarrow> ble \<Rightarrow> ble" where
  "bcmd c s = s\<lparr>blog := blog s @ [c]\<rparr>"

definition set_ble_work_state :: "ble_state \<Rightarrow> ble \<Rightarrow> ble" where
  "set_ble_work_state st s =
    (let s = s\<lparr>ble_work_state := st\<rparr>
     in if app_ble_state_callback s then bcmd (State_callback (channel_priv s) st) s else s)"

definition get_ble_update_work_state :: "ble \<Rightarrow> nat" where
  "get_ble_update_work_state s = con_handle s"

section \<open>Connection parameters\<close>

definition send_request_connect_parameter :: "nat \<Rightarrow> ble \<Rightarrow> ble" where
  "send_request_connect_parameter table_index s =
    (if con_handle s \<noteq> 0 then bcmd (REQ_CONN_PARAM_UPDATE (con_handle s) (connection_param_table ! table_index)) s
     else s)"

definition check_connetion_updata_deal :: "ble \<Rightarrow> ble" where
  "check_connetion_updata_deal s =
    (if connection_update_cnt s < length connection_param_table
     then send_request_connect_parameter (connection_update_cnt s) s else s)"

section \<open>Advertising\<close>

text \<open>The two packets are made in the buffer that later serves the attribute server: the advertisement
  at 0, the scan response at 32.\<close>

definition make_set_adv_data :: "blelib \<Rightarrow> ble \<Rightarrow> ble \<times> int" where
  "make_set_adv_data L s =
    (let m = mcpy_in (att_ram_buffer s) 0 (replicate ADV_RSP_PACKET_MAX 0)
     in case ex_cfg_get_content_api (ble_flash L) 0 31 (ble_cfg s) of (c, res) \<Rightarrow>
          let data = (case res of Inr d \<Rightarrow> d | Inl _ \<Rightarrow> adv_ind_data (ble_chip L));
              m = mcpy_in m 0 data;
              offset = length data;
              s = bcmd (ADV_DATA (bytes m 0 offset)) (s\<lparr>att_ram_buffer := m, ble_cfg := c\<rparr>)
          in (s, if offset > ADV_RSP_PACKET_MAX then -1 else 0))"

definition make_set_rsp_data :: "blelib \<Rightarrow> ble \<Rightarrow> ble \<times> int" where
  "make_set_rsp_data L s =
    (let m = mcpy_in (att_ram_buffer s) 32 (replicate ADV_RSP_PACKET_MAX 0)
     in case ex_cfg_get_content_api (ble_flash L) 1 31 (ble_cfg s) of (c, res) \<Rightarrow>
          let data = (case res of Inr d \<Rightarrow> d | Inl _ \<Rightarrow> scan_rsp_array);
              m = mcpy_in m 32 data
          in (bcmd (RSP_DATA (bytes m 32 (length data))) (s\<lparr>att_ram_buffer := m, ble_cfg := c\<rparr>), 0))"

definition advertisements_setup_init :: "blelib \<Rightarrow> ble \<Rightarrow> ble" where
  "advertisements_setup_init L s =
    (let s = bcmd (ADV_PARAM ADV_INTERVAL_MIN 0 7) s;
         s = fst (make_set_adv_data L s)
     in fst (make_set_rsp_data L s))"

definition set_adv_enable :: "blelib \<Rightarrow> nat \<Rightarrow> ble \<Rightarrow> ble \<times> ble_error" where
  "set_adv_enable L en s =
    (if con_handle s \<noteq> 0 then (s, APP_BLE_OPERATION_ERROR)
     else
       let next_state = (if en \<noteq> 0 then BLE_ST_ADV else BLE_ST_IDLE);
           cur_state = ble_work_state s
       in if cur_state \<notin> {BLE_ST_ADV, BLE_ST_IDLE, BLE_ST_INIT_OK, BLE_ST_NULL} then (s, APP_BLE_OPERATION_ERROR)
          else if cur_state = next_state then (s, APP_BLE_NO_ERROR)
          else
            let s = set_ble_work_state next_state s;
                s = (if en \<noteq> 0 then advertisements_setup_init L s else s)
            in (bcmd (ADV_ENABLE en) s, APP_BLE_NO_ERROR))"

definition ble_disconnect :: "ble \<Rightarrow> ble \<times> ble_error" where
  "ble_disconnect s =
    (if con_handle s \<noteq> 0
     then (bcmd (DISCONNECT (con_handle s)) (set_ble_work_state BLE_ST_SEND_DISCONN s), APP_BLE_NO_ERROR)
     else (s, APP_BLE_OPERATION_ERROR))"

section \<open>Packets of the stack\<close>

definition cbk_sm_packet_handler :: "nat \<Rightarrow> memory \<Rightarrow> ble \<Rightarrow> ble" where
  "cbk_sm_packet_handler packet_type p s =
    (if packet_type = 4 \<and> p 0 = 0xd0 then bcmd (Just_works_confirm (get16 p 2)) s else s)"

definition can_send_now_wakeup :: "ble \<Rightarrow> ble" where
  "can_send_now_wakeup s = (if ble_resume_send_wakeup s then bcmd Wakeup_callback s else s)"

definition connection_complete :: "memory \<Rightarrow> ble \<Rightarrow> ble" where
  "connection_complete p s =
    (let s = s\<lparr>con_handle := get16 p 4\<rparr>;
         s = bcmd (ATT_SEND_INIT (con_handle s) ATT_RAM_BUFSIZE ATT_LOCAL_PAYLOAD_SIZE) s
     in set_ble_work_state BLE_ST_CONNECT s)"

definition disconnection_complete :: "blelib \<Rightarrow> ble \<Rightarrow> ble" where
  "disconnection_complete L s =
    (let s = s\<lparr>con_handle := 0\<rparr>;
         s = bcmd (ATT_SEND_INIT (con_handle s) 0 0) s;
         s = set_ble_work_state BLE_ST_IDLE s;
         s = fst (set_adv_enable L 1 s)
     in s\<lparr>connection_update_cnt := 0\<rparr>)"

definition parameter_response :: "memory \<Rightarrow> ble \<Rightarrow> ble" where
  "parameter_response p s =
    (if get16 p 4 \<noteq> 0
     then check_connetion_updata_deal (s\<lparr>connection_update_cnt := u8 (connection_update_cnt s + 1)\<rparr>)
     else s\<lparr>connection_update_cnt := length connection_param_table\<rparr>)"

definition cbk_packet_handler :: "blelib \<Rightarrow> nat \<Rightarrow> memory \<Rightarrow> ble \<Rightarrow> ble" where
  "cbk_packet_handler L packet_type p s =
    (if packet_type \<noteq> 4 then s
     else if p 0 = 0xb6 \<or> p 0 = 0xb7 then can_send_now_wakeup s
     else if p 0 = 0x3e then if p 2 = 1 then connection_complete p s else s
     else if p 0 = 5 then disconnection_complete L s
     else if p 0 = 0xb5 then bcmd (ATT_MTU_SIZE (int (get16 p 4) - 3)) s
     else if p 0 = 0x77 then parameter_response p s
     else s)"

section \<open>Attributes\<close>

text \<open>The result is the length; the bytes are what is written to the buffer, if there is one.\<close>

definition att_read_callback ::
  "blelib \<Rightarrow> (nat \<Rightarrow> byte) \<Rightarrow> nat \<Rightarrow> nat \<Rightarrow> bool \<Rightarrow> nat \<Rightarrow> ble \<Rightarrow> nat \<times> byte list" where
  "att_read_callback L gap_device_name att_handle offset buffer buffer_size s =
    (if att_handle = VALUE_2a00
     then let n = gap_device_name_len s
       in if offset \<ge> n \<or> offset + buffer_size > n then (n, [])
          else if buffer then (buffer_size, bytes gap_device_name offset buffer_size) else (n, [])
     else if att_handle = CCC_ae02 then (2, if buffer then [ccc_config L, 0] else [])
     else (0, []))"

definition att_write_callback :: "nat \<Rightarrow> memory \<Rightarrow> nat \<Rightarrow> ble \<Rightarrow> ble" where
  "att_write_callback att_handle buffer buffer_size s =
    (if att_handle = CCC_ae02
     then bcmd (Set_ccc att_handle (buffer 0)) (set_ble_work_state BLE_ST_NOTIFY_IDICATE s)
     else if att_handle = VALUE_ae01
     then if app_recieve_callback s then bcmd (Recieve_callback (channel_priv s) (bytes buffer 0 buffer_size)) s else s
     else s)"

definition app_send_user_data :: "blelib \<Rightarrow> nat \<Rightarrow> byte list \<Rightarrow> nat \<Rightarrow> nat \<Rightarrow> ble \<Rightarrow> ble \<times> int" where
  "app_send_user_data L handle data len handle_type s =
    (if con_handle s = 0 then (s, app_ble_code APP_BLE_OPERATION_ERROR)
     else let s = bcmd (ATT_SEND_DATA handle data len handle_type) s;
              ret = cmd_result L (blog s)
       in (s, if ret = BLE_BUFFER_FULL then app_ble_code APP_BLE_BUFF_FULL else s32 ret))"

definition ATT_OP_AUTO_READ_CCC :: nat where "ATT_OP_AUTO_READ_CCC = 0"

definition app_send_user_data_do :: "blelib \<Rightarrow> byte list \<Rightarrow> nat \<Rightarrow> ble \<Rightarrow> ble \<times> int" where
  "app_send_user_data_do L data len s = app_send_user_data L VALUE_ae02 data len ATT_OP_AUTO_READ_CCC s"

definition get_buffer_vaild_len :: "blelib \<Rightarrow> ble \<Rightarrow> ble \<times> nat" where
  "get_buffer_vaild_len L s = (let s = bcmd ATT_VAILD_LEN s in (s, valid_len L (blog s)))"

definition app_send_user_data_check :: "blelib \<Rightarrow> nat \<Rightarrow> ble \<Rightarrow> ble \<times> bool" where
  "app_send_user_data_check L len s = (case get_buffer_vaild_len L s of (s, buf_space) \<Rightarrow> (s, len \<le> buf_space))"

definition ble_profile_init :: "blelib \<Rightarrow> ble \<Rightarrow> ble" where
  "ble_profile_init L s =
    (case ex_cfg_get_content_api (ble_flash L) 10 0x200 (ble_cfg s) of
       (c, Inr d) \<Rightarrow> bcmd (Att_server_init d) (s\<lparr>ble_cfg := c\<rparr>)
     | (c, Inl _) \<Rightarrow> bcmd (Att_server_init profile_data) (s\<lparr>ble_cfg := c\<rparr>))"

section \<open>The operation table and the entry points\<close>

definition regiest_wakeup_send :: "bool \<Rightarrow> ble \<Rightarrow> ble \<times> ble_error" where
  "regiest_wakeup_send cbk s = (s\<lparr>ble_resume_send_wakeup := cbk\<rparr>, APP_BLE_NO_ERROR)"

definition regiest_recieve_cbk :: "nat \<Rightarrow> bool \<Rightarrow> ble \<Rightarrow> ble \<times> ble_error" where
  "regiest_recieve_cbk priv cbk s = (s\<lparr>channel_priv := priv, app_recieve_callback := cbk\<rparr>, APP_BLE_NO_ERROR)"

definition regiest_state_cbk :: "nat \<Rightarrow> bool \<Rightarrow> ble \<Rightarrow> ble \<times> ble_error" where
  "regiest_state_cbk priv cbk s = (s\<lparr>channel_priv := priv, app_ble_state_callback := cbk\<rparr>, APP_BLE_NO_ERROR)"

definition bt_ble_adv_enable :: "blelib \<Rightarrow> nat \<Rightarrow> ble \<Rightarrow> ble" where
  "bt_ble_adv_enable L enable s = fst (set_adv_enable L (u8 enable) s)"

definition check_ble_is_disconnect :: "ble \<Rightarrow> nat" where
  "check_ble_is_disconnect s = u8 (con_handle s)"

definition bt_ble_init :: "blelib \<Rightarrow> ble \<Rightarrow> ble" where
  "bt_ble_init L s = fst (set_adv_enable L 1 (set_ble_work_state BLE_ST_INIT_OK s))"

definition bt_ble_exit :: "blelib \<Rightarrow> ble \<Rightarrow> ble" where
  "bt_ble_exit L s = fst (set_adv_enable L 0 s)"

end
