(* ===== verification/BleServer_Spec.thy ===== *)
theory BleServer_Spec
  imports BleServer
begin

text \<open>
  The Bluetooth LE server against an abstract radio: whatever the stack reports and the update code
  asks, the commands of the server are ones the radio accepts in its state, and the server's idea of
  the connection is the radio's.  Then the packets, the connection parameters and the attribute table.
\<close>

section \<open>The packets\<close>

lemma name_lengths: "length (BLE_DEV_NAME c) = BLE_DEV_NAME_LEN"
  by (cases c) (simp_all add: BLE_DEV_NAME_LEN_def del: cstr_simps, (simp add: cstr_def)+)

lemma packet_lengths: "length (adv_ind_data c) = 23" "length scan_rsp_array = 13"
  using name_lengths [of c] by (simp_all add: adv_ind_data_def scan_rsp_array_def JL_MANUFACTURER_DATA_def BLE_DEV_NAME_LEN_def cstr_def)

lemma cfg_content_length:
  "ex_cfg_get_content_api F i n c = (c', Inr d) \<Longrightarrow> length d = n"
  by (auto simp: ex_cfg_get_content_api_def get_ex_cfg_info_def Let_def split: option.splits if_splits)

text \<open>What is advertised: the configured packet when there is a valid one, else the built-in one.\<close>

lemma adv_data_content:
  "\<exists>m c. fst (make_set_adv_data L s) = s\<lparr>att_ram_buffer := m, ble_cfg := c, blog := blog s @ [ADV_DATA
      (case snd (ex_cfg_get_content_api (ble_flash L) 0 31 (ble_cfg s)) of Inr d \<Rightarrow> d | Inl _ \<Rightarrow> adv_ind_data (ble_chip L))]\<rparr> \<and>
    snd (make_set_adv_data L s) = 0"
  using cfg_content_length [of "ble_flash L" 0 31 "ble_cfg s"] packet_lengths
  by (auto simp: make_set_adv_data_def Let_def bcmd_def bytes_mcpy_in ADV_RSP_PACKET_MAX_def split: prod.splits sum.splits)

lemma rsp_data_content:
  "\<exists>m c. fst (make_set_rsp_data L s) = s\<lparr>att_ram_buffer := m, ble_cfg := c, blog := blog s @ [RSP_DATA
      (case snd (ex_cfg_get_content_api (ble_flash L) 1 31 (ble_cfg s)) of Inr d \<Rightarrow> d | Inl _ \<Rightarrow> scan_rsp_array)]\<rparr>"
  by (auto simp: make_set_rsp_data_def Let_def bcmd_def bytes_mcpy_in split: prod.splits sum.splits)

lemma packet_fits:
  "length (case snd (ex_cfg_get_content_api F i 31 c) of Inr d \<Rightarrow> d | Inl _ \<Rightarrow> adv_ind_data ch) \<le> 31"
  "length (case snd (ex_cfg_get_content_api F i 31 c) of Inr d \<Rightarrow> d | Inl _ \<Rightarrow> scan_rsp_array) \<le> 31"
  using cfg_content_length [of F i 31 c] packet_lengths
  by (cases "ex_cfg_get_content_api F i 31 c"; auto split: sum.splits)+

lemma adv_setup:
  "\<exists>m c d d'. length d \<le> 31 \<and> length d' \<le> 31 \<and> advertisements_setup_init L s =
    s\<lparr>att_ram_buffer := m, ble_cfg := c, blog := blog s @ [ADV_PARAM 32 0 7, ADV_DATA d, RSP_DATA d']\<rparr>"
proof -
  let ?s = "bcmd (ADV_PARAM ADV_INTERVAL_MIN 0 7) s"
  obtain m c d where 1: "fst (make_set_adv_data L ?s) = ?s\<lparr>att_ram_buffer := m, ble_cfg := c, blog := blog ?s @ [ADV_DATA d]\<rparr>"
    "length d \<le> 31" using adv_data_content packet_fits(1) by blast
  let ?t = "fst (make_set_adv_data L ?s)"
  obtain m' c' d' where "fst (make_set_rsp_data L ?t) = ?t\<lparr>att_ram_buffer := m', ble_cfg := c', blog := blog ?t @ [RSP_DATA d']\<rparr>"
    "length d' \<le> 31" using rsp_data_content packet_fits(2) by blast
  with 1 have "length d \<le> 31 \<and> length d' \<le> 31 \<and> advertisements_setup_init L s =
      s\<lparr>att_ram_buffer := m', ble_cfg := c', blog := blog s @ [ADV_PARAM 32 0 7, ADV_DATA d, RSP_DATA d']\<rparr>"
    by (simp add: advertisements_setup_init_def bcmd_def ADV_INTERVAL_MIN_def)
  then show ?thesis by blast
qed

section \<open>The radio\<close>

datatype rmode = Standby | Advertising | Connected nat

record radio =
  rmode :: rmode
  rparams :: bool
  radv :: "byte list option"
  rrsp :: "byte list option"

definition radio_in :: "rmode \<Rightarrow> radio" where
  "radio_in m = \<lparr>rmode = m, rparams = False, radv = None, rrsp = None\<rparr>"

text \<open>The commands the radio accepts: parameters and packets only while it is on standby, advertising
  only after all three have been set anew, a disconnection or a request only for the connection there is.\<close>

fun radio_step :: "bcmd \<Rightarrow> radio \<Rightarrow> radio option" where
  "radio_step (ADV_PARAM _ _ _) r = (if rmode r = Standby then Some (r\<lparr>rparams := True\<rparr>) else None)"
| "radio_step (ADV_DATA d) r = (if rmode r = Standby \<and> length d \<le> 31 then Some (r\<lparr>radv := Some d\<rparr>) else None)"
| "radio_step (RSP_DATA d) r = (if rmode r = Standby \<and> length d \<le> 31 then Some (r\<lparr>rrsp := Some d\<rparr>) else None)"
| "radio_step (ADV_ENABLE en) r =
    (if en \<noteq> 0
     then if rmode r = Standby \<and> rparams r \<and> radv r \<noteq> None \<and> rrsp r \<noteq> None then Some (r\<lparr>rmode := Advertising\<rparr>) else None
     else if rmode r = Advertising then Some (radio_in Standby) else None)"
| "radio_step (DISCONNECT h) r = (if rmode r = Connected h then Some r else None)"
| "radio_step (REQ_CONN_PARAM_UPDATE h _) r = (if rmode r = Connected h then Some r else None)"
| "radio_step (ATT_SEND_INIT h n _) r = (if rmode r = Connected h \<or> rmode r = Standby \<and> n = 0 then Some r else None)"
| "radio_step (ATT_SEND_DATA _ _ _ _) r = (case rmode r of Connected _ \<Rightarrow> Some r | _ \<Rightarrow> None)"
| "radio_step (Set_ccc _ _) r = (case rmode r of Connected _ \<Rightarrow> Some r | _ \<Rightarrow> None)"
| "radio_step _ r = Some r"

fun radio_run :: "bcmd list \<Rightarrow> radio \<Rightarrow> bcmd + radio" where
  "radio_run [] r = Inr r"
| "radio_run (c # cs) r = (case radio_step c r of None \<Rightarrow> Inl c | Some r \<Rightarrow> radio_run cs r)"

text \<open>What can happen to the server: calls of the operation table and of the entry points, and packets
  of the stack.\<close>

datatype ble_action =
  Adv_enable nat | Disconnect_request | Send_data "byte list" nat | Valid_length
| Regist_wakeup bool | Regist_recieve nat bool | Regist_state nat bool | Exit | Profile_init
| Packet nat memory | Sm_packet nat memory | Att_write nat memory nat

fun ble_act :: "blelib \<Rightarrow> ble_action \<Rightarrow> ble \<Rightarrow> ble" where
  "ble_act L (Adv_enable en) s = fst (set_adv_enable L en s)"
| "ble_act L Disconnect_request s = fst (ble_disconnect s)"
| "ble_act L (Send_data d n) s = fst (app_send_user_data_do L d n s)"
| "ble_act L Valid_length s = fst (get_buffer_vaild_len L s)"
| "ble_act L (Regist_wakeup b) s = fst (regiest_wakeup_send b s)"
| "ble_act L (Regist_recieve v b) s = fst (regiest_recieve_cbk v b s)"
| "ble_act L (Regist_state v b) s = fst (regiest_state_cbk v b s)"
| "ble_act L Exit s = bt_ble_exit L s"
| "ble_act L Profile_init s = ble_profile_init L s"
| "ble_act L (Packet t p) s = cbk_packet_handler L t p s"
| "ble_act L (Sm_packet t p) s = cbk_sm_packet_handler t p s"
| "ble_act L (Att_write h b n) s = att_write_callback h b n s"

text \<open>The radio's part in an action; \<^const>\<open>None\<close> when the radio cannot do it: a connection comes only while
  it advertises, with any handle, a disconnection and a write only from a connection.\<close>

definition is_connected :: "radio \<Rightarrow> bool" where "is_connected r \<longleftrightarrow> (case rmode r of Connected _ \<Rightarrow> True | _ \<Rightarrow> False)"
definition connection_packet :: "nat \<Rightarrow> memory \<Rightarrow> bool" where "connection_packet t p \<longleftrightarrow> t = 4 \<and> p 0 = 0x3e \<and> p 2 = 1"
definition disconnection_packet :: "nat \<Rightarrow> memory \<Rightarrow> bool" where "disconnection_packet t p \<longleftrightarrow> t = 4 \<and> p 0 = 5"

fun radio_event :: "ble_action \<Rightarrow> radio \<Rightarrow> radio option" where
  "radio_event (Packet t p) r =
    (if connection_packet t p
     then if rmode r = Advertising then Some (radio_in (Connected (get16 p 4))) else None
     else if disconnection_packet t p
     then if is_connected r then Some (radio_in Standby) else None
     else Some r)"
| "radio_event (Att_write _ _ _) r = (if is_connected r then Some r else None)"
| "radio_event _ r = Some r"

datatype ble_outcome = Impossible | Refused bcmd | Reached radio ble

fun ble_trace :: "blelib \<Rightarrow> ble_action list \<Rightarrow> radio \<Rightarrow> ble \<Rightarrow> ble_outcome" where
  "ble_trace L [] r s = Reached r s"
| "ble_trace L (a # as) r s =
    (case radio_event a r of
       None \<Rightarrow> Impossible
     | Some r \<Rightarrow>
         let s' = ble_act L a s
         in case radio_run (drop (length (blog s)) (blog s')) r of
              Inl c \<Rightarrow> Refused c
            | Inr r \<Rightarrow> ble_trace L as r s')"

text \<open>The server's view of the radio: the state says whether there is a connection, the handle which.\<close>

definition connected_states :: "ble_state set" where
  "connected_states = {BLE_ST_CONNECT, BLE_ST_SEND_DISCONN, BLE_ST_NOTIFY_IDICATE}"

definition radio_view :: "ble \<Rightarrow> rmode" where
  "radio_view s =
    (if ble_work_state s \<in> connected_states then Connected (con_handle s)
     else if ble_work_state s = BLE_ST_ADV then Advertising else Standby)"

definition ble_inv :: "radio \<Rightarrow> ble \<Rightarrow> bool" where
  "ble_inv r s \<longleftrightarrow> rmode r = radio_view s \<and>
    (ble_work_state s \<in> connected_states \<or> con_handle s = 0 \<and> ble_work_state s \<in> {BLE_ST_ADV, BLE_ST_IDLE})"

lemma not_connected [simp]: "BLE_ST_ADV \<notin> connected_states" "BLE_ST_IDLE \<notin> connected_states"
  "BLE_ST_INIT_OK \<notin> connected_states" "BLE_ST_NULL \<notin> connected_states" "BLE_ST_CONNECT \<in> connected_states"
  by (simp_all add: connected_states_def)

section \<open>Every action keeps to the radio\<close>

lemma set_state_log:
  "\<exists>cs. set_ble_work_state st s = s\<lparr>ble_work_state := st, blog := blog s @ cs\<rparr> \<and> (\<forall>r. radio_run cs r = Inr r)"
proof (cases "app_ble_state_callback s")
  case True
  then show ?thesis by (intro exI [of _ "[State_callback (channel_priv s) st]"]) (simp add: set_ble_work_state_def bcmd_def)
next
  case False
  then show ?thesis by (intro exI [of _ "[]"]) (simp add: set_ble_work_state_def)
qed

lemma radio_run_append:
  "radio_run (cs @ ds) r = (case radio_run cs r of Inl c \<Rightarrow> Inl c | Inr r \<Rightarrow> radio_run ds r)"
  by (induction cs arbitrary: r) (auto split: option.splits)

text \<open>\<open>good_step r s s'\<close>: what was recorded between the two states is accepted, and the view is kept.\<close>

definition good_step :: "radio \<Rightarrow> ble \<Rightarrow> ble \<Rightarrow> bool" where
  "good_step r s s' \<longleftrightarrow> (\<exists>cs r'. blog s' = blog s @ cs \<and> radio_run cs r = Inr r' \<and> ble_inv r' s')"

lemma set_adv_enable_good:
  assumes "con_handle s = 0" "ble_work_state s \<in> {BLE_ST_ADV, BLE_ST_IDLE, BLE_ST_INIT_OK}"
    "rmode r = (if ble_work_state s = BLE_ST_ADV then Advertising else Standby)" "en = 0 \<Longrightarrow> ble_work_state s \<noteq> BLE_ST_INIT_OK"
  shows "\<exists>cs r'. blog (fst (set_adv_enable L en s)) = blog s @ cs \<and> radio_run cs r = Inr r' \<and>
    rmode r' = (if en \<noteq> 0 then Advertising else Standby) \<and> con_handle (fst (set_adv_enable L en s)) = 0 \<and>
    ble_work_state (fst (set_adv_enable L en s)) = (if en \<noteq> 0 then BLE_ST_ADV else BLE_ST_IDLE)"
proof (cases "ble_work_state s = (if en \<noteq> 0 then BLE_ST_ADV else BLE_ST_IDLE)")
  case True
  then show ?thesis using assms by (intro exI [of _ "[]"] exI [of _ r]) (auto simp: set_adv_enable_def)
next
  case change: False
  let ?st = "if en \<noteq> 0 then BLE_ST_ADV else BLE_ST_IDLE"
  obtain cs where cs: "set_ble_work_state ?st s = s\<lparr>ble_work_state := ?st, blog := blog s @ cs\<rparr>" "\<And>r. radio_run cs r = Inr r"
    using set_state_log by blast
  show ?thesis
  proof (cases "en = 0")
    case True
    have "set_adv_enable L en s = (s\<lparr>ble_work_state := BLE_ST_IDLE, blog := blog s @ cs @ [ADV_ENABLE 0]\<rparr>, APP_BLE_NO_ERROR)"
      using assms change cs(1) True by (auto simp: set_adv_enable_def Let_def bcmd_def)
    moreover have "rmode r = Advertising" using assms change True by auto
    ultimately show ?thesis using True cs(2) assms(1) by (simp add: radio_run_append radio_in_def)
  next
    case False
    obtain m c d d' where d: "length d \<le> 31" "length d' \<le> 31"
      "advertisements_setup_init L (set_ble_work_state BLE_ST_ADV s) =
        (set_ble_work_state BLE_ST_ADV s)\<lparr>att_ram_buffer := m, ble_cfg := c,
          blog := blog (set_ble_work_state BLE_ST_ADV s) @ [ADV_PARAM 32 0 7, ADV_DATA d, RSP_DATA d']\<rparr>"
      using adv_setup by blast
    have "set_adv_enable L en s = (s\<lparr>ble_work_state := BLE_ST_ADV, att_ram_buffer := m, ble_cfg := c,
        blog := blog s @ cs @ [ADV_PARAM 32 0 7, ADV_DATA d, RSP_DATA d', ADV_ENABLE en]\<rparr>, APP_BLE_NO_ERROR)"
      using assms change cs(1) False d(3) by (auto simp: set_adv_enable_def Let_def bcmd_def)
    moreover have "rmode r = Standby" using assms change False by auto
    ultimately show ?thesis using False cs(2) assms(1) d(1,2) by (simp add: radio_run_append)
  qed
qed

lemma good_refl: "ble_inv r s \<Longrightarrow> blog s' = blog s \<Longrightarrow> radio_view s' = radio_view s \<Longrightarrow> con_handle s' = con_handle s \<Longrightarrow>
    ble_work_state s' = ble_work_state s \<Longrightarrow> good_step r s s'"
  by (auto simp: good_step_def ble_inv_def intro!: exI [of _ "[]"])

lemma good_command: "ble_inv r s \<Longrightarrow> radio_step c r = Some r \<Longrightarrow> good_step r s (bcmd c s)"
  by (auto simp: good_step_def bcmd_def ble_inv_def radio_view_def intro!: exI [of _ "[c]"])

lemma good_state:
  assumes "ble_inv r s" "ble_work_state s \<in> connected_states" "st \<in> connected_states"
    "radio_step c r = Some r"
  shows "good_step r s (bcmd c (set_ble_work_state st s))"
proof -
  obtain cs where cs: "set_ble_work_state st s = s\<lparr>ble_work_state := st, blog := blog s @ cs\<rparr>" "\<And>r. radio_run cs r = Inr r"
    using set_state_log by blast
  show ?thesis unfolding good_step_def
    by (intro exI [of _ "cs @ [c]"] exI [of _ r]) (use assms in \<open>auto simp: cs bcmd_def radio_run_append ble_inv_def radio_view_def\<close>)
qed

lemma ble_inv_state: "ble_inv r s \<Longrightarrow> ble_work_state s \<in> connected_states \<longleftrightarrow> is_connected r"
  by (auto simp: ble_inv_def radio_view_def is_connected_def)

lemma ble_inv_connected:
  "ble_inv r s \<Longrightarrow> con_handle s \<noteq> 0 \<Longrightarrow> ble_work_state s \<in> connected_states \<and> rmode r = Connected (con_handle s)"
  by (auto simp: ble_inv_def radio_view_def)

lemma good_enable: assumes "ble_inv r s" shows "good_step r s (fst (set_adv_enable L en s))"
proof (cases "ble_work_state s \<in> connected_states")
  case True
  then have "set_adv_enable L en s = (s, APP_BLE_OPERATION_ERROR)"
    by (auto simp: set_adv_enable_def connected_states_def)
  then show ?thesis using assms by (intro good_refl) simp_all
next
  case False
  then show ?thesis
    using set_adv_enable_good [of s r en L] assms by (fastforce simp: good_step_def ble_inv_def radio_view_def)
qed

lemma good_connection: "good_step (radio_in (Connected (get16 p 4))) s (connection_complete p s)"
proof -
  let ?s = "bcmd (ATT_SEND_INIT (get16 p 4) ATT_RAM_BUFSIZE ATT_LOCAL_PAYLOAD_SIZE) (s\<lparr>con_handle := get16 p 4\<rparr>)"
  obtain cs where cs: "set_ble_work_state BLE_ST_CONNECT ?s = ?s\<lparr>ble_work_state := BLE_ST_CONNECT, blog := blog ?s @ cs\<rparr>"
    "\<And>r. radio_run cs r = Inr r" using set_state_log by blast
  show ?thesis unfolding good_step_def
    by (intro exI [of _ "ATT_SEND_INIT (get16 p 4) ATT_RAM_BUFSIZE ATT_LOCAL_PAYLOAD_SIZE # cs"] exI [of _ "radio_in (Connected (get16 p 4))"])
      (use cs in \<open>simp add: connection_complete_def Let_def bcmd_def radio_in_def ble_inv_def radio_view_def\<close>)
qed

text \<open>Every disconnection makes the server advertise again.\<close>

lemma good_disconnection:
  shows "good_step (radio_in Standby) s (disconnection_complete L s)"
    and "radio_view (disconnection_complete L s) = Advertising"
proof -
  let ?s = "bcmd (ATT_SEND_INIT 0 0 0) (s\<lparr>con_handle := 0\<rparr>)"
  let ?t = "set_ble_work_state BLE_ST_IDLE ?s"
  obtain cs where cs: "?t = ?s\<lparr>ble_work_state := BLE_ST_IDLE, blog := blog ?s @ cs\<rparr>" "\<And>r. radio_run cs r = Inr r"
    using set_state_log by blast
  have t: "con_handle ?t = 0" "ble_work_state ?t = BLE_ST_IDLE" using cs(1) by (simp_all add: bcmd_def)
  obtain ds r' where ds: "blog (fst (set_adv_enable L 1 ?t)) = blog ?t @ ds" "radio_run ds (radio_in Standby) = Inr r'"
    "rmode r' = Advertising" "con_handle (fst (set_adv_enable L 1 ?t)) = 0" "ble_work_state (fst (set_adv_enable L 1 ?t)) = BLE_ST_ADV"
    using set_adv_enable_good [of ?t "radio_in Standby" 1 L] t by (auto simp: radio_in_def)
  have e: "disconnection_complete L s = (fst (set_adv_enable L 1 ?t))\<lparr>connection_update_cnt := 0\<rparr>"
    by (simp add: disconnection_complete_def Let_def bcmd_def)
  show "radio_view (disconnection_complete L s) = Advertising" using ds(4,5) by (simp add: e radio_view_def)
  have "blog ?t = blog s @ ATT_SEND_INIT 0 0 0 # cs" using cs(1) by (simp add: bcmd_def)
  then show "good_step (radio_in Standby) s (disconnection_complete L s)" unfolding good_step_def e
    using ds cs(2) by (intro exI [of _ "ATT_SEND_INIT 0 0 0 # cs @ ds"] exI [of _ r'])
      (simp add: radio_run_append ble_inv_def radio_view_def, simp add: radio_in_def)
qed

lemma good_parameter: assumes "ble_inv r s" shows "good_step r s (parameter_response p s)"
proof -
  let ?s = "s\<lparr>connection_update_cnt := u8 (Suc (connection_update_cnt s))\<rparr>"
  have s: "ble_inv r ?s" using assms by (auto simp: ble_inv_def radio_view_def)
  have "good_step r ?s (check_connetion_updata_deal ?s)"
    using good_command [OF s] ble_inv_connected [OF s]
    by (auto simp: check_connetion_updata_deal_def send_request_connect_parameter_def intro: good_refl [OF s])
  then show ?thesis using good_refl [OF assms, of "s\<lparr>connection_update_cnt := length connection_param_table\<rparr>"]
    by (simp add: parameter_response_def good_step_def radio_view_def)
qed

lemma good_act:
  assumes "ble_inv r s" "radio_event a r = Some r'"
  shows "good_step r' s (ble_act L a s)"
proof (cases a)
  case (Packet t p)
  consider (conn) "connection_packet t p" | (disc) "disconnection_packet t p" | (other) "\<not> connection_packet t p" "\<not> disconnection_packet t p"
    by blast
  then show ?thesis
  proof cases
    case conn
    then show ?thesis using assms Packet good_connection [of p s]
      by (auto simp: connection_packet_def disconnection_packet_def cbk_packet_handler_def split: if_splits)
  next
    case disc
    then show ?thesis using assms Packet good_disconnection(1) [of s L]
      by (auto simp: connection_packet_def disconnection_packet_def cbk_packet_handler_def split: if_splits)
  next
    case other
    then have r: "r' = r" using assms Packet by simp
    have "good_step r s s" using assms(1) by (intro good_refl) auto
    with other show ?thesis using Packet r good_parameter [OF assms(1), of p] good_command [OF assms(1)]
      by (auto simp: connection_packet_def disconnection_packet_def cbk_packet_handler_def can_send_now_wakeup_def)
  qed
next
  case (Att_write h b n)
  then have c: "is_connected r" "r' = r" using assms(2) by (auto split: if_splits)
  moreover have "ble_work_state s \<in> connected_states" using ble_inv_state [OF assms(1)] c by simp
  moreover have "BLE_ST_NOTIFY_IDICATE \<in> connected_states" by (simp add: connected_states_def)
  moreover have "good_step r s s" using assms(1) by (intro good_refl) auto
  ultimately show ?thesis using Att_write good_command [OF assms(1)] good_state [OF assms(1)]
    by (auto simp: att_write_callback_def is_connected_def split: rmode.splits)
next
  case (Send_data d n)
  have "good_step r s s" using assms(1) by (intro good_refl) auto
  then show ?thesis using Send_data assms(2) good_command [OF assms(1)] ble_inv_connected [OF assms(1)]
    by (auto simp: app_send_user_data_do_def app_send_user_data_def Let_def)
next
  case Disconnect_request
  have "good_step r s s" using assms(1) by (intro good_refl) auto
  moreover have "BLE_ST_SEND_DISCONN \<in> connected_states" by (simp add: connected_states_def)
  ultimately show ?thesis using Disconnect_request assms(2) good_state [OF assms(1)] ble_inv_connected [OF assms(1)]
    by (auto simp: ble_disconnect_def)
next
  case Profile_init
  have "good_step r s (bcmd (Att_server_init d) (s\<lparr>ble_cfg := c\<rparr>))" for d c
    using assms(1) by (auto simp: good_step_def bcmd_def ble_inv_def radio_view_def intro!: exI [of _ "[Att_server_init d]"])
  then show ?thesis using Profile_init assms(2) by (auto simp: ble_profile_init_def split: prod.splits sum.splits)
qed (use assms good_command [OF assms(1)] good_enable [OF assms(1)] in
  \<open>auto simp: bt_ble_exit_def get_buffer_vaild_len_def Let_def regiest_wakeup_send_def regiest_recieve_cbk_def
    regiest_state_cbk_def cbk_sm_packet_handler_def radio_view_def intro: good_refl\<close>)

lemma trace_good:
  "ble_inv r s \<Longrightarrow> (case ble_trace L as r s of Impossible \<Rightarrow> True | Refused _ \<Rightarrow> False | Reached r' s' \<Rightarrow> ble_inv r' s')"
proof (induction as arbitrary: r s)
  case (Cons a as)
  show ?case
  proof (cases "radio_event a r")
    case (Some r1)
    obtain cs r2 where "blog (ble_act L a s) = blog s @ cs" "radio_run cs r1 = Inr r2" "ble_inv r2 (ble_act L a s)"
      using good_act [OF Cons.prems Some, of L] by (auto simp: good_step_def)
    then show ?thesis using Some Cons.IH [of r2 "ble_act L a s"] by (simp add: Let_def)
  qed simp
qed simp

lemma init_good:
  "\<exists>r. radio_run (blog (bt_ble_init L (ble_initial c))) (radio_in Standby) = Inr r \<and> ble_inv r (bt_ble_init L (ble_initial c)) \<and>
    rmode r = Advertising"
proof -
  let ?s = "(ble_initial c)\<lparr>ble_work_state := BLE_ST_INIT_OK\<rparr>"
  have "set_ble_work_state BLE_ST_INIT_OK (ble_initial c) = ?s" by (simp add: set_ble_work_state_def ble_initial_def)
  then show ?thesis using set_adv_enable_good [of ?s "radio_in Standby" 1 L]
    by (auto simp: bt_ble_init_def ble_initial_def radio_in_def ble_inv_def radio_view_def)
qed

text \<open>C36: The server keeps to the radio.  Start the server and let anything happen in any order - calls of the
  operation table, packets, attribute writes - that a stack can do whose radio reports a connection only
  while it advertises, and a disconnection or a write only from the connection it has.  (The server does
  not read the status in a connection packet, and neither does this radio: a report of a failed
  connection counts as one.)  The radio never refuses a command: parameters and packets are set only on standby, the packets have at most 31 bytes,
  advertising is enabled only after parameters and both packets were set again and disabled only while it
  runs, and every request, packet or disconnection names the connection there is.  At every point the
  server's state says what the radio does, and its handle is that of the connection, or 0 without one.
  This includes a connection with handle 0; but of that one the server keeps quiet: it sends no data and
  no request, and cannot be told to disconnect (\<open>handle_zero_stuck\<close>).\<close>

theorem ble_radio_contract:
  "\<exists>r0. radio_run (blog (bt_ble_init L (ble_initial c))) (radio_in Standby) = Inr r0 \<and> rmode r0 = Advertising \<and>
    (case ble_trace L as r0 (bt_ble_init L (ble_initial c)) of
       Impossible \<Rightarrow> True
     | Refused _ \<Rightarrow> False
     | Reached r s \<Rightarrow>
        (case rmode r of
           Connected h \<Rightarrow> con_handle s = h \<and>
             ble_work_state s \<in> {BLE_ST_CONNECT, BLE_ST_SEND_DISCONN, BLE_ST_NOTIFY_IDICATE}
         | Advertising \<Rightarrow> con_handle s = 0 \<and> ble_work_state s = BLE_ST_ADV
         | Standby \<Rightarrow> con_handle s = 0 \<and> ble_work_state s = BLE_ST_IDLE))"
proof -
  obtain r where r: "radio_run (blog (bt_ble_init L (ble_initial c))) (radio_in Standby) = Inr r"
    "ble_inv r (bt_ble_init L (ble_initial c))" "rmode r = Advertising" using init_good by blast
  show ?thesis using trace_good [OF r(2), of L as]
    by (intro exI [of _ r] conjI r(1,3)) (auto simp: ble_inv_def radio_view_def connected_states_def split: ble_outcome.splits rmode.splits if_splits)
qed

text \<open>A session that the radio can have: a connection, the answer to a parameter request, a write, data, the end
  of the connection; then the server advertises and can be switched off.\<close>

definition packet_of :: "byte list \<Rightarrow> memory" where "packet_of bs = mcpy_in (\<lambda>_. 0) 0 bs"

definition session_lib :: blelib where
  "session_lib = \<lparr>cmd_result = (\<lambda>_. 0), ble_chip = BR25, valid_len = (\<lambda>_. 512), ccc_config = 0,
     ble_flash = \<lparr>norflash_read_dec = (\<lambda>_ _. []), Crc16 = (\<lambda>_. 1)\<rparr>\<rparr>"

text \<open>Its flash has no valid configuration, so the built-in packets are advertised.\<close>

lemma session_content: "snd (ex_cfg_get_content_api (ble_flash session_lib) i 31 c) \<noteq> Inr d"
  by (auto simp: session_lib_def ex_cfg_get_content_api_def get_ex_cfg_info_def Let_def fill_temp_def get16_def mcpy_in_def
      split: option.splits if_splits)

lemma session_setup [simp]:
  "blog (advertisements_setup_init session_lib s) =
    blog s @ [ADV_PARAM 32 0 7, ADV_DATA (adv_ind_data BR25), RSP_DATA scan_rsp_array]"
  "con_handle (advertisements_setup_init L s) = con_handle s"
  "connection_update_cnt (advertisements_setup_init L s) = connection_update_cnt s"
  "ble_work_state (advertisements_setup_init L s) = ble_work_state s"
  "app_ble_state_callback (advertisements_setup_init L s) = app_ble_state_callback s"
proof -
  have c: "(case snd (ex_cfg_get_content_api (ble_flash session_lib) i 31 c) of Inr d \<Rightarrow> d | Inl _ \<Rightarrow> x) = x" for i c x
    using session_content by (cases "snd (ex_cfg_get_content_api (ble_flash session_lib) i 31 c)") auto
  have k: "ble_chip session_lib = BR25" by (simp add: session_lib_def)
  let ?s = "bcmd (ADV_PARAM ADV_INTERVAL_MIN 0 7) s"
  show "blog (advertisements_setup_init session_lib s) =
      blog s @ [ADV_PARAM 32 0 7, ADV_DATA (adv_ind_data BR25), RSP_DATA scan_rsp_array]"
    using adv_data_content [of session_lib ?s] rsp_data_content [of session_lib "fst (make_set_adv_data session_lib ?s)"]
    by (auto simp: advertisements_setup_init_def c k bcmd_def ADV_INTERVAL_MIN_def)
  show "con_handle (advertisements_setup_init L s) = con_handle s"
    "connection_update_cnt (advertisements_setup_init L s) = connection_update_cnt s"
    "ble_work_state (advertisements_setup_init L s) = ble_work_state s"
    "app_ble_state_callback (advertisements_setup_init L s) = app_ble_state_callback s"
    using adv_setup [of L s] by auto
qed

definition session :: "ble_action list" where
  "session = [Packet 4 (packet_of [0x3e, 19, 1, 0, 0x40, 0]), Packet 4 (packet_of [0x77, 4, 0x40, 0, 1, 0]),
     Att_write CCC_ae02 (packet_of [1]) 1, Send_data [1, 2, 3] 3, Disconnect_request, Packet 4 (packet_of [5, 4, 0, 0x40, 0, 0x13]), Exit]"

lemma session_possible:
  "(case ble_trace session_lib session ((radio_in Advertising))
      (bt_ble_init session_lib (ble_initial \<lparr>exif_addr = 0, cfg_mem = (\<lambda>_. 0)\<rparr>)) of
      Reached r s \<Rightarrow> rmode r = Standby \<and> ble_work_state s = BLE_ST_IDLE \<and>
        filter (\<lambda>c. case c of REQ_CONN_PARAM_UPDATE _ _ \<Rightarrow> True | _ \<Rightarrow> False) (blog s) = [REQ_CONN_PARAM_UPDATE 64 (12, 28, 0, 600)]
    | _ \<Rightarrow> False)"
  by (simp add: session_def bt_ble_init_def ble_initial_def set_ble_work_state_def set_adv_enable_def bcmd_def
      cbk_packet_handler_def connection_packet_def disconnection_packet_def packet_of_def mcpy_in_def get16_def
      connection_complete_def parameter_response_def check_connetion_updata_deal_def send_request_connect_parameter_def
      connection_param_table_def att_write_callback_def app_send_user_data_do_def app_send_user_data_def ble_disconnect_def
      disconnection_complete_def bt_ble_exit_def radio_in_def is_connected_def VALUE_ae02_def CCC_ae02_def VALUE_ae01_def
      packet_lengths Let_def)

section \<open>Connection parameters\<close>

fun refused_times :: "nat \<Rightarrow> memory \<Rightarrow> ble \<Rightarrow> ble" where
  "refused_times 0 p s = s"
| "refused_times (Suc n) p s = refused_times n p (parameter_response p s)"

text \<open>The rows that a client is offered when it refuses again and again: the second and the third, each
  once, for 255 refusals; the first row of the table is never offered.\<close>

lemma refused_rows:
  "get16 p 4 \<noteq> 0 \<Longrightarrow> con_handle s \<noteq> 0 \<Longrightarrow> connection_update_cnt s + n \<le> 255 \<Longrightarrow>
    blog (refused_times n p s) = blog s @
      map (\<lambda>k. REQ_CONN_PARAM_UPDATE (con_handle s) (connection_param_table ! k))
        [connection_update_cnt s + 1 ..< min 3 (connection_update_cnt s + n + 1)]"
proof (induction n arbitrary: s)
  case (Suc n)
  let ?c = "connection_update_cnt s"
  have c: "u8 (?c + 1) = ?c + 1" using Suc.prems(3) by simp
  have s': "con_handle (parameter_response p s) = con_handle s" "connection_update_cnt (parameter_response p s) = ?c + 1"
    "blog (parameter_response p s) = blog s @
      (if ?c + 1 < 3 then [REQ_CONN_PARAM_UPDATE (con_handle s) (connection_param_table ! (?c + 1))] else [])"
    using Suc.prems c by (simp_all add: parameter_response_def check_connetion_updata_deal_def
      send_request_connect_parameter_def bcmd_def connection_param_table_def)
  have "[?c + 1 ..< min 3 (?c + Suc n + 1)] = (if ?c + 1 < 3 then [?c + 1] else []) @ [?c + 2 ..< min 3 (?c + 1 + n + 1)]"
    by (auto simp: upt_conv_Cons min_def)
  then show ?case using Suc.IH [of "parameter_response p s"] Suc.prems s' by simp
qed simp

lemma accepted_ends_requests:
  "get16 p 4 = 0 \<Longrightarrow> get16 q 4 \<noteq> 0 \<Longrightarrow> blog (parameter_response q (parameter_response p s)) = blog s"
  by (simp add: parameter_response_def check_connetion_updata_deal_def connection_param_table_def)

section \<open>Limits\<close>

text \<open>The status byte of a connection packet is not read, and handle 0, which the standard allows, means no
  connection: after such a packet the server neither advertises nor disconnects until the stack reports
  a disconnection.\<close>

lemma handle_zero_stuck:
  assumes "get16 p 4 = 0"
  shows "set_adv_enable L en (connection_complete p s) = (connection_complete p s, APP_BLE_OPERATION_ERROR)"
    "ble_disconnect (connection_complete p s) = (connection_complete p s, APP_BLE_OPERATION_ERROR)"
proof -
  have "con_handle (connection_complete p s) = 0" "ble_work_state (connection_complete p s) = BLE_ST_CONNECT"
    using assms by (simp_all add: connection_complete_def set_ble_work_state_def bcmd_def Let_def)
  then show "set_adv_enable L en (connection_complete p s) = (connection_complete p s, APP_BLE_OPERATION_ERROR)"
    "ble_disconnect (connection_complete p s) = (connection_complete p s, APP_BLE_OPERATION_ERROR)"
    by (simp_all add: set_adv_enable_def ble_disconnect_def)
qed

text \<open>\<open>bt_ble_exit\<close> during a connection does nothing, and the disconnection starts the advertising again.\<close>

lemma exit_while_connected:
  "con_handle s \<noteq> 0 \<Longrightarrow> bt_ble_exit L s = s"
  "radio_view (disconnection_complete L (bt_ble_exit L s)) = Advertising"
  by (simp add: bt_ble_exit_def set_adv_enable_def) (rule good_disconnection(2))

text \<open>\<open>check_ble_is_disconnect\<close> answers the low byte of the handle: not 0 while connected, for most handles.\<close>

lemma is_disconnect_says_connected:
  "con_handle s < 256 \<Longrightarrow> check_ble_is_disconnect s \<noteq> 0 \<longleftrightarrow> con_handle s \<noteq> 0"
  "con_handle s = 256 \<Longrightarrow> check_ble_is_disconnect s = 0"
  by (simp_all add: check_ble_is_disconnect_def u8_def)

lemma name_cannot_be_read:
  "gap_device_name_len s = 0 \<Longrightarrow> att_read_callback L nm VALUE_2a00 offset b n s = (0, [])"
  by (simp add: att_read_callback_def)

lemma send_needs_connection:
  "con_handle s = 0 \<Longrightarrow> app_send_user_data L h d n t s = (s, 3)"
  "con_handle s \<noteq> 0 \<Longrightarrow> cmd_result L (blog s @ [ATT_SEND_DATA h d n t]) = BLE_BUFFER_FULL \<Longrightarrow> snd (app_send_user_data L h d n t s) = 2"
  by (simp_all add: app_send_user_data_def bcmd_def Let_def)

section \<open>The attribute table\<close>

text \<open>The records of a profile: a length, flags, a handle, a type; a length of zero ends it.\<close>

function gatt_records :: "byte list \<Rightarrow> (nat \<times> nat \<times> nat \<times> byte list) list option" where
  "gatt_records bs =
    (if length bs < 2 then None
     else let n = bs ! 0 + 256 * bs ! 1
       in if n = 0 then Some []
          else if n < 8 \<or> length bs < n then None
          else map_option (Cons (bs ! 2 + 256 * bs ! 3, bs ! 4 + 256 * bs ! 5, bs ! 6 + 256 * bs ! 7, take (n - 8) (drop 8 bs)))
            (gatt_records (drop n bs)))"
  by pat_completeness auto
termination by (relation "measure length") auto

declare gatt_records.simps [simp del]

text \<open>The built-in profile is well formed, its handles ascend, and the handles the callbacks compare with are
  those of the value ae01, of the value ae02 and of its client configuration; each declaration names
  the handle of its value.\<close>

lemma profile_well_formed:
  "\<exists>rs. gatt_records profile_data = Some rs \<and> sorted_wrt (<) (map (fst \<circ> snd) rs) \<and>
    (\<exists>f. (f, VALUE_ae01, 0xae01, []) \<in> set rs) \<and> (\<exists>f. (f, VALUE_ae02, 0xae02, []) \<in> set rs) \<and>
    (\<exists>f v. (f, CCC_ae02, 0x2902, v) \<in> set rs) \<and> (\<exists>f. (f, VALUE_2a00, 0x2a00, []) \<in> set rs)"
proof -
  have "gatt_records profile_data = Some [(2, 1, 0x2800, [0, 0x18]), (2, 2, 0x2803, [0x0a, 3, 0, 0, 0x2a]),
      (0x10a, 3, 0x2a00, []), (2, 0x80, 0x2800, [0, 0xae]), (2, 0x81, 0x2803, [4, 0x82, 0, 1, 0xae]),
      (0x104, 0x82, 0xae01, []), (2, 0x83, 0x2803, [0x10, 0x84, 0, 2, 0xae]), (0x10, 0x84, 0xae02, []),
      (0x10a, 0x85, 0x2902, [0, 0])]"
    by (simp add: profile_data_def gatt_records.simps)
  then show ?thesis by (simp add: VALUE_ae01_def VALUE_ae02_def CCC_ae02_def VALUE_2a00_def)
qed

end
