(* ===== verification/Msg.thy ===== *)
theory Msg
  imports ByteMem
begin

text \<open>
  The message queue between the Bluetooth stack and the update loop (\<open>common/msg.c\<close>): a message is a
  count of two bytes and that many words, in a circular byte buffer.

  The buffer (\<open>circular_buf.h\<close>) is a library: the record \<open>cbuf_ops\<close>, over any type of buffers.  A read
  gives the bytes read, of which there may be fewer than asked for; a write gives the number of bytes
  written.  \<open>resumes\<close> counts the calls of \<open>stack_run_loop_resume\<close>.  Words are \<open>u32\<close> values.
\<close>

record 'c cbuf_ops =
  cbuf_init :: "nat \<Rightarrow> 'c"
  cbuf_clear :: "'c \<Rightarrow> 'c"
  cbuf_read :: "'c \<Rightarrow> nat \<Rightarrow> 'c \<times> byte list"
  cbuf_write :: "'c \<Rightarrow> byte list \<Rightarrow> 'c \<times> nat"

record 'c msgq =
  msg_cbuf :: 'c
  resumes :: nat

definition MAX_POOL :: nat where "MAX_POOL = 128"
definition MSG_NO_ERROR :: int where "MSG_NO_ERROR = 0"
definition MSG_BUF_NOT_ENOUGH :: int where "MSG_BUF_NOT_ENOUGH = -4"

definition stack_run_loop_resume :: "'c msgq \<Rightarrow> 'c msgq" where
  "stack_run_loop_resume q = q\<lparr>resumes := resumes q + 1\<rparr>"

text \<open>A variable of the C code that bytes are read into keeps its other bytes.\<close>

definition read_word :: "'c cbuf_ops \<Rightarrow> nat \<Rightarrow> nat \<Rightarrow> 'c \<Rightarrow> 'c \<times> nat \<times> nat" where
  "read_word C n old c =
    (case cbuf_read C c n of (c, bs) \<Rightarrow> (c, get32 (mcpy_in (mcpy_in (\<lambda>_. 0) 0 (le32 old)) 0 bs) 0, length bs))"

text \<open>The loop over the words: the buffer, the variable \<open>param\<close>, the message, the index.\<close>

fun read_params :: "'c cbuf_ops \<Rightarrow> nat \<Rightarrow> nat \<Rightarrow> nat \<Rightarrow> nat \<Rightarrow> nat list \<Rightarrow> 'c \<Rightarrow> 'c \<times> nat list" where
  "read_params C 0 len i param msg c = (c, msg)"
| "read_params C (Suc n) len i param msg c =
    (case read_word C 4 param c of
       (c, param, _) \<Rightarrow> read_params C n len (i + 1) param (if i < len then msg[i := param] else msg) c)"

text \<open>\<open>param\<close> is not initialised; its value is the argument.\<close>

definition task_get_msg :: "'c cbuf_ops \<Rightarrow> nat \<Rightarrow> nat \<Rightarrow> 'c msgq \<Rightarrow> 'c msgq \<times> nat list \<times> int" where
  "task_get_msg C param len q =
    (let msg = replicate len 0xffff
     in case read_word C 2 0 (msg_cbuf q) of
          (c, msg_value, r) \<Rightarrow>
            if r \<noteq> 2 then (q\<lparr>msg_cbuf := c\<rparr>, msg, MSG_NO_ERROR)
            else
              let param_len = u8 msg_value
              in case read_params C param_len len 0 param msg c of
                   (c, msg) \<Rightarrow> (q\<lparr>msg_cbuf := c\<rparr>, msg, if param_len \<ge> len then MSG_BUF_NOT_ENOUGH else MSG_NO_ERROR))"

fun write_params :: "'c cbuf_ops \<Rightarrow> nat list \<Rightarrow> 'c \<Rightarrow> 'c" where
  "write_params C [] c = c"
| "write_params C (p # ps) c = write_params C ps (fst (cbuf_write C c (le32 p)))"

text \<open>\<open>task_post_msg_base\<close> with \<open>argc\<close> words, of which the first is \<open>cmd\<close>.\<close>

definition task_post_msg_base :: "'c cbuf_ops \<Rightarrow> nat \<Rightarrow> nat \<Rightarrow> nat list \<Rightarrow> 'c msgq \<Rightarrow> 'c msgq \<times> int" where
  "task_post_msg_base C argc cmd argv q =
    (if 0xff = cmd then (stack_run_loop_resume q, MSG_NO_ERROR)
     else
       let c = fst (cbuf_write C (msg_cbuf q) (le16 (u16 argc)));
           c = write_params C (take argc (cmd # argv)) c
       in (stack_run_loop_resume (q\<lparr>msg_cbuf := c\<rparr>), MSG_NO_ERROR))"

text \<open>\<open>task_post_msg\<close> on its variable arguments; more than eight fail its assertion.\<close>

definition task_post_msg :: "'c cbuf_ops \<Rightarrow> nat list \<Rightarrow> 'c msgq \<Rightarrow> ('c msgq \<times> int) option" where
  "task_post_msg C args q =
    (if length args \<le> 8 then Some (task_post_msg_base C (length args) (args ! 0) (tl args) q) else None)"

definition task_clear_all_message :: "'c cbuf_ops \<Rightarrow> 'c msgq \<Rightarrow> 'c msgq" where
  "task_clear_all_message C q = q\<lparr>msg_cbuf := cbuf_clear C (msg_cbuf q)\<rparr>"

definition task_message_init :: "'c cbuf_ops \<Rightarrow> 'c msgq \<Rightarrow> 'c msgq" where
  "task_message_init C q = q\<lparr>msg_cbuf := cbuf_clear C (cbuf_init C (4 * MAX_POOL))\<rparr>"

end
