(* ===== verification/Msg_Spec.thy ===== *)
theory Msg_Spec
  imports Msg
begin

text \<open>
  The message queue as a queue of messages: over any circular buffer that keeps bytes in order, posts
  and gets in any interleaving behave like a list of messages, as long as what is waiting fits.
\<close>

section \<open>The circular buffer\<close>

text \<open>What is relied on: the buffer holds a list of bytes; a write that fits appends, a read takes from the
  front what it asks for, or nothing when there is less.\<close>

definition fifo_laws :: "'c cbuf_ops \<Rightarrow> ('c \<Rightarrow> byte list) \<Rightarrow> nat \<Rightarrow> bool" where
  "fifo_laws C held cap \<longleftrightarrow>
    (\<forall>c bs. length (held c) + length bs \<le> cap \<longrightarrow> held (fst (cbuf_write C c bs)) = held c @ bs) \<and>
    (\<forall>c n. n \<le> length (held c) \<longrightarrow>
      snd (cbuf_read C c n) = take n (held c) \<and> held (fst (cbuf_read C c n)) = drop n (held c)) \<and>
    (\<forall>c n. length (held c) < n \<longrightarrow> snd (cbuf_read C c n) = [] \<and> held (fst (cbuf_read C c n)) = held c) \<and>
    (\<forall>c. held (cbuf_clear C c) = [])"

lemma fifo_lawsD:
  assumes "fifo_laws C held cap"
  shows write_fits: "length (held c) + length bs \<le> cap \<Longrightarrow> held (fst (cbuf_write C c bs)) = held c @ bs"
    and read_held: "n \<le> length (held c) \<Longrightarrow> snd (cbuf_read C c n) = take n (held c) \<and> held (fst (cbuf_read C c n)) = drop n (held c)"
    and read_short: "length (held c) < n \<Longrightarrow> snd (cbuf_read C c n) = [] \<and> held (fst (cbuf_read C c n)) = held c"
    and held_clear: "held (cbuf_clear C c) = []"
  using assms unfolding fifo_laws_def by blast+

lemma read_word_4:
  assumes F: "fifo_laws C held cap" and "held c = le32 v @ bs" "v < 4294967296"
  shows "fst (snd (read_word C 4 old c)) = v" "held (fst (read_word C 4 old c)) = bs"
proof -
  have "snd (cbuf_read C c 4) = le32 v" "held (fst (cbuf_read C c 4)) = bs"
    using read_held [OF F, of 4 c] assms(2) by simp_all
  then show "fst (snd (read_word C 4 old c)) = v" "held (fst (read_word C 4 old c)) = bs"
    using assms(3) by (simp_all add: read_word_def case_prod_unfold mcpy_in_twice get32_put32 [unfolded put32_def])
qed

lemma read_word_2:
  assumes F: "fifo_laws C held cap" and "held c = le16 v @ bs" "v < 65536"
  shows "read_word C 2 0 c = (fst (read_word C 2 0 c), v, 2)" "held (fst (read_word C 2 0 c)) = bs"
proof -
  have r: "snd (cbuf_read C c 2) = le16 v" "held (fst (cbuf_read C c 2)) = bs"
    using read_held [OF F, of 2 c] assms(2) by (simp_all add: le16_def)
  have "get32 (mcpy_in (mcpy_in (\<lambda>_. 0) 0 (le32 0)) 0 (le16 v)) 0 = v"
    using assms(3) by (simp add: get32_def mcpy_in_def le32_def le16_def)
  then show "read_word C 2 0 c = (fst (read_word C 2 0 c), v, 2)" "held (fst (read_word C 2 0 c)) = bs"
    using r by (simp_all add: read_word_def case_prod_unfold)
qed

lemma read_params_words:
  "fifo_laws C held cap \<Longrightarrow> held c = concat (map le32 ps) @ bs \<Longrightarrow> \<forall>p\<in>set ps. p < 4294967296 \<Longrightarrow> length msg = len \<Longrightarrow>
    (case read_params C (length ps) len i old msg c of (c', m) \<Rightarrow>
      held c' = bs \<and> m = take i msg @ take (len - i) ps @ drop (i + length ps) msg)"
proof (induction ps arbitrary: c i old msg)
  case (Cons p ps)
  let ?c = "fst (read_word C 4 old c)" and ?m = "if i < len then msg[i := p] else msg"
  have w: "fst (snd (read_word C 4 old c)) = p" "held ?c = concat (map le32 ps) @ bs"
    using read_word_4 [OF Cons.prems(1), of c p] Cons.prems(2,3) by simp_all
  have "read_params C (length (p # ps)) len i old msg c = read_params C (length ps) len (i + 1) p ?m ?c"
    using w(1) by (simp add: case_prod_unfold)
  moreover have "take (i + 1) ?m @ take (len - (i + 1)) ps @ drop (i + 1 + length ps) ?m =
      take i msg @ take (len - i) (p # ps) @ drop (i + length (p # ps)) msg"
  proof (cases "i < len")
    case True
    then obtain k where k: "len - i = Suc k" "len - (i + 1) = k" by (metis Suc_diff_Suc Suc_eq_plus1)
    show ?thesis using True k Cons.prems(4) by (simp add: take_Suc_conv_app_nth)
  next
    case False
    then show ?thesis using Cons.prems(4) by simp
  qed
  ultimately show ?case using Cons.IH [OF Cons.prems(1) w(2), of ?m "i + 1" p] Cons.prems(3,4) by simp
qed simp

lemma write_params_words:
  "fifo_laws C held cap \<Longrightarrow> length (held c) + 4 * length ps \<le> cap \<Longrightarrow> held (write_params C ps c) = held c @ concat (map le32 ps)"
proof (induction ps arbitrary: c)
  case (Cons p ps)
  then show ?case using write_fits [OF Cons.prems(1), of c "le32 p"] by simp
qed simp

section \<open>Messages\<close>

text \<open>The abstract queue: messages wait in order; a get hands out the first, cut or padded to the caller's
  length, and reports a message that does not leave room.\<close>

datatype msg_request = Post "nat list" | Get nat nat | Clear

definition waiting :: "nat list list \<Rightarrow> byte list" where
  "waiting ms = concat (map (\<lambda>m. le16 (length m) @ concat (map le32 m)) ms)"

definition message_ok :: "nat list \<Rightarrow> bool" where
  "message_ok m \<longleftrightarrow> m \<noteq> [] \<and> length m \<le> 8 \<and> (\<forall>p\<in>set m. p < 4294967296)"

definition handed :: "nat \<Rightarrow> nat list \<Rightarrow> nat list \<times> int" where
  "handed len m = (take len m @ replicate (len - length m) 0xffff, if length m < len then MSG_NO_ERROR else MSG_BUF_NOT_ENOUGH)"

fun queue_op :: "msg_request \<Rightarrow> nat list list \<Rightarrow> (nat list list \<times> (nat list \<times> int) list) option" where
  "queue_op (Post m) ms =
    (if \<not> message_ok m then None
     else if hd m = 0xff then Some (ms, [])
     else if length (waiting (ms @ [m])) \<le> 4 * MAX_POOL then Some (ms @ [m], []) else None)"
| "queue_op (Get param len) [] = Some ([], [(replicate len 0xffff, MSG_NO_ERROR)])"
| "queue_op (Get param len) (m # ms) = Some (ms, [handed len m])"
| "queue_op Clear ms = Some ([], [])"

fun msg_op :: "'c cbuf_ops \<Rightarrow> msg_request \<Rightarrow> 'c msgq \<Rightarrow> ('c msgq \<times> (nat list \<times> int) list) option" where
  "msg_op C (Post m) q = (case task_post_msg C m q of None \<Rightarrow> None | Some (q, _) \<Rightarrow> Some (q, []))"
| "msg_op C (Get param len) q = (case task_get_msg C param len q of (q, msg, r) \<Rightarrow> Some (q, [(msg, r)]))"
| "msg_op C Clear q = Some (task_clear_all_message C q, [])"

fun queue_ops :: "msg_request list \<Rightarrow> nat list list \<Rightarrow> (nat list \<times> int) list option" where
  "queue_ops [] ms = Some []"
| "queue_ops (x # xs) ms =
    (case queue_op x ms of None \<Rightarrow> None | Some (ms, out) \<Rightarrow> map_option ((@) out) (queue_ops xs ms))"

fun msg_ops :: "'c cbuf_ops \<Rightarrow> msg_request list \<Rightarrow> 'c msgq \<Rightarrow> (nat list \<times> int) list option" where
  "msg_ops C [] q = Some []"
| "msg_ops C (x # xs) q =
    (case msg_op C x q of None \<Rightarrow> None | Some (q, out) \<Rightarrow> map_option ((@) out) (msg_ops C xs q))"

lemma waiting_simps [simp]:
  "waiting [] = []" "waiting (m # ms) = le16 (length m) @ concat (map le32 m) @ waiting ms"
  "waiting (ms @ ns) = waiting ms @ waiting ns"
  by (simp_all add: waiting_def)

lemma words_length [simp]: "length (concat (map le32 ps)) = 4 * length ps"
  by (induction ps) simp_all

lemma post_message:
  assumes F: "fifo_laws C held (4 * MAX_POOL)" and q: "held (msg_cbuf q) = waiting ms"
    and m: "message_ok m" and "queue_op (Post m) ms = Some (ms', out)"
  shows "\<exists>q'. task_post_msg C m q = Some (q', MSG_NO_ERROR) \<and> held (msg_cbuf q') = waiting ms' \<and> out = []"
proof (cases "hd m = 0xff")
  case True
  then show ?thesis using assms
    by (cases m) (auto simp: message_ok_def task_post_msg_def task_post_msg_base_def stack_run_loop_resume_def)
next
  case False
  then have fit: "ms' = ms @ [m]" "out = []" "length (waiting ms) + 2 + 4 * length m \<le> 4 * MAX_POOL"
    using assms(4) by (auto split: if_splits)
  let ?c = "fst (cbuf_write C (msg_cbuf q) (le16 (length m)))"
  have 1: "held ?c = waiting ms @ le16 (length m)"
    using write_fits [OF F, of "msg_cbuf q" "le16 (length m)"] q fit(3) by simp
  then have 2: "held (write_params C m ?c) = waiting (ms @ [m])"
    using write_params_words [OF F, of ?c m] fit(3) by simp
  obtain p ps where p: "m = p # ps" "p \<noteq> 0xff" "length m \<le> 8" using False m by (cases m) (auto simp: message_ok_def)
  then show ?thesis using 2 fit(1,2)
    by (auto simp: task_post_msg_def task_post_msg_base_def stack_run_loop_resume_def)
qed

lemma get_nothing:
  assumes F: "fifo_laws C held cap" and q: "held (msg_cbuf q) = []"
  shows "\<exists>q'. task_get_msg C param len q = (q', replicate len 0xffff, MSG_NO_ERROR) \<and> held (msg_cbuf q') = []"
  using read_short [OF F, of "msg_cbuf q" 2] q by (auto simp: task_get_msg_def read_word_def split: prod.splits)

lemma get_message:
  assumes F: "fifo_laws C held cap" and q: "held (msg_cbuf q) = waiting (m # ms)" and m: "message_ok m"
  shows "\<exists>q' msg r. task_get_msg C param len q = (q', msg, r) \<and> held (msg_cbuf q') = waiting ms \<and> handed len m = (msg, r)"
proof -
  let ?n = "length m"
  have n: "?n < 65536" "u8 ?n = ?n" and p: "\<forall>p\<in>set m. p < 4294967296" using m by (auto simp: message_ok_def)
  obtain c where w: "read_word C 2 0 (msg_cbuf q) = (c, ?n, 2)" "held c = concat (map le32 m) @ waiting ms"
    using read_word_2 [OF F _ n(1), of "msg_cbuf q"] q that by fastforce
  obtain c' msg where r: "read_params C ?n len 0 param (replicate len 0xffff) c = (c', msg)" by force
  have "held c' = waiting ms" "msg = take len m @ drop ?n (replicate len 0xffff)"
    using read_params_words [OF F w(2) p, of "replicate len 0xffff" len 0 param] r by simp_all
  then show ?thesis using w(1) r n(2)
    by (auto simp: task_get_msg_def Let_def handed_def)
qed

lemma op_simulates:
  assumes F: "fifo_laws C held (4 * MAX_POOL)" and q: "held (msg_cbuf q) = waiting ms" "\<forall>m\<in>set ms. message_ok m"
    and x: "queue_op x ms = Some (ms', out)"
  shows "\<exists>q'. msg_op C x q = Some (q', out) \<and> held (msg_cbuf q') = waiting ms' \<and> (\<forall>m\<in>set ms'. message_ok m)"
proof (cases x)
  case (Post m)
  then have m: "message_ok m" using x by (auto split: if_splits)
  then show ?thesis using post_message [OF F q(1) m] x q(2) Post by (fastforce split: if_splits)
next
  case (Get param len)
  then show ?thesis
  proof (cases ms)
    case Nil
    then show ?thesis using get_nothing [OF F, of q param len] q x Get by auto
  next
    case (Cons m ms)
    then show ?thesis using get_message [OF F, of q m ms param len] q x Get by auto
  qed
next
  case Clear
  then show ?thesis using x held_clear [OF F] by (auto simp: task_clear_all_message_def)
qed

lemma ops_simulate:
  "fifo_laws C held (4 * MAX_POOL) \<Longrightarrow> held (msg_cbuf q) = waiting ms \<Longrightarrow> \<forall>m\<in>set ms. message_ok m \<Longrightarrow>
    queue_ops xs ms = Some outs \<Longrightarrow> msg_ops C xs q = Some outs"
proof (induction xs arbitrary: q ms outs)
  case (Cons x xs)
  then obtain ms' out outs' where x: "queue_op x ms = Some (ms', out)" "queue_ops xs ms' = Some outs'" "outs = out @ outs'"
    by (auto split: option.splits)
  obtain q' where "msg_op C x q = Some (q', out)" "held (msg_cbuf q') = waiting ms'" "\<forall>m\<in>set ms'. message_ok m"
    using op_simulates [OF Cons.prems(1-3) x(1)] by blast
  then show ?case using Cons.IH [OF Cons.prems(1) _ _ x(2)] x(3) by simp
qed simp

text \<open>C37: Messages arrive whole and in order.  Over any circular buffer that keeps its bytes in order and takes
  a write that fits into the 512 bytes of the pool, start from the initialised queue and post, get and
  clear in any interleaving, with messages of one to eight words that fit with what is waiting.  Every
  get then hands out the oldest message, word for word, padded with \<open>0xffff\<close>, or nothing but padding when
  none is waiting; a message that leaves no word of the caller's array free is reported with
  \<open>MSG_BUF_NOT_ENOUGH\<close>, cut to the array, and is gone as a whole; messages that begin with \<open>0xff\<close> only wake
  the run loop.\<close>

theorem messages_in_order:
  assumes "fifo_laws C held (4 * MAX_POOL)" "queue_ops xs [] = Some outs"
  shows "msg_ops C xs (task_message_init C q) = Some outs"
  by (rule ops_simulate [OF assms(1) _ _ assms(2)]) (simp_all add: task_message_init_def held_clear [OF assms(1)])

lemma two: "replicate 2 x = [x, x]"
  by (simp add: numeral_2_eq_2)

definition list_fifo :: "nat \<Rightarrow> (byte list) cbuf_ops" where
  "list_fifo cap = \<lparr>cbuf_init = (\<lambda>_. []), cbuf_clear = (\<lambda>_. []),
     cbuf_read = (\<lambda>c n. if n \<le> length c then (drop n c, take n c) else (c, [])),
     cbuf_write = (\<lambda>c bs. if length c + length bs \<le> cap then (c @ bs, length bs) else (c, 0))\<rparr>"

lemma list_fifo_laws: "fifo_laws (list_fifo cap) (\<lambda>c. c) cap"
  by (simp add: fifo_laws_def list_fifo_def)

theorem messages_in_order_witness:
  "msg_ops (list_fifo (4 * MAX_POOL)) [Post [0x80, 7], Post [0xff], Get 0 4, Post [0x81, 1, 2, 3], Get 0 2, Get 0 2]
     (task_message_init (list_fifo (4 * MAX_POOL)) \<lparr>msg_cbuf = [], resumes = 0\<rparr>) =
   Some [([0x80, 7, 0xffff, 0xffff], 0), ([0x81, 1], -4), ([0xffff, 0xffff], 0)]"
  by (rule messages_in_order [OF list_fifo_laws])
    (simp add: message_ok_def waiting_def MAX_POOL_def handed_def MSG_NO_ERROR_def MSG_BUF_NOT_ENOUGH_def le16_def two)

section \<open>Limits\<close>

text \<open>The results of the writes are not looked at: when the pool has room for the count of a message but not for
  its words, the count stays, and the next get hands out words that were never posted, here the
  uninitialised variable, without an error.\<close>

lemma full_pool_invents_words:
  "msg_ops (list_fifo 8) [Post [0x80], Post [0x81], Get 0 2, Get 12345 2] (task_message_init (list_fifo 8) \<lparr>msg_cbuf = [], resumes = 0\<rparr>) =
    Some [([0x80, 0xffff], 0), ([12345, 0xffff], 0)]"
  by (simp add: list_fifo_def task_message_init_def task_post_msg_def task_post_msg_base_def task_get_msg_def
      stack_run_loop_resume_def read_word_def le16_def le32_def get32_def mcpy_in_def MSG_NO_ERROR_def u16_def u8_def two Let_def)

text \<open>A message of exactly the caller's length is complete, but reported as cut.\<close>

lemma exact_length_reported: "handed (length m) m = (m, MSG_BUF_NOT_ENOUGH)"
  by (simp add: handed_def)

end
