(* ===== verification/BootMain.thy ===== *)
theory BootMain
  imports OTA_Prelude
begin

text \<open>
  The entry of the loader (\<open>common/main.c\<close>, \<open>demo_wifi/init.c\<close>) for chips without efuse update:
  the calls it makes, in order, and the result it leaves for the application.

  Every call of a library, driver or other module is recorded in \<open>mlog\<close>.  What is read from them is
  the record \<open>board\<close>; where an answer may depend on what was done before, it is a function of the log.
  \<open>cpu_reset\<close> and \<open>latch_reset\<close> do not return, and the loop at the end of \<open>wifi_init\<close> does not end:
  \<open>executed\<close> cuts the log behind the first of them.  Printing is left out.
\<close>

section \<open>Constants\<close>

definition UPDATA_NON :: nat where "UPDATA_NON = 0x5A00"
definition UPDATA_SUCCESSFULLY :: nat where "UPDATA_SUCCESSFULLY = 0x5A02"
definition UPDATA_DEV_ERR :: nat where "UPDATA_DEV_ERR = 0x5A04"
definition UPDATA_KEY_ERR :: nat where "UPDATA_KEY_ERR = 0x5A05"

definition M_UPDATA_SUCC :: nat where "M_UPDATA_SUCC = 1"
definition M_POWER_BT_UPDATA :: nat where "M_POWER_BT_UPDATA = 4"
definition M_UPDATA_KEY_ERR :: nat where "M_UPDATA_KEY_ERR = 5"

definition EXT_JUMP_FLAG :: nat where "EXT_JUMP_FLAG = 1"
definition EXT_SHARE_OSC_EN :: nat where "EXT_SHARE_OSC_EN = 2"

definition VLVD_SEL_26V :: nat where "VLVD_SEL_26V = 7"
definition WDT_8S :: nat where "WDT_8S = 0x0D"

section \<open>Board and calls\<close>

datatype mcall =
  Uart_close_all | Uart_init | Uart_reinit nat nat
| Vlvd_select nat
| Sys_init | Spi_reinit | Spi0flash_remove_protect | Dec_key_init nat | Dynamic_mem_init | Flash_fs_init
| Wdt_init nat | Cfg_start_addr nat | Boot_info_save | Clr_long_press_reset_timer | Timer_var_init
| Ram_record_check
| Set_updata_result nat
| Updata_mode nat
| Clr_updata_info
| Gpio_drive nat nat
| Ram_protect_close | Ll_hci_destory | Local_irq_disable | Irq_disable nat | Switch_to_hrc | Jump_maskrom
| Interrupt_init | Exception_init | Debug_init | Clk_early_init | Hw_power_init | Os_init | App_main | Os_start
| Wifi_wait
| Latch_reset | Cpu_reset

record mconfig =
  net_build :: bool
  gatt_build :: bool
  hid_build :: bool
  ble_connect_build :: bool

record board =
  ext_param :: "nat \<Rightarrow> byte option"          \<comment> \<open>\<open>update_param_ext_get\<close> at the end of the ram\<close>
  update_jump_flag :: nat
  vlvd_con :: nat                             \<comment> \<open>the register \<open>P3_VLVD_CON\<close>\<close>
  chip_key :: nat
  uart_debug :: "nat \<times> nat"
  exif_addr_get :: nat
  power_pins :: "(nat \<times> nat) list option"     \<comment> \<open>\<open>get_power_pin_multi\<close>, three entries\<close>
  updata_check :: "mcall list \<Rightarrow> bool"
  updata_mode :: "mcall list \<Rightarrow> nat \<Rightarrow> nat"
  updata_check_updata_result :: "mcall list \<Rightarrow> bool"

record main =
  latch_flag :: "byte option"
  vlvd_reg :: nat
  mlog :: "mcall list"

definition mcall :: "mcall \<Rightarrow> main \<Rightarrow> main" where
  "mcall c s = s\<lparr>mlog := mlog s @ [c]\<rparr>"

definition mcalls :: "mcall list \<Rightarrow> main \<Rightarrow> main" where
  "mcalls cs s = s\<lparr>mlog := mlog s @ cs\<rparr>"

definition ota_vlvd_sel :: "nat \<Rightarrow> main \<Rightarrow> main" where
  "ota_vlvd_sel lvd s = mcall (Vlvd_select lvd) s"

section \<open>Parameters of the application\<close>

definition jump_mode_check :: "board \<Rightarrow> main \<Rightarrow> main \<times> byte" where
  "jump_mode_check B s =
    (let s = (if latch_flag s = None then s\<lparr>latch_flag := ext_param B EXT_JUMP_FLAG\<rparr> else s)
     in case latch_flag s of Some f \<Rightarrow> (s, f) | None \<Rightarrow> (s, 0))"

definition get_share_osc_en :: "board \<Rightarrow> bool" where
  "get_share_osc_en B = (case ext_param B EXT_SHARE_OSC_EN of None \<Rightarrow> False | Some v \<Rightarrow> v = 1)"

section \<open>Restart\<close>

definition chip_restart :: "mconfig \<Rightarrow> board \<Rightarrow> main \<Rightarrow> main" where
  "chip_restart K B s =
    (case jump_mode_check B s of (s, latch_reset) \<Rightarrow>
       let s = (if latch_reset = 0 \<and> latch_flag s = None \<and> update_jump_flag B \<noteq> 0
                then mcalls ([Ram_protect_close] @ (if gatt_build K \<or> ble_connect_build K then [Ll_hci_destory] else []) @
                  [Local_irq_disable] @ map Irq_disable [0..<64] @ [Switch_to_hrc, Uart_close_all, Jump_maskrom]) s
                else s)
       in if latch_reset \<noteq> 0 then mcall Latch_reset s
          else mcall Cpu_reset (mcall Uart_close_all (ota_vlvd_sel (vlvd_reg s) s)))"

section \<open>The start of the wireless builds\<close>

definition wifi_init :: "main \<Rightarrow> main" where
  "wifi_init s = mcalls [Wdt_init 0xc, Interrupt_init, Exception_init, Debug_init, Clk_early_init, Hw_power_init,
     Os_init, App_main, Os_start, Wifi_wait] s"

section \<open>The entry\<close>

fun drive_power_pins :: "(nat \<times> nat) list \<Rightarrow> main \<Rightarrow> main" where
  "drive_power_pins [] s = s"
| "drive_power_pins ((gpio, level) # pins) s =
    (if gpio = 0 then s
     else drive_power_pins pins (mcall (Gpio_drive gpio level) (mcall (Gpio_drive gpio 0) s)))"

text \<open>Before the update: hardware, flash and the result the application finds if the update is cut short.\<close>

definition main_prepare :: "mconfig \<Rightarrow> board \<Rightarrow> main \<Rightarrow> main" where
  "main_prepare K B s =
    (let s = mcalls [Uart_close_all, Uart_init] s;
         s = s\<lparr>vlvd_reg := drop_bit 3 (and (vlvd_con B) 56)\<rparr>;
         s = ota_vlvd_sel VLVD_SEL_26V s;
         s = mcalls [Sys_init, Spi_reinit, Spi0flash_remove_protect, Dec_key_init (chip_key B), Dynamic_mem_init, Flash_fs_init] s;
         (io, baud) = uart_debug B;
         s = (if baud \<noteq> 0 then mcall (Uart_reinit io baud) s else s);
         s = mcall (Wdt_init WDT_8S) s;
         s = (if gatt_build K \<or> hid_build K then mcall (Cfg_start_addr (exif_addr_get B)) s else s);
         s = (if net_build K then mcall Boot_info_save s else s)
     in mcalls [Set_updata_result UPDATA_DEV_ERR, Clr_long_press_reset_timer, Timer_var_init] s)"

definition main_devices :: "mconfig \<Rightarrow> board \<Rightarrow> bool \<Rightarrow> main \<Rightarrow> main \<times> bool" where
  "main_devices K B check_res s =
    (let s = (if net_build K then wifi_init s else s);
         (s, check_res) = (if hid_build K \<or> ble_connect_build K
           then let s = mcall Ram_record_check s in (s, updata_check B (mlog s))
           else (s, check_res));
         s = (case power_pins B of None \<Rightarrow> s | Some pins \<Rightarrow> drive_power_pins pins s)
     in (s, check_res))"

definition main_update :: "mconfig \<Rightarrow> board \<Rightarrow> bool \<Rightarrow> main \<Rightarrow> main" where
  "main_update K B check_res s =
    (if check_res
     then
       let s = mcall (Updata_mode 0) s;
           res = updata_mode B (mlog s) 0
       in if M_UPDATA_SUCC = res then chip_restart K B (mcall (Set_updata_result UPDATA_SUCCESSFULLY) s)
          else if res = M_UPDATA_KEY_ERR then chip_restart K B (mcall (Set_updata_result UPDATA_KEY_ERR) s)
          else chip_restart K B (mcall (Set_updata_result UPDATA_DEV_ERR) s)
     else
       let s = mcall (Updata_mode M_POWER_BT_UPDATA) s;
           res = updata_mode B (mlog s) M_POWER_BT_UPDATA
       in if M_UPDATA_SUCC = res then chip_restart K B (mcall (Set_updata_result UPDATA_SUCCESSFULLY) s)
          else if \<not> updata_check_updata_result B (mlog s) then mcall (Set_updata_result UPDATA_NON) s
          else s)"

definition uboot_main :: "mconfig \<Rightarrow> board \<Rightarrow> main \<Rightarrow> main" where
  "uboot_main K B s =
    (let check_res = updata_check B (mlog s @ [Uart_close_all, Uart_init]);
         s = main_prepare K B s;
         (s, check_res) = main_devices K B check_res s;
         s = main_update K B check_res s
     in mcalls [Clr_updata_info, Cpu_reset] s)"

text \<open>The calls that are really made.\<close>

fun executed :: "mcall list \<Rightarrow> mcall list" where
  "executed [] = []"
| "executed (c # cs) = (if c \<in> {Cpu_reset, Latch_reset, Wifi_wait} then [c] else c # executed cs)"

definition main_start :: main where
  "main_start = \<lparr>latch_flag = None, vlvd_reg = 0, mlog = []\<rparr>"

definition boot_calls :: "mconfig \<Rightarrow> board \<Rightarrow> mcall list" where
  "boot_calls K B = executed (mlog (uboot_main K B main_start))"

end
