(* ===== verification/BootMain_Spec.thy ===== *)
theory BootMain_Spec
  imports BootMain
begin

text \<open>
  The result that the loader leaves for the application, at every point where power may fail; what a
  restart does; and which calls are never reached.
\<close>

section \<open>Logs\<close>

definition ends_run :: "mcall \<Rightarrow> bool" where
  "ends_run c \<longleftrightarrow> c \<in> {Cpu_reset, Latch_reset, Wifi_wait}"

definition results :: "mcall list \<Rightarrow> nat list" where
  "results cs = concat (map (\<lambda>c. case c of Set_updata_result r \<Rightarrow> [r] | _ \<Rightarrow> []) cs)"

definition updates :: "mcall list \<Rightarrow> mcall list" where
  "updates cs = filter (\<lambda>c. case c of Updata_mode _ \<Rightarrow> True | _ \<Rightarrow> False) cs"

text \<open>Calls that neither end the run nor record a result nor update.\<close>

definition quiet :: "mcall list \<Rightarrow> bool" where
  "quiet cs \<longleftrightarrow> (\<forall>c\<in>set cs. \<not> ends_run c) \<and> results cs = [] \<and> updates cs = []"

lemma log_simps [simp]:
  "results [] = []" "results (c # cs) = (case c of Set_updata_result r \<Rightarrow> [r] | _ \<Rightarrow> []) @ results cs"
  "results (cs @ ds) = results cs @ results ds"
  "updates [] = []" "updates (c # cs) = (case c of Updata_mode _ \<Rightarrow> [c] | _ \<Rightarrow> []) @ updates cs"
  "updates (cs @ ds) = updates cs @ updates ds"
  by (simp_all add: results_def updates_def split: mcall.splits)

lemma quiet_simps [simp]:
  "quiet []" "quiet (c # cs) \<longleftrightarrow> \<not> ends_run c \<and> (case c of Set_updata_result _ \<Rightarrow> False | Updata_mode _ \<Rightarrow> False | _ \<Rightarrow> True) \<and> quiet cs"
  "quiet (cs @ ds) \<longleftrightarrow> quiet cs \<and> quiet ds"
  by (auto simp: quiet_def split: mcall.splits)

lemma quiet_Irq [simp]: "quiet (map Irq_disable ns)"
  by (induction ns) (simp_all add: ends_run_def)

lemma executed_append: "\<forall>c\<in>set cs. \<not> ends_run c \<Longrightarrow> executed (cs @ ds) = cs @ executed ds"
  by (induction cs) (auto simp: ends_run_def)

lemma executed_end: "ends_run c \<Longrightarrow> executed (cs @ c # ds) = executed (cs @ [c])"
  by (induction cs) (auto simp: ends_run_def)

lemma mlog_simps [simp]: "mlog (mcall c s) = mlog s @ [c]" "mlog (mcalls cs s) = mlog s @ cs"
  by (simp_all add: mcall_def mcalls_def)

section \<open>Restart\<close>

lemma jump_mode_check_log [simp]: "mlog (fst (jump_mode_check B s)) = mlog s"
  by (simp add: jump_mode_check_def Let_def split: option.splits)

text \<open>A restart ends the run and records nothing: the latch reset when the application asked for it, else the
  reset of the processor with the voltage detector set back.\<close>

lemma chip_restart_log:
  "\<exists>cs c. mlog (chip_restart K B s) = mlog s @ cs @ [c] \<and> quiet cs \<and> c \<in> {Cpu_reset, Latch_reset}"
proof -
  obtain s1 f where j: "jump_mode_check B s = (s1, f)" "mlog s1 = mlog s"
    using jump_mode_check_log [of B s] by (cases "jump_mode_check B s") auto
  let ?cs = "[Ram_protect_close] @ (if gatt_build K \<or> ble_connect_build K then [Ll_hci_destory] else []) @
                  [Local_irq_disable] @ map Irq_disable [0..<64] @ [Switch_to_hrc, Uart_close_all, Jump_maskrom]"
  have q: "quiet ?cs" by (simp add: ends_run_def)
  show ?thesis
  proof (cases "f = 0")
    case True
    show ?thesis
    proof (cases "latch_flag s1 = None \<and> update_jump_flag B \<noteq> 0")
      case jump: True
      then have "mlog (chip_restart K B s) = mlog s @ (?cs @ [Vlvd_select (vlvd_reg s1), Uart_close_all]) @ [Cpu_reset]"
        using True j by (simp add: chip_restart_def ota_vlvd_sel_def mcalls_def mcall_def Let_def)
      then show ?thesis using q by (intro exI [of _ "?cs @ [Vlvd_select (vlvd_reg s1), Uart_close_all]"] exI [of _ Cpu_reset])
          (simp add: ends_run_def)
    next
      case False
      then have "mlog (chip_restart K B s) = mlog s @ [Vlvd_select (vlvd_reg s1), Uart_close_all] @ [Cpu_reset]"
        using True j by (auto simp: chip_restart_def ota_vlvd_sel_def mcall_def Let_def)
      then show ?thesis by (intro exI [of _ "[Vlvd_select (vlvd_reg s1), Uart_close_all]"] exI [of _ Cpu_reset]) (simp add: ends_run_def)
    qed
  next
    case False
    then have "mlog (chip_restart K B s) = mlog s @ [] @ [Latch_reset]"
      using j by (simp add: chip_restart_def mcall_def Let_def)
    then show ?thesis by (intro exI [of _ "[]"] exI [of _ Latch_reset]) simp
  qed
qed

section \<open>The result for the application\<close>

lemma main_prepare_log:
  "\<exists>cs. mlog (main_prepare K B s) = mlog s @ cs @ [Set_updata_result UPDATA_DEV_ERR, Clr_long_press_reset_timer, Timer_var_init] \<and> quiet cs"
proof -
  obtain io baud where u: "uart_debug B = (io, baud)" by force
  show ?thesis unfolding main_prepare_def u Let_def
    by (intro exI [of _ "[Uart_close_all, Uart_init, Vlvd_select VLVD_SEL_26V, Sys_init, Spi_reinit, Spi0flash_remove_protect,
          Dec_key_init (chip_key B), Dynamic_mem_init, Flash_fs_init] @ (if baud \<noteq> 0 then [Uart_reinit io baud] else []) @ [Wdt_init WDT_8S] @
          (if gatt_build K \<or> hid_build K then [Cfg_start_addr (exif_addr_get B)] else []) @ (if net_build K then [Boot_info_save] else [])"])
      (simp add: ota_vlvd_sel_def mcall_def mcalls_def ends_run_def)
qed

lemma drive_log: "\<exists>cs. mlog (drive_power_pins pins s) = mlog s @ cs \<and> quiet cs"
proof (induction pins arbitrary: s)
  case (Cons p pins)
  obtain g l where p: "p = (g, l)" by force
  obtain cs where "mlog (drive_power_pins pins (mcall (Gpio_drive g l) (mcall (Gpio_drive g 0) s))) =
      mlog s @ [Gpio_drive g 0, Gpio_drive g l] @ cs" "quiet cs"
    using Cons.IH [of "mcall (Gpio_drive g l) (mcall (Gpio_drive g 0) s)"] by auto
  then show ?case by (cases "g = 0") (auto simp: p ends_run_def intro!: exI [of _ "[Gpio_drive g 0, Gpio_drive g l] @ cs"])
qed simp

lemma main_devices_log:
  "\<exists>cs. mlog (fst (main_devices K B r s)) = mlog (if net_build K then wifi_init s else s) @ cs \<and> quiet cs"
proof -
  define s0 where "s0 = (if net_build K then wifi_init s else s)"
  define s1 where "s1 = (if hid_build K \<or> ble_connect_build K then mcall Ram_record_check s0 else s0)"
  have 1: "fst (main_devices K B r s) = (case power_pins B of None \<Rightarrow> s1 | Some pins \<Rightarrow> drive_power_pins pins s1)"
    unfolding main_devices_def s0_def [symmetric] by (simp add: s1_def Let_def split: option.splits)
  obtain cs where "mlog (case power_pins B of None \<Rightarrow> s1 | Some pins \<Rightarrow> drive_power_pins pins s1) = mlog s1 @ cs" "quiet cs"
    using drive_log by (cases "power_pins B") fastforce+
  then show ?thesis using 1 unfolding s0_def [symmetric]
    by (auto simp: s1_def ends_run_def intro!: exI [of _ "(if hid_build K \<or> ble_connect_build K then [Ram_record_check] else []) @ cs"])
qed

text \<open>What \<open>updata_mode\<close> reported, as the result for the application.\<close>

definition verdict_of :: "board \<Rightarrow> mcall list \<Rightarrow> nat \<Rightarrow> nat list" where
  "verdict_of B log k =
    (let res = updata_mode B log k
     in if res = M_UPDATA_SUCC then [UPDATA_SUCCESSFULLY]
        else if k = 0 then [if res = M_UPDATA_KEY_ERR then UPDATA_KEY_ERR else UPDATA_DEV_ERR]
        else if updata_check_updata_result B log then [] else [UPDATA_NON])"

lemma main_update_log:
  "\<exists>k post. executed (mlog (mcalls [Clr_updata_info, Cpu_reset] (main_update K B r s))) =
      executed (mlog s @ Updata_mode k # post) \<and> k = (if r then 0 else M_POWER_BT_UPDATA) \<and>
      results post = verdict_of B (mlog s @ [Updata_mode k]) k \<and> updates post = [] \<and>
      (\<exists>cs c. post = cs @ [c] \<and> (\<forall>x\<in>set cs. \<not> ends_run x) \<and> ends_run c \<and> c \<noteq> Wifi_wait)"
proof -
  define k where "k = (if r then 0 else M_POWER_BT_UPDATA)"
  define s1 where "s1 = mcall (Updata_mode k) s"
  define res where "res = updata_mode B (mlog s1) k"
  have restart: ?thesis if u: "main_update K B r s = chip_restart K B (mcall (Set_updata_result v) s1)"
      and v: "verdict_of B (mlog s1) k = [v]" for v
  proof -
    obtain cs c where c: "mlog (chip_restart K B (mcall (Set_updata_result v) s1)) = mlog (mcall (Set_updata_result v) s1) @ cs @ [c]"
      "quiet cs" "c \<in> {Cpu_reset, Latch_reset}" using chip_restart_log by blast
    let ?cs = "Set_updata_result v # cs"
    have end_c: "ends_run c" "c \<noteq> Wifi_wait" "results [c] = []" "updates [c] = []" using c(3) by (auto simp: ends_run_def)
    have cs: "\<forall>x\<in>set ?cs. \<not> ends_run x" "results ?cs = [v]" "updates ?cs = []"
      using c(2) by (auto simp: quiet_def ends_run_def)
    have l: "mlog (mcalls [Clr_updata_info, Cpu_reset] (main_update K B r s)) =
        (mlog s @ Updata_mode k # ?cs) @ c # [Clr_updata_info, Cpu_reset]"
      using u c(1) by (simp add: s1_def)
    have 1: "executed (mlog (mcalls [Clr_updata_info, Cpu_reset] (main_update K B r s))) = executed (mlog s @ Updata_mode k # ?cs @ [c])"
      unfolding l by (subst executed_end [OF end_c(1)]) simp
    have 2: "results (?cs @ [c]) = verdict_of B (mlog s @ [Updata_mode k]) k" "updates (?cs @ [c]) = []"
      using cs(2,3) end_c(3,4) v by (simp_all only: log_simps append_Nil2 s1_def mlog_simps)
    show ?thesis using 1 2 cs(1) end_c(1,2) k_def by blast
  qed
  have quit: ?thesis if u: "mlog (main_update K B r s) = mlog s1 @ map Set_updata_result vs"
      and v: "verdict_of B (mlog s1) k = vs" for vs
  proof -
    have m: "results (map Set_updata_result vs) = vs" "updates (map Set_updata_result vs) = []" by (induction vs) simp_all
    let ?cs = "map Set_updata_result vs @ [Clr_updata_info]"
    have 1: "executed (mlog (mcalls [Clr_updata_info, Cpu_reset] (main_update K B r s))) = executed (mlog s @ Updata_mode k # ?cs @ [Cpu_reset])"
      using u by (simp add: s1_def)
    have 2: "results (?cs @ [Cpu_reset]) = verdict_of B (mlog s @ [Updata_mode k]) k" "updates (?cs @ [Cpu_reset]) = []"
      using m v by (simp_all add: s1_def)
    have 3: "\<forall>x\<in>set ?cs. \<not> ends_run x" "ends_run Cpu_reset" "Cpu_reset \<noteq> Wifi_wait" by (auto simp: ends_run_def)
    show ?thesis using 1 2 3 k_def by blast
  qed
  show ?thesis
  proof (cases r)
    case True
    then have "main_update K B r s = chip_restart K B (mcall (Set_updata_result (if res = M_UPDATA_SUCC then UPDATA_SUCCESSFULLY
        else if res = M_UPDATA_KEY_ERR then UPDATA_KEY_ERR else UPDATA_DEV_ERR)) s1)"
      by (simp add: main_update_def Let_def res_def s1_def k_def)
    then show ?thesis by (rule restart) (use True in \<open>simp add: verdict_of_def Let_def res_def k_def\<close>)
  next
    case False
    then have k: "k = M_POWER_BT_UPDATA" "k \<noteq> 0" by (simp_all add: k_def M_POWER_BT_UPDATA_def)
    show ?thesis
    proof (cases "res = M_UPDATA_SUCC")
      case succ: True
      then have "main_update K B r s = chip_restart K B (mcall (Set_updata_result UPDATA_SUCCESSFULLY) s1)"
        using False k by (simp add: main_update_def Let_def res_def s1_def)
      then show ?thesis by (rule restart) (use succ in \<open>simp add: verdict_of_def Let_def res_def\<close>)
    next
      case fail: False
      then have "mlog (main_update K B r s) = mlog s1 @ map Set_updata_result (if updata_check_updata_result B (mlog s1) then [] else [UPDATA_NON])"
        using False k by (simp add: main_update_def Let_def res_def s1_def)
      then show ?thesis by (rule quit) (use fail k in \<open>simp add: verdict_of_def Let_def res_def\<close>)
    qed
  qed
qed

text \<open>C38: The loader never reports success for an update that did not succeed, even when power fails.  In the
  builds that update from \<open>main\<close>, the calls are: some that record nothing but one \<open>UPDATA_DEV_ERR\<close>, the
  one call of \<open>updata_mode\<close>, and the rest up to the reset, which records exactly what that call
  reported: success, a wrong key, or a device error - or, for the update without parameters, success,
  or nothing new, or that there was no update.  So a loader that is cut off anywhere from before the
  update until its result is known leaves \<open>UPDATA_DEV_ERR\<close>.\<close>

theorem result_for_application:
  assumes "\<not> net_build K"
  shows "\<exists>pre k post c. boot_calls K B = pre @ [Updata_mode k] @ post @ [c] \<and>
    results pre = [UPDATA_DEV_ERR] \<and> updates pre = [] \<and> updates post = [] \<and>
    k \<in> {0, M_POWER_BT_UPDATA} \<and> results post = verdict_of B (pre @ [Updata_mode k]) k \<and> c \<in> {Cpu_reset, Latch_reset}"
proof -
  let ?c0 = "updata_check B (mlog main_start @ [Uart_close_all, Uart_init])"
  let ?s1 = "main_prepare K B main_start"
  obtain s2 r where s2: "main_devices K B ?c0 ?s1 = (s2, r)" by force
  obtain cs1 where 1: "mlog ?s1 = cs1 @ [Set_updata_result UPDATA_DEV_ERR, Clr_long_press_reset_timer, Timer_var_init]" "quiet cs1"
    using main_prepare_log [of K B main_start] by (auto simp: main_start_def)
  obtain cs2 where 2: "mlog s2 = mlog ?s1 @ cs2" "quiet cs2"
    using main_devices_log [of K B ?c0 ?s1] s2 assms by auto
  obtain k post where p: "executed (mlog (mcalls [Clr_updata_info, Cpu_reset] (main_update K B r s2))) = executed (mlog s2 @ Updata_mode k # post)"
    "k = (if r then 0 else M_POWER_BT_UPDATA)" "results post = verdict_of B (mlog s2 @ [Updata_mode k]) k" "updates post = []"
    "\<exists>cs c. post = cs @ [c] \<and> (\<forall>x\<in>set cs. \<not> ends_run x) \<and> ends_run c \<and> c \<noteq> Wifi_wait"
    using main_update_log [of K B r s2] by (elim exE conjE) (rule that, assumption+, blast)
  obtain cs c where c: "post = cs @ [c]" "\<forall>x\<in>set cs. \<not> ends_run x" "ends_run c" "c \<noteq> Wifi_wait" using p(5) by blast
  have pre: "\<forall>x\<in>set (mlog s2). \<not> ends_run x" "results (mlog s2) = [UPDATA_DEV_ERR]" "updates (mlog s2) = []"
    using 1 2 by (auto simp: quiet_def ends_run_def)
  have "boot_calls K B = executed (mlog (mcalls [Clr_updata_info, Cpu_reset] (main_update K B r s2)))"
    by (simp add: boot_calls_def uboot_main_def Let_def s2)
  also have "\<dots> = executed ((mlog s2 @ [Updata_mode k] @ cs) @ [c])" using p(1) c(1) by simp
  also have "\<dots> = (mlog s2 @ [Updata_mode k] @ cs) @ executed [c]"
    using pre(1) c(2) by (intro executed_append) (auto simp: ends_run_def)
  finally have b: "boot_calls K B = mlog s2 @ [Updata_mode k] @ cs @ [c]" using c(3) by (simp add: ends_run_def)
  have r: "results cs = results post" "updates cs = []" using p(4) c(1,3) by (auto simp: ends_run_def)
  have "k \<in> {0, M_POWER_BT_UPDATA}" using p(2) by simp
  moreover have "c \<in> {Cpu_reset, Latch_reset}" using c(3,4) by (auto simp: ends_run_def)
  ultimately show ?thesis using b pre(2,3) r p(3) by metis
qed

definition quiet_board :: board where
  "quiet_board = \<lparr>ext_param = (\<lambda>_. None), update_jump_flag = 0, vlvd_con = 0x38, chip_key = 0, uart_debug = (0, 0), exif_addr_get = 0,
     power_pins = None, updata_check = (\<lambda>_. True), updata_mode = (\<lambda>_ _. 2), updata_check_updata_result = (\<lambda>_. True)\<rparr>"

definition gatt_config :: mconfig where
  "gatt_config = \<lparr>net_build = False, gatt_build = True, hid_build = False, ble_connect_build = False\<rparr>"

theorem result_for_application_witness:
  "\<exists>pre k post c. boot_calls gatt_config quiet_board = pre @ [Updata_mode k] @ post @ [c] \<and>
    results pre = [UPDATA_DEV_ERR] \<and> updates pre = [] \<and> updates post = [] \<and>
    k \<in> {0, M_POWER_BT_UPDATA} \<and> results post = verdict_of quiet_board (pre @ [Updata_mode k]) k \<and> c \<in> {Cpu_reset, Latch_reset}"
  by (rule result_for_application) (simp add: gatt_config_def)

section \<open>What is not reached\<close>

text \<open>The network builds never come to \<open>updata_mode\<close>: the start of the wireless system does not return, and
  the update runs in its own task.  The result they leave at this point is \<open>UPDATA_DEV_ERR\<close>.\<close>

lemma net_build_ends_in_wifi:
  assumes "net_build K"
  shows "updates (boot_calls K B) = [] \<and> last (boot_calls K B) = Wifi_wait \<and> results (boot_calls K B) = [UPDATA_DEV_ERR]"
proof -
  let ?c0 = "updata_check B (mlog main_start @ [Uart_close_all, Uart_init])"
  let ?s1 = "main_prepare K B main_start"
  obtain cs1 where 1: "mlog ?s1 = cs1 @ [Set_updata_result UPDATA_DEV_ERR, Clr_long_press_reset_timer, Timer_var_init]" "quiet cs1"
    using main_prepare_log [of K B main_start] by (auto simp: main_start_def)
  let ?w = "[Wdt_init 0xc, Interrupt_init, Exception_init, Debug_init, Clk_early_init, Hw_power_init, Os_init, App_main, Os_start]"
  have "\<exists>ds. mlog (fst (main_devices K B ?c0 ?s1)) = mlog ?s1 @ ?w @ Wifi_wait # ds"
    using main_devices_log [of K B ?c0 ?s1] assms by (auto simp: wifi_init_def)
  then obtain ds s2 r where d: "main_devices K B ?c0 ?s1 = (s2, r)" "mlog s2 = mlog ?s1 @ ?w @ Wifi_wait # ds"
    by (metis prod.collapse)
  have "\<forall>s. \<exists>es. mlog (chip_restart K B s) = mlog s @ es" using chip_restart_log [of K B] by blast
  then obtain f where f: "\<And>s. mlog (chip_restart K B s) = mlog s @ f s" by (auto dest: choice)
  have "\<exists>es. mlog (main_update K B r s2) = mlog s2 @ es" by (simp add: main_update_def Let_def f)
  then obtain es where e: "mlog (main_update K B r s2) = mlog s2 @ es" by blast
  have "boot_calls K B = executed ((mlog ?s1 @ ?w) @ Wifi_wait # ds @ es @ [Clr_updata_info, Cpu_reset])"
    by (simp add: boot_calls_def uboot_main_def Let_def d e)
  also have "\<dots> = executed ((mlog ?s1 @ ?w) @ [Wifi_wait])" by (rule executed_end) (simp add: ends_run_def)
  also have "\<dots> = (mlog ?s1 @ ?w) @ executed [Wifi_wait]"
    using 1 by (intro executed_append) (auto simp: quiet_def ends_run_def)
  finally show ?thesis using 1 by (simp add: quiet_def)
qed

section \<open>Restart\<close>

text \<open>The voltage detector is set back to what the application had, bits 3 to 5 of its register.\<close>

lemma detector_restored:
  assumes "latch_flag s = None" "ext_param B EXT_JUMP_FLAG = None" "update_jump_flag B = 0"
  shows "mlog (chip_restart K B s) = mlog s @ [Vlvd_select (vlvd_reg s), Uart_close_all, Cpu_reset]"
  using assms by (simp add: chip_restart_def jump_mode_check_def ota_vlvd_sel_def mcall_def Let_def)

lemma detector_saved: "vlvd_reg (main_prepare K B s) = drop_bit 3 (and (vlvd_con B) 56)"
  by (simp add: main_prepare_def ota_vlvd_sel_def mcall_def mcalls_def Let_def split: prod.splits)

text \<open>The jump into the mask ROM is an empty function on this chip: interrupts and clock are switched off for it,
  and then the processor is reset all the same.\<close>

lemma maskrom_jump_resets:
  assumes "latch_flag s = None" "ext_param B EXT_JUMP_FLAG = None" "update_jump_flag B \<noteq> 0"
  shows "Jump_maskrom \<in> set (mlog (chip_restart K B s)) \<and> last (mlog (chip_restart K B s)) = Cpu_reset"
  using assms by (simp add: chip_restart_def jump_mode_check_def ota_vlvd_sel_def mcall_def mcalls_def Let_def)

lemma latch_wins: "ext_param B EXT_JUMP_FLAG = Some f \<Longrightarrow> f \<noteq> 0 \<Longrightarrow> latch_flag s = None \<Longrightarrow>
    mlog (chip_restart K B s) = mlog s @ [Latch_reset]"
  by (simp add: chip_restart_def jump_mode_check_def mcall_def Let_def)

end
