(* ===== verification/UsbHid.thy ===== *)
theory UsbHid
  imports ByteMem CText
begin

text \<open>
  The two USB interfaces of the loader, the custom one that carries the update
  (\<open>common/usb/device/custom_hid.c\<close>) and the mouse (\<open>device/hid.c\<close>), the strings and the device
  descriptor (\<open>device/descriptor.c\<close>) and the filter for requests to the device and its endpoints
  (\<open>device/user_setup.c\<close>); high speed, without mass storage, audio and serial classes.

  What a handler asks of the USB stack is recorded as a list of \<open>ep0\<close> values: data to send (as it stands
  in the setup buffer), a phase of the control transfer, or a report to receive.
\<close>

section \<open>Constants\<close>

definition USB_DIR_IN :: nat where "USB_DIR_IN = 0x80"
definition HID_EP_IN :: nat where "HID_EP_IN = 2"
definition CUSTOM_HID_EP_IN :: nat where "CUSTOM_HID_EP_IN = 4"
definition CUSTOM_HID_EP_OUT :: nat where "CUSTOM_HID_EP_OUT = 4"
definition MAXP_SIZE_HIDIN :: nat where "MAXP_SIZE_HIDIN = 16"
definition MAXP_SIZE_CUSTOM_HIDIN :: nat where "MAXP_SIZE_CUSTOM_HIDIN = 64"
definition MAXP_SIZE_CUSTOM_HIDOUT :: nat where "MAXP_SIZE_CUSTOM_HIDOUT = 64"
definition HID_INTR_INTERVAL :: nat where "HID_INTR_INTERVAL = 4"
definition EP0_SETUP_LEN :: nat where "EP0_SETUP_LEN = 0x40"

definition LOBYTE :: "nat \<Rightarrow> byte" where "LOBYTE x = x mod 256"
definition HIBYTE :: "nat \<Rightarrow> byte" where "HIBYTE x = x div 256 mod 256"

text \<open>The macro \<open>SHORT_ITEMS\<close> and the items made with it.\<close>

definition short_item :: "byte \<Rightarrow> nat \<Rightarrow> byte list \<Rightarrow> byte list" where
  "short_item prefix len data = or prefix (if len > 0 then push_bit (len - 1) 1 else 0) # data"

definition INPUT :: "nat \<Rightarrow> byte list \<Rightarrow> byte list" where "INPUT = short_item 0x80"
definition OUTPUT :: "nat \<Rightarrow> byte list \<Rightarrow> byte list" where "OUTPUT = short_item 0x90"
definition COLLECTION :: "nat \<Rightarrow> byte list \<Rightarrow> byte list" where "COLLECTION = short_item 0xA0"
definition END_COLLECTION :: "byte list" where "END_COLLECTION = [0xC0]"
definition USAGE_PAGE :: "nat \<Rightarrow> byte list \<Rightarrow> byte list" where "USAGE_PAGE = short_item 0x04"
definition LOGICAL_MIN :: "nat \<Rightarrow> byte list \<Rightarrow> byte list" where "LOGICAL_MIN = short_item 0x14"
definition LOGICAL_MAX :: "nat \<Rightarrow> byte list \<Rightarrow> byte list" where "LOGICAL_MAX = short_item 0x24"
definition REPORT_SIZE :: "nat \<Rightarrow> byte list \<Rightarrow> byte list" where "REPORT_SIZE = short_item 0x74"
definition REPORT_ID :: "nat \<Rightarrow> byte list \<Rightarrow> byte list" where "REPORT_ID = short_item 0x84"
definition REPORT_COUNT :: "nat \<Rightarrow> byte list \<Rightarrow> byte list" where "REPORT_COUNT = short_item 0x94"
definition USAGE :: "nat \<Rightarrow> byte list \<Rightarrow> byte list" where "USAGE = short_item 0x08"
definition USAGE_MIN :: "nat \<Rightarrow> byte list \<Rightarrow> byte list" where "USAGE_MIN = short_item 0x18"
definition USAGE_MAX :: "nat \<Rightarrow> byte list \<Rightarrow> byte list" where "USAGE_MAX = short_item 0x28"

lemmas item_defs = INPUT_def OUTPUT_def COLLECTION_def END_COLLECTION_def USAGE_PAGE_def LOGICAL_MIN_def LOGICAL_MAX_def
  REPORT_SIZE_def REPORT_ID_def REPORT_COUNT_def USAGE_def USAGE_MIN_def USAGE_MAX_def short_item_def

section \<open>Descriptors of the interfaces\<close>

text \<open>\<open>sHIDDescriptor\<close> and \<open>sHIDReportDesc\<close> of \<open>custom_hid.c\<close>.\<close>

definition custom_descriptor :: "byte list" where
  "custom_descriptor =
    [9, 4, 0x00, 0x00, 0x02, 3, 0x00, 0x00, 0x00] @
    [0x09, 0x21, 0x01, 0x02, 0x00, 0x01, 0x22, 0, 0] @
    [7, 5, or USB_DIR_IN CUSTOM_HID_EP_IN, 3, LOBYTE MAXP_SIZE_CUSTOM_HIDIN, HIBYTE MAXP_SIZE_CUSTOM_HIDIN, 0x01] @
    [7, 5, CUSTOM_HID_EP_OUT, 3, LOBYTE MAXP_SIZE_CUSTOM_HIDOUT, HIBYTE MAXP_SIZE_CUSTOM_HIDOUT, 0x01]"

definition custom_report_desc :: "byte list" where
  "custom_report_desc =
    USAGE_PAGE 2 [0x02, 0xff] @ USAGE 1 [0x02] @ COLLECTION 1 [0x01] @
    USAGE 1 [0x03] @ LOGICAL_MIN 1 [0x00] @ LOGICAL_MAX 2 [0xff, 0x00] @ REPORT_SIZE 1 [8] @ REPORT_COUNT 1 [0x40] @ INPUT 1 [0x00] @
    USAGE 1 [0x04] @ LOGICAL_MIN 1 [0x00] @ LOGICAL_MAX 2 [0xff, 0x00] @ REPORT_SIZE 1 [0x08] @ REPORT_COUNT 1 [0x40] @ OUTPUT 1 [0x00] @
    END_COLLECTION"

text \<open>Those of \<open>hid.c\<close>.\<close>

definition hid_descriptor :: "byte list" where
  "hid_descriptor =
    [9, 4, 0x00, 0x00, 0x01, 3, 0x00, 0x00, 0x00] @
    [0x09, 0x21, 0x00, 0x01, 0x00, 0x01, 0x22, 0, 0] @
    [7, 5, or USB_DIR_IN HID_EP_IN, 3, LOBYTE MAXP_SIZE_HIDIN, HIBYTE MAXP_SIZE_HIDIN, HID_INTR_INTERVAL]"

definition hid_report_desc :: "byte list" where
  "hid_report_desc =
    USAGE_PAGE 1 [0x01] @ USAGE 1 [0x02] @ COLLECTION 1 [0x01] @ REPORT_ID 1 [0x01] @ USAGE 1 [0x01] @ COLLECTION 1 [0x00] @
    USAGE_PAGE 1 [0x09] @ USAGE_MIN 1 [0x01] @ USAGE_MAX 1 [0x03] @ LOGICAL_MIN 1 [0x00] @ LOGICAL_MAX 1 [0x01] @
    REPORT_COUNT 1 [0x03] @ REPORT_SIZE 1 [0x01] @ INPUT 1 [0x02] @ REPORT_COUNT 1 [0x01] @ REPORT_SIZE 1 [0x05] @ INPUT 1 [0x03] @
    USAGE_PAGE 1 [0x01] @ USAGE 1 [0x30] @ USAGE 1 [0x31] @ LOGICAL_MIN 1 [0x81] @ LOGICAL_MAX 1 [0x7F] @
    REPORT_SIZE 1 [0x08] @ REPORT_COUNT 1 [0x02] @ INPUT 1 [0x06] @ END_COLLECTION @ END_COLLECTION"

datatype interface = Custom_hid | Mouse

fun interface_descriptor :: "interface \<Rightarrow> byte list" where
  "interface_descriptor Custom_hid = custom_descriptor"
| "interface_descriptor Mouse = hid_descriptor"

fun report_desc :: "interface \<Rightarrow> byte list" where
  "report_desc Custom_hid = custom_report_desc"
| "report_desc Mouse = hid_report_desc"

definition get_hid_report_desc_len :: "interface \<Rightarrow> nat" where
  "get_hid_report_desc_len i = length (report_desc i)"

text \<open>\<open>custom_hid_desc_config\<close> and \<open>hid_desc_config\<close>: the bytes of the configuration descriptor, the next
  interface number; \<^const>\<open>None\<close> when the stack does not take the handlers.\<close>

definition with_report_len :: "interface \<Rightarrow> nat \<Rightarrow> byte list \<Rightarrow> byte list" where
  "with_report_len i at d = d[at := LOBYTE (get_hid_report_desc_len i), at + 1 := HIBYTE (get_hid_report_desc_len i)]"

definition desc_config :: "interface \<Rightarrow> (nat \<Rightarrow> nat) \<Rightarrow> nat \<Rightarrow> (byte list \<times> nat) option" where
  "desc_config i set_hander cur_itf_num =
    (if set_hander cur_itf_num \<noteq> cur_itf_num then None
     else Some (with_report_len i (9 + 7) ((interface_descriptor i)[2 := u8 cur_itf_num]), cur_itf_num + 1))"

section \<open>Requests to the interfaces\<close>

record request =
  bRequestType :: nat
  bRequest :: nat
  wValue :: nat
  wIndex :: nat
  wLength :: nat

datatype dev_state = USB_ATTACHED | USB_POWERED | USB_DEFAULT | USB_ADDRESS | USB_CONFIGURED | USB_SUSPENDED

datatype ep0 = Payload "byte list" | Stage_setup | Set_stall | Receive_report | Endpoint_init

definition hid_desc_payload :: "interface \<Rightarrow> byte list" where
  "hid_desc_payload i = with_report_len i 7 (take 9 (drop 9 (interface_descriptor i)))"

text \<open>The second part of the result: the host has set the idle rate, which the custom interface takes as ready.\<close>

definition custom_hid_itf_hander :: "dev_state \<Rightarrow> request \<Rightarrow> ep0 list \<times> bool" where
  "custom_hid_itf_hander st req =
    (let ty = and (bRequestType req) 0x60; rq = bRequest req
     in if ty = 0 then
          (if rq = 6 then
             (if HIBYTE (wValue req) = 0x21 then [Payload (hid_desc_payload Custom_hid)]
              else if HIBYTE (wValue req) = 0x22 then [Payload (report_desc Custom_hid)]
              else [Set_stall])
           else if rq = 7 then [Set_stall]
           else if rq = 0x0B then (if st \<in> {USB_DEFAULT, USB_ADDRESS, USB_CONFIGURED} then [Set_stall] else [])
           else if rq = 0x0A then
             (if wLength req \<noteq> 0 then [Set_stall]
              else if st \<in> {USB_DEFAULT, USB_ADDRESS} then [Set_stall]
              else if st = USB_CONFIGURED then [Payload [0]] else [])
           else [Set_stall], False)
        else if ty = 0x20 then
          (if rq = 0x0A then ([Stage_setup], True)
           else if rq = 2 then ([Payload [0]], False)
           else if rq = 1 then ([Payload (report_desc Custom_hid)], False)
           else ([Set_stall], False))
        else ([Set_stall], False))"

definition hid_itf_hander :: "dev_state \<Rightarrow> request \<Rightarrow> ep0 list" where
  "hid_itf_hander st req =
    (let ty = and (bRequestType req) 0x60; rq = bRequest req
     in if ty = 0 then
          (if rq = 6 then
             (if HIBYTE (wValue req) = 0x21 then [Payload (hid_desc_payload Mouse)]
              else if HIBYTE (wValue req) = 0x22 then [Endpoint_init, Payload (report_desc Mouse)]
              else [])
           else if rq = 7 then [Stage_setup]
           else if rq = 0x0B then
             (if st \<in> {USB_DEFAULT, USB_ADDRESS} then [Set_stall]
              else if st = USB_CONFIGURED then (if wValue req = 0 then [Stage_setup] else [Set_stall]) else [])
           else if rq = 0x0A then
             (if wValue req \<noteq> 0 \<or> wLength req \<noteq> 1 then [Set_stall]
              else if st \<in> {USB_DEFAULT, USB_ADDRESS} then [Set_stall]
              else if st = USB_CONFIGURED then [Payload [0]] else [])
           else if rq = 0 then [Set_stall]
           else [])
        else if ty = 0x20 then
          (if rq = 0x0A then [Stage_setup]
           else if rq = 2 then [Payload [0]]
           else if rq = 9 then [Receive_report]
           else [])
        else [])"

text \<open>\<open>hid_recv_output_report\<close>: the number of bytes read from endpoint 0 into eight, and the next phase.\<close>

definition hid_recv_output_report :: "request \<Rightarrow> nat \<times> ep0" where
  "hid_recv_output_report setup = (min 8 (wLength setup), Stage_setup)"

section \<open>Requests to the device and the endpoints\<close>

definition check_ep_vaild :: "nat \<Rightarrow> bool" where
  "check_ep_vaild ep \<longleftrightarrow> ep = 0 \<or> ep = 2"

text \<open>Each part answers what it asks for and whether it has handled the request.\<close>

definition setup_endpoint :: "request \<Rightarrow> ep0 list \<times> bool" where
  "setup_endpoint req = (if \<not> check_ep_vaild (and (LOBYTE (wIndex req)) 0x0f) then ([Set_stall], True) else ([], False))"

definition setup_device :: "request \<Rightarrow> ep0 list \<times> bool" where
  "setup_device req = ([], False)"

definition setup_other :: "request \<Rightarrow> ep0 list \<times> bool" where
  "setup_other req = ([], bRequest req \<noteq> 0)"

definition user_setup_filter :: "request \<Rightarrow> ep0 list \<times> bool" where
  "user_setup_filter req =
    (let recip = and (bRequestType req) 0x1f
     in if recip = 0 then setup_device req
        else if recip = 1 then ([], False)
        else if recip = 2 then setup_endpoint req
        else if recip = 3 then setup_other req
        else ([], False))"

section \<open>Device and string descriptors\<close>

definition default_device_descriptor :: "byte list" where
  "default_device_descriptor =
    [18, 1, 0x00, 0x02, 0x00, 0x00, 0x00, EP0_SETUP_LEN] @ cstr ''JMUA'' @ [0x00, 0x01, 0x01, 0x02, 0x03, 0x01]"

definition config_descriptor :: "byte list" where
  "config_descriptor = [9, 2, 0, 0, 0, 0x01, 0x00, 0x80, 50]"

definition LANGUAGE_STR :: "byte list" where "LANGUAGE_STR = [0x04, 0x03, 0x09, 0x04]"

definition product_string :: "byte list" where
  "product_string = [42, 0x03] @ concat (map (\<lambda>c. [c, 0x00]) (cstr ''USB Composite Device''))"

definition MANUFACTURE_STR :: "byte list" where
  "MANUFACTURE_STR = [34, 0x03] @ concat (map (\<lambda>c. [c, 0x00])
     [0x4a, 0x69, 0x65, 0x6c, 0x69, 0x20, 0x54, 0x65, 0x63, 0x68, 0x6e, 0x6f, 0x6c, 0x6f, 0x67, 0x79])"

definition serial_string :: "byte list" where
  "serial_string =
    [0x22, 0x03, 0x30, 0x00, 0x30, 0x00, 0x30, 0x00, 0x30, 0x00, 0x36, 0x00, 0x46, 0x00, 0x36, 0x00,
     0x34, 0x00, 0x30, 0x00, 0x39, 0x00, 0x36, 0x00, 0x42, 0x00, 0x32, 0x00, 0x32, 0x00, 0x45, 0x00,
     0x37, 0x00]"

text \<open>The names an application may set; fields of eighteen bytes.\<close>

record usb_descriptor =
  Manufacturer_str :: "byte list"
  Product_str :: "byte list"
  SerialNumber_str :: "byte list"

definition USB_SETUP_SIZE :: nat where "USB_SETUP_SIZE = 512"

fun conver_loop :: "byte list \<Rightarrow> nat \<Rightarrow> byte list \<Rightarrow> byte list" where
  "conver_loop [] offset des = des"
| "conver_loop (c # src) offset des =
    (if \<not> offset < USB_SETUP_SIZE \<or> c = 0 then des else conver_loop src (u8 (u8 (offset + 1) + 1)) (des @ [c, 0]))"

definition custom_str_conver :: "byte list \<Rightarrow> byte list" where
  "custom_str_conver src =
    (let des = conver_loop src 2 [0, 0x03] in des[0 := u8 (length des)])"

definition get_str :: "byte list \<Rightarrow> byte list \<Rightarrow> byte list" where
  "get_str custom builtin = (if custom ! 0 = 0 then take (builtin ! 0) builtin else custom_str_conver custom)"

definition get_manufacture_str :: "usb_descriptor \<Rightarrow> byte list" where
  "get_manufacture_str d = get_str (Manufacturer_str d) MANUFACTURE_STR"

definition get_iserialnumber_str :: "usb_descriptor \<Rightarrow> byte list" where
  "get_iserialnumber_str d = get_str (SerialNumber_str d) serial_string"

definition get_product_str :: "usb_descriptor \<Rightarrow> byte list" where
  "get_product_str d = get_str (Product_str d) product_string"

definition hid_bcdDevice_update :: "byte list \<Rightarrow> byte list \<Rightarrow> byte list" where
  "hid_bcdDevice_update parm d = d[12 := parm ! 0, 13 := parm ! 1]"

definition hid_desc_update :: "byte list \<Rightarrow> byte list \<Rightarrow> byte list" where
  "hid_desc_update parm d = d[8 := parm ! 0, 9 := parm ! 1, 10 := parm ! 2, 11 := parm ! 3]"

end
