(* ===== verification/UsbHid_Spec.thy ===== *)
theory UsbHid_Spec
  imports UsbHid
begin

text \<open>
  The descriptors of the USB interfaces are well formed and consistent with each other and with what the
  handlers answer; every request to the custom interface gets one answer; the strings.
\<close>

section \<open>Reading descriptors\<close>

text \<open>A configuration descriptor is a chain of parts, each with its length and its type.\<close>

function parts :: "byte list \<Rightarrow> (byte \<times> byte list) list option" where
  "parts bs =
    (if bs = [] then Some []
     else let n = hd bs
       in if n < 2 \<or> length bs < n then None
          else map_option (Cons (bs ! 1, take n bs)) (parts (drop n bs)))"
  by pat_completeness auto
termination by (relation "measure length") auto

declare parts.simps [simp del]

text \<open>A report descriptor is a list of items: a prefix whose two low bits give the size of the data.\<close>

function report_items :: "byte list \<Rightarrow> (byte \<times> byte list) list option" where
  "report_items bs =
    (if bs = [] then Some []
     else let n = [0, 1, 2, 4] ! (hd bs mod 4)
       in if length bs < 1 + n then None
          else map_option (Cons (hd bs - hd bs mod 4, take n (tl bs))) (report_items (drop n (tl bs))))"
  by pat_completeness auto
termination
proof (relation "measure length")
  fix bs :: "byte list" and n
  assume "bs \<noteq> []"
  then show "(drop n (tl bs), bs) \<in> measure length" by (cases bs) auto
qed simp

declare report_items.simps [simp del]

text \<open>Walking through the items: depth of collections, size and count in force, bits of input and of output;
  \<^const>\<open>None\<close> when a collection is closed that was not opened.\<close>

fun report_bits :: "(byte \<times> byte list) list \<Rightarrow> nat \<times> nat \<times> nat \<times> nat \<times> nat \<Rightarrow> (nat \<times> nat \<times> nat) option" where
  "report_bits [] (d, sz, n, i, o') = Some (d, i, o')"
| "report_bits ((tag, data) # items) (d, sz, n, i, o') =
    (if tag = 0xA0 then report_bits items (d + 1, sz, n, i, o')
     else if tag = 0xC0 then if d = 0 then None else report_bits items (d - 1, sz, n, i, o')
     else if tag = 0x74 then report_bits items (d, data ! 0, n, i, o')
     else if tag = 0x94 then report_bits items (d, sz, data ! 0, i, o')
     else if tag = 0x80 then report_bits items (d, sz, n, i + sz * n, o')
     else if tag = 0x90 then report_bits items (d, sz, n, i, o' + sz * n)
     else report_bits items (d, sz, n, i, o'))"

definition report_ok :: "interface \<Rightarrow> nat \<Rightarrow> nat \<Rightarrow> bool" where
  "report_ok i ins outs \<longleftrightarrow>
    (\<exists>items. report_items (report_desc i) = Some items \<and> report_bits items (0, 0, 0, 0, 0) = Some (0, ins, outs))"

fun answers :: "interface \<Rightarrow> dev_state \<Rightarrow> request \<Rightarrow> ep0 list" where
  "answers Custom_hid st req = fst (custom_hid_itf_hander st req)"
| "answers Mouse st req = hid_itf_hander st req"

definition get_descriptor :: "nat \<Rightarrow> nat \<Rightarrow> nat \<Rightarrow> request" where
  "get_descriptor ty index len = \<lparr>bRequestType = 0x81, bRequest = 6, wValue = 256 * ty, wIndex = index, wLength = len\<rparr>"

definition endpoint_size :: "byte list \<Rightarrow> nat" where
  "endpoint_size ep = ep ! 4 + 256 * ep ! 5"

section \<open>The descriptors\<close>

lemma custom_report_length: "get_hid_report_desc_len Custom_hid = 34"
  by (simp add: get_hid_report_desc_len_def custom_report_desc_def item_defs)

lemma mouse_report_length: "get_hid_report_desc_len Mouse = 52"
  by (simp add: get_hid_report_desc_len_def hid_report_desc_def item_defs)

lemma custom_report: "report_ok Custom_hid 512 512"
proof -
  have "\<exists>items. report_items custom_report_desc = Some items \<and> report_bits items (0, 0, 0, 0, 0) = Some (0, 512, 512)"
    by (simp add: custom_report_desc_def item_defs report_items.simps)
  then show ?thesis by (simp add: report_ok_def)
qed

lemma mouse_report: "report_ok Mouse 24 0"
proof -
  have "\<exists>items. report_items hid_report_desc = Some items \<and> report_bits items (0, 0, 0, 0, 0) = Some (0, 24, 0)"
    by (simp add: hid_report_desc_def item_defs report_items.simps)
  then show ?thesis by (simp add: report_ok_def)
qed

lemmas desc_defs = desc_config_def with_report_len_def custom_descriptor_def hid_descriptor_def USB_DIR_IN_def CUSTOM_HID_EP_IN_def
  CUSTOM_HID_EP_OUT_def MAXP_SIZE_CUSTOM_HIDIN_def MAXP_SIZE_CUSTOM_HIDOUT_def HID_EP_IN_def MAXP_SIZE_HIDIN_def HID_INTR_INTERVAL_def
  LOBYTE_def HIBYTE_def hid_desc_payload_def endpoint_size_def get_descriptor_def

lemma custom_parts:
  "set_hander n = n \<Longrightarrow> n < 256 \<Longrightarrow> \<exists>d. desc_config Custom_hid set_hander n = Some (d, n + 1) \<and>
    parts d = Some [(4, [9, 4, n, 0, 2, 3, 0, 0, 0]), (0x21, hid_desc_payload Custom_hid),
      (5, [7, 5, 0x84, 3, 64, 0, 1]), (5, [7, 5, 4, 3, 64, 0, 1])]"
  by (simp add: desc_defs custom_report_length parts.simps)

lemma mouse_parts:
  "set_hander n = n \<Longrightarrow> n < 256 \<Longrightarrow> \<exists>d. desc_config Mouse set_hander n = Some (d, n + 1) \<and>
    parts d = Some [(4, [9, 4, n, 0, 1, 3, 0, 0, 0]), (0x21, hid_desc_payload Mouse), (5, [7, 5, 0x82, 3, 16, 0, 4])]"
  by (simp add: desc_defs mouse_report_length parts.simps)

lemma hid_desc_fields:
  "length (hid_desc_payload i) = 9" "hid_desc_payload i ! 7 + 256 * hid_desc_payload i ! 8 = length (report_desc i)"
  "hid_desc_payload i ! 5 = 1" "hid_desc_payload i ! 6 = 0x22"
  by (cases i; simp add: desc_defs custom_report_length mouse_report_length
        custom_report_length [unfolded get_hid_report_desc_len_def, simplified] mouse_report_length [unfolded get_hid_report_desc_len_def, simplified])+

lemma descriptor_answers:
  "last (answers i st (get_descriptor 0x21 index len)) = Payload (hid_desc_payload i)"
  "last (answers i st (get_descriptor 0x22 index len)) = Payload (report_desc i)"
  by (cases i; simp add: get_descriptor_def custom_hid_itf_hander_def hid_itf_hander_def HIBYTE_def)+

text \<open>C39: The interface descriptors are well formed.  For each of the two interfaces and every number it may get, the
  bytes it adds to the configuration descriptor are a chain of parts that ends exactly: the interface with
  its number and its count of endpoints, the HID descriptor, and that many endpoint descriptors.  The HID
  descriptor names one report descriptor of the length it really has; asked for the HID or the report
  descriptor the handler answers exactly these bytes.  The report descriptor is a list of items that
  closes every collection it opens, and an input or output report fits into a packet of its endpoint.\<close>

theorem interface_well_formed:
  assumes "set_hander n = n" "n < 256"
  shows "\<exists>d itf hid eps. desc_config i set_hander n = Some (d, n + 1) \<and> parts d = Some ((4, itf) # (0x21, hid) # map (Pair 5) eps) \<and>
    itf ! 2 = n \<and> itf ! 4 = length eps \<and> (\<forall>ep\<in>set eps. length ep = 7) \<and>
    hid ! 5 = 1 \<and> hid ! 6 = 0x22 \<and> hid ! 7 + 256 * hid ! 8 = length (report_desc i) \<and>
    last (answers i st (get_descriptor 0x21 index len)) = Payload hid \<and>
    last (answers i st (get_descriptor 0x22 index len)) = Payload (report_desc i) \<and>
    (\<exists>ins outs. report_ok i ins outs \<and> (\<forall>ep\<in>set eps. ins \<le> 8 * endpoint_size ep \<and> outs \<le> 8 * endpoint_size ep))"
proof (cases i)
  case Custom_hid
  obtain d where d: "desc_config Custom_hid set_hander n = Some (d, n + 1)"
    "parts d = Some ((4, [9, 4, n, 0, 2, 3, 0, 0, 0]) # (0x21, hid_desc_payload Custom_hid) #
      map (Pair 5) [[7, 5, 0x84, 3, 64, 0, 1], [7, 5, 4, 3, 64, 0, 1]])"
    using custom_parts [of set_hander n, OF assms] by auto
  show ?thesis unfolding Custom_hid
    by (intro exI conjI, rule d(1), rule d(2)) (use custom_report in \<open>auto simp: hid_desc_fields descriptor_answers [of Custom_hid, simplified] endpoint_size_def\<close>)
next
  case Mouse
  obtain d where d: "desc_config Mouse set_hander n = Some (d, n + 1)"
    "parts d = Some ((4, [9, 4, n, 0, 1, 3, 0, 0, 0]) # (0x21, hid_desc_payload Mouse) # map (Pair 5) [[7, 5, 0x82, 3, 16, 0, 4]])"
    using mouse_parts [of set_hander n, OF assms] by auto
  show ?thesis unfolding Mouse
    by (intro exI conjI, rule d(1), rule d(2)) (use mouse_report in \<open>auto simp: hid_desc_fields descriptor_answers [of Mouse, simplified] endpoint_size_def\<close>)
qed

theorem interface_well_formed_witness:
  "\<exists>d itf hid eps. desc_config Custom_hid (\<lambda>n. n) 0 = Some (d, 0 + 1) \<and> parts d = Some ((4, itf) # (0x21, hid) # map (Pair 5) eps) \<and>
    itf ! 2 = 0 \<and> itf ! 4 = length eps \<and> (\<forall>ep\<in>set eps. length ep = 7) \<and>
    hid ! 5 = 1 \<and> hid ! 6 = 0x22 \<and> hid ! 7 + 256 * hid ! 8 = length (report_desc Custom_hid) \<and>
    last (answers Custom_hid USB_CONFIGURED (get_descriptor 0x21 0 9)) = Payload hid \<and>
    last (answers Custom_hid USB_CONFIGURED (get_descriptor 0x22 0 9)) = Payload (report_desc Custom_hid) \<and>
    (\<exists>ins outs. report_ok Custom_hid ins outs \<and> (\<forall>ep\<in>set eps. ins \<le> 8 * endpoint_size ep \<and> outs \<le> 8 * endpoint_size ep))"
  by (rule interface_well_formed [of "\<lambda>n. n" 0]) simp_all

section \<open>Answers\<close>

text \<open>The custom interface answers every request once when the device is addressed or configured.\<close>

lemma custom_answers_once:
  "st \<in> {USB_DEFAULT, USB_ADDRESS, USB_CONFIGURED} \<Longrightarrow> length (answers Custom_hid st req) = 1"
  by (auto simp: custom_hid_itf_hander_def Let_def)

text \<open>The mouse leaves requests it does not know without an answer, a descriptor of another type for one.\<close>

lemma mouse_leaves_unanswered:
  "answers Mouse st \<lparr>bRequestType = 0x81, bRequest = 6, wValue = 0x2300, wIndex = 0, wLength = len\<rparr> = []"
  by (simp add: hid_itf_hander_def HIBYTE_def)

text \<open>A well-formed request for the alternate setting has a length of one; the custom interface stalls it, and
  answers only the malformed one of length zero.  The mouse answers the well-formed one.\<close>

definition get_interface :: "nat \<Rightarrow> request" where
  "get_interface len = \<lparr>bRequestType = 0x81, bRequest = 0x0A, wValue = 0, wIndex = 0, wLength = len\<rparr>"

lemma custom_stalls_get_interface:
  "answers Custom_hid USB_CONFIGURED (get_interface 1) = [Set_stall]"
  "answers Custom_hid USB_CONFIGURED (get_interface 0) = [Payload [0]]"
  "answers Mouse USB_CONFIGURED (get_interface 1) = [Payload [0]]"
  by (simp_all add: get_interface_def custom_hid_itf_hander_def hid_itf_hander_def)

text \<open>Asked for a report, the custom interface answers its report descriptor.\<close>

lemma custom_get_report_answers_descriptor:
  "answers Custom_hid st \<lparr>bRequestType = 0xA1, bRequest = 1, wValue = v, wIndex = 0, wLength = len\<rparr> = [Payload custom_report_desc]"
  by (simp add: custom_hid_itf_hander_def)

text \<open>Requests to the endpoints of the custom interface are stalled: endpoint 4 has no entry in the list of valid ones.\<close>

lemma custom_endpoint_stalled:
  "wIndex req \<in> {CUSTOM_HID_EP_OUT, USB_DIR_IN + CUSTOM_HID_EP_IN} \<Longrightarrow> bRequestType req = 2 \<Longrightarrow> user_setup_filter req = ([Set_stall], True)"
  by (auto simp: user_setup_filter_def setup_endpoint_def check_ep_vaild_def LOBYTE_def CUSTOM_HID_EP_OUT_def CUSTOM_HID_EP_IN_def USB_DIR_IN_def)

text \<open>Requests to other recipients are taken as handled without an answer, unless they ask for the status.\<close>

lemma other_recipients_unanswered:
  "bRequestType req = 3 \<Longrightarrow> user_setup_filter req = ([], bRequest req \<noteq> 0)"
  by (simp add: user_setup_filter_def setup_other_def)

section \<open>Strings\<close>

definition string_of :: "byte list \<Rightarrow> byte list" where
  "string_of s = [2 + 2 * length s, 3] @ concat (map (\<lambda>c. [c, 0]) s)"

lemma string_length: "length (concat (map (\<lambda>c. [c, 0::nat]) s)) = 2 * length s"
  by (induction s) simp_all

lemma conver_loop_text:
  "offset + 2 * length src < 256 \<Longrightarrow> conver_loop src offset des = des @ concat (map (\<lambda>c. [c, 0]) (takeWhile (\<lambda>c. c \<noteq> 0) src))"
  by (induction src arbitrary: offset des) (simp_all add: USB_SETUP_SIZE_def)

text \<open>A name set by the application becomes a string descriptor of the text up to its terminator; else the
  built-in string is given.\<close>

lemma custom_string:
  assumes "length src = 18"
  shows "custom_str_conver src = string_of (takeWhile (\<lambda>c. c \<noteq> 0) src)"
proof -
  let ?t = "takeWhile (\<lambda>c. c \<noteq> 0) src"
  have t: "length ?t \<le> 18" using assms length_takeWhile_le [of "\<lambda>c. c \<noteq> 0" src] by simp
  have "conver_loop src 2 [0, 3] = [0, 3] @ concat (map (\<lambda>c. [c, 0]) ?t)"
    using conver_loop_text [of 2 src "[0, 3]"] assms by simp
  then show ?thesis using t by (simp add: custom_str_conver_def Let_def string_of_def string_length)
qed

lemma builtin_strings:
  "product_string = string_of (cstr ''USB Composite Device'')" "MANUFACTURE_STR = string_of (cstr ''Jieli Technology'')"
  "serial_string = string_of (cstr ''00006F64096B22E7'')"
  "length LANGUAGE_STR = LANGUAGE_STR ! 0" "length default_device_descriptor = 18"
  by (simp_all add: product_string_def MANUFACTURE_STR_def string_of_def cstr_def serial_string_def LANGUAGE_STR_def default_device_descriptor_def)

text \<open>An update of the device descriptor keeps its length and its other fields.\<close>

lemma device_updates:
  "length (hid_desc_update p d) = length d" "i \<notin> {8, 9, 10, 11} \<Longrightarrow> hid_desc_update p d ! i = d ! i"
  "length (hid_bcdDevice_update p d) = length d" "i \<notin> {12, 13} \<Longrightarrow> hid_bcdDevice_update p d ! i = d ! i"
  by (simp_all add: hid_desc_update_def hid_bcdDevice_update_def)

end
