(* ===== verification/UsbDev.thy ===== *)
theory UsbDev
  imports UsbHid Lbuf
begin

text \<open>
  The USB device (\<open>common/usb/usb_config.c\<close>, \<open>device/usb_device.c\<close>), the data path of the two
  interfaces (\<open>device/custom_hid.c\<close>, \<open>device/hid.c\<close>) and the test traffic (\<open>device/usb_test.c\<close>): the
  DMA buffers of the endpoints, cut from a pool of \<open>common/lbuf_new.c\<close>, the interrupt tables, remote
  wakeup, and switching the device on and off.

  Calls of the USB driver are recorded in \<open>ulog\<close>.  A failed assertion and an access outside an
  interrupt table are \<^const>\<open>None\<close>.  There are two ports; what is static in the C files is shared by them.
\<close>

section \<open>State\<close>

datatype handler = Custom_hid_rx | Other_handler nat

datatype ucall =
  Ep_config nat nat addr nat            \<comment> \<open>port, endpoint with direction, buffer, packet size\<close>
| Enable_ep nat nat | Disable_ep nat nat
| Intr_write nat nat "byte list"
| Rx_hook nat "byte list"
| Call_handler nat handler nat          \<comment> \<open>port, handler, endpoint\<close>
| Control_transfer nat | Reset_interfaces nat
| Add_desc nat nat "interface option"
| Dma_raddr nat nat addr
| Sie_init nat | Write_power nat nat | Slave_init nat | Sie_hold nat | Isr_reg nat | Setup_filter nat
| Pins_release nat | Config_var nat bool
| Sof_isr_reg nat | Timeout_resume nat | Timeout_detect nat

record custom_hid_hdl =
  cfg_done :: bool
  priv_hdl :: nat
  hid_rx_hook :: bool

datatype wakeup = USB_READY | USB_SUSPEND | USB_RESUME_WAIT | USB_RESUME_OK

record usb =
  usb_dma_lbuf :: lbuf
  hid_ep_in_dma :: addr
  custom_hid_ep_in_dma :: addr
  custom_hid_ep_out_dma :: addr
  custom_hid_info :: "custom_hid_hdl option"
  usb_interrupt_tx :: "nat \<Rightarrow> nat \<Rightarrow> handler option"
  usb_interrupt_rx :: "nat \<Rightarrow> nat \<Rightarrow> handler option"
  sleep_flag :: nat
  usb_remote_wakeup_flag :: wakeup
  usb_remote_wakeup_cnt :: nat
  ulog :: "ucall list"

definition ucall :: "ucall \<Rightarrow> usb \<Rightarrow> usb" where
  "ucall c s = s\<lparr>ulog := ulog s @ [c]\<rparr>"

definition ucalls :: "ucall list \<Rightarrow> usb \<Rightarrow> usb" where
  "ucalls cs s = s\<lparr>ulog := ulog s @ cs\<rparr>"

definition MAX_EP :: nat where "MAX_EP = 5"

section \<open>DMA buffers\<close>

definition USB_DMA_BUF_ALIGN :: nat where "USB_DMA_BUF_ALIGN = 8"

definition USB_DMA_BUF_MAX_SIZE :: nat where
  "USB_DMA_BUF_MAX_SIZE = 64 + USB_DMA_BUF_ALIGN + 0 + USB_DMA_BUF_ALIGN + 0 * 2 + USB_DMA_BUF_ALIGN + 0 + USB_DMA_BUF_ALIGN + 64 * 2 +
     USB_DMA_BUF_ALIGN + 100"

text \<open>Where the linker puts the two static buffers.\<close>

record usb_layout =
  usb_dma_buf :: addr
  ep0_dma_buffer :: addr

definition usb_memory_init :: "usb_layout \<Rightarrow> usb \<Rightarrow> usb" where
  "usb_memory_init A s = s\<lparr>usb_dma_lbuf := lbuf_init (usb_dma_buf A) USB_DMA_BUF_MAX_SIZE\<rparr>"

definition usb_alloc_ep_dmabuffer :: "usb_layout \<Rightarrow> nat \<Rightarrow> nat \<Rightarrow> usb \<Rightarrow> (usb \<times> addr) option" where
  "usb_alloc_ep_dmabuffer A ep dma_size s =
    (if and ep 0xf = 0 then (if ep0_dma_buffer A = 0 then None else Some (s, ep0_dma_buffer A))
     else case lbuf_alloc (usb_dma_lbuf s) dma_size of
            (l, p) \<Rightarrow> if p = 0 then None else Some (s\<lparr>usb_dma_lbuf := l\<rparr>, p))"

section \<open>Interrupts\<close>

definition usb_g_set_intr_hander :: "nat \<Rightarrow> nat \<Rightarrow> handler \<Rightarrow> usb \<Rightarrow> usb option" where
  "usb_g_set_intr_hander port ep h s =
    (if and ep USB_DIR_IN \<noteq> 0
     then if and ep 0xf < MAX_EP
       then Some (s\<lparr>usb_interrupt_tx := (usb_interrupt_tx s)(port := (usb_interrupt_tx s port)(and ep 0xf := Some h))\<rparr>) else None
     else if ep < MAX_EP
       then Some (s\<lparr>usb_interrupt_rx := (usb_interrupt_rx s)(port := (usb_interrupt_rx s port)(ep := Some h))\<rparr>) else None)"

text \<open>The handlers of the set bits of an interrupt register, from endpoint 1 on.\<close>

definition called :: "nat \<Rightarrow> nat \<Rightarrow> (nat \<Rightarrow> handler option) \<Rightarrow> ucall list" where
  "called port intr t =
    concat (map (\<lambda>i. if bit intr i then case t i of None \<Rightarrow> [] | Some h \<Rightarrow> [Call_handler port h i] else []) [1..<MAX_EP])"

definition set_sleep_flag :: "nat \<Rightarrow> usb \<Rightarrow> usb" where
  "set_sleep_flag f s = s\<lparr>sleep_flag := u8 f\<rparr>"

definition usb_isr :: "nat \<Rightarrow> nat \<times> nat \<times> nat \<Rightarrow> nat \<times> nat \<times> nat \<Rightarrow> usb \<Rightarrow> usb" where
  "usb_isr port intr enabled s =
    (case (intr, enabled) of ((u, t, r), (ue, te, re)) \<Rightarrow>
       let u = and u ue; t = and t te; r = and r re;
           s = (if and u 1 \<noteq> 0 then set_sleep_flag 1 (s\<lparr>usb_remote_wakeup_flag := USB_SUSPEND\<rparr>) else s);
           s = (if and u 4 \<noteq> 0 then ucall (Reset_interfaces port) s else s);
           s = (if and t 1 \<noteq> 0
                then case usb_interrupt_rx s port 0 of
                       Some h \<Rightarrow> ucall (Call_handler port h 0) s
                     | None \<Rightarrow> ucall (Control_transfer port) s
                else s);
           s = ucalls (called port t (usb_interrupt_tx s port)) s
       in ucalls (called port r (usb_interrupt_rx s port)) s)"

section \<open>Remote wakeup\<close>

definition USB_REMOTE_WAKEUP_TIMEOUT_DETECT_TIMES :: nat where "USB_REMOTE_WAKEUP_TIMEOUT_DETECT_TIMES = 2000"

text \<open>The first \<open>if\<close> is not followed by an \<open>else\<close>.\<close>

definition usb_remote_wakeup_detect :: "usb \<Rightarrow> usb" where
  "usb_remote_wakeup_detect s =
    (let s = (if usb_remote_wakeup_cnt s = 0 then s\<lparr>usb_remote_wakeup_flag := USB_SUSPEND\<rparr> else s)
     in if usb_remote_wakeup_cnt s > USB_REMOTE_WAKEUP_TIMEOUT_DETECT_TIMES - 200
        then s\<lparr>usb_remote_wakeup_flag := USB_READY\<rparr> else s\<lparr>usb_remote_wakeup_flag := USB_RESUME_WAIT\<rparr>)"

definition usb_remote_wakeup :: "nat \<Rightarrow> bool \<Rightarrow> usb \<Rightarrow> usb" where
  "usb_remote_wakeup port bRemoteWakup s =
    (let s = (if bRemoteWakup then ucall (Timeout_resume port) s else s);
         s = s\<lparr>usb_remote_wakeup_flag := USB_RESUME_WAIT, usb_remote_wakeup_cnt := 0\<rparr>
     in ucalls [Sof_isr_reg port, Timeout_detect port] s)"

text \<open>Without \<open>USB_SUSPEND_RESUME\<close> the interrupt of a start of frame only counts for the log.\<close>

definition usb_sof_isr :: "nat \<Rightarrow> usb \<Rightarrow> usb" where
  "usb_sof_isr port s = s"

definition usb_get_suspend_resume_status :: "usb \<Rightarrow> wakeup" where
  "usb_get_suspend_resume_status s = usb_remote_wakeup_flag s"

section \<open>The custom interface\<close>

definition custom_hid_register :: "usb_layout \<Rightarrow> usb \<Rightarrow> usb option" where
  "custom_hid_register A s =
    (if custom_hid_info s \<noteq> None then Some s
     else
       let s = s\<lparr>custom_hid_info := Some \<lparr>cfg_done = False, priv_hdl = 0, hid_rx_hook = False\<rparr>\<rparr>
       in case usb_alloc_ep_dmabuffer A (or CUSTOM_HID_EP_IN USB_DIR_IN) MAXP_SIZE_CUSTOM_HIDIN s of
            None \<Rightarrow> None
          | Some (s, p) \<Rightarrow>
              (case usb_alloc_ep_dmabuffer A CUSTOM_HID_EP_OUT MAXP_SIZE_CUSTOM_HIDOUT (s\<lparr>custom_hid_ep_in_dma := p\<rparr>) of
                 None \<Rightarrow> None
               | Some (s, q) \<Rightarrow> Some (s\<lparr>custom_hid_ep_out_dma := q\<rparr>)))"

definition custom_hid_release :: "usb \<Rightarrow> usb" where
  "custom_hid_release s = s\<lparr>custom_hid_info := None\<rparr>"

definition custom_hid_get_ready :: "usb \<Rightarrow> nat" where
  "custom_hid_get_ready s = (case custom_hid_info s of Some h \<Rightarrow> (if cfg_done h then 1 else 0) | None \<Rightarrow> 0)"

definition custom_hid_set_rx_hook :: "nat \<Rightarrow> bool \<Rightarrow> usb \<Rightarrow> usb" where
  "custom_hid_set_rx_hook priv hook s =
    s\<lparr>custom_hid_info := map_option (\<lambda>h. h\<lparr>priv_hdl := priv, hid_rx_hook := hook\<rparr>) (custom_hid_info s)\<rparr>"

text \<open>The number of bytes the driver took is the parameter \<open>written\<close>.\<close>

definition custom_hid_tx_data :: "nat \<Rightarrow> byte list \<Rightarrow> nat \<Rightarrow> nat \<Rightarrow> usb \<Rightarrow> usb \<times> nat" where
  "custom_hid_tx_data port buffer len written s =
    (let len = (if len > MAXP_SIZE_CUSTOM_HIDIN then MAXP_SIZE_CUSTOM_HIDIN else len)
     in if custom_hid_get_ready s = 0 then (s, 0)
        else (ucall (Intr_write port CUSTOM_HID_EP_IN (take len buffer)) s, written))"

text \<open>The bytes the driver delivers, at most the 64 asked for.\<close>

definition custom_hid_rx_data :: "nat \<Rightarrow> byte list \<Rightarrow> usb \<Rightarrow> usb" where
  "custom_hid_rx_data port packet s =
    (case custom_hid_info s of
       Some h \<Rightarrow> if hid_rx_hook h then ucall (Rx_hook (priv_hdl h) (take 64 packet)) s else s
     | None \<Rightarrow> s)"

definition custom_hid_endpoint_init :: "nat \<Rightarrow> usb \<Rightarrow> usb option" where
  "custom_hid_endpoint_init port s =
    (let s = ucall (Ep_config port (or CUSTOM_HID_EP_IN USB_DIR_IN) (custom_hid_ep_in_dma s) MAXP_SIZE_CUSTOM_HIDIN) s
     in case usb_g_set_intr_hander port CUSTOM_HID_EP_OUT Custom_hid_rx s of
          None \<Rightarrow> None
        | Some s \<Rightarrow> Some (ucalls [Ep_config port CUSTOM_HID_EP_OUT (custom_hid_ep_out_dma s) MAXP_SIZE_CUSTOM_HIDOUT,
            Enable_ep port CUSTOM_HID_EP_OUT] s))"

definition custom_hid_reset :: "nat \<Rightarrow> usb \<Rightarrow> usb option" where
  "custom_hid_reset port s = custom_hid_endpoint_init port s"

text \<open>The request that sets the idle rate marks the interface as ready.\<close>

definition custom_hid_request :: "dev_state \<Rightarrow> request \<Rightarrow> usb \<Rightarrow> (usb \<times> ep0 list) option" where
  "custom_hid_request st req s =
    (case custom_hid_itf_hander st req of
       (as, ready) \<Rightarrow>
         if ready then case custom_hid_info s of
             None \<Rightarrow> None
           | Some h \<Rightarrow> Some (s\<lparr>custom_hid_info := Some (h\<lparr>cfg_done := True\<rparr>)\<rparr>, as)
         else Some (s, as))"

section \<open>The mouse\<close>

definition hid_register :: "usb_layout \<Rightarrow> usb \<Rightarrow> usb option" where
  "hid_register A s =
    (case usb_alloc_ep_dmabuffer A (or HID_EP_IN USB_DIR_IN) MAXP_SIZE_HIDIN s of
       None \<Rightarrow> None | Some (s, p) \<Rightarrow> Some (s\<lparr>hid_ep_in_dma := p\<rparr>))"

definition hid_endpoint_init :: "nat \<Rightarrow> usb \<Rightarrow> usb" where
  "hid_endpoint_init port s =
    ucalls [Ep_config port (or HID_EP_IN USB_DIR_IN) (hid_ep_in_dma s) MAXP_SIZE_HIDIN, Enable_ep port HID_EP_IN] s"

definition hid_reset :: "nat \<Rightarrow> usb \<Rightarrow> usb" where
  "hid_reset port s = hid_endpoint_init port s"

definition hid_tx_data :: "nat \<Rightarrow> byte list \<Rightarrow> usb \<Rightarrow> usb" where
  "hid_tx_data port buffer s = ucall (Intr_write port HID_EP_IN buffer) s"

definition hid_key_handler :: "nat \<Rightarrow> bool \<Rightarrow> nat \<Rightarrow> usb \<Rightarrow> usb" where
  "hid_key_handler port busy hid_key s =
    (if busy then s else hid_tx_data port (le16 0) (hid_tx_data port (le16 (u16 hid_key)) s))"

definition hid_key_handler_send_one_packet :: "nat \<Rightarrow> nat \<Rightarrow> usb \<Rightarrow> usb" where
  "hid_key_handler_send_one_packet port hid_key s = hid_tx_data port (le16 (u16 hid_key)) s"

section \<open>Switching the device on and off\<close>

definition usb_config :: "nat \<Rightarrow> usb \<Rightarrow> usb" where
  "usb_config port s =
    ucall (Config_var port True)
      (s\<lparr>usb_interrupt_rx := (usb_interrupt_rx s)(port := Map.empty), usb_interrupt_tx := (usb_interrupt_tx s)(port := Map.empty)\<rparr>)"

definition usb_release :: "nat \<Rightarrow> usb \<Rightarrow> usb" where
  "usb_release port s = ucall (Config_var port False) s"

definition usb_device_init :: "usb_layout \<Rightarrow> nat \<Rightarrow> usb \<Rightarrow> usb option" where
  "usb_device_init A port s =
    (let s = ucalls [Sie_init port, Write_power port 0x60, Slave_init port] (usb_config port s)
     in case usb_alloc_ep_dmabuffer A 0 64 s of
          None \<Rightarrow> None
        | Some (s, p) \<Rightarrow> Some (ucalls (map (\<lambda>ep. Dma_raddr port ep p) [0, 1, 2, 3, 4] @ [Isr_reg port]) s))"

definition usb_device_hold :: "nat \<Rightarrow> usb \<Rightarrow> usb" where
  "usb_device_hold port s = usb_release port (ucall (Sie_hold port) s)"

definition HID_CLASS :: nat where "HID_CLASS = 8"
definition CUSTOM_HID_CLASS :: nat where "CUSTOM_HID_CLASS = 0x20"

definition usb_device_mode :: "usb_layout \<Rightarrow> nat \<Rightarrow> nat \<Rightarrow> usb \<Rightarrow> usb option" where
  "usb_device_mode A port cls s =
    (if cls = 0 then Some (usb_device_hold port (ucall (Pins_release port) s))
     else
       let s = ucall (Add_desc port 6 None) (usb_memory_init A s);
           custom = (and cls CUSTOM_HID_CLASS = CUSTOM_HID_CLASS)
       in case (if custom then map_option (ucall (Add_desc port 0 (Some Custom_hid))) (custom_hid_register A s) else Some s) of
            None \<Rightarrow> None
          | Some s \<Rightarrow>
              (case (if and cls HID_CLASS = HID_CLASS
                     then hid_register A (ucall (Add_desc port (if custom then 1 else 0) (Some Mouse)) s) else Some s) of
                 None \<Rightarrow> None
               | Some s \<Rightarrow> map_option (ucall (Setup_filter port)) (usb_device_init A port s)))"

text \<open>\<open>usb_ep_conflict_check\<close> on its two lists of endpoints, which are not empty; it is not called.\<close>

fun conflict :: "nat list \<Rightarrow> bool" where
  "conflict [] = False"
| "conflict (x # xs) = (x \<in> set xs \<or> conflict xs)"

definition usb_ep_conflict_check :: "nat list \<Rightarrow> nat list \<Rightarrow> int" where
  "usb_ep_conflict_check tx rx = (if conflict tx \<or> conflict rx then -1 else 0)"

section \<open>Test traffic\<close>

text \<open>\<open>timer_send\<close>: the buffer of 64 bytes and the running count.\<close>

definition timer_send :: "nat \<Rightarrow> byte list \<times> nat \<times> usb \<Rightarrow> (byte list \<times> nat \<times> usb) option" where
  "timer_send written t =
    (case t of (test_buf, cntt, s) \<Rightarrow>
       if cntt > length test_buf then None
       else
         let test_buf = replicate cntt cntt @ drop cntt test_buf;
             s = fst (custom_hid_tx_data 0 test_buf cntt written s);
             cntt = u8 (cntt + 1)
         in Some (test_buf, if cntt > 64 then 0 else cntt, s))"

definition usb_start_1 :: "usb_layout \<Rightarrow> usb \<Rightarrow> usb option" where
  "usb_start_1 A s = usb_device_mode A 0 CUSTOM_HID_CLASS s"

end
