(* ===== verification/UsbDev_Spec.thy ===== *)
theory UsbDev_Spec
  imports UsbDev
begin

text \<open>
  Switching the USB device on never runs out of DMA memory and gives the endpoints separate buffers -
  the first time; what happens when it is switched on again; interrupts, wakeup and test traffic.
\<close>

section \<open>Buffers\<close>

definition layout_ok :: "usb_layout \<Rightarrow> bool" where
  "layout_ok A \<longleftrightarrow> 0 < usb_dma_buf A \<and> usb_dma_buf A mod 8 = 0 \<and> usb_dma_buf A + USB_DMA_BUF_MAX_SIZE < 2 ^ 32 \<and>
    0 < ep0_dma_buffer A \<and> ep0_dma_buffer A + 64 < 2 ^ 32 \<and>
    apart (usb_dma_buf A, USB_DMA_BUF_MAX_SIZE) (ep0_dma_buffer A, 64)"

lemmas usb_defs = usb_memory_init_def usb_alloc_ep_dmabuffer_def custom_hid_register_def hid_register_def usb_device_init_def usb_config_def
  ucall_def ucalls_def CUSTOM_HID_EP_IN_def CUSTOM_HID_EP_OUT_def HID_EP_IN_def USB_DIR_IN_def MAXP_SIZE_CUSTOM_HIDIN_def
  MAXP_SIZE_CUSTOM_HIDOUT_def MAXP_SIZE_HIDIN_def CUSTOM_HID_CLASS_def HID_CLASS_def

text \<open>The pool and its first three allocations.\<close>

lemma pool_fresh:
  assumes "layout_ok A"
  shows "lb_free (lbuf_init (usb_dma_buf A) USB_DMA_BUF_MAX_SIZE) = [(usb_dma_buf A + 16, 304)]"
proof -
  have "m mod 8 = 0 \<Longrightarrow> m mod 4 = 0" for m :: nat by presburger
  then have "usb_dma_buf A mod 4 = 0" using assms by (simp add: layout_ok_def)
  then show ?thesis using assms by (simp add: lbuf_init_def layout_ok_def USB_DMA_BUF_MAX_SIZE_def USB_DMA_BUF_ALIGN_def sz Let_def)
qed

lemma alloc_first:
  assumes "lb_free l = [(p, n)]" "p + n < 2 ^ 32" "k mod 4 = 0" "k + 32 < n"
  shows "snd (lbuf_alloc l k) = p + 20" "lb_free (fst (lbuf_alloc l k)) = [(p + (k + 20), n - (k + 20))]"
proof -
  have "(k + 20) mod 4 = 0" using assms(3) by presburger
  then have "alloc_size k = k + 20" using assms(2-4) align4_fix [of "k + 20"] by (simp add: alloc_size_def sz)
  then show "snd (lbuf_alloc l k) = p + 20" "lb_free (fst (lbuf_alloc l k)) = [(p + (k + 20), n - (k + 20))]"
    using assms by (simp_all add: lbuf_alloc_def sz)
qed

lemma alloc_ep:
  assumes "lb_free (usb_dma_lbuf s) = [(p, n)]" "p + n < 2 ^ 32" "k mod 4 = 0" "k + 32 < n" "and ep 0xf \<noteq> 0"
    "q = p + 20" "p' = p + (k + 20)" "n' = n - (k + 20)"
  shows "\<exists>l. usb_alloc_ep_dmabuffer A ep k s = Some (s\<lparr>usb_dma_lbuf := l\<rparr>, q) \<and> lb_free l = [(p', n')]"
proof -
  obtain l r where l: "lbuf_alloc (usb_dma_lbuf s) k = (l, r)" by force
  with alloc_first [OF assms(1-4)] have "r = q" "lb_free l = [(p', n')]" by (simp_all add: assms(6-8))
  then show ?thesis using l assms(5,6) by (intro exI [of _ l]) (simp add: usb_alloc_ep_dmabuffer_def)
qed

lemma custom_register:
  assumes "custom_hid_info s = None" "lb_free (usb_dma_lbuf s) = [(p, n)]" "p + n < 2 ^ 32" "300 < n"
    "q = p + 20" "q' = p + 104" "p' = p + 168" "n' = n - 168"
  shows "\<exists>l. custom_hid_register A s = Some (s\<lparr>custom_hid_info := Some \<lparr>cfg_done = False, priv_hdl = 0, hid_rx_hook = False\<rparr>,
      usb_dma_lbuf := l, custom_hid_ep_in_dma := q, custom_hid_ep_out_dma := q'\<rparr>) \<and> lb_free l = [(p', n')]"
proof -
  let ?s = "s\<lparr>custom_hid_info := Some \<lparr>cfg_done = False, priv_hdl = 0, hid_rx_hook = False\<rparr>\<rparr>"
  obtain l where l: "usb_alloc_ep_dmabuffer A (or CUSTOM_HID_EP_IN USB_DIR_IN) 64 ?s = Some (?s\<lparr>usb_dma_lbuf := l\<rparr>, q)"
    "lb_free l = [(p + 84, n - 84)]"
    using alloc_ep [of ?s p n 64 "or CUSTOM_HID_EP_IN USB_DIR_IN" q "p + 84" "n - 84" A] assms(2-5)
    by (auto simp: CUSTOM_HID_EP_IN_def USB_DIR_IN_def)
  let ?t = "?s\<lparr>usb_dma_lbuf := l, custom_hid_ep_in_dma := q\<rparr>"
  have "\<exists>k. usb_alloc_ep_dmabuffer A CUSTOM_HID_EP_OUT 64 ?t = Some (?t\<lparr>usb_dma_lbuf := k\<rparr>, q') \<and> lb_free k = [(p', n')]"
    by (rule alloc_ep [of ?t "p + 84" "n - 84"]) (use l(2) assms(3-8) in \<open>simp_all add: CUSTOM_HID_EP_OUT_def\<close>)
  then obtain k where k: "usb_alloc_ep_dmabuffer A CUSTOM_HID_EP_OUT 64 ?t = Some (?t\<lparr>usb_dma_lbuf := k\<rparr>, q')" "lb_free k = [(p', n')]"
    by blast
  show ?thesis using assms(1) l k
    by (intro exI [of _ k]) (simp add: custom_hid_register_def MAXP_SIZE_CUSTOM_HIDIN_def MAXP_SIZE_CUSTOM_HIDOUT_def)
qed

lemma mouse_register:
  assumes "lb_free (usb_dma_lbuf s) = [(p, n)]" "p + n < 2 ^ 32" "100 < n" "q = p + 20"
  shows "\<exists>l. hid_register A s = Some (s\<lparr>usb_dma_lbuf := l, hid_ep_in_dma := q\<rparr>)"
  using alloc_ep [of s p n 16 "or HID_EP_IN USB_DIR_IN" q "p + 36" "n - 36" A] assms
  by (auto simp: hid_register_def MAXP_SIZE_HIDIN_def HID_EP_IN_def USB_DIR_IN_def)

lemma init_keeps:
  assumes "ep0_dma_buffer A \<noteq> 0"
  shows "\<exists>s'. usb_device_init A port s = Some s' \<and> hid_ep_in_dma s' = hid_ep_in_dma s \<and> custom_hid_info s' = custom_hid_info s \<and>
    custom_hid_ep_in_dma s' = custom_hid_ep_in_dma s \<and> custom_hid_ep_out_dma s' = custom_hid_ep_out_dma s"
  using assms by (simp add: usb_device_init_def usb_config_def usb_alloc_ep_dmabuffer_def ucall_def ucalls_def Let_def)

text \<open>Switching on both interfaces: all allocations succeed, at these addresses.\<close>

lemma switch_on:
  assumes A: "layout_ok A" and c: "custom_hid_info s = None"
  shows "\<exists>s'. usb_device_mode A port (CUSTOM_HID_CLASS + HID_CLASS) s = Some s' \<and> custom_hid_ep_in_dma s' = usb_dma_buf A + 36 \<and>
    custom_hid_ep_out_dma s' = usb_dma_buf A + 120 \<and> hid_ep_in_dma s' = usb_dma_buf A + 204 \<and> custom_hid_info s' \<noteq> None"
proof -
  let ?s = "ucall (Add_desc port 6 None) (usb_memory_init A s)"
  have b: "usb_dma_buf A + 332 < 2 ^ 32" "ep0_dma_buffer A \<noteq> 0"
    using A by (simp_all add: layout_ok_def USB_DMA_BUF_MAX_SIZE_def USB_DMA_BUF_ALIGN_def)
  have s: "custom_hid_info ?s = None" "lb_free (usb_dma_lbuf ?s) = [(usb_dma_buf A + 16, 304)]"
    using c pool_fresh [OF A] by (simp_all add: ucall_def usb_memory_init_def)
  have "\<exists>l. custom_hid_register A ?s = Some (?s\<lparr>custom_hid_info := Some \<lparr>cfg_done = False, priv_hdl = 0, hid_rx_hook = False\<rparr>,
      usb_dma_lbuf := l, custom_hid_ep_in_dma := usb_dma_buf A + 36, custom_hid_ep_out_dma := usb_dma_buf A + 120\<rparr>) \<and>
    lb_free l = [(usb_dma_buf A + 184, 136)]"
    by (rule custom_register [OF s]) (use b(1) in simp_all)
  then obtain l where l: "custom_hid_register A ?s = Some (?s\<lparr>custom_hid_info := Some \<lparr>cfg_done = False, priv_hdl = 0, hid_rx_hook = False\<rparr>,
      usb_dma_lbuf := l, custom_hid_ep_in_dma := usb_dma_buf A + 36, custom_hid_ep_out_dma := usb_dma_buf A + 120\<rparr>)"
    "lb_free l = [(usb_dma_buf A + 184, 136)]"
    by blast
  let ?t = "?s\<lparr>custom_hid_info := Some \<lparr>cfg_done = False, priv_hdl = 0, hid_rx_hook = False\<rparr>,
      usb_dma_lbuf := l, custom_hid_ep_in_dma := usb_dma_buf A + 36, custom_hid_ep_out_dma := usb_dma_buf A + 120\<rparr>"
  let ?u = "ucall (Add_desc port 1 (Some Mouse)) (ucall (Add_desc port 0 (Some Custom_hid)) ?t)"
  obtain k where k: "hid_register A ?u = Some (?u\<lparr>usb_dma_lbuf := k, hid_ep_in_dma := usb_dma_buf A + 204\<rparr>)"
    using mouse_register [of ?u "usb_dma_buf A + 184" 136 "usb_dma_buf A + 204" A] l(2) b(1) by (auto simp: ucall_def)
  obtain v where v: "usb_device_init A port (?u\<lparr>usb_dma_lbuf := k, hid_ep_in_dma := usb_dma_buf A + 204\<rparr>) = Some v"
    "hid_ep_in_dma v = usb_dma_buf A + 204" "custom_hid_info v \<noteq> None" "custom_hid_ep_in_dma v = usb_dma_buf A + 36"
    "custom_hid_ep_out_dma v = usb_dma_buf A + 120"
    using init_keeps [OF b(2), of port "?u\<lparr>usb_dma_lbuf := k, hid_ep_in_dma := usb_dma_buf A + 204\<rparr>"] by (auto simp: ucall_def)
  have "usb_device_mode A port (CUSTOM_HID_CLASS + HID_CLASS) s = Some (ucall (Setup_filter port) v)"
    using l(1) k v(1) by (simp add: usb_device_mode_def CUSTOM_HID_CLASS_def HID_CLASS_def)
  then show ?thesis using v by (simp add: ucall_def)
qed

text \<open>The buffers of the three endpoints and of endpoint 0 lie apart, each in its own memory.\<close>

lemma buffers_apart:
  assumes A: "layout_ok A" and c: "custom_hid_info s = None"
  shows "\<exists>s'. usb_device_mode A port (CUSTOM_HID_CLASS + HID_CLASS) s = Some s' \<and>
    pairwise apart {(custom_hid_ep_in_dma s', MAXP_SIZE_CUSTOM_HIDIN), (custom_hid_ep_out_dma s', MAXP_SIZE_CUSTOM_HIDOUT),
      (hid_ep_in_dma s', MAXP_SIZE_HIDIN), (ep0_dma_buffer A, EP0_SETUP_LEN)}"
proof -
  obtain s' where s: "usb_device_mode A port (CUSTOM_HID_CLASS + HID_CLASS) s = Some s'" "custom_hid_ep_in_dma s' = usb_dma_buf A + 36"
    "custom_hid_ep_out_dma s' = usb_dma_buf A + 120" "hid_ep_in_dma s' = usb_dma_buf A + 204" using switch_on [OF A c] by blast
  show ?thesis using A
    by (intro exI [of _ s'] conjI s(1)) (auto simp: s(2-4) pairwise_def apart_def layout_ok_def USB_DMA_BUF_MAX_SIZE_def
        USB_DMA_BUF_ALIGN_def MAXP_SIZE_CUSTOM_HIDIN_def MAXP_SIZE_CUSTOM_HIDOUT_def MAXP_SIZE_HIDIN_def EP0_SETUP_LEN_def)
qed

text \<open>The pool was asked for blocks aligned to eight, but the allocator aligns to four: two of the three
  buffers are not aligned to eight.\<close>

lemma buffers_not_aligned:
  "layout_ok A \<Longrightarrow> (usb_dma_buf A + 36) mod 8 = 4 \<and> (usb_dma_buf A + 120) mod 8 = 0 \<and> (usb_dma_buf A + 204) mod 8 = 4"
proof -
  have "m mod 8 = 0 \<Longrightarrow> (m + 36) mod 8 = 4 \<and> (m + 120) mod 8 = 0 \<and> (m + 204) mod 8 = 4" for m :: nat by presburger
  then show "layout_ok A \<Longrightarrow> ?thesis" by (simp add: layout_ok_def)
qed

text \<open>Switched off and on again, the device overlaps its buffers: the pool is set up anew, but the custom
  interface was not released, keeps its old buffers, and the mouse gets the memory of one of them.\<close>

lemma switch_off:
  "\<exists>s'. usb_device_mode A port 0 s = Some s' \<and> custom_hid_info s' = custom_hid_info s \<and> custom_hid_ep_in_dma s' = custom_hid_ep_in_dma s"
  by (simp add: usb_device_mode_def usb_device_hold_def usb_release_def ucall_def)

lemma switch_on_again:
  assumes A: "layout_ok A" and c: "custom_hid_info s \<noteq> None"
  shows "\<exists>s'. usb_device_mode A port (CUSTOM_HID_CLASS + HID_CLASS) s = Some s' \<and> custom_hid_ep_in_dma s' = custom_hid_ep_in_dma s \<and>
    hid_ep_in_dma s' = usb_dma_buf A + 36"
proof -
  let ?u = "ucall (Add_desc port 1 (Some Mouse)) (ucall (Add_desc port 0 (Some Custom_hid)) (ucall (Add_desc port 6 None) (usb_memory_init A s)))"
  have b: "usb_dma_buf A + 332 < 2 ^ 32" "ep0_dma_buffer A \<noteq> 0"
    using A by (simp_all add: layout_ok_def USB_DMA_BUF_MAX_SIZE_def USB_DMA_BUF_ALIGN_def)
  have f: "lb_free (usb_dma_lbuf ?u) = [(usb_dma_buf A + 16, 304)]" using pool_fresh [OF A] by (simp add: ucall_def usb_memory_init_def)
  obtain k where k: "hid_register A ?u = Some (?u\<lparr>usb_dma_lbuf := k, hid_ep_in_dma := usb_dma_buf A + 36\<rparr>)"
    using mouse_register [OF f, of "usb_dma_buf A + 36" A] b(1) by auto
  obtain v where v: "usb_device_init A port (?u\<lparr>usb_dma_lbuf := k, hid_ep_in_dma := usb_dma_buf A + 36\<rparr>) = Some v"
    "hid_ep_in_dma v = usb_dma_buf A + 36" "custom_hid_ep_in_dma v = custom_hid_ep_in_dma s"
    using init_keeps [OF b(2), of port "?u\<lparr>usb_dma_lbuf := k, hid_ep_in_dma := usb_dma_buf A + 36\<rparr>"] by (auto simp: ucall_def usb_memory_init_def)
  have "usb_device_mode A port (CUSTOM_HID_CLASS + HID_CLASS) s = Some (ucall (Setup_filter port) v)"
    using k v(1) c by (simp add: usb_device_mode_def CUSTOM_HID_CLASS_def HID_CLASS_def custom_hid_register_def ucall_def usb_memory_init_def)
  then show ?thesis using v by (simp add: ucall_def)
qed

lemma replug_overlaps:
  assumes "layout_ok A" "custom_hid_info s = None"
    "usb_device_mode A port (CUSTOM_HID_CLASS + HID_CLASS) s = Some s1" "usb_device_mode A port 0 s1 = Some s2"
    "usb_device_mode A port (CUSTOM_HID_CLASS + HID_CLASS) s2 = Some s3"
  shows "hid_ep_in_dma s3 = custom_hid_ep_in_dma s3"
  using switch_on [OF assms(1,2), of port] switch_off [of A port s1] switch_on_again [OF assms(1), of s2 port] assms(3-5) by auto

section \<open>Interrupts and wakeup\<close>

text \<open>Every handler of a set and enabled bit is called once, in order of the endpoints, and no other.\<close>

lemma called_map:
  "called port intr t = map (\<lambda>i. Call_handler port (the (t i)) i) (filter (\<lambda>i. bit intr i \<and> t i \<noteq> None) [1..<MAX_EP])"
proof -
  have "concat (map (\<lambda>i. if bit intr i then case t i of None \<Rightarrow> [] | Some h \<Rightarrow> [Call_handler port h i] else []) is) =
      map (\<lambda>i. Call_handler port (the (t i)) i) (filter (\<lambda>i. bit intr i \<and> t i \<noteq> None) is)" for "is"
    by (induction "is") (auto split: option.splits)
  then show ?thesis unfolding called_def .
qed

lemma called_handlers:
  "Call_handler port h i \<in> set (called port intr t) \<longleftrightarrow> 1 \<le> i \<and> i < 5 \<and> bit intr i \<and> t i = Some h"
  "distinct (called port intr t)"
  by (auto simp: called_map MAX_EP_def distinct_map inj_on_def image_iff simp del: upt_Suc upt_rec_numeral)

text \<open>A failed wakeup is never reported as a suspended bus: the state is overwritten; and as starts of frame are
  not counted in this build, the bus is not reported ready either.\<close>

lemma wakeup_never_suspended: "usb_get_suspend_resume_status (usb_remote_wakeup_detect s) \<noteq> USB_SUSPEND"
  by (simp add: usb_get_suspend_resume_status_def usb_remote_wakeup_detect_def Let_def)

lemma wakeup_never_ready:
  "usb_get_suspend_resume_status (usb_remote_wakeup_detect ((usb_sof_isr port ^^ n) (usb_remote_wakeup port b s))) = USB_RESUME_WAIT"
proof -
  have "(usb_sof_isr port ^^ n) x = x" for x by (induction n) (simp_all add: usb_sof_isr_def)
  then show ?thesis
    by (simp add: usb_get_suspend_resume_status_def usb_remote_wakeup_detect_def usb_remote_wakeup_def ucall_def ucalls_def Let_def)
qed

section \<open>Data\<close>

text \<open>Nothing is sent before the host has set the idle rate, and never more than a packet.\<close>

lemma tx_only_when_ready:
  "custom_hid_tx_data port buf n w s = (s', r) \<Longrightarrow> s' \<noteq> s \<Longrightarrow>
    custom_hid_get_ready s = 1 \<and> ulog s' = ulog s @ [Intr_write port 4 (take (min n 64) buf)]"
  by (auto simp: custom_hid_tx_data_def custom_hid_get_ready_def MAXP_SIZE_CUSTOM_HIDIN_def CUSTOM_HID_EP_IN_def ucall_def min_def Let_def
      split: option.splits if_splits)

lemma idle_makes_ready:
  assumes "custom_hid_info s = Some h"
  shows "\<exists>s'. custom_hid_request st \<lparr>bRequestType = 0x21, bRequest = 0x0A, wValue = v, wIndex = i, wLength = 0\<rparr> s = Some (s', [Stage_setup]) \<and>
    custom_hid_get_ready s' = 1"
  using assms by (simp add: custom_hid_request_def custom_hid_itf_hander_def custom_hid_get_ready_def)

text \<open>The test traffic stays in its buffer, however long it runs.\<close>

lemma timer_send_fits:
  assumes "length buf = 64" "cnt \<le> 64"
  shows "\<exists>buf' cnt' s'. timer_send w (buf, cnt, s) = Some (buf', cnt', s') \<and> length buf' = 64 \<and> cnt' \<le> 64"
  using assms by (auto simp: timer_send_def Let_def)

lemma conflict_iff: "usb_ep_conflict_check tx rx = 0 \<longleftrightarrow> distinct tx \<and> distinct rx"
proof -
  have "conflict xs \<longleftrightarrow> \<not> distinct xs" for xs by (induction xs) auto
  then show ?thesis by (simp add: usb_ep_conflict_check_def)
qed

end
