(* ===== verification/HwClock.thy ===== *)
theory HwClock
  imports OTA_Prelude "HOL-Library.Word" "HOL-Library.Signed_Division"
begin

unbundle bit_operations_syntax

text \<open>
  Clocks, time and the serial console of the chip: \<open>demo_wifi/clock.c\<close>, the clock functions of
  \<open>demo_wifi/app_main.c\<close>, \<open>common/common.c\<close>, \<open>cpu/wl82/uart.c\<close> and \<open>cpu/wl82/reset.c\<close>.

  Registers are the fields of a record of 32-bit words.  A loop that waits for a bit of a register
  takes its readings from a list; if the list ends before the bit is seen the wait does not return
  (\<open>None\<close>).  Not compiled and left out: the lines under \<open>CONFIG_FPGA_ENABLE\<close> and \<open>UART_PUT_TIME\<close>,
  the text behind the first \<open>return\<close> of \<open>uart_init\<close> and \<open>uart_close_all\<close>.
\<close>

type_synonym word32 = "32 word"

section \<open>Registers\<close>

definition BIT :: "nat \<Rightarrow> word32" where "BIT n = push_bit n 1"

definition bits_at :: "word32 \<Rightarrow> nat \<Rightarrow> word32 \<Rightarrow> word32" where
  "bits_at r start m = drop_bit start r AND m"

definition SFR :: "word32 \<Rightarrow> nat \<Rightarrow> nat \<Rightarrow> word32 \<Rightarrow> word32" where
  "SFR sfr start len dat =
     (sfr AND NOT (push_bit start (NOT (push_bit len 0xffffffff)))) OR
     push_bit start (dat AND NOT (push_bit len 0xffffffff))"

record clk_regs =
  CLK_CON0 :: word32
  CLK_CON1 :: word32
  CLK_CON2 :: word32
  SYS_DIV :: word32
  PLL_CON0 :: word32
  PLL_CON1 :: word32
  PLL2_CON0 :: word32
  PLL2_CON1 :: word32
  HUSB_COM_CON0 :: word32
  HUSB_COM_CON2 :: word32
  SFC_BAUD :: word32
  SDR_CON0 :: word32
  P33_SPI_CON :: word32
  TTMR_CNT :: word32
  TTMR_PRD :: word32
  PORTC_DIR :: word32
  PORTC_OUT :: word32
  PORTC_HD :: word32

section \<open>The clock module\<close>

record cpu_clock =
  lsb_clk_div :: "8 word"
  hsb_clk_div :: "8 word"
  sfc_baud :: "8 word"
  sys_clk :: word32
  uart_clk :: word32
  lsb_clk :: word32
  hsb_clk :: word32
  sys_div_con :: word32
  sdram_clk :: word32
  sys_clk_init :: word32
  sdram_clk_init :: word32

definition EINVAL :: int where "EINVAL = 22"

definition clk_get :: "clk_regs \<Rightarrow> cpu_clock \<Rightarrow> string \<Rightarrow> int" where
  "clk_get r c name =
     (if name = ''sys'' then sint (sys_clk c)
      else if name = ''sdram'' then sint (sdram_clk c)
      else if name = ''uart'' then sint (uart_clk c)
      else if name = ''sd'' \<or> name = ''timer'' then sint (lsb_clk c)
      else if name = ''spi'' then sint (lsb_clk c)
      else if name = ''hsb'' then sint (hsb_clk c)
      else if name = ''lsb'' then sint (lsb_clk c)
      else if name = ''osc'' then (if bits_at (PLL_CON0 r) 26 3 = 2 then 40000000 else 24000000)
      else - EINVAL)"

definition clk_div1 :: "word32 list" where "clk_div1 = [1, 3, 5, 7]"
definition clk_div2 :: "word32 list" where "clk_div2 = [1, 2, 4, 8]"

text \<open>The frequency of the second and the number of the third PLL, as the registers give them.\<close>

definition pll2_clk :: "clk_regs \<Rightarrow> word32" where
  "pll2_clk r =
     (let freq_m = (if bits_at (PLL_CON0 r) 26 3 = 2 then 40 else 24) * 1000000;
          refds = bits_at (PLL2_CON0 r) 2 0x1F + 2;
          pll2_in_clk = freq_m div refds;
          ds0 = (PLL2_CON1 r AND 0xFFF) + 2
      in pll2_in_clk * ds0)"

definition usb_pll3_clk :: "clk_regs \<Rightarrow> word32" where
  "usb_pll3_clk r = bits_at (HUSB_COM_CON0 r) 18 0x3FF + 2"

text \<open>The two switches over \<open>pll_div\<close>; \<open>old\<close> is the value \<open>sys_clk\<close> had.\<close>

definition select_sys_clk :: "clk_regs \<Rightarrow> word32 \<Rightarrow> word32" where
  "select_sys_clk r old =
     (let div1 = clk_div1 ! unat (bits_at (CLK_CON2 r) 4 3);
          div2 = clk_div2 ! unat (bits_at (CLK_CON2 r) 6 3);
          pll_div = CLK_CON2 r AND 0xF
      in if pll_div \<le> 4 then
           (if pll_div = 4 then 107000000
            else if pll_div = 3 then 480000000
            else if pll_div = 2 then 320000000
            else if pll_div = 1 then 137000000
            else 192000000) div div1 div div2
         else if pll_div \<in> {5, 6, 7} then
           (let d = (if pll_div = 5 then 2 * 2 else if pll_div = 6 then 3 else 1 * 2)
            in if d \<noteq> 0 then 2 * pll2_clk r div d else old)
         else if pll_div = 8 \<or> pll_div = 9 then
           (if pll_div = 8 then usb_pll3_clk r else usb_pll3_clk r div 2) * 1000000
         else 480000000)"

definition select_sdram_clk :: "clk_regs \<Rightarrow> word32" where
  "select_sdram_clk r =
     (if bits_at (HUSB_COM_CON2 r) 3 3 = 3
      then if SDR_CON0 r AND BIT 11 \<noteq> 0 then usb_pll3_clk r div 2 * 1000000 else 0
      else if SDR_CON0 r AND BIT 11 \<noteq> 0 then pll2_clk r div 2 else 0)"

text \<open>The registers it writes come back with the clocks and the three numbers it prints as MHz.\<close>

definition clk_early_init :: "clk_regs \<Rightarrow> cpu_clock \<Rightarrow> clk_regs \<times> cpu_clock \<times> word32 list" where
  "clk_early_init r c =
     (let sys = select_sys_clk r (sys_clk c);
          hdiv = bits_at (SYS_DIV r) 16 3 + 1;
          ldiv = bits_at (SYS_DIV r) 8 7 + 1;
          hsb = sys div hdiv;
          lsb = sys div hdiv div ldiv;
          sdram = select_sdram_clk r
      in (r\<lparr>TTMR_CNT := 0,
            CLK_CON1 := SFR (CLK_CON1 r) 10 2 1 AND NOT (BIT 16),
            PLL_CON1 := PLL_CON1 r AND NOT (BIT 27 OR BIT 28),
            P33_SPI_CON := P33_SPI_CON r OR push_bit 2 3,
            TTMR_PRD := sys div 100\<rparr>,
          c\<lparr>lsb_clk_div := ucast ldiv, hsb_clk_div := ucast hdiv, sfc_baud := ucast (SFC_BAUD r),
            sys_clk := sys, uart_clk := 48000000, lsb_clk := lsb, hsb_clk := hsb,
            sys_div_con := SYS_DIV r, sdram_clk := sdram, sys_clk_init := sys,
            sdram_clk_init := sdram\<rparr>,
          [sys div 1000000, hsb div 100000, lsb div 100000]))"

definition clk_out_pc0 :: "word32 \<Rightarrow> clk_regs \<Rightarrow> clk_regs" where
  "clk_out_pc0 index r =
     r\<lparr>PORTC_DIR := PORTC_DIR r AND NOT (BIT 0), PORTC_OUT := PORTC_OUT r AND NOT (BIT 0),
       PORTC_HD := PORTC_HD r OR BIT 0, CLK_CON0 := SFR (CLK_CON0 r) 10 3 index\<rparr>"

section \<open>Time\<close>

text \<open>A tick is ten milliseconds; all times are read from the tick counter \<open>jiffies\<close>.\<close>

definition jiffies_to_msecs :: "word32 \<Rightarrow> word32" where "jiffies_to_msecs j = j * 10"

definition OSGetTime :: "word32 \<Rightarrow> word32" where "OSGetTime j = jiffies_to_msecs j"
definition timer_get_ms :: "word32 \<Rightarrow> word32" where "timer_get_ms j = jiffies_to_msecs j"
definition timer_get_sec :: "word32 \<Rightarrow> word32" where "timer_get_sec j = jiffies_to_msecs j div 1000"

text \<open>
  The flags say whether the caller asks for the time and for the zone.  \<open>time_t\<close> is a type of the C
  library: the parameter converts an \<open>unsigned int\<close> to it.
\<close>

definition gettimeofday ::
  "(word32 \<Rightarrow> int) \<Rightarrow> word32 \<Rightarrow> bool \<Rightarrow> bool \<Rightarrow> int \<times> (int \<times> int) option \<times> (int \<times> int) option" where
  "gettimeofday to_time_t j tv tz =
     (let t = to_time_t (timer_get_ms j)
      in (0, if tv then Some (t sdiv 1000, t smod 1000 * 1000) else None, if tz then Some (0, 0) else None))"

definition time_lapse :: "word32 \<Rightarrow> word32 \<Rightarrow> word32 \<Rightarrow> word32 \<times> word32" where
  "time_lapse j handle time_out =
     (if handle = 0 then (0, timer_get_ms j)
      else let t = timer_get_ms j; t2 = t - handle
           in if t2 > time_out then (t2, t) else (0, handle))"

text \<open>The waiting loops \<open>while (us--) nop\<close>: the second component counts the instructions.\<close>

function spin :: "word32 \<Rightarrow> nat \<Rightarrow> nat" where
  "spin us nops = (if us = 0 then nops else spin (us - 1) (Suc nops))"
  by pat_completeness auto

termination spin
  by (relation "measure (\<lambda>(us, _). unat us)") (auto simp: measure_unat)

declare spin.simps [simp del]

definition delay :: "word32 \<Rightarrow> nat" where "delay t = spin t 0"

definition delay_us :: "word32 \<Rightarrow> clk_regs \<Rightarrow> cpu_clock \<Rightarrow> word32 \<Rightarrow> nat" where
  "delay_us sfc_con r c us =
     spin (us * word_of_int ((clk_get r c ''sys'' sdiv 1000000) sdiv
             (if sfc_con AND BIT 0 \<noteq> 0 then 8 else 4))) 0"

section \<open>The serial console\<close>

record uart =
  CON0 :: word32
  BAUD :: word32
  sent :: "char list"          \<comment> \<open>the characters written to \<open>BUF\<close>\<close>
  busy :: "nat list"           \<comment> \<open>readings of \<open>CON0\<close> before each character until bit 15 is set\<close>

definition clk_get_uart :: word32 where "clk_get_uart = 48000000"

definition uart_put :: "char \<Rightarrow> uart \<Rightarrow> uart option" where
  "uart_put a u =
     (case busy u of
        [] \<Rightarrow> None
      | n # rest \<Rightarrow> Some (u\<lparr>CON0 := CON0 u OR BIT 13, sent := sent u @ [a], busy := rest\<rparr>))"

definition CR :: char where "CR = CHR 0x0D"
definition LF :: char where "LF = CHR 0x0A"

definition putbyte :: "char \<Rightarrow> uart \<Rightarrow> uart option" where
  "putbyte a u =
     (if CON0 u AND BIT 0 = 0 then Some u
      else if a = CR then Some u
      else if a = LF then Option.bind (uart_put CR u) (uart_put a)
      else uart_put a u)"

fun putbytes :: "char list \<Rightarrow> uart \<Rightarrow> uart option" where
  "putbytes [] u = Some u"
| "putbytes (a # s) u = Option.bind (putbyte a u) (putbytes s)"

definition uart_set_baud :: "word32 \<Rightarrow> uart \<Rightarrow> uart" where
  "uart_set_baud baud u0 =
     (let u = u0\<lparr>CON0 := CON0 u0 AND NOT (BIT 0)\<rparr>;
          u' = (if clk_get_uart div baud mod 4 < clk_get_uart div baud mod 3
                then u\<lparr>CON0 := CON0 u AND NOT (BIT 4), BAUD := clk_get_uart div baud div 4 - 1\<rparr>
                else u\<lparr>CON0 := CON0 u OR BIT 4, BAUD := clk_get_uart div baud div 3 - 1\<rparr>)
      in u'\<lparr>CON0 := CON0 u' OR BIT 0\<rparr>)"

definition uart_init :: "string \<Rightarrow> string \<Rightarrow> word32 \<Rightarrow> uart \<Rightarrow> uart" where
  "uart_init tx_pin rx_pin baud u = u"

definition uart_close_all :: "uart \<Rightarrow> uart" where "uart_close_all u = u"

section \<open>Reset pin and reset source\<close>

text \<open>The bytes written to the register \<open>P3_PINR_CON\<close> when it reads \<open>pinr_con\<close>.\<close>

definition clr_long_press_reset_timer :: "8 word \<Rightarrow> 8 word list" where
  "clr_long_press_reset_timer pinr_con =
     (if pinr_con AND 1 \<noteq> 0 then [pinr_con AND NOT 1, pinr_con] else [])"

datatype dump_event = Log_info string "word32 list" | P11_reset_source_dump

definition power_reset_source_dump :: "word32 \<Rightarrow> dump_event list" where
  "power_reset_source_dump sfr =
     [Log_info ''--Reset Source : 0x%x'' [sfr]] @
     (if sfr AND BIT 0 \<noteq> 0 then [Log_info ''P11 RESET'' [], P11_reset_source_dump] else []) @
     (if sfr AND BIT 1 \<noteq> 0 then [Log_info ''SYS POR'' []] else []) @
     (if sfr AND BIT 2 \<noteq> 0 then [Log_info ''SYS DVDD'' []] else []) @
     (if sfr AND BIT 5 \<noteq> 0 then [Log_info ''SOFTR'' []] else []) @
     (if sfr AND BIT 6 \<noteq> 0 then [Log_info ''PLPM'' []] else [])"

section \<open>The cache as memory\<close>

text \<open>
  The register writes of \<open>cache_ram_config\<close> behind the sizes: all but one way of each cache are taken
  from it, the tags are cleared and the instruction cache is switched on again.  \<open>ready\<close> are the
  readings of \<open>CACHE_CON\<close>.  The cleared words are listed by address.
\<close>

record cache_regs =
  CACHE_CON :: word32
  DCACHE_WAY :: word32
  ICACHE_WAY :: word32
  cleared :: "nat list"

definition words_from :: "nat \<Rightarrow> nat \<Rightarrow> nat list" where
  "words_from a e = map (\<lambda>k. a + 4 * k) [0..<(e - a) div 4]"

definition free_way :: nat where "free_way = 7"

definition cache_ways_config :: "word32 list \<Rightarrow> cache_regs \<Rightarrow> cache_regs option" where
  "cache_ways_config ready c =
     (case dropWhile (\<lambda>v. v AND BIT 14 = 0) ready of
        [] \<Rightarrow> None
      | v # _ \<Rightarrow> Some
         (c\<lparr>CACHE_CON := (v AND NOT (push_bit 8 3)) OR BIT 8,
            DCACHE_WAY := fold (\<lambda>i w. w OR (BIT (7 - i) OR BIT (15 - i) OR BIT (23 - i)))
                            [0..<8 - free_way] (DCACHE_WAY c AND NOT 0xFFFFFF),
            ICACHE_WAY := fold (\<lambda>i w. w OR (BIT i OR BIT (8 + i)))
                            [0..<8 - free_way] (ICACHE_WAY c AND NOT 0xFFFF),
            cleared := cleared c @ words_from 0x1f00000 0x1f04000 @ words_from 0x1f08000 0x1f0a000 @
              words_from 0x1f0a000 0x1f0a200 @ words_from 0x1f0b000 0x1f0b200\<rparr>))"

end
