(* ===== verification/HwClock_Spec.thy ===== *)
theory HwClock_Spec
  imports HwClock
begin

text \<open>
  The clocks the module answers with, the clock of the tick, waiting, the console and the cache ways.
\<close>

section \<open>Bits of a register\<close>

lemma bits_at_less:
  assumes "m = mask n" "n < 32" shows "unat (bits_at r start m) < 2 ^ n"
proof -
  have "bits_at r start m = take_bit n (drop_bit start r)" by (simp add: bits_at_def assms take_bit_eq_mask)
  hence "unat (bits_at r start m) = take_bit n (unat (drop_bit start r))" by (simp add: unsigned_take_bit_eq)
  thus ?thesis by (simp only: take_bit_nat_less_exp)
qed

lemma bits_2: "unat (bits_at r s 3) < 4"
  using bits_at_less [of 3 2 r s] by (simp add: mask_eq_exp_minus_1)

lemma bits_3: "unat (bits_at r s 7) < 8"
  using bits_at_less [of 7 3 r s] by (simp add: mask_eq_exp_minus_1)

lemma bits_5: "unat (bits_at r s 0x1F) < 32"
  using bits_at_less [of "0x1F" 5 r s] by (simp add: mask_eq_exp_minus_1)

lemma bits_10: "unat (bits_at r s 0x3FF) < 1024"
  using bits_at_less [of "0x3FF" 10 r s] by (simp add: mask_eq_exp_minus_1)

lemma bits_at_0: "bits_at r 0 m = r AND m"
  by (simp add: bits_at_def)

lemma unat_plus:
  fixes a b :: word32
  shows "unat a + unat b < 4294967296 \<Longrightarrow> unat (a + b) = unat a + unat b"
  by (simp add: unat_word_ariths)

lemma unat_times:
  fixes a b :: word32
  shows "unat a * unat b < 4294967296 \<Longrightarrow> unat (a * b) = unat a * unat b"
  by (simp add: unat_word_ariths)

lemma unat_plus1: "unat (bits_at r s m) < 1024 \<Longrightarrow> unat (bits_at r s m + 1) = unat (bits_at r s m) + 1"
  by (subst unat_plus) auto

section \<open>The clocks\<close>

lemma usb_pll3_clk_range: "2 \<le> unat (usb_pll3_clk r) \<and> unat (usb_pll3_clk r) \<le> 1025"
proof -
  have "unat (usb_pll3_clk r) = unat (bits_at (HUSB_COM_CON0 r) 18 0x3FF) + 2"
    using bits_10 [of "HUSB_COM_CON0 r" 18] by (subst usb_pll3_clk_def, subst unat_plus) auto
  with bits_10 [of "HUSB_COM_CON0 r" 18] show ?thesis by linarith
qed

lemma clk_early_init_div:
  "clk_early_init r c = (r', c', out) \<Longrightarrow>
     unat (hsb_clk c') = unat (sys_clk c') div (unat (bits_at (SYS_DIV r) 16 3) + 1) \<and>
     unat (lsb_clk c') = unat (hsb_clk c') div (unat (bits_at (SYS_DIV r) 8 7) + 1) \<and>
     unat (TTMR_PRD r') = unat (sys_clk c') div 100"
proof -
  assume a: "clk_early_init r c = (r', c', out)"
  have h: "unat (bits_at (SYS_DIV r) 16 3 + 1) = unat (bits_at (SYS_DIV r) 16 3) + 1"
    using bits_2 [of "SYS_DIV r" 16] by (intro unat_plus1) linarith
  have l: "unat (bits_at (SYS_DIV r) 8 7 + 1) = unat (bits_at (SYS_DIV r) 8 7) + 1"
    using bits_3 [of "SYS_DIV r" 8] by (intro unat_plus1) linarith
  show ?thesis using a by (auto simp: clk_early_init_def Let_def unat_div h l)
qed

text \<open>The buses never run faster than the core, and the tick timer counts a hundredth of a second.\<close>

lemma clocks_ordered:
  assumes "clk_early_init r c = (r', c', out)"
  shows "lsb_clk c' \<le> hsb_clk c' \<and> hsb_clk c' \<le> sys_clk c' \<and> unat (TTMR_PRD r') = unat (sys_clk c') div 100"
  using clk_early_init_div [OF assms] by (auto simp: word_le_nat_alt intro: div_le_dividend)

lemma clk_get_after_init:
  assumes "clk_early_init r c = (r', c', out)"
  shows "clk_get r' c' ''sys'' = sint (select_sys_clk r (sys_clk c))"
    and "clk_get r' c' ''uart'' = 48000000"
    and "name \<in> {''sd'', ''timer'', ''spi'', ''lsb''} \<Longrightarrow> clk_get r' c' name = sint (lsb_clk c')"
    and "clk_get r' c' ''hsb'' = sint (hsb_clk c')"
    and "clk_get r' c' ''osc'' \<in> {24000000, 40000000}"
  using assms by (auto simp: clk_early_init_def Let_def clk_get_def)

lemma clk_get_unknown:
  "name \<notin> {''sys'', ''sdram'', ''uart'', ''sd'', ''timer'', ''spi'', ''hsb'', ''lsb'', ''osc''} \<Longrightarrow>
   clk_get r c name = -22"
  by (simp add: clk_get_def EINVAL_def)

lemma div1_cases: "clk_div1 ! unat (bits_at r s 3) \<in> {1, 3, 5, 7}"
  using nth_mem [of "unat (bits_at r s 3)" clk_div1] bits_2 [of r s] by (simp add: clk_div1_def)

lemma div2_cases: "clk_div2 ! unat (bits_at r s 3) \<in> {1, 2, 4, 8}"
  using nth_mem [of "unat (bits_at r s 3)" clk_div2] bits_2 [of r s] by (simp add: clk_div2_def)

lemma divided_range:
  fixes x d e :: word32
  assumes "107000000 \<le> unat x" "unat x \<le> 480000000" "d \<in> {1, 3, 5, 7}" "e \<in> {1, 2, 4, 8}"
  shows "1910714 \<le> unat (x div d div e) \<and> unat (x div d div e) \<le> 480000000"
proof -
  have e: "unat (x div d div e) = unat x div (unat d * unat e)" by (simp add: unat_div div_mult2_eq)
  have "unat d * unat e \<le> 56" "1 \<le> unat d * unat e" using assms(3,4) by auto
  hence "unat x div 56 \<le> unat x div (unat d * unat e)" by (intro div_le_mono2) auto
  moreover have "1910714 \<le> unat x div 56" using assms(1) by linarith
  moreover have "unat x div (unat d * unat e) \<le> unat x" by simp
  ultimately show ?thesis using assms(2) e by linarith
qed

text \<open>With a fixed source the core clock is at least 107 MHz over the largest divider 56, and positive
  as the signed answer of \<open>clk_get\<close>.\<close>

lemma fixed_sys_clk:
  assumes "CLK_CON2 r AND 0xF \<le> 4"
  shows "1910714 \<le> unat (select_sys_clk r old) \<and> unat (select_sys_clk r old) \<le> 480000000"
proof -
  let ?x = "(if CLK_CON2 r AND 0xF = 4 then 107000000 else if CLK_CON2 r AND 0xF = 3 then 480000000
    else if CLK_CON2 r AND 0xF = 2 then 320000000 else if CLK_CON2 r AND 0xF = 1 then 137000000
    else 192000000) :: word32"
  have "select_sys_clk r old =
      ?x div clk_div1 ! unat (bits_at (CLK_CON2 r) 4 3) div clk_div2 ! unat (bits_at (CLK_CON2 r) 6 3)"
    using assms by (simp only: select_sys_clk_def Let_def if_True)
  moreover have "107000000 \<le> unat ?x" "unat ?x \<le> 480000000" by simp_all
  ultimately show ?thesis using div1_cases div2_cases by (simp only: divided_range)
qed

text \<open>The product for the second PLL is exact as long as it fits; it wraps for the largest settings.\<close>

lemma pll2_clk_exact:
  assumes "freq = (if bits_at (PLL_CON0 r) 26 3 = 2 then 40000000 else 24000000 :: nat)"
    and "q = freq div (unat (bits_at (PLL2_CON0 r) 2 0x1F) + 2)"
    and "ds = unat (PLL2_CON1 r AND 0xFFF) + 2" and "q * ds < 4294967296"
  shows "unat (pll2_clk r) = q * ds"
proof -
  have r: "unat (bits_at (PLL2_CON0 r) 2 0x1F + 2) = unat (bits_at (PLL2_CON0 r) 2 0x1F) + 2"
    using bits_5 [of "PLL2_CON0 r" 2] by (subst unat_plus) (linarith | simp)+
  have "unat (PLL2_CON1 r AND 0xFFF) < 2 ^ 12"
    using bits_at_less [of "0xFFF" 12 "PLL2_CON1 r" 0] by (simp add: bits_at_0 mask_eq_exp_minus_1)
  hence d: "unat ((PLL2_CON1 r AND 0xFFF) + 2) = ds" using assms(3) by (subst unat_plus) auto
  have f: "unat ((if bits_at (PLL_CON0 r) 26 3 = 2 then 40 else 24) * 1000000 :: word32) = freq"
    using assms(1) by simp
  have "unat ((if bits_at (PLL_CON0 r) 26 3 = 2 then 40 else 24) * 1000000 div
      (bits_at (PLL2_CON0 r) 2 0x1F + 2)) = q"
    using assms(2) by (simp only: unat_div f r)
  with d assms(4) show ?thesis by (simp add: pll2_clk_def Let_def unat_times)
qed

section \<open>Time\<close>

lemma timer_get_ms_plus: "timer_get_ms (j + k) = timer_get_ms j + 10 * k"
  by (simp add: timer_get_ms_def jiffies_to_msecs_def algebra_simps)

text \<open>A lapse is measured exactly, over the wrap of the counter too.\<close>

lemma time_lapse_exact:
  assumes "timer_get_ms j \<noteq> 0" "10 * unat k < 4294967296"
  shows "time_lapse (j + k) (timer_get_ms j) t =
    (if unat t < 10 * unat k then (10 * k, timer_get_ms (j + k)) else (0, timer_get_ms j))"
proof -
  have "unat (10 * k) = 10 * unat k" using assms(2) by (subst unat_times) auto
  thus ?thesis using assms(1) by (simp add: time_lapse_def Let_def timer_get_ms_plus word_less_nat_alt)
qed

text \<open>A handle taken at the millisecond zero counts as not taken: the lapse starts over.\<close>

lemma time_lapse_restarts:
  "timer_get_ms j = 0 \<Longrightarrow> time_lapse (j + k) (snd (time_lapse j 0 t)) t = (0, timer_get_ms (j + k))"
  by (simp add: time_lapse_def)

text \<open>Where \<open>time_t\<close> holds every \<open>unsigned int\<close>, seconds and microseconds are those of the tick time.\<close>

lemma gettimeofday_splits:
  assumes "gettimeofday uint j True tz = (r, Some (s, us), z)"
  shows "0 \<le> us \<and> us < 1000000 \<and> s * 1000 + us div 1000 = uint (timer_get_ms j) \<and> s = uint (timer_get_sec j)"
proof -
  let ?t = "uint (timer_get_ms j)"
  have q: "x sdiv 1000 = x div 1000 \<and> x smod 1000 = x mod 1000" if "0 \<le> x" for x :: int
    using that by (cases "x = 0") (simp_all add: signed_divide_int_def signed_modulo_int_def)
  have "s = ?t div 1000" "us = ?t mod 1000 * 1000"
    using assms q [of ?t] by (auto simp: gettimeofday_def Let_def)
  moreover have "0 \<le> ?t mod 1000" "?t mod 1000 < 1000" by simp_all
  moreover have "uint (timer_get_sec j) = ?t div 1000"
    by (simp add: timer_get_sec_def timer_get_ms_def uint_div)
  ultimately show ?thesis by simp
qed

section \<open>Waiting\<close>

lemma spin_counts: "spin us n = n + unat us"
proof (induction us n rule: spin.induct)
  case (1 us n)
  show ?case
  proof (cases "us = 0")
    case False
    hence "unat us = Suc (unat (us - 1))" by (simp add: unat_minus_one) (metis Suc_pred unat_gt_0)
    with False 1 show ?thesis by (simp add: spin.simps [of us])
  qed (simp add: spin.simps)
qed

lemma delay_counts: "delay t = unat t"
  by (simp only: delay_def spin_counts add_0)

lemma sint_small:
  assumes "unat (x::word32) < 2147483648" shows "sint x = int (unat x)"
proof -
  have u: "uint x = int (unat x)" by simp
  hence "- 2147483648 \<le> uint x" "uint x < 2147483648" using assms by linarith+
  hence "sint x = uint x" by (simp add: sint_uint signed_take_bit_int_eq_self_iff)
  with u show ?thesis by (simp only:)
qed

text \<open>The wait is \<open>us\<close> times the number of loop turns of a microsecond, as long as that fits 32 bits.\<close>

lemma delay_us_counts:
  assumes "unat (sys_clk c) < 2147483648"
    and "k = unat (sys_clk c) div 1000000 div (if sfc AND BIT 0 \<noteq> 0 then 8 else 4)"
    and "unat us * k < 4294967296"
  shows "delay_us sfc r c us = unat us * k"
proof -
  let ?d = "if sfc AND BIT 0 \<noteq> 0 then 8 else 4 :: nat"
  let ?e = "if sfc AND BIT 0 \<noteq> 0 then 8 else 4 :: int"
  have s: "clk_get r c ''sys'' = int (unat (sys_clk c))"
    using assms(1) by (simp add: clk_get_def sint_small)
  have "(int (unat (sys_clk c)) sdiv 1000000) sdiv ?e = int k"
    using assms(2) by (auto simp: signed_divide_int_def zdiv_int sgn_if)
  moreover have "k < 4294967296" using assms(1,2) by (auto simp: div_less_dividend split: if_splits)
  ultimately have "unat (word_of_int ((int (unat (sys_clk c)) sdiv 1000000) sdiv ?e) :: word32) = k"
    by (simp add: unat_of_nat)
  thus ?thesis using assms(3) by (simp add: delay_us_def spin_counts s unat_times)
qed

section \<open>The console\<close>

fun console_text :: "char list \<Rightarrow> char list" where
  "console_text [] = []"
| "console_text (a # s) =
     (if a = CR then console_text s else if a = LF then CR # LF # console_text s else a # console_text s)"

lemma bit_stays: "x AND BIT 0 \<noteq> 0 \<Longrightarrow> (x OR BIT 13) AND BIT 0 \<noteq> 0"
  by (simp add: BIT_def bit.conj_disj_distrib2 bit.conj_disj_distrib)

lemma putbyte_on:
  assumes "CON0 u AND BIT 0 \<noteq> 0" "length (console_text [a]) \<le> length (busy u)"
  shows "\<exists>v. putbyte a u = Some v \<and> CON0 v AND BIT 0 \<noteq> 0 \<and> sent v = sent u @ console_text [a] \<and>
    busy v = drop (if a = CR then 0 else if a = LF then 2 else 1) (busy u)"
proof (cases "a = CR \<or> busy u = []")
  case True
  with assms show ?thesis by (auto simp: putbyte_def split: if_splits)
next
  case False
  then obtain n rest where b: "busy u = n # rest" by (cases "busy u") auto
  have "CR \<noteq> LF" by (simp add: CR_def LF_def)
  with False b assms show ?thesis
    by (auto simp: putbyte_def uart_put_def bit_stays split: list.splits)
qed

text \<open>Once switched on and never stuck, the console shows the text with each line end as CR LF.\<close>

lemma putbytes_text:
  "\<lbrakk>CON0 u AND BIT 0 \<noteq> 0; length (console_text s) \<le> length (busy u)\<rbrakk> \<Longrightarrow>
   \<exists>u'. putbytes s u = Some u' \<and> sent u' = sent u @ console_text s \<and>
     busy u' = drop (length (console_text s)) (busy u)"
proof (induction s arbitrary: u)
  case (Cons a s)
  let ?n = "if a = CR then 0 else if a = LF then 2 else 1 :: nat"
  have n: "length (console_text (a # s)) = ?n + length (console_text s)" by simp
  have l: "length (console_text [a]) = ?n" by simp
  obtain v where v: "putbyte a u = Some v" "CON0 v AND BIT 0 \<noteq> 0"
    "sent v = sent u @ console_text [a]" "busy v = drop ?n (busy u)"
    using putbyte_on [OF Cons.prems(1), of a] Cons.prems(2) n by (auto simp del: console_text.simps simp: l)
  have "length (console_text s) \<le> length (busy v)" using Cons.prems(2) n v(4) by simp
  from Cons.IH [OF v(2) this] show ?case using v n by (auto simp: add.commute)
qed simp

lemma console_off: "CON0 u AND BIT 0 = 0 \<Longrightarrow> putbytes s u = Some u"
  by (induction s) (simp_all add: putbyte_def)

text \<open>Of the two ways to divide the clock the baud rate takes the one with the smaller remainder.\<close>

lemma uart_set_baud_nearest:
  assumes "n = unat clk_get_uart div unat baud" "3 \<le> n" "u' = uart_set_baud baud u"
    and "k = (if CON0 u' AND BIT 4 = 0 then 4 else 3)"
  shows "n - k * (unat (BAUD u') + 1) = min (n mod 4) (n mod 3) \<and> k * (unat (BAUD u') + 1) \<le> n"
proof -
  let ?w = "clk_get_uart div baud"
  have n: "unat ?w = n" using assms(1) by (simp add: unat_div)
  have c: "(?w mod 4 < ?w mod 3) = (n mod 4 < n mod 3)" by (simp add: word_less_nat_alt unat_mod n)
  have b4: "((x AND NOT (BIT 4)) OR BIT 0) AND BIT 4 = 0" for x
    by (simp add: BIT_def bit.conj_disj_distrib2 and.assoc)
  have b3: "((x OR BIT 4) OR BIT 0) AND BIT 4 \<noteq> 0" for x
    by (simp add: BIT_def bit.conj_disj_distrib2 or.assoc and.assoc)
  show ?thesis
  proof (cases "n mod 4 < n mod 3")
    case True
    hence "4 \<le> n" using assms(2) by (cases "n = 3") auto
    hence "unat (?w div 4 - 1) = n div 4 - 1" by (subst unat_sub) (auto simp: word_le_nat_alt unat_div n simp flip: assms(1))
    with True \<open>4 \<le> n\<close> c show ?thesis
      using assms(3,4) by (simp add: uart_set_baud_def Let_def b4 minus_mult_div_eq_mod)
  next
    case False
    hence "unat (?w div 3 - 1) = n div 3 - 1" using assms(2)
      by (subst unat_sub) (auto simp: word_le_nat_alt unat_div n simp flip: assms(1))
    with False assms(2) c show ?thesis
      using assms(3,4) by (simp add: uart_set_baud_def Let_def b3 minus_mult_div_eq_mod)
  qed
qed

section \<open>Reset pin and cache ways\<close>

text \<open>The pin register ends with the value it had: the timer is switched off and on again.\<close>

lemma long_press_restored:
  "w = clr_long_press_reset_timer p \<Longrightarrow> w \<noteq> [] \<Longrightarrow> last w = p \<and> hd w AND 1 = 0 \<and> length w = 2"
proof -
  have "(p AND NOT 1) AND 1 = 0" by (simp add: and.assoc)
  thus "w = clr_long_press_reset_timer p \<Longrightarrow> w \<noteq> [] \<Longrightarrow> ?thesis"
    by (auto simp: clr_long_press_reset_timer_def split: if_splits)
qed

lemma cache_ways_left:
  assumes "cache_ways_config ready c = Some c'"
  shows "DCACHE_WAY c' = (DCACHE_WAY c AND NOT 0xFFFFFF) OR 0x808080 \<and>
         ICACHE_WAY c' = (ICACHE_WAY c AND NOT 0xFFFF) OR 0x101"
  using assms by (auto simp: cache_ways_config_def free_way_def BIT_def or.assoc split: list.splits)

text \<open>The tags that are cleared lie below the memory that is taken from the cache.\<close>

lemma cleared_apart:
  assumes "cache_ways_config ready c = Some c'" "cleared c = []" "a \<in> set (cleared c')"
  shows "a + 4 \<le> 0x1f20000 + (8 - free_way) * 4096"
  using assms by (auto simp: cache_ways_config_def words_from_def free_way_def split: list.splits)

lemma cache_ways_waits:
  "(\<forall>v\<in>set ready. v AND BIT 14 = 0) \<longleftrightarrow> cache_ways_config ready c = None"
  proof -
  have "(\<forall>v\<in>set ready. v AND BIT 14 = 0) \<longleftrightarrow> dropWhile (\<lambda>v. v AND BIT 14 = 0) ready = []"
    by (simp add: dropWhile_eq_Nil_conv)
  thus ?thesis
    by (cases "dropWhile (\<lambda>v. v AND BIT 14 = 0) ready") (auto simp: cache_ways_config_def simp del: dropWhile_eq_Nil_conv)
qed

end
