(* ===== verification/HwDebug.thy ===== *)
theory HwDebug
  imports HwClock
begin

unbundle bit_operations_syntax

text \<open>
  The debug unit of the chip (\<open>cpu/wl82/debug.c\<close>): eight windows that the processors may not write,
  the ranges of the program counter, and the handler of its exceptions.

  \<open>wr_limit_h\<close> and \<open>wr_limit_l\<close> are the arrays the macros lay over the registers \<open>WR_LIMIT0_H\<close> to
  \<open>WR_LIMIT7_H\<close> and \<open>WR_LIMIT0_L\<close> to \<open>WR_LIMIT7_L\<close>.  What \<open>DBG_WR_EN\<close> reads after the key has been
  written is the parameter \<open>key\<close>; by the comments of the code writing the key opens a closed unit and
  closes an open one (\<open>key_toggles\<close>).  The field \<open>blind\<close> is not in the program: it counts the writes to
  limit registers made while the unit was closed.
\<close>

section \<open>The unit\<close>

record debug_unit =
  debug_index :: "8 word"            \<comment> \<open>the static variable of the file\<close>
  DBG_WR_EN :: word32
  DBG_MSG_CLR :: word32
  wr_limit_h :: "nat \<Rightarrow> word32"
  wr_limit_l :: "nat \<Rightarrow> word32"
  WR_ALLOW_ID0 :: word32
  C0_WR_LIMIT_EN :: word32
  C1_WR_LIMIT_EN :: word32
  PRP_WR_LIMIT_EN :: word32
  PRP_WR_ALLOW_EN :: word32
  PRP_OUTLIM_ERR_EN :: word32
  PC_LIMIT0_H :: word32
  PC_LIMIT0_L :: word32
  PC_LIMIT1_H :: word32
  PC_LIMIT1_L :: word32
  DBG_EN :: word32
  DBG_CON :: word32
  SDR_DBG_INFO :: word32
  JL_DBG_CON :: word32
  EMU_MSG0 :: word32
  EMU_MSG1 :: word32
  EMU_CON0 :: word32
  EMU_CON1 :: word32
  blind :: nat

definition key_toggles :: "(word32 \<Rightarrow> word32) \<Rightarrow> bool" where
  "key_toggles key \<longleftrightarrow> (\<forall>v. bit (key v) 0 = (\<not> bit v 0))"

definition opened :: "debug_unit \<Rightarrow> bool" where "opened u \<longleftrightarrow> DBG_WR_EN u AND BIT 0 \<noteq> 0"

definition limit_write :: "(debug_unit \<Rightarrow> debug_unit) \<Rightarrow> debug_unit \<Rightarrow> debug_unit" where
  "limit_write f u = f (if opened u then u else u\<lparr>blind := blind u + 1\<rparr>)"

definition debug_enter_critical :: "(word32 \<Rightarrow> word32) \<Rightarrow> debug_unit \<Rightarrow> debug_unit" where
  "debug_enter_critical key u = (if opened u then u else u\<lparr>DBG_WR_EN := key (DBG_WR_EN u)\<rparr>)"

definition debug_exit_critical :: "(word32 \<Rightarrow> word32) \<Rightarrow> debug_unit \<Rightarrow> debug_unit" where
  "debug_exit_critical key u = (if opened u then u\<lparr>DBG_WR_EN := key (DBG_WR_EN u)\<rparr> else u)"

definition debug_index_bit :: "debug_unit \<Rightarrow> nat \<Rightarrow> bool" where
  "debug_index_bit u i \<longleftrightarrow> debug_index u AND push_bit i 1 \<noteq> 0"

fun free_index :: "debug_unit \<Rightarrow> nat list \<Rightarrow> int" where
  "free_index u [] = -1"
| "free_index u (i # is') = (if \<not> debug_index_bit u i then int i else free_index u is')"

definition get_debug_index :: "debug_unit \<Rightarrow> int" where
  "get_debug_index u = free_index u [0..<8]"

definition clear_messages :: "debug_unit \<Rightarrow> debug_unit" where
  "clear_messages = limit_write (\<lambda>u. u\<lparr>DBG_MSG_CLR := 0xffffffff\<rparr>)"

section \<open>Windows\<close>

definition take_window :: "nat \<Rightarrow> word32 \<Rightarrow> word32 \<Rightarrow> debug_unit \<Rightarrow> debug_unit" where
  "take_window i low high u0 =
     (let u1 = clear_messages (u0\<lparr>debug_index := debug_index u0 OR push_bit i 1\<rparr>);
          u2 = limit_write (\<lambda>u. u\<lparr>wr_limit_h := (wr_limit_h u)(i := high)\<rparr>) u1;
          u3 = limit_write (\<lambda>u. u\<lparr>wr_limit_l := (wr_limit_l u)(i := low)\<rparr>) u2;
          u4 = limit_write (\<lambda>u. u\<lparr>C0_WR_LIMIT_EN := C0_WR_LIMIT_EN u OR BIT i\<rparr>) u3
      in limit_write (\<lambda>u. u\<lparr>C1_WR_LIMIT_EN := C1_WR_LIMIT_EN u OR BIT i\<rparr>) u4)"

definition cpu_write_range_limit ::
  "(word32 \<Rightarrow> word32) \<Rightarrow> word32 \<Rightarrow> word32 \<Rightarrow> debug_unit \<Rightarrow> int \<times> debug_unit" where
  "cpu_write_range_limit key low_addr win_size u =
     (let high_addr = low_addr + win_size - 1; i = get_debug_index u
      in if i = -1 then (-1, u)
         else (0, debug_exit_critical key
                    (take_window (nat i) low_addr high_addr (debug_enter_critical key u))))"

definition drop_window :: "word32 \<Rightarrow> nat \<Rightarrow> debug_unit \<Rightarrow> debug_unit" where
  "drop_window low_addr i u0 =
     (if wr_limit_l u0 i = low_addr then
        let u1 = limit_write (\<lambda>u. u\<lparr>wr_limit_h := (wr_limit_h u)(i := 0)\<rparr>) u0;
            u2 = limit_write (\<lambda>u. u\<lparr>wr_limit_l := (wr_limit_l u)(i := 0)\<rparr>) u1;
            u3 = u2\<lparr>debug_index := debug_index u2 AND NOT (push_bit i 1)\<rparr>;
            u4 = limit_write (\<lambda>u. u\<lparr>C0_WR_LIMIT_EN := C0_WR_LIMIT_EN u AND NOT (BIT i)\<rparr>) u3
        in limit_write (\<lambda>u. u\<lparr>C1_WR_LIMIT_EN := C1_WR_LIMIT_EN u AND NOT (BIT i)\<rparr>) u4
      else u0)"

definition cpu_write_range_unlimit :: "(word32 \<Rightarrow> word32) \<Rightarrow> word32 \<Rightarrow> debug_unit \<Rightarrow> debug_unit" where
  "cpu_write_range_unlimit key low_addr u =
     debug_exit_critical key
       (fold (drop_window low_addr) [0..<8] (clear_messages (debug_enter_critical key u)))"

text \<open>The window of the peripherals always is the first one.\<close>

definition all_dev_range_limit ::
  "(word32 \<Rightarrow> word32) \<Rightarrow> word32 \<Rightarrow> word32 \<Rightarrow> debug_unit \<Rightarrow> debug_unit" where
  "all_dev_range_limit key addr len u =
     (let limit_index = 0;
          u1 = debug_enter_critical key u;
          u2 = limit_write (\<lambda>u. u\<lparr>PRP_WR_LIMIT_EN := PRP_WR_LIMIT_EN u AND NOT (BIT limit_index)\<rparr>) u1;
          u3 = clear_messages u2;
          u4 = u3\<lparr>debug_index := debug_index u3 OR push_bit limit_index 1\<rparr>;
          u5 = limit_write (\<lambda>u. u\<lparr>wr_limit_l := (wr_limit_l u)(0 := addr)\<rparr>) u4;
          u6 = limit_write (\<lambda>u. u\<lparr>wr_limit_h := (wr_limit_h u)(0 := addr + len)\<rparr>) u5;
          u7 = limit_write (\<lambda>u. u\<lparr>WR_ALLOW_ID0 := 0\<rparr>) u6;
          u8 = limit_write (\<lambda>u. u\<lparr>PRP_WR_LIMIT_EN := BIT limit_index\<rparr>) u7
      in debug_exit_critical key u8)"

definition all_dev_range_unlimit :: "(word32 \<Rightarrow> word32) \<Rightarrow> word32 \<Rightarrow> debug_unit \<Rightarrow> debug_unit" where
  "all_dev_range_unlimit key addr u =
     (let u1 = clear_messages (debug_enter_critical key u);
          u2 = limit_write (\<lambda>u. u\<lparr>wr_limit_l := (wr_limit_l u)(0 := 0)\<rparr>) u1;
          u3 = limit_write (\<lambda>u. u\<lparr>wr_limit_h := (wr_limit_h u)(0 := 0)\<rparr>) u2;
          u4 = limit_write (\<lambda>u. u\<lparr>WR_ALLOW_ID0 := 0\<rparr>) u3;
          u5 = limit_write (\<lambda>u. u\<lparr>PRP_WR_LIMIT_EN := 0\<rparr>) u4
      in debug_exit_critical key u5)"

section \<open>Ranges of the program counter\<close>

definition pc0_rang_limit :: "word32 \<Rightarrow> word32 \<Rightarrow> debug_unit \<Rightarrow> debug_unit" where
  "pc0_rang_limit low_addr high_addr u =
     limit_write (\<lambda>u. u\<lparr>PC_LIMIT0_L := low_addr\<rparr>)
       (limit_write (\<lambda>u. u\<lparr>PC_LIMIT0_H := high_addr\<rparr>) (clear_messages u))"

definition pc_rang_limit0 :: "word32 \<Rightarrow> word32 \<Rightarrow> debug_unit \<Rightarrow> debug_unit" where
  "pc_rang_limit0 low_addr high_addr u = pc0_rang_limit low_addr high_addr u"

definition pc1_rang_limit :: "word32 \<Rightarrow> word32 \<Rightarrow> debug_unit \<Rightarrow> debug_unit" where
  "pc1_rang_limit low_addr high_addr u =
     limit_write (\<lambda>u. u\<lparr>PC_LIMIT1_L := low_addr\<rparr>)
       (limit_write (\<lambda>u. u\<lparr>PC_LIMIT1_H := high_addr\<rparr>) (clear_messages u))"

definition pc_rang_limit ::
  "(word32 \<Rightarrow> word32) \<Rightarrow> word32 \<Rightarrow> word32 \<Rightarrow> word32 \<Rightarrow> word32 \<Rightarrow> debug_unit \<Rightarrow> debug_unit" where
  "pc_rang_limit key low0 high0 low1 high1 u =
     (let u1 = debug_enter_critical key u;
          u2 = (if low0 \<noteq> 0 \<and> high0 \<noteq> 0 then pc0_rang_limit low0 high0 u1 else u1);
          u3 = (if low1 \<noteq> 0 \<and> high1 \<noteq> 0 then pc1_rang_limit low1 high1 u2 else u2)
      in debug_exit_critical key u3)"

definition ram_protect_close :: "(word32 \<Rightarrow> word32) \<Rightarrow> debug_unit \<Rightarrow> debug_unit" where
  "ram_protect_close key u =
     debug_exit_critical key (pc_rang_limit0 0 0x1ffffff (debug_enter_critical key u))"

section \<open>Clearing and starting\<close>

definition debug_clear :: "(word32 \<Rightarrow> word32) \<Rightarrow> debug_unit \<Rightarrow> debug_unit" where
  "debug_clear key u =
     (let u1 = (debug_enter_critical key u)\<lparr>SDR_DBG_INFO := 0, JL_DBG_CON := 0\<rparr>;
          u2 = limit_write (\<lambda>u. u\<lparr>DBG_CON := 0\<rparr>) u1;
          u3 = limit_write (\<lambda>u. u\<lparr>DBG_EN := 0\<rparr>) u2;
          u4 = limit_write (\<lambda>u. u\<lparr>C0_WR_LIMIT_EN := 0\<rparr>) u3;
          u5 = limit_write (\<lambda>u. u\<lparr>C1_WR_LIMIT_EN := 0\<rparr>) u4;
          u6 = limit_write (\<lambda>u. u\<lparr>PRP_WR_LIMIT_EN := 0\<rparr>) u5;
          u7 = limit_write (\<lambda>u. u\<lparr>PRP_WR_ALLOW_EN := 0\<rparr>) u6;
          u8 = limit_write (\<lambda>u. u\<lparr>PRP_OUTLIM_ERR_EN := 0\<rparr>) u7;
          u9 = (clear_messages u8)\<lparr>EMU_MSG0 := - 1, EMU_MSG1 := - 1, debug_index := 0\<rparr>
      in debug_exit_critical key u9)"

definition debug_msg_clear :: "(word32 \<Rightarrow> word32) \<Rightarrow> debug_unit \<Rightarrow> debug_unit" where
  "debug_msg_clear key u =
     (let u1 = debug_enter_critical key u;
          u2 = u1\<lparr>JL_DBG_CON := JL_DBG_CON u1 OR BIT 6, SDR_DBG_INFO := SDR_DBG_INFO u1 OR BIT 11\<rparr>;
          u3 = limit_write (\<lambda>u. u\<lparr>DBG_CON := DBG_CON u OR (BIT 17 OR BIT 18)\<rparr>) u2
      in debug_exit_critical key (clear_messages u3))"

definition debug_init :: "(word32 \<Rightarrow> word32) \<Rightarrow> debug_unit \<Rightarrow> debug_unit" where
  "debug_init key u =
     (let u1 = debug_enter_critical key (debug_clear key u);
          u2 = limit_write (\<lambda>u. u\<lparr>DBG_EN := DBG_EN u OR push_bit 16 0x3f\<rparr>) u1;
          u3 = limit_write (\<lambda>u. u\<lparr>DBG_EN := DBG_EN u OR push_bit 4 0x3\<rparr>) u2;
          u4 = limit_write (\<lambda>u. u\<lparr>DBG_CON := 0x7\<rparr>) u3
      in debug_exit_critical key (u4\<lparr>EMU_CON0 := 0, EMU_CON1 := 0\<rparr>))"

section \<open>Exceptions\<close>

text \<open>Printed lines are a format and its numbers.\<close>

definition exception_analyze :: "word32 list \<Rightarrow> (string \<times> word32 list) list" where
  "exception_analyze sp =
     [(''===========exception==========='', [])] @
     map (\<lambda>r. (''R%d: %x'', [of_nat r, sp ! r])) [0..<16] @
     [(''icfg: %x'', [sp ! 21]), (''psr:  %x'', [sp ! 20]), (''rets: 0x%x'', [sp ! 19]),
      (''reti: 0x%x'', [sp ! 16]), (''usp : %x, ssp : %x sp: %x'', [sp ! 22, sp ! 23, sp ! 24])]"

datatype exc_event =
  Cmd_pause word32
| C0_con word32
| Print string "word32 list"
| P33_system_reset

text \<open>The registers \<open>rets\<close> and \<open>reti\<close> of the processor, \<open>C0_CON\<close> and what the unit reports.\<close>

record exc_state =
  rets :: word32
  reti :: word32
  C0_CON :: word32
  C1_CON :: word32
  PCRS :: word32
  DBG_MSG :: word32
  EMU_MSG :: word32
  ETM_PC :: "word32 list"     \<comment> \<open>\<open>ETM_PC0\<close> to \<open>ETM_PC3\<close>\<close>

definition exception_isr_handler :: "exc_state \<Rightarrow> exc_event list" where
  "exception_isr_handler s =
     (let c = C0_CON s AND NOT (BIT 3); c' = c OR BIT 1
      in [Cmd_pause (- 1), C0_con c, C0_con c',
          Print ''CPU0 run addr = 0x%x'' [PCRS s],
          Print ''DEBUG_MSG = 0x%x, EMU_MSG = 0x%x C1_CON=%x'' [DBG_MSG s, EMU_MSG s, C1_CON s],
          Print ''RETS=0x%x'' [rets s], Print ''RETI=0x%x'' [reti s],
          Print ''CPU:0x%x -> 0x%x -> 0x%x -> 0x%x''
            [ETM_PC s ! 3, ETM_PC s ! 2, ETM_PC s ! 1, ETM_PC s ! 0],
          P33_system_reset])"

end
