(* ===== verification/HwDebug_Spec.thy ===== *)
theory HwDebug_Spec
  imports HwDebug HwClock_Spec
begin

text \<open>
  The windows of the debug unit against eight slots of which each is free or holds the bounds of a
  window; what the window of the peripherals does to them; writes outside a critical section.
\<close>

section \<open>Opening and closing\<close>

lemma and_one_bit: "(w AND 1 \<noteq> 0) = bit (w :: word32) 0"
  using and_exp_eq_0_iff_not_bit [of w 0] by simp

lemma opened_bit: "opened u = bit (DBG_WR_EN u) 0"
  by (simp add: opened_def BIT_def and_one_bit)

lemma debug_index_bit: "i < 8 \<Longrightarrow> debug_index_bit u i = bit (debug_index u) i"
  by (simp add: debug_index_bit_def and_exp_eq_0_iff_not_bit)

lemma enter_opens: "key_toggles key \<Longrightarrow> \<not> opened u \<Longrightarrow>
    debug_enter_critical key u = u\<lparr>DBG_WR_EN := key (DBG_WR_EN u)\<rparr> \<and> opened (debug_enter_critical key u)"
  by (auto simp: debug_enter_critical_def opened_bit key_toggles_def)

lemma exit_closes: "key_toggles key \<Longrightarrow> opened u \<Longrightarrow>
    debug_exit_critical key u = u\<lparr>DBG_WR_EN := key (DBG_WR_EN u)\<rparr> \<and> \<not> opened (debug_exit_critical key u)"
  by (auto simp: debug_exit_critical_def opened_bit key_toggles_def)

lemma limit_write_opened: "opened u \<Longrightarrow> limit_write f u = f u"
  by (simp add: limit_write_def)

lemma opened_cong: "DBG_WR_EN u = DBG_WR_EN v \<Longrightarrow> opened u = opened v"
  by (simp add: opened_def)

section \<open>Slots\<close>

type_synonym window = "word32 \<times> word32"

definition windows :: "debug_unit \<Rightarrow> window option list" where
  "windows u = map (\<lambda>i. if bit (C0_WR_LIMIT_EN u) i then Some (wr_limit_l u i, wr_limit_h u i) else None) [0..<8]"

definition slots_agree :: "debug_unit \<Rightarrow> bool" where
  "slots_agree u \<longleftrightarrow>
     (\<forall>i<8. bit (debug_index u) i = bit (C0_WR_LIMIT_EN u) i \<and>
            bit (C1_WR_LIMIT_EN u) i = bit (C0_WR_LIMIT_EN u) i)"

datatype guard_op = Guard word32 word32 | Unguard word32

fun guard_step :: "(word32 \<Rightarrow> word32) \<Rightarrow> guard_op \<Rightarrow> debug_unit \<Rightarrow> int \<times> debug_unit" where
  "guard_step key (Guard low n) u = cpu_write_range_limit key low n u"
| "guard_step key (Unguard low) u = (0, cpu_write_range_unlimit key low u)"

fun guard_run :: "(word32 \<Rightarrow> word32) \<Rightarrow> guard_op list \<Rightarrow> debug_unit \<Rightarrow> int list \<times> debug_unit" where
  "guard_run key [] u = ([], u)"
| "guard_run key (p # ps) u =
     (let (r, u1) = guard_step key p u; (rs, u2) = guard_run key ps u1 in (r # rs, u2))"

text \<open>The contract: the first free slot takes the window, a window is given up by its first address.\<close>

fun slot_step :: "guard_op \<Rightarrow> window option list \<Rightarrow> int \<times> window option list" where
  "slot_step (Guard low n) ws =
     (case List.find (\<lambda>i. ws ! i = None) [0..<length ws] of
        None \<Rightarrow> (-1, ws)
      | Some i \<Rightarrow> (0, ws[i := Some (low, low + n - 1)]))"
| "slot_step (Unguard low) ws =
     (0, map (\<lambda>w. case w of None \<Rightarrow> None | Some (l, h) \<Rightarrow> if l = low then None else Some (l, h)) ws)"

fun slot_run :: "guard_op list \<Rightarrow> window option list \<Rightarrow> int list \<times> window option list" where
  "slot_run [] ws = ([], ws)"
| "slot_run (p # ps) ws =
     (let (r, ws1) = slot_step p ws; (rs, ws2) = slot_run ps ws1 in (r # rs, ws2))"

section \<open>Taking a window\<close>

lemma free_index_find:
  "free_index u is' = (case List.find (\<lambda>i. \<not> debug_index_bit u i) is' of None \<Rightarrow> -1 | Some i \<Rightarrow> int i)"
  by (induction is') auto

lemma find_cong': "(\<And>i. i \<in> set xs \<Longrightarrow> P i = Q i) \<Longrightarrow> List.find P xs = List.find Q xs"
  by (induction xs) auto

lemma windows_nth [simp]: "i < 8 \<Longrightarrow> windows u ! i =
    (if bit (C0_WR_LIMIT_EN u) i then Some (wr_limit_l u i, wr_limit_h u i) else None)"
  by (simp add: windows_def)

lemma length_windows [simp]: "length (windows u) = 8"
  by (simp add: windows_def)

lemma first_free_slot:
  assumes "slots_agree u"
  shows "get_debug_index u =
    (case List.find (\<lambda>i. windows u ! i = None) [0..<8] of None \<Rightarrow> -1 | Some i \<Rightarrow> int i)"
proof -
  have "List.find (\<lambda>i. \<not> debug_index_bit u i) [0..<8] = List.find (\<lambda>i. windows u ! i = None) [0..<8]"
    using assms by (intro find_cong') (simp add: debug_index_bit slots_agree_def)
  thus ?thesis by (simp add: get_debug_index_def free_index_find)
qed

lemma take_window_effect:
  assumes "opened u"
  shows "take_window i low high u = u\<lparr>debug_index := debug_index u OR push_bit i 1, DBG_MSG_CLR := 0xffffffff,
    wr_limit_h := (wr_limit_h u)(i := high), wr_limit_l := (wr_limit_l u)(i := low),
    C0_WR_LIMIT_EN := C0_WR_LIMIT_EN u OR BIT i, C1_WR_LIMIT_EN := C1_WR_LIMIT_EN u OR BIT i\<rparr>"
  using assms by (simp add: take_window_def Let_def clear_messages_def limit_write_def opened_def)

lemma bit_or_BIT: "bit (w OR BIT i) j = (bit w j \<or> (j = i \<and> i < 32))"
  by (auto simp: BIT_def bit_or_iff bit_exp_iff)

lemma bit_or_8: "bit ((w :: 8 word) OR 2 ^ i) j = (bit w j \<or> (j = i \<and> i < 8))"
  by (auto simp: bit_or_iff bit_exp_iff)

lemma take_window_slots:
  assumes "opened u" "i < 8" "slots_agree u" "v = take_window i low high u"
  shows "windows v = (windows u)[i := Some (low, high)] \<and> slots_agree v \<and> opened v \<and> blind v = blind u"
proof (intro conjI)
  show "windows v = (windows u)[i := Some (low, high)]"
    using assms by (intro nth_equalityI) (auto simp: take_window_effect bit_or_BIT nth_list_update)
  show "slots_agree v"
    using assms by (auto simp: slots_agree_def take_window_effect bit_or_BIT bit_or_8)
qed (use assms in \<open>auto simp: take_window_effect opened_def\<close>)

section \<open>Giving windows up\<close>

lemma drop_window_effect:
  assumes "opened u"
  shows "drop_window low i u = (if wr_limit_l u i = low then
     u\<lparr>debug_index := debug_index u AND NOT (push_bit i 1), wr_limit_h := (wr_limit_h u)(i := 0),
       wr_limit_l := (wr_limit_l u)(i := 0), C0_WR_LIMIT_EN := C0_WR_LIMIT_EN u AND NOT (BIT i),
       C1_WR_LIMIT_EN := C1_WR_LIMIT_EN u AND NOT (BIT i)\<rparr> else u)"
  using assms by (simp add: drop_window_def Let_def limit_write_def opened_def)

lemma bit_and_not_BIT: "i < 32 \<Longrightarrow> bit (w AND NOT (BIT i)) j = (bit w j \<and> j \<noteq> i)"
  by (auto simp: BIT_def bit_and_iff bit_not_iff bit_exp_iff dest: bit_imp_le_length)

lemma bit_and_not_8: "i < 8 \<Longrightarrow> bit ((w :: 8 word) AND NOT (2 ^ i)) j = (bit w j \<and> j \<noteq> i)"
  by (auto simp: bit_and_iff bit_not_iff bit_exp_iff dest: bit_imp_le_length)

text \<open>What the loop over the slots leaves of each of them.\<close>

definition slot_dropped :: "bool \<Rightarrow> nat \<Rightarrow> debug_unit \<Rightarrow> debug_unit \<Rightarrow> bool" where
  "slot_dropped hit i u v \<longleftrightarrow>
     bit (C0_WR_LIMIT_EN v) i = (bit (C0_WR_LIMIT_EN u) i \<and> \<not> hit) \<and>
     bit (C1_WR_LIMIT_EN v) i = (bit (C1_WR_LIMIT_EN u) i \<and> \<not> hit) \<and>
     bit (debug_index v) i = (bit (debug_index u) i \<and> \<not> hit) \<and>
     (hit \<or> wr_limit_l v i = wr_limit_l u i \<and> wr_limit_h v i = wr_limit_h u i)"

definition dropped :: "word32 \<Rightarrow> nat list \<Rightarrow> debug_unit \<Rightarrow> debug_unit \<Rightarrow> bool" where
  "dropped low is' u v \<longleftrightarrow>
     DBG_WR_EN v = DBG_WR_EN u \<and> blind v = blind u \<and>
     (\<forall>i<8. slot_dropped (i \<in> set is' \<and> wr_limit_l u i = low) i u v)"

lemma drop_window_one: "opened u \<Longrightarrow> i < 8 \<Longrightarrow> dropped low [i] u (drop_window low i u)"
  by (auto simp: dropped_def slot_dropped_def drop_window_effect bit_and_not_BIT bit_and_not_8)

lemma slot_dropped_trans:
  "slot_dropped h i u v \<Longrightarrow> slot_dropped k i v w \<Longrightarrow> slot_dropped (h \<or> k) i u w"
  by (auto simp: slot_dropped_def)

lemma slot_dropped_kept: "slot_dropped False i u v \<Longrightarrow> wr_limit_l v i = wr_limit_l u i"
  by (simp add: slot_dropped_def)

lemma dropped_step:
  assumes "dropped low [j] u v" "dropped low is' v w" "j \<notin> set is'"
  shows "dropped low (j # is') u w"
proof -
  have "slot_dropped (i \<in> set (j # is') \<and> wr_limit_l u i = low) i u w" if i: "i < 8" for i
  proof -
    have a: "slot_dropped (i = j \<and> wr_limit_l u i = low) i u v"
      and b: "slot_dropped (i \<in> set is' \<and> wr_limit_l v i = low) i v w"
      using assms(1,2) i by (simp_all add: dropped_def)
    have k: "wr_limit_l v i = wr_limit_l u i" if "i \<noteq> j" using a that slot_dropped_kept by auto
    have "(i \<in> set (j # is') \<and> wr_limit_l u i = low) =
      (i = j \<and> wr_limit_l u i = low \<or> i \<in> set is' \<and> wr_limit_l v i = low)" using k assms(3) by (cases "i = j") auto
    with slot_dropped_trans [OF a b] show ?thesis by (simp only:)
  qed
  thus ?thesis using assms(1,2) by (simp add: dropped_def)
qed

lemma drop_windows:
  "\<lbrakk>opened u; distinct is'; \<forall>i\<in>set is'. i < 8\<rbrakk> \<Longrightarrow> dropped low is' u (fold (drop_window low) is' u)"
proof (induction is' arbitrary: u)
  case Nil
  show ?case by (simp add: dropped_def slot_dropped_def)
next
  case (Cons i is')
  let ?v = "drop_window low i u"
  have v: "dropped low [i] u ?v" using Cons.prems by (intro drop_window_one) auto
  hence "opened ?v" using Cons.prems(1) by (simp add: dropped_def opened_def)
  with Cons have "dropped low is' ?v (fold (drop_window low) is' ?v)" by simp
  with v Cons.prems(2) show ?case by (auto intro: dropped_step)
qed

lemma dropped_slots:
  assumes "dropped low [0..<8] u v" "slots_agree u"
  shows "windows v = snd (slot_step (Unguard low) (windows u)) \<and> slots_agree v"
proof
  show "windows v = snd (slot_step (Unguard low) (windows u))"
    using assms(1) by (intro nth_equalityI) (auto simp: dropped_def slot_dropped_def)
  show "slots_agree v" using assms by (auto simp: dropped_def slot_dropped_def slots_agree_def)
qed

section \<open>The operations\<close>

definition unit_ok :: "debug_unit \<Rightarrow> bool" where "unit_ok u \<longleftrightarrow> slots_agree u \<and> \<not> opened u"

lemma wr_en_slots [simp]:
  "windows (u\<lparr>DBG_WR_EN := x\<rparr>) = windows u" "slots_agree (u\<lparr>DBG_WR_EN := x\<rparr>) = slots_agree u"
  by (simp_all add: windows_def slots_agree_def)

lemma msg_clr_slots [simp]:
  "windows (u\<lparr>DBG_MSG_CLR := x\<rparr>) = windows u" "slots_agree (u\<lparr>DBG_MSG_CLR := x\<rparr>) = slots_agree u"
  "opened (u\<lparr>DBG_MSG_CLR := x\<rparr>) = opened u"
  by (simp_all add: windows_def slots_agree_def opened_def)

lemma exit_slots:
  assumes "key_toggles key" "opened u" "v = debug_exit_critical key u"
  shows "windows v = windows u \<and> slots_agree v = slots_agree u \<and> \<not> opened v \<and> blind v = blind u"
proof -
  from exit_closes [OF assms(1,2)] assms(3) have "v = u\<lparr>DBG_WR_EN := key (DBG_WR_EN u)\<rparr>" "\<not> opened v" by auto
  thus ?thesis by auto
qed

lemma guard_slots:
  assumes k: "key_toggles key" and ok: "unit_ok u" and g: "cpu_write_range_limit key low n u = (r, v)"
  shows "(r, windows v) = slot_step (Guard low n) (windows u) \<and> unit_ok v \<and> blind v = blind u"
proof (cases "List.find (\<lambda>i. windows u ! i = None) [0..<8]")
  case None
  with g ok show ?thesis by (auto simp: cpu_write_range_limit_def Let_def first_free_slot unit_ok_def)
next
  case (Some i)
  hence i: "i < 8" by (auto simp: find_Some_iff)
  let ?o = "debug_enter_critical key u"
  have o: "opened ?o" "slots_agree ?o" "windows ?o = windows u" "blind ?o = blind u"
    using enter_opens [OF k, of u] ok by (auto simp: unit_ok_def)
  let ?t = "take_window i low (low + n - 1) ?o"
  have t: "windows ?t = (windows u)[i := Some (low, low + n - 1)]" "slots_agree ?t" "opened ?t" "blind ?t = blind u"
    using take_window_slots [OF o(1) i o(2) refl] o by auto
  have "(r, v) = (0, debug_exit_critical key ?t)"
    using g Some ok by (simp add: cpu_write_range_limit_def Let_def first_free_slot unit_ok_def)
  with exit_slots [OF k t(3), of v] t Some show ?thesis by (simp add: unit_ok_def)
qed

lemma unguard_slots:
  assumes k: "key_toggles key" and ok: "unit_ok u" and v: "v = cpu_write_range_unlimit key low u"
  shows "windows v = snd (slot_step (Unguard low) (windows u)) \<and> unit_ok v \<and> blind v = blind u"
proof -
  let ?o = "debug_enter_critical key u" let ?c = "clear_messages ?o"
  have o: "opened ?o" "slots_agree ?o" "windows ?o = windows u" "blind ?o = blind u"
    using enter_opens [OF k, of u] ok by (auto simp: unit_ok_def)
  have c: "opened ?c" "slots_agree ?c" "windows ?c = windows u" "blind ?c = blind u"
    using o by (simp_all add: clear_messages_def limit_write_opened)
  let ?d = "fold (drop_window low) [0..<8] ?c"
  have d: "dropped low [0..<8] ?c ?d" using c(1) by (intro drop_windows) auto
  hence e: "opened ?d" "blind ?d = blind u" using c by (simp_all add: dropped_def opened_def)
  from dropped_slots [OF d c(2)] exit_slots [OF k e(1), of v] e v c(3) show ?thesis
    by (simp add: cpu_write_range_unlimit_def unit_ok_def)
qed

lemma debug_init_ok:
  assumes "key_toggles key" "\<not> opened u" "v = debug_init key u"
  shows "unit_ok v \<and> windows v = replicate 8 None \<and> blind v = blind u"
proof -
  have b: "bit (DBG_WR_EN u) 0 = False" using assms(2) by (simp add: opened_bit)
  have t: "bit (key w) 0 = (\<not> bit w 0)" for w using assms(1) by (simp add: key_toggles_def)
  have m: "map (\<lambda>i. None) [0..<8] = replicate 8 None" by (simp add: map_replicate_const)
  show ?thesis using assms(3) b t
    by (simp add: debug_init_def debug_clear_def Let_def clear_messages_def limit_write_def opened_bit
        debug_enter_critical_def debug_exit_critical_def unit_ok_def slots_agree_def windows_def m)
qed

lemma guard_run_slots:
  "\<lbrakk>key_toggles key; unit_ok u; guard_run key ps u = (rs, v)\<rbrakk> \<Longrightarrow>
   (rs, windows v) = slot_run ps (windows u) \<and> unit_ok v \<and> blind v = blind u"
proof (induction ps arbitrary: u rs v)
  case (Cons p ps)
  obtain r u1 where s: "guard_step key p u = (r, u1)" by fastforce
  have "(r, windows u1) = slot_step p (windows u) \<and> unit_ok u1 \<and> blind u1 = blind u"
  proof (cases p)
    case (Guard low n)
    with s guard_slots [OF Cons.prems(1,2)] show ?thesis by simp
  next
    case (Unguard low)
    with s unguard_slots [OF Cons.prems(1,2) refl, of low] show ?thesis by auto
  qed
  moreover obtain rs' u2 where g: "guard_run key ps u1 = (rs', u2)" by fastforce
  ultimately have "(rs', windows u2) = slot_run ps (windows u1) \<and> unit_ok u2 \<and> blind u2 = blind u"
    using Cons.IH [OF Cons.prems(1)] by metis
  with Cons.prems(3) s g \<open>(r, windows u1) = slot_step p (windows u) \<and> unit_ok u1 \<and> blind u1 = blind u\<close>
  show ?case by (auto simp: Let_def split: prod.splits)
qed simp

text \<open>C40: From the initialisation on, every sequence of guarding and releasing answers and leaves the
  windows as the contract of eight slots says: a window is refused exactly when all eight are taken, no
  window displaces another, and releasing an address releases every window that begins there.  Both
  processors and the index of the file agree on what is taken, the unit is closed after every call and
  no limit register is written while it is closed.\<close>

theorem write_windows_exact:
  assumes "key_toggles key" "\<not> opened u0" "guard_run key ps (debug_init key u0) = (rs, u)"
  shows "(rs, windows u) = slot_run ps (replicate 8 None) \<and> slots_agree u \<and> \<not> opened u \<and> blind u = blind u0"
proof -
  note i = debug_init_ok [OF assms(1,2) refl]
  from guard_run_slots [OF assms(1) _ assms(3)] i show ?thesis by (auto simp: unit_ok_def)
qed

theorem write_windows_exact_witness:
  "\<exists>u0 rs u. guard_run NOT [Guard 16 4, Unguard 16, Unguard 3] (debug_init NOT u0) = (rs, u) \<and>
     rs = [0, 0, 0] \<and> windows u = replicate 8 None \<and> \<not> opened u"
proof -
  define z :: debug_unit where "z = \<lparr>debug_index = 5, DBG_WR_EN = 0, DBG_MSG_CLR = 0, wr_limit_h = (\<lambda>_. 7),
    wr_limit_l = (\<lambda>_. 3), WR_ALLOW_ID0 = 0, C0_WR_LIMIT_EN = 1, C1_WR_LIMIT_EN = 4, PRP_WR_LIMIT_EN = 0,
    PRP_WR_ALLOW_EN = 0, PRP_OUTLIM_ERR_EN = 0, PC_LIMIT0_H = 0, PC_LIMIT0_L = 0, PC_LIMIT1_H = 0,
    PC_LIMIT1_L = 0, DBG_EN = 0, DBG_CON = 0, SDR_DBG_INFO = 0, JL_DBG_CON = 0, EMU_MSG0 = 0, EMU_MSG1 = 0,
    EMU_CON0 = 0, EMU_CON1 = 0, blind = 0\<rparr>"
  have k: "key_toggles NOT" by (simp add: key_toggles_def bit_not_iff)
  have c: "\<not> opened z" by (simp add: z_def opened_def)
  obtain rs u where g: "guard_run NOT [Guard 16 4, Unguard 16, Unguard 3] (debug_init NOT z) = (rs, u)" by fastforce
  have s: "slot_run [Guard 16 4, Unguard 16, Unguard 3] (replicate 8 None) = ([0, 0, 0], replicate 8 None)"
    by (simp add: eval_nat_numeral upt_rec)
  from write_windows_exact [OF k c g] g s show ?thesis by auto
qed

section \<open>The other users of the registers\<close>

text \<open>Limiting the peripherals does not look for a free slot: a window in the first slot gets the new
  bounds for the processors as well.\<close>

lemma dev_limit_displaces:
  assumes "key_toggles key" "\<not> opened u" "bit (C0_WR_LIMIT_EN u) 0"
  shows "windows (all_dev_range_limit key a n u) ! 0 = Some (a, a + n)"
proof -
  let ?o = "debug_enter_critical key u"
  have o: "opened ?o" "C0_WR_LIMIT_EN ?o = C0_WR_LIMIT_EN u" using enter_opens [OF assms(1,2)] by auto
  let ?x = "all_dev_range_limit key a n u"
  have "C0_WR_LIMIT_EN ?x = C0_WR_LIMIT_EN u \<and> wr_limit_l ?x 0 = a \<and> wr_limit_h ?x 0 = a + n"
    using o(1) unfolding all_dev_range_limit_def Let_def clear_messages_def limit_write_def debug_exit_critical_def opened_def
    by (simp add: o(2))
  thus ?thesis using assms(3) by simp
qed

text \<open>Releasing the peripherals does not free the slot that limiting them took.\<close>

lemma dev_unlimit_keeps_slot:
  assumes "key_toggles key" "\<not> opened u"
  shows "bit (debug_index (all_dev_range_unlimit key b (all_dev_range_limit key a n u))) 0"
proof -
  have t: "bit (key w) 0 = (\<not> bit w 0)" for w using assms(1) by (simp add: key_toggles_def)
  show ?thesis using assms(2) t
    by (simp add: all_dev_range_unlimit_def all_dev_range_limit_def Let_def clear_messages_def limit_write_def
        opened_bit debug_enter_critical_def debug_exit_critical_def bit_or_iff)
qed

text \<open>Called by itself \<open>pc_rang_limit0\<close> writes a closed unit; from \<open>pc_rang_limit\<close> it does not.\<close>

lemma pc_range_blind: "\<not> opened u \<Longrightarrow> blind (pc_rang_limit0 low high u) = blind u + 3"
  by (simp add: pc_rang_limit0_def pc0_rang_limit_def clear_messages_def limit_write_def opened_def)

lemma pc_range_guarded:
  assumes "key_toggles key" "\<not> opened u"
  shows "blind (pc_rang_limit key l0 h0 l1 h1 u) = blind u"
proof -
  have t: "bit (key w) 0 = (\<not> bit w 0)" for w using assms(1) by (simp add: key_toggles_def)
  show ?thesis using assms(2) t
    by (simp add: pc_rang_limit_def pc0_rang_limit_def pc1_rang_limit_def Let_def clear_messages_def limit_write_def
        opened_bit debug_enter_critical_def debug_exit_critical_def)
qed

lemma ram_protect_close_opens_all:
  assumes "key_toggles key" "\<not> opened u" "v = ram_protect_close key u"
  shows "PC_LIMIT0_L v = 0 \<and> PC_LIMIT0_H v = 0x1ffffff \<and> blind v = blind u \<and> \<not> opened v"
proof -
  have t: "bit (key w) 0 = (\<not> bit w 0)" for w using assms(1) by (simp add: key_toggles_def)
  show ?thesis using assms(2,3) t
    by (simp add: ram_protect_close_def pc_rang_limit0_def pc0_rang_limit_def clear_messages_def limit_write_def
        opened_bit debug_enter_critical_def debug_exit_critical_def)
qed

text \<open>The handler of exceptions ends in a reset, whatever it reads.\<close>

lemma exception_resets: "last (exception_isr_handler s) = P33_system_reset"
  by (simp add: exception_isr_handler_def Let_def)

end
