(* ===== verification/ByteOrder.thy ===== *)
theory ByteOrder
  imports "HOL-Library.Word"
begin

unbundle bit_operations_syntax

text \<open>
  Byte order: the swaps of \<open>demo_wifi/weak.c\<close> with the macros of \<open>net/utils/endian.h\<close> they expand, and
  the conversions of the little-endian half of that header.  A swap is shown to put every byte where
  its mirror image was, so converting to the order of the network and back is the identity.
\<close>

section \<open>The swaps\<close>

definition SWAP16 :: "16 word \<Rightarrow> 16 word" where
  "SWAP16 x = push_bit 8 (x AND 0x00FF) OR drop_bit 8 (x AND 0xFF00)"

definition SWAP32 :: "32 word \<Rightarrow> 32 word" where
  "SWAP32 x = push_bit 24 (x AND 0x000000FF) OR push_bit 8 (x AND 0x0000FF00) OR
     drop_bit 8 (x AND 0x00FF0000) OR drop_bit 24 (x AND 0xFF000000)"

definition SWAP64 :: "64 word \<Rightarrow> 64 word" where
  "SWAP64 x = push_bit 56 (x AND 0x00000000000000FF) OR push_bit 40 (x AND 0x000000000000FF00) OR
     push_bit 24 (x AND 0x0000000000FF0000) OR push_bit 8 (x AND 0x00000000FF000000) OR
     drop_bit 8 (x AND 0x000000FF00000000) OR drop_bit 24 (x AND 0x0000FF0000000000) OR
     drop_bit 40 (x AND 0x00FF000000000000) OR drop_bit 56 (x AND 0xFF00000000000000)"

definition swap16 :: "16 word \<Rightarrow> 16 word" where "swap16 value = SWAP16 value"
definition swap32 :: "32 word \<Rightarrow> 32 word" where "swap32 value = SWAP32 value"
definition swap64 :: "64 word \<Rightarrow> 64 word" where "swap64 value = SWAP64 value"

definition htons :: "16 word \<Rightarrow> 16 word" where "htons value = swap16 value"
definition ntohs :: "16 word \<Rightarrow> 16 word" where "ntohs value = swap16 value"
definition htonl :: "32 word \<Rightarrow> 32 word" where "htonl value = swap32 value"
definition NTOHL :: "32 word \<Rightarrow> 32 word" where "NTOHL value = SWAP32 value"
definition htole32 :: "32 word \<Rightarrow> 32 word" where "htole32 value = value"
definition letoh32 :: "32 word \<Rightarrow> 32 word" where "letoh32 value = value"
definition htobe64 :: "64 word \<Rightarrow> 64 word" where "htobe64 value = swap64 value"
definition betoh64 :: "64 word \<Rightarrow> 64 word" where "betoh64 value = swap64 value"

section \<open>Where each bit goes\<close>

lemma mask8_at:
  "(0xFF00 :: 16 word) = push_bit 8 (mask 8)" "(0xFF :: 16 word) = push_bit 0 (mask 8)"
  "(0xFF :: 32 word) = push_bit 0 (mask 8)" "(0xFF00 :: 32 word) = push_bit 8 (mask 8)"
  "(0xFF0000 :: 32 word) = push_bit 16 (mask 8)" "(0xFF000000 :: 32 word) = push_bit 24 (mask 8)"
  "(0xFF :: 64 word) = push_bit 0 (mask 8)" "(0xFF00 :: 64 word) = push_bit 8 (mask 8)"
  "(0xFF0000 :: 64 word) = push_bit 16 (mask 8)" "(0xFF000000 :: 64 word) = push_bit 24 (mask 8)"
  "(0xFF00000000 :: 64 word) = push_bit 32 (mask 8)" "(0xFF0000000000 :: 64 word) = push_bit 40 (mask 8)"
  "(0xFF000000000000 :: 64 word) = push_bit 48 (mask 8)"
  "(0xFF00000000000000 :: 64 word) = push_bit 56 (mask 8)"
  by (simp_all add: mask_eq_exp_minus_1 push_bit_eq_mult)

lemma bit_byte_up:
  fixes x :: "'a :: len word"
  assumes "m = push_bit s (mask 8)"
  shows "bit (push_bit n (x AND m)) i = (i < LENGTH('a) \<and> n + s \<le> i \<and> i < n + s + 8 \<and> bit x (i - n))"
  unfolding assms by (auto simp: bit_push_bit_iff bit_and_iff bit_mask_iff dest: bit_imp_le_length)

lemma bit_byte_down:
  fixes x :: "'a :: len word"
  assumes "m = push_bit k (mask 8)"
  shows "bit (drop_bit n (x AND m)) i = (k \<le> i + n \<and> i + n < k + 8 \<and> bit x (i + n))"
  unfolding assms
  by (auto simp: bit_drop_bit_eq bit_push_bit_iff bit_and_iff bit_mask_iff add.commute dest: bit_imp_le_length)

lemma byte_and_bit: obtains q r where "i = 8 * q + r" "r < (8 :: nat)"
  using that [of "i div 8" "i mod 8"] by simp

lemma bit_SWAP16: "bit (SWAP16 x) i = (i < 16 \<and> bit x (8 * (1 - i div 8) + i mod 8))"
proof -
  obtain q r where i: "i = 8 * q + r" "r < 8" by (rule byte_and_bit)
  hence d: "i div 8 = q" "i mod 8 = r" by simp_all
  have "q = 0 \<or> q = 1 \<or> 2 \<le> q" by auto
  thus ?thesis using i(2)
    unfolding SWAP16_def bit_or_iff bit_byte_up [OF mask8_at(2)] bit_byte_down [OF mask8_at(1)] d
    unfolding i(1)
    by (elim disjE) (auto simp: add.commute)
qed

lemma bit_SWAP32: "bit (SWAP32 x) i = (i < 32 \<and> bit x (8 * (3 - i div 8) + i mod 8))"
proof -
  obtain q r where i: "i = 8 * q + r" "r < 8" by (rule byte_and_bit)
  hence d: "i div 8 = q" "i mod 8 = r" by simp_all
  have "q = 0 \<or> q = 1 \<or> q = 2 \<or> q = 3 \<or> 4 \<le> q" by auto
  thus ?thesis using i(2)
    unfolding SWAP32_def bit_or_iff bit_byte_up [OF mask8_at(3)] bit_byte_up [OF mask8_at(4)]
      bit_byte_down [OF mask8_at(5)] bit_byte_down [OF mask8_at(6)] d
    unfolding i(1)
    by (elim disjE) (auto simp: add.commute)
qed

lemma bit_SWAP64: "bit (SWAP64 x) i = (i < 64 \<and> bit x (8 * (7 - i div 8) + i mod 8))"
proof -
  obtain q r where i: "i = 8 * q + r" "r < 8" by (rule byte_and_bit)
  hence d: "i div 8 = q" "i mod 8 = r" by simp_all
  have "q = 0 \<or> q = 1 \<or> q = 2 \<or> q = 3 \<or> q = 4 \<or> q = 5 \<or> q = 6 \<or> q = 7 \<or> 8 \<le> q" by auto
  thus ?thesis using i(2)
    unfolding SWAP64_def bit_or_iff bit_byte_up [OF mask8_at(7)] bit_byte_up [OF mask8_at(8)]
      bit_byte_up [OF mask8_at(9)] bit_byte_up [OF mask8_at(10)] bit_byte_down [OF mask8_at(11)]
      bit_byte_down [OF mask8_at(12)] bit_byte_down [OF mask8_at(13)] bit_byte_down [OF mask8_at(14)] d
    unfolding i(1)
    by (elim disjE) (auto simp: add.commute)
qed

section \<open>Round trips\<close>

lemma mirror_twice:
  assumes "i < 8 * Suc n" "j = 8 * (n - i div 8) + i mod 8"
  shows "j < 8 * Suc n \<and> 8 * (n - j div 8) + j mod 8 = i"
proof -
  obtain q r where i: "i = 8 * q + r" "r < 8" by (rule byte_and_bit)
  have "8 * q < 8 * Suc n" using assms(1) i by linarith
  hence "q \<le> n" by simp
  have j: "j = 8 * (n - q) + r" using assms(2) i by simp
  hence "j div 8 = n - q" "j mod 8 = r" using i(2) by simp_all
  with i j \<open>q \<le> n\<close> show ?thesis by auto
qed

lemma swap16_twice: "swap16 (swap16 x) = x"
  using mirror_twice [of _ 1] by (intro bit_eqI) (simp add: swap16_def bit_SWAP16)

lemma swap32_twice: "swap32 (swap32 x) = x"
  using mirror_twice [of _ 3] by (intro bit_eqI) (simp add: swap32_def bit_SWAP32)

lemma swap64_twice: "swap64 (swap64 x) = x"
  using mirror_twice [of _ 7] by (intro bit_eqI) (simp add: swap64_def bit_SWAP64)

text \<open>Function and macro forms agree, and host and network order convert back and forth.\<close>

lemma network_order: "ntohs (htons x) = x" "htons (ntohs x) = x" "NTOHL (htonl y) = y" "htonl (NTOHL y) = y"
  using swap16_twice swap32_twice by (simp_all add: ntohs_def htons_def NTOHL_def htonl_def swap32_def)

lemma big_endian_64: "betoh64 (htobe64 z) = z"
  by (simp add: betoh64_def htobe64_def swap64_twice)

text \<open>The bytes of a number, lowest first, are turned around.\<close>

definition byte_at :: "'a :: len word \<Rightarrow> nat \<Rightarrow> 'a word" where
  "byte_at x k = take_bit 8 (drop_bit (8 * k) x)"

lemma swap32_bytes:
  assumes k: "k < 4" shows "byte_at (swap32 x) k = byte_at x (3 - k)"
proof (rule bit_eqI)
  fix i
  show "bit (byte_at (swap32 x) k) i = bit (byte_at x (3 - k)) i"
  proof (cases "i < 8")
    case True
    hence "(i + 8 * k) div 8 = k" "(i + 8 * k) mod 8 = i" "i + 8 * k < 32" using k by simp_all
    with True show ?thesis
      by (simp add: byte_at_def bit_take_bit_iff bit_drop_bit_eq swap32_def bit_SWAP32 add.commute)
  qed (simp add: byte_at_def bit_take_bit_iff)
qed

end
